(* ===== verification/Prelude.thy ===== *)
theory Prelude
  imports Complex_Main "HOL-Library.AList"
begin

text \<open>
  What every component shares: the result type of a Python call that may raise, the
  insertion-ordered dictionary, and the collections of rules the component proofs use.

  A call that raises is a value of the sum type \<open>'e + 'a\<close>: \<open>Inl\<close> holds the exception,
  \<open>Inr\<close> the returned value. \<open>bind_r\<close> is sequencing: the first exception stops the body.

  A \<open>dict\<close> keyed by strings is an association list with distinct keys, in insertion order,
  which is what Python guarantees: an assignment to a present key keeps its place, a new key
  goes to the end (\<open>AList.update\<close>), \<open>pop\<close> removes the key (\<open>AList.delete\<close>). The order matters:
  \<open>Portfolio.equity\<close> sums rounded products in it.
\<close>

named_theorems result_simps "evaluation of calls that may raise"
named_theorems dict_simps "lookup after dictionary operations"

type_synonym ('e, 'a) result = "'e + 'a"
type_synonym 'v dict = "(string \<times> 'v) list"
type_synonym ts = int

definition bind_r :: "'e + 'a \<Rightarrow> ('a \<Rightarrow> 'e + 'b) \<Rightarrow> 'e + 'b" where
  "bind_r r f = (case r of Inl e \<Rightarrow> Inl e | Inr x \<Rightarrow> f x)"

definition guard_r :: "bool \<Rightarrow> 'e \<Rightarrow> 'e + unit" where
  "guard_r ok e = (if ok then Inr () else Inl e)"

fun map_r :: "('a \<Rightarrow> 'e + 'b) \<Rightarrow> 'a list \<Rightarrow> 'e + 'b list" where
  "map_r f [] = Inr []"
| "map_r f (x # xs) = bind_r (f x) (\<lambda>y. bind_r (map_r f xs) (\<lambda>ys. Inr (y # ys)))"

text \<open>A \<open>for\<close> loop whose body may raise.\<close>

fun for_r :: "('x \<Rightarrow> 's \<Rightarrow> 'e + 's) \<Rightarrow> 'x list \<Rightarrow> 's \<Rightarrow> 'e + 's" where
  "for_r f [] s = Inr s"
| "for_r f (x # xs) s = bind_r (f x s) (for_r f xs)"

definition is_ok :: "'e + 'a \<Rightarrow> bool" where
  "is_ok r = (case r of Inl _ \<Rightarrow> False | Inr _ \<Rightarrow> True)"

definition dict_get :: "'v dict \<Rightarrow> string \<Rightarrow> 'v option" where
  "dict_get d k = map_of d k"

definition dict_set :: "string \<Rightarrow> 'v \<Rightarrow> 'v dict \<Rightarrow> 'v dict" where
  "dict_set k v d = AList.update k v d"

definition dict_pop :: "string \<Rightarrow> 'v dict \<Rightarrow> 'v dict" where
  "dict_pop k d = AList.delete k d"

definition dict_keys :: "'v dict \<Rightarrow> string list" where
  "dict_keys d = map fst d"

definition dict_values :: "'v dict \<Rightarrow> 'v list" where
  "dict_values d = map snd d"

definition dict_ok :: "'v dict \<Rightarrow> bool" where
  "dict_ok d = distinct (dict_keys d)"

definition dict_setdefault :: "string \<Rightarrow> 'v \<Rightarrow> 'v dict \<Rightarrow> 'v dict" where
  "dict_setdefault k v d = (case dict_get d k of None \<Rightarrow> dict_set k v d | Some _ \<Rightarrow> d)"

definition dict_get_or :: "'v dict \<Rightarrow> string \<Rightarrow> 'v \<Rightarrow> 'v" where
  "dict_get_or d k v = (case dict_get d k of None \<Rightarrow> v | Some w \<Rightarrow> w)"

text \<open>\<open>sorted(...)\<close> of strings is by code point.\<close>

fun str_le :: "string \<Rightarrow> string \<Rightarrow> bool" where
  "str_le [] ys = True"
| "str_le (x # xs) [] = False"
| "str_le (x # xs) (y # ys) =
     (of_char x < (of_char y :: nat) \<or> x = y \<and> str_le xs ys)"

fun str_insert :: "string \<Rightarrow> string list \<Rightarrow> string list" where
  "str_insert x [] = [x]"
| "str_insert x (y # ys) = (if str_le x y then x # y # ys else y # str_insert x ys)"

definition str_sort :: "string list \<Rightarrow> string list" where
  "str_sort xs = foldr str_insert xs []"

text \<open>\<open>upper\<close>, \<open>strip\<close> and \<open>str.join\<close> on ASCII text, which is what symbols and names are.\<close>

definition chr_upper :: "char \<Rightarrow> char" where
  "chr_upper c = (let n = of_char c :: nat in if 97 \<le> n \<and> n \<le> 122 then char_of (n - 32) else c)"

definition str_upper :: "string \<Rightarrow> string" where
  "str_upper = map chr_upper"

definition chr_space :: "char \<Rightarrow> bool" where
  "chr_space c = (let n = of_char c :: nat in n = 32 \<or> 9 \<le> n \<and> n \<le> 13 \<or> 28 \<le> n \<and> n \<le> 31)"

definition str_strip :: "string \<Rightarrow> string" where
  "str_strip s = rev (dropWhile chr_space (rev (dropWhile chr_space s)))"

fun str_join :: "string \<Rightarrow> string list \<Rightarrow> string" where
  "str_join sep [] = []"
| "str_join sep [x] = x"
| "str_join sep (x # y # xs) = x @ sep @ str_join sep (y # xs)"

lemma bind_r_Inl [simp, result_simps]: "bind_r (Inl e) f = Inl e"
  by (simp add: bind_r_def)

lemma bind_r_Inr [simp, result_simps]: "bind_r (Inr x) f = f x"
  by (simp add: bind_r_def)

lemma bind_r_eq_Inr: "bind_r r f = Inr y \<longleftrightarrow> (\<exists>x. r = Inr x \<and> f x = Inr y)"
  by (cases r) auto

lemma bind_r_eq_Inl: "bind_r r f = Inl e \<longleftrightarrow> r = Inl e \<or> (\<exists>x. r = Inr x \<and> f x = Inl e)"
  by (cases r) auto

lemma guard_r_True [simp]: "guard_r True e = Inr ()"
  by (simp add: guard_r_def)

lemma guard_r_False [simp]: "guard_r False e = Inl e"
  by (simp add: guard_r_def)

lemma guard_r_Inr [simp]: "guard_r b e = Inr u \<longleftrightarrow> b"
  by (cases u) (simp add: guard_r_def)

lemma guard_r_Inl [simp]: "guard_r b e = Inl e' \<longleftrightarrow> \<not> b \<and> e' = e"
  by (auto simp: guard_r_def)

lemma is_ok_simps [simp]: "\<not> is_ok (Inl e)" "is_ok (Inr x)"
  by (simp_all add: is_ok_def)

lemma dict_get_Nil [simp, dict_simps]: "dict_get [] k = None"
  by (simp add: dict_get_def)

lemma dict_get_Cons [dict_simps]:
  "dict_get ((a, v) # d) k = (if k = a then Some v else dict_get d k)"
  by (simp add: dict_get_def)

lemma dict_get_set [simp, dict_simps]:
  "dict_get (dict_set k v d) k' = (if k' = k then Some v else dict_get d k')"
  by (simp add: dict_get_def dict_set_def update_conv')

lemma dict_get_pop [simp, dict_simps]:
  "dict_get (dict_pop k d) k' = (if k' = k then None else dict_get d k')"
  by (simp add: dict_get_def dict_pop_def delete_conv')

lemma dict_get_setdefault [simp, dict_simps]:
  "dict_get (dict_setdefault k v d) k' =
     (if k' = k then Some (dict_get_or d k v) else dict_get d k')"
  by (auto simp: dict_setdefault_def dict_get_or_def split: option.splits)

lemma dict_ok_Nil [simp]: "dict_ok []"
  by (simp add: dict_ok_def dict_keys_def)

lemma dict_ok_set [simp]: "dict_ok d \<Longrightarrow> dict_ok (dict_set k v d)"
  by (simp add: dict_ok_def dict_keys_def dict_set_def distinct_update)

lemma dict_ok_pop [simp]: "dict_ok d \<Longrightarrow> dict_ok (dict_pop k d)"
  by (simp add: dict_ok_def dict_keys_def dict_pop_def distinct_delete)

lemma dict_ok_setdefault [simp]: "dict_ok d \<Longrightarrow> dict_ok (dict_setdefault k v d)"
  by (simp add: dict_setdefault_def split: option.split)

lemma dict_get_mem: "dict_get d k = Some v \<Longrightarrow> (k, v) \<in> set d"
  by (simp add: dict_get_def map_of_SomeD)

lemma dict_mem_get: "dict_ok d \<Longrightarrow> (k, v) \<in> set d \<Longrightarrow> dict_get d k = Some v"
  by (simp add: dict_get_def dict_ok_def dict_keys_def)

lemma dict_keys_get: "k \<in> set (dict_keys d) \<longleftrightarrow> dict_get d k \<noteq> None"
  by (induction d) (auto simp: dict_keys_def dict_get_Cons)

lemma dict_keys_set [simp]: "set (dict_keys (dict_set k v d)) = insert k (set (dict_keys d))"
  by (auto simp: dict_keys_get split: if_splits)

lemma for_r_append: "for_r f (xs @ ys) s = bind_r (for_r f xs s) (for_r f ys)"
  by (induction xs arbitrary: s) (auto simp: bind_r_def split: sum.split)

text \<open>An invariant of the body is one of the loop; what two bodies keep in step stays in step.\<close>

lemma for_r_invariant:
  "for_r f xs s = Inr s' \<Longrightarrow> I s \<Longrightarrow> (\<And>x a b. x \<in> set xs \<Longrightarrow> f x a = Inr b \<Longrightarrow> I a \<Longrightarrow> I b) \<Longrightarrow> I s'"
proof (induction xs arbitrary: s)
  case (Cons x xs)
  then obtain a where a: "f x s = Inr a" "for_r f xs a = Inr s'" by (auto simp: bind_r_eq_Inr)
  show ?case by (rule Cons.IH [OF a(2)]) (use Cons.prems a(1) in auto)
qed simp

definition rel_r :: "('a \<Rightarrow> 'b \<Rightarrow> bool) \<Rightarrow> 'e + 'a \<Rightarrow> 'e + 'b \<Rightarrow> bool" where
  "rel_r R x y = (case x of Inl e \<Rightarrow> y = Inl e | Inr a \<Rightarrow> (case y of Inl _ \<Rightarrow> False | Inr b \<Rightarrow> R a b))"

lemma rel_r_simps [simp]:
  "rel_r R (Inr a) (Inr b) = R a b" "rel_r R (Inl e) (Inl e') = (e' = e)"
  "rel_r R (Inl e) (Inr b) = False" "rel_r R (Inr a) (Inl e) = False"
  by (auto simp: rel_r_def)

lemma rel_r_bind:
  "rel_r R x y \<Longrightarrow> (\<And>a b. R a b \<Longrightarrow> rel_r S (f a) (g b)) \<Longrightarrow> rel_r S (bind_r x f) (bind_r y g)"
  by (cases x; cases y) auto

lemma rel_r_for:
  "R s t \<Longrightarrow> (\<And>x a b. x \<in> set xs \<Longrightarrow> R a b \<Longrightarrow> rel_r R (f x a) (g x b)) \<Longrightarrow> rel_r R (for_r f xs s) (for_r g xs t)"
proof (induction xs arbitrary: s t)
  case (Cons x xs)
  have "rel_r R (f x s) (g x t)" using Cons.prems by simp
  then show ?case by (auto intro!: rel_r_bind Cons.IH Cons.prems(2))
qed simp

lemma map_r_length: "map_r f xs = Inr ys \<Longrightarrow> length ys = length xs"
  by (induction xs arbitrary: ys) (auto simp: bind_r_eq_Inr)

lemma map_r_ok: "(\<And>x. x \<in> set xs \<Longrightarrow> is_ok (f x)) \<Longrightarrow> is_ok (map_r f xs)"
proof (induction xs)
  case (Cons a xs)
  then have "is_ok (f a)" and "is_ok (map_r f xs)" by auto
  then show ?case by (cases "f a"; cases "map_r f xs") auto
qed simp

lemma dict_set_new: "dict_get d k = None \<Longrightarrow> dict_set k v d = d @ [(k, v)]"
  unfolding dict_set_def dict_get_def by (induction d) (auto split: if_splits)

lemma find_append: "find P (xs @ ys) = (case find P xs of None \<Rightarrow> find P ys | Some x \<Rightarrow> Some x)"
  by (induction xs) auto

lemma str_insert_set [simp]: "set (str_insert x ys) = insert x (set ys)"
  by (induction ys) auto

lemma str_sort_set [simp]: "set (str_sort xs) = set xs"
  by (induction xs) (simp_all add: str_sort_def)

lemma str_sort_eq_Nil [simp]: "str_sort xs = [] \<longleftrightarrow> xs = []"
  by (metis set_empty str_sort_set)

end
