(* ===== verification/Dec.thy ===== *)
theory Dec
  imports Prelude
begin

text \<open>
  Python's \<open>decimal.Decimal\<close> under the default context, which is what every price, quantity
  and amount of the program is. A finite decimal is its exact value, a rational; every
  arithmetic operation computes the exact result and rounds it to 28 significant digits, half
  to even (\<open>rnd\<close>). Comparison, \<open>min\<close> and \<open>max\<close> are exact. \<open>to_integral\<close> and \<open>quantize\<close> take the
  rounding mode of the call. The exponent limits of the context (10 to the 999999) are not
  modelled: no overflow, no underflow. The value alone is kept, not the number of trailing
  zeros, which no comparison or arithmetic sees.

  The locale \<open>rounding\<close> states what the components rely on (rounding is monotone, idempotent,
  odd and keeps positive values positive); it is interpreted by the context's own rounding.
\<close>

named_theorems dec_simps "decimal arithmetic on concrete values"

type_synonym dec = rat

fun ndigits :: "nat \<Rightarrow> nat" where
  "ndigits n = (if n < 10 then 1 else Suc (ndigits (n div 10)))"

declare ndigits.simps [simp del]

definition dexp :: "rat \<Rightarrow> int" where
  "dexp x = (let (p, q) = quotient_of x;
                 e = int (ndigits (nat p)) - int (ndigits (nat q))
             in if 10 powi e \<le> x then e else e - 1)"

definition round_half_even :: "rat \<Rightarrow> int" where
  "round_half_even x =
     (let f = \<lfloor>x\<rfloor>; d = x - of_int f
      in if d < 1/2 then f else if 1/2 < d then f + 1 else if even f then f else f + 1)"

definition rnd_pos :: "rat \<Rightarrow> rat" where
  "rnd_pos x = (let q = 10 powi (dexp x - 27) in of_int (round_half_even (x / q)) * q)"

definition rnd :: "rat \<Rightarrow> rat" where
  "rnd x = (if x = 0 then 0 else if 0 < x then rnd_pos x else - rnd_pos (- x))"

definition dadd :: "dec \<Rightarrow> dec \<Rightarrow> dec" where "dadd a b = rnd (a + b)"
definition dsub :: "dec \<Rightarrow> dec \<Rightarrow> dec" where "dsub a b = rnd (a - b)"
definition dmul :: "dec \<Rightarrow> dec \<Rightarrow> dec" where "dmul a b = rnd (a * b)"
definition dabs :: "dec \<Rightarrow> dec" where "dabs a = rnd \<bar>a\<bar>"
definition dneg :: "dec \<Rightarrow> dec" where "dneg a = rnd (- a)"

text \<open>Division where the code has already excluded a zero divisor.\<close>

definition ddiv :: "dec \<Rightarrow> dec \<Rightarrow> dec" where "ddiv a b = rnd (a / b)"

text \<open>\<open>sum(xs, Decimal(0))\<close>: left to right, rounded at every step.\<close>

definition dsum :: "dec list \<Rightarrow> dec" where "dsum xs = fold (\<lambda>x acc. dadd acc x) xs 0"

datatype rounding_mode =
  ROUND_DOWN | ROUND_UP | ROUND_FLOOR | ROUND_CEILING | ROUND_HALF_UP | ROUND_HALF_EVEN

fun to_integral :: "rounding_mode \<Rightarrow> rat \<Rightarrow> int" where
  "to_integral ROUND_FLOOR x = \<lfloor>x\<rfloor>"
| "to_integral ROUND_CEILING x = \<lceil>x\<rceil>"
| "to_integral ROUND_DOWN x = (if 0 \<le> x then \<lfloor>x\<rfloor> else \<lceil>x\<rceil>)"
| "to_integral ROUND_UP x = (if 0 \<le> x then \<lceil>x\<rceil> else \<lfloor>x\<rfloor>)"
| "to_integral ROUND_HALF_UP x = (if 0 \<le> x then \<lfloor>x + 1/2\<rfloor> else \<lceil>x - 1/2\<rceil>)"
| "to_integral ROUND_HALF_EVEN x = round_half_even x"

datatype dec_error = InvalidOperation | DivisionByZero

text \<open>\<open>x.quantize(Decimal("1e-k"), rounding)\<close>: an invalid operation past 28 digits.\<close>

definition quantize :: "rounding_mode \<Rightarrow> nat \<Rightarrow> dec \<Rightarrow> dec_error + dec" where
  "quantize m k x =
     (let n = to_integral m (x * 10 ^ k)
      in if \<bar>n\<bar> < 10 ^ 28 then Inr (of_int n / 10 ^ k) else Inl InvalidOperation)"

text \<open>Division with the two signals of the context: \<open>0/0\<close> is invalid, \<open>x/0\<close> is a division by zero.\<close>

definition ddiv_r :: "dec \<Rightarrow> dec \<Rightarrow> dec_error + dec" where
  "ddiv_r a b = (if b = 0 then Inl (if a = 0 then InvalidOperation else DivisionByZero)
                 else Inr (ddiv a b))"

text \<open>The values rounding leaves alone: a 28-digit coefficient times a power of ten.\<close>

definition exact28 :: "rat \<Rightarrow> bool" where
  "exact28 x \<longleftrightarrow> rnd x = x"

text \<open>
  Amounts as the venue states them: at most nine decimal places, below \<open>10 ^ 18\<close> in magnitude.
\<close>

definition amount9 :: "rat \<Rightarrow> bool" where
  "amount9 x \<longleftrightarrow> x * 10 ^ 9 \<in> \<int> \<and> \<bar>x\<bar> < 10 ^ 18"

section \<open>Digits and exponents\<close>

lemma ndigits_pos: "0 < ndigits n"
  by (subst ndigits.simps) simp

lemma ndigits_bounds: "0 < n \<Longrightarrow> 10 ^ (ndigits n - 1) \<le> n \<and> n < 10 ^ ndigits n"
proof (induction n rule: ndigits.induct)
  case (1 n)
  show ?case
  proof (cases "n < 10")
    case True
    with "1.prems" show ?thesis by (subst ndigits.simps, subst ndigits.simps) simp
  next
    case False
    let ?m = "n div 10"
    have d: "ndigits n = Suc (ndigits ?m)" using False by (subst ndigits.simps) simp
    from False "1.IH" have ih: "10 ^ (ndigits ?m - 1) \<le> ?m" "?m < 10 ^ ndigits ?m" by simp_all
    obtain k where k: "ndigits ?m = Suc k" using ndigits_pos [of ?m] gr0_implies_Suc by blast
    from ih(1) have "(10::nat) ^ ndigits ?m \<le> 10 * ?m" by (simp add: k)
    also have "\<dots> \<le> n" by simp
    finally have lo: "10 ^ ndigits ?m \<le> n" .
    have "n < 10 * 10 ^ ndigits ?m" using ih(2) by linarith
    with lo show ?thesis by (simp add: d)
  qed
qed

lemma dexp_bounds:
  assumes "0 < x"
  shows "10 powi dexp x \<le> x" and "x < 10 powi (dexp x + 1)"
proof -
  obtain p q where pq: "quotient_of x = (p, q)" by (cases "quotient_of x")
  have q: "0 < q" and x: "x = of_int p / of_int q"
    using pq quotient_of_denom_pos quotient_of_div by blast+
  have p: "0 < p" using assms q x by (simp add: zero_less_divide_iff)
  define dp dq where "dp = ndigits (nat p)" and "dq = ndigits (nat q)"
  define e where "e = int dp - int dq"
  have bp: "10 ^ (dp - 1) \<le> nat p" "nat p < 10 ^ dp"
    using ndigits_bounds [of "nat p"] p by (simp_all add: dp_def)
  have bq: "10 ^ (dq - 1) \<le> nat q" "nat q < 10 ^ dq"
    using ndigits_bounds [of "nat q"] q by (simp_all add: dq_def)
  have P: "(10::rat) ^ (dp - 1) \<le> of_int p" "of_int p < (10::rat) ^ dp"
  proof -
    from bp(1) have "of_nat (10 ^ (dp - 1)) \<le> (of_nat (nat p) :: rat)" by (simp only: of_nat_le_iff)
    with p show "(10::rat) ^ (dp - 1) \<le> of_int p" by simp
    from bp(2) have "of_nat (nat p) < (of_nat (10 ^ dp) :: rat)" by (simp only: of_nat_less_iff)
    with p show "of_int p < (10::rat) ^ dp" by simp
  qed
  have Q: "(10::rat) ^ (dq - 1) \<le> of_int q" "of_int q < (10::rat) ^ dq"
  proof -
    from bq(1) have "of_nat (10 ^ (dq - 1)) \<le> (of_nat (nat q) :: rat)" by (simp only: of_nat_le_iff)
    with q show "(10::rat) ^ (dq - 1) \<le> of_int q" by simp
    from bq(2) have "of_nat (nat q) < (of_nat (10 ^ dq) :: rat)" by (simp only: of_nat_less_iff)
    with q show "of_int q < (10::rat) ^ dq" by simp
  qed
  have pos: "0 < dp" "0 < dq" by (simp_all add: dp_def dq_def ndigits_pos)
  have up: "x < 10 powi (e + 1)"
  proof -
    have "of_int p * (10::rat) ^ (dq - 1) < 10 ^ dp * of_int q"
      using P(2) Q(1) by (intro mult_strict_mono' mult_less_le_imp_less) (use p in auto)
    then have "x < 10 ^ dp / 10 ^ (dq - 1)"
      using q by (simp add: x divide_simps mult.commute)
    also have "\<dots> = 10 powi (int dp - int (dq - 1))"
      by (simp add: power_int_diff)
    also have "int dp - int (dq - 1) = e + 1" using pos by (simp add: e_def)
    finally show ?thesis .
  qed
  have lo: "10 powi (e - 1) \<le> x"
  proof -
    have "(10::rat) ^ (dp - 1) * of_int q \<le> of_int p * 10 ^ dq"
      using P(1) Q(2) q p by (intro mult_mono) auto
    then have "10 ^ (dp - 1) / 10 ^ dq \<le> x"
      using q by (simp add: x divide_simps mult.commute)
    moreover have "10 ^ (dp - 1) / 10 ^ dq = (10::rat) powi (int (dp - 1) - int dq)"
      by (simp add: power_int_diff)
    moreover have "int (dp - 1) - int dq = e - 1" using pos by (simp add: e_def)
    ultimately show ?thesis by simp
  qed
  have d: "dexp x = (if 10 powi e \<le> x then e else e - 1)"
    by (simp add: dexp_def pq e_def dp_def dq_def Let_def)
  show "10 powi dexp x \<le> x" using d lo by simp
  show "x < 10 powi (dexp x + 1)" using d up by (simp add: not_le)
qed

lemma powi10_le: "(10::rat) powi a \<le> 10 powi b \<longleftrightarrow> a \<le> b"
  by (metis linorder_not_less order_less_imp_le power_int_increasing power_int_strict_increasing one_le_numeral one_less_numeral_iff semiring_norm(76))

lemma powi10_less: "(10::rat) powi a < 10 powi b \<longleftrightarrow> a < b"
  using powi10_le [of b a] by (simp add: not_le [symmetric])

lemma dexp_mono:
  assumes "0 < x" "x \<le> y"
  shows "dexp x \<le> dexp y"
proof -
  have "(10::rat) powi dexp x < 10 powi (dexp y + 1)"
    using dexp_bounds(1) [of x] dexp_bounds(2) [of y] assms by (meson le_less_trans less_le_trans)
  then show ?thesis by (simp add: powi10_less)
qed

lemma dexp_unique:
  assumes "10 powi e \<le> x" "x < 10 powi (e + 1)"
  shows "dexp x = e"
proof -
  have x: "0 < x" using assms(1) by (rule less_le_trans [rotated]) simp
  have "(10::rat) powi dexp x < 10 powi (e + 1)" "(10::rat) powi e < 10 powi (dexp x + 1)"
    using dexp_bounds [OF x] assms by (meson le_less_trans)+
  then show ?thesis by (simp add: powi10_less)
qed

section \<open>Rounding\<close>

lemma rhe_of_int [simp]: "round_half_even (of_int n) = n"
  by (simp add: round_half_even_def)

lemma rhe_cases: "round_half_even x = \<lfloor>x\<rfloor> \<or> round_half_even x = \<lfloor>x\<rfloor> + 1"
  by (simp add: round_half_even_def Let_def)

lemma rhe_mono:
  assumes "x \<le> y"
  shows "round_half_even x \<le> round_half_even y"
proof (cases "\<lfloor>x\<rfloor> = \<lfloor>y\<rfloor>")
  case True
  with assms show ?thesis by (auto simp: round_half_even_def Let_def)
next
  case False
  with floor_mono [OF assms] have "\<lfloor>x\<rfloor> + 1 \<le> \<lfloor>y\<rfloor>" by linarith
  with rhe_cases [of x] rhe_cases [of y] show ?thesis by linarith
qed

lemma rhe_error: "\<bar>of_int (round_half_even x) - x\<bar> \<le> (1/2 :: rat)"
proof -
  have "of_int \<lfloor>x\<rfloor> \<le> x" "x < of_int \<lfloor>x\<rfloor> + 1" by linarith+
  then show ?thesis by (simp add: round_half_even_def Let_def abs_le_iff)
qed

lemma powi10_shift: "(10::rat) powi e = 10 ^ k * 10 powi (e - int k)"
  using power_int_add [of "10::rat" "int k" "e - int k"] by simp

lemma rnd_pos_scaled:
  assumes "0 < x"
  defines "q \<equiv> 10 powi (dexp x - 27)"
  shows "0 < q" and "10 ^ 27 \<le> x / q" and "x / q < 10 ^ 28"
    and "10 ^ 27 \<le> round_half_even (x / q)" and "round_half_even (x / q) \<le> 10 ^ 28"
    and "rnd_pos x = of_int (round_half_even (x / q)) * q"
proof -
  show q: "0 < q" by (simp add: q_def)
  have e1: "10 powi dexp x = 10 ^ 27 * q" and e2: "10 powi (dexp x + 1) = 10 ^ 28 * q"
    using powi10_shift [of "dexp x" 27] powi10_shift [of "dexp x + 1" 28] by (simp_all add: q_def)
  show lo: "10 ^ 27 \<le> x / q" using dexp_bounds(1) [OF assms(1)] q by (simp add: e1 pos_le_divide_eq)
  show hi: "x / q < 10 ^ 28" using dexp_bounds(2) [OF assms(1)] q by (simp add: e2 pos_divide_less_eq)
  show "10 ^ 27 \<le> round_half_even (x / q)"
    using rhe_mono [OF lo] rhe_of_int [of "10 ^ 27"] by simp
  show "round_half_even (x / q) \<le> 10 ^ 28"
    using rhe_mono [OF less_imp_le [OF hi]] rhe_of_int [of "10 ^ 28"] by simp
  show "rnd_pos x = of_int (round_half_even (x / q)) * q"
    by (simp add: rnd_pos_def q_def Let_def)
qed

lemma rnd_pos_bounds:
  assumes "0 < x"
  shows "10 powi dexp x \<le> rnd_pos x" and "rnd_pos x \<le> 10 powi (dexp x + 1)"
proof -
  define q :: rat where "q = 10 powi (dexp x - 27)"
  note s = rnd_pos_scaled [OF assms, folded q_def]
  have e1: "10 powi dexp x = 10 ^ 27 * q" and e2: "10 powi (dexp x + 1) = 10 ^ 28 * q"
    using powi10_shift [of "dexp x" 27] powi10_shift [of "dexp x + 1" 28] by (simp_all add: q_def)
  have "(10::rat) ^ 27 \<le> of_int (round_half_even (x / q))"
    using s(4) by (metis of_int_le_iff of_int_numeral of_int_power)
  then show "10 powi dexp x \<le> rnd_pos x" using s(1) by (simp add: e1 s(6))
  have "of_int (round_half_even (x / q)) \<le> (10::rat) ^ 28"
    using s(5) by (metis of_int_le_iff of_int_numeral of_int_power)
  then show "rnd_pos x \<le> 10 powi (dexp x + 1)" using s(1) by (simp add: e2 s(6))
qed

lemma rnd_pos_pos: "0 < x \<Longrightarrow> 0 < rnd_pos x"
  by (rule less_le_trans [OF _ rnd_pos_bounds(1)]) simp_all

lemma rnd_pos_mono:
  assumes "0 < x" "x \<le> y"
  shows "rnd_pos x \<le> rnd_pos y"
proof (cases "dexp x = dexp y")
  case True
  define q :: rat where "q = 10 powi (dexp y - 27)"
  have q: "0 < q" by (simp add: q_def)
  have "round_half_even (x / q) \<le> round_half_even (y / q)"
    by (rule rhe_mono) (use assms q in \<open>simp add: divide_right_mono\<close>)
  then show ?thesis using q by (simp add: rnd_pos_def True Let_def flip: q_def)
next
  case False
  with dexp_mono [OF assms] have "dexp x + 1 \<le> dexp y" by simp
  then have "10 powi (dexp x + 1) \<le> (10::rat) powi dexp y" by (simp only: powi10_le)
  with rnd_pos_bounds(2) [OF assms(1)] rnd_pos_bounds(1) [of y] assms show ?thesis by linarith
qed

lemma rnd_pos_exact:
  assumes "x = of_int m * 10 powi e" "0 < m" "m < 10 ^ 28"
  shows "rnd_pos x = x"
proof -
  have x: "0 < x" using assms(1,2) by simp
  define q :: rat where "q = 10 powi (dexp x - 27)"
  have q: "0 < q" by (simp add: q_def)
  have "of_int m < (10::rat) ^ 28" using assms(3) by (metis of_int_less_iff of_int_numeral of_int_power)
  then have "x < 10 ^ 28 * 10 powi e" by (simp add: assms(1))
  also have "\<dots> = 10 powi (28 + e)" by (subst power_int_add) simp_all
  finally have "(10::rat) powi dexp x < 10 powi (28 + e)" using dexp_bounds(1) [OF x] by linarith
  then have le: "dexp x - 27 \<le> e" by (simp add: powi10_less)
  define k where "k = nat (e - (dexp x - 27))"
  have "10 powi e = (10::rat) ^ k * q"
    using le powi10_shift [of e k] by (simp add: k_def q_def)
  then have "x / q = of_int (m * 10 ^ k)" using q assms(1) by simp
  then have "rnd_pos x = of_int (m * 10 ^ k) * q"
    using rnd_pos_scaled(6) [OF x] by (simp only: q_def [symmetric] rhe_of_int)
  with \<open>x / q = of_int (m * 10 ^ k)\<close> q show ?thesis by (simp add: field_simps)
qed

lemma rnd_pos_idem:
  assumes "0 < x"
  shows "rnd_pos (rnd_pos x) = rnd_pos x"
proof -
  define q :: rat where "q = 10 powi (dexp x - 27)"
  note s = rnd_pos_scaled [OF assms, folded q_def]
  show ?thesis
  proof (cases "round_half_even (x / q) = 10 ^ 28")
    case True
    have "rnd_pos x = of_int 1 * 10 powi (dexp x + 1)"
      using powi10_shift [of "dexp x + 1" 28] by (simp add: s(6) True flip: q_def)
    then show ?thesis by (rule rnd_pos_exact) simp_all
  next
    case False
    with s(4,5) show ?thesis
      by (intro rnd_pos_exact [of _ "round_half_even (x / q)" "dexp x - 27"])
        (simp_all add: s(6) flip: q_def)
  qed
qed

lemma rnd_0 [simp]: "rnd 0 = 0"
  by (simp add: rnd_def)

lemma rnd_minus: "rnd (- x) = - rnd x"
  by (simp add: rnd_def)

lemma rnd_mono:
  assumes "x \<le> y"
  shows "rnd x \<le> rnd y"
proof -
  consider "0 < x" | "x \<le> 0" "0 \<le> y" | "y < 0" by linarith
  then show ?thesis
  proof cases
    case 1 with assms show ?thesis by (simp add: rnd_def rnd_pos_mono)
  next
    case 2
    then have "rnd x \<le> 0" "0 \<le> rnd y"
      using rnd_pos_pos [of "- x"] rnd_pos_pos [of y] by (auto simp: rnd_def)
    then show ?thesis by linarith
  next
    case 3 with assms show ?thesis by (simp add: rnd_def rnd_pos_mono)
  qed
qed

lemma rnd_idem: "rnd (rnd x) = rnd x"
  using rnd_pos_pos [of x] rnd_pos_pos [of "- x"] rnd_pos_idem [of x] rnd_pos_idem [of "- x"]
  by (auto simp: rnd_def not_less)

lemma rnd_pos_of_pos: "0 < x \<Longrightarrow> 0 < rnd x"
  by (simp add: rnd_def rnd_pos_pos)

lemma exact28_coeff:
  assumes "x = of_int m * 10 powi e" "\<bar>m\<bar> < 10 ^ 28"
  shows "exact28 x"
proof -
  consider "m = 0" | "0 < m" | "m < 0" by linarith
  then show ?thesis
  proof cases
    case 1 with assms show ?thesis by (simp add: exact28_def)
  next
    case 2
    with assms(1) have "0 < x" by simp
    with 2 assms rnd_pos_exact [OF assms(1)] show ?thesis by (simp add: exact28_def rnd_def)
  next
    case 3
    then have m: "(of_int m :: rat) < 0" by simp
    then have "x < 0" by (simp add: assms(1) mult_neg_pos)
    moreover have "- x = of_int (- m) * 10 powi e" by (simp add: assms(1))
    then have "rnd_pos (- x) = - x" by (rule rnd_pos_exact) (use 3 assms(2) in simp_all)
    ultimately show ?thesis by (simp add: exact28_def rnd_def)
  qed
qed

section \<open>What the components rely on\<close>

locale rounding =
  fixes r :: "rat \<Rightarrow> rat"
  assumes r_mono: "x \<le> y \<Longrightarrow> r x \<le> r y"
    and r_idem: "r (r x) = r x"
    and r_odd: "r (- x) = - r x"
    and r_positive: "0 < x \<Longrightarrow> 0 < r x"
begin

lemma r_zero: "r 0 = 0"
  using r_odd [of 0] by simp

lemma r_negative: "x < 0 \<Longrightarrow> r x < 0"
  using r_positive [of "- x"] by (simp add: r_odd)

lemma r_eq_0: "r x = 0 \<longleftrightarrow> x = 0"
  using r_positive [of x] r_negative [of x] r_zero by (cases x "0::rat" rule: linorder_cases) auto

lemma r_gt_0: "0 < r x \<longleftrightarrow> 0 < x"
  using r_positive [of x] r_negative [of x] r_zero by (cases x "0::rat" rule: linorder_cases) auto

lemma r_lt_0: "r x < 0 \<longleftrightarrow> x < 0"
  using r_positive [of x] r_negative [of x] r_zero by (cases x "0::rat" rule: linorder_cases) auto

lemma r_ge_0: "0 \<le> r x \<longleftrightarrow> 0 \<le> x"
  using r_lt_0 [of x] by linarith

lemma r_le_0: "r x \<le> 0 \<longleftrightarrow> x \<le> 0"
  using r_gt_0 [of x] by linarith

lemma r_le_exact: "r a = a \<Longrightarrow> x \<le> a \<Longrightarrow> r x \<le> a"
  using r_mono [of x a] by simp

lemma r_ge_exact: "r a = a \<Longrightarrow> a \<le> x \<Longrightarrow> a \<le> r x"
  using r_mono [of a x] by simp

lemma r_abs: "r \<bar>x\<bar> = \<bar>r x\<bar>"
  by (cases "0 \<le> x") (simp_all add: r_ge_0 r_le_0 r_odd abs_of_nonneg abs_of_nonpos)

end

interpretation dec28: rounding rnd
  by unfold_locales (simp_all add: rnd_mono rnd_idem rnd_minus rnd_pos_of_pos)

lemmas rnd_sign [simp] =
  dec28.r_eq_0 dec28.r_gt_0 dec28.r_lt_0 dec28.r_ge_0 dec28.r_le_0

section \<open>Exact values and the arithmetic on them\<close>

lemma exact28_minus [simp]: "exact28 (- x) \<longleftrightarrow> exact28 x"
  by (simp add: exact28_def rnd_minus)

lemma exact28_rnd [simp, intro]: "exact28 (rnd x)"
  by (simp add: exact28_def rnd_idem)

lemma exact28_ops [simp, intro]:
  "exact28 (dadd a b)" "exact28 (dsub a b)" "exact28 (dmul a b)" "exact28 (dabs a)" "exact28 (dneg a)"
  "exact28 (ddiv a b)"
  by (simp_all add: dadd_def dsub_def dmul_def dabs_def dneg_def ddiv_def)

lemma rnd_exact: "exact28 x \<Longrightarrow> rnd x = x"
  by (simp add: exact28_def)

lemma exact28_of_int: "\<bar>m\<bar> < 10 ^ 28 \<Longrightarrow> exact28 (of_int m)"
  by (rule exact28_coeff [of _ m 0]) simp_all

lemma exact28_fraction:
  assumes "x = of_int m / 10 ^ k" "\<bar>m\<bar> < 10 ^ 28"
  shows "exact28 x"
proof (rule exact28_coeff)
  show "x = of_int m * 10 powi (- int k)" by (simp add: assms(1) power_int_minus field_simps)
qed (rule assms(2))

lemma rnd_numeral [simp, dec_simps]:
  "(numeral n :: int) < 10 ^ 28 \<Longrightarrow> rnd (numeral n) = numeral n"
  using exact28_of_int [of "numeral n"] by (simp add: rnd_exact)

lemma rnd_one [simp, dec_simps]: "rnd 1 = 1"
  using exact28_of_int [of 1] by (simp add: rnd_exact)

lemma rnd_neg_numeral [simp, dec_simps]:
  "(numeral n :: int) < 10 ^ 28 \<Longrightarrow> rnd (- numeral n) = - numeral n"
  by (simp add: rnd_minus)

lemma rnd_neg_one [simp, dec_simps]: "rnd (- 1) = - 1"
  by (simp add: rnd_minus)

lemma rnd_ratio:
  assumes "0 < (b::int)" "(a * 10 ^ 20) mod b = 0" "\<bar>a\<bar> < b * 10 ^ 8"
  shows "rnd (of_int a / of_int b) = of_int a / of_int b"
proof -
  define m where "m = a * 10 ^ 20 div b"
  have m: "m * b = a * 10 ^ 20" using assms(2) unfolding m_def by (intro dvd_div_mult_self mod_0_imp_dvd)
  then have "(of_int m :: rat) * of_int b = of_int a * 10 ^ 20" by (metis of_int_mult of_int_numeral of_int_power)
  then have x: "(of_int a / of_int b :: rat) = of_int m / 10 ^ 20" using assms(1) by (simp add: field_simps)
  have "\<bar>m\<bar> * b = \<bar>a\<bar> * 10 ^ 20" using m assms(1) by (metis abs_mult abs_of_pos zero_less_numeral zero_less_power)
  also have "\<dots> < b * 10 ^ 8 * 10 ^ 20" using assms(3) by simp
  finally have "\<bar>m\<bar> < 10 ^ 28" using assms(1) by simp
  with x have "exact28 (of_int a / of_int b)" by (rule exact28_fraction)
  then show ?thesis by (rule rnd_exact)
qed

lemma rnd_ratio_numeral [simp, dec_simps]:
  "(numeral a * 10 ^ 20 :: int) mod numeral b = 0 \<Longrightarrow> (numeral a :: int) < numeral b * 10 ^ 8 \<Longrightarrow>
   rnd (numeral a / numeral b) = numeral a / numeral b"
  using rnd_ratio [of "numeral b" "numeral a"] by simp

lemma rnd_ratio_one [simp, dec_simps]:
  "(10 ^ 20 :: int) mod numeral b = 0 \<Longrightarrow> rnd (1 / numeral b) = 1 / numeral b"
proof -
  assume m: "(10 ^ 20 :: int) mod numeral b = 0"
  have "(10::int) ^ 8 * 1 \<le> 10 ^ 8 * numeral b" by (intro mult_left_mono) simp_all
  then have "(1::int) < 10 ^ 8 * numeral b" by (rule less_le_trans [rotated]) simp
  then have "\<bar>1\<bar> < (numeral b :: int) * 10 ^ 8" by (simp only: abs_one mult.commute)
  with m rnd_ratio [of "numeral b" 1] show ?thesis by (simp del: power_numeral)
qed

lemma rnd_ratio_neg [simp, dec_simps]:
  "rnd (- (x / y)) = - rnd (x / y)"
  by (rule rnd_minus)

lemmas dec_ops = dadd_def dsub_def dmul_def dabs_def dneg_def ddiv_def

lemma amount9_exact:
  assumes "amount9 x"
  shows "exact28 x"
proof -
  obtain m where m: "x * 10 ^ 9 = of_int m" using assms by (auto simp: amount9_def elim: Ints_cases)
  then have x: "x = of_int m / 10 ^ 9" by (simp add: field_simps)
  have "\<bar>of_int m\<bar> = \<bar>x\<bar> * (10::rat) ^ 9" by (simp flip: m add: abs_mult)
  also have "\<dots> < 10 ^ 18 * 10 ^ 9" using assms by (simp add: amount9_def)
  finally have "of_int \<bar>m\<bar> < (10::rat) ^ 27" by simp
  then have "\<bar>m\<bar> < 10 ^ 27" by (metis of_int_less_iff of_int_numeral of_int_power)
  then have "\<bar>m\<bar> < 10 ^ 28" by simp
  with x show ?thesis by (rule exact28_fraction)
qed

lemma amount9_sum_exact:
  assumes "amount9 x" "amount9 y"
  shows "exact28 (x + y)" and "exact28 (x - y)"
proof -
  obtain a b where ab: "x * 10 ^ 9 = of_int a" "y * 10 ^ 9 = of_int b"
    using assms by (auto simp: amount9_def elim!: Ints_cases)
  have bound: "\<bar>of_int c :: rat\<bar> < 10 ^ 27 \<Longrightarrow> \<bar>c\<bar> < 10 ^ 27" for c :: int
    by (metis of_int_abs of_int_less_iff of_int_numeral of_int_power)
  have "\<bar>of_int a :: rat\<bar> < 10 ^ 27" "\<bar>of_int b :: rat\<bar> < 10 ^ 27"
    using assms by (simp_all flip: ab add: amount9_def abs_mult)
  then have c: "\<bar>a\<bar> < 10 ^ 27" "\<bar>b\<bar> < 10 ^ 27" by (blast intro: bound)+
  have s: "x + y = of_int (a + b) / 10 ^ 9" "x - y = of_int (a - b) / 10 ^ 9"
    by (simp_all flip: ab add: field_simps)
  show "exact28 (x + y)" by (rule exact28_fraction [OF s(1)]) (use c in simp)
  show "exact28 (x - y)" by (rule exact28_fraction [OF s(2)]) (use c in simp)
qed

lemma dadd_amount9: "amount9 x \<Longrightarrow> amount9 y \<Longrightarrow> dadd x y = x + y"
  by (simp add: dadd_def rnd_exact amount9_sum_exact)

lemma dsub_amount9: "amount9 x \<Longrightarrow> amount9 y \<Longrightarrow> dsub x y = x - y"
  by (simp add: dsub_def rnd_exact amount9_sum_exact)

lemma dabs_exact: "exact28 x \<Longrightarrow> dabs x = \<bar>x\<bar>"
  by (simp add: dabs_def dec28.r_abs rnd_exact)

lemma dneg_exact: "exact28 x \<Longrightarrow> dneg x = - x"
  by (simp add: dneg_def rnd_minus rnd_exact)

lemma dmul_unit [simp]: "exact28 x \<Longrightarrow> dmul x 1 = x" "exact28 x \<Longrightarrow> dmul x (- 1) = - x"
  by (simp_all add: dmul_def rnd_minus rnd_exact)

lemma amount9_minus [simp]: "amount9 (- x) \<longleftrightarrow> amount9 x"
  by (simp add: amount9_def)

lemma amount9_0 [simp]: "amount9 0"
  by (simp add: amount9_def)

lemma amount9_le:
  assumes "amount9 x" "amount9 y" "0 \<le> x + y" "x + y \<le> z" "amount9 z"
  shows "amount9 (x + y)"
  using assms by (auto simp: amount9_def distrib_right)

lemma amount9_diff:
  assumes "amount9 x" "amount9 y" "0 \<le> y" "y \<le> x"
  shows "amount9 (x - y)"
  using assms by (auto simp: amount9_def left_diff_distrib)

lemma dabs_nonneg [simp]: "0 \<le> dabs x"
  by (simp add: dabs_def)

lemma dabs_eq_0 [simp]: "dabs x = 0 \<longleftrightarrow> x = 0"
  by (simp add: dabs_def)

lemma dmul_mono: "a * b \<le> c * d \<Longrightarrow> dmul a b \<le> dmul c d"
  by (simp add: dmul_def rnd_mono)

lemma dsum_Nil [simp]: "dsum [] = 0"
  by (simp add: dsum_def)

lemma fold_dadd_nonneg: "0 \<le> a \<Longrightarrow> (\<And>x. x \<in> set xs \<Longrightarrow> 0 \<le> x) \<Longrightarrow> 0 \<le> fold (\<lambda>x acc. dadd acc x) xs a"
  by (induction xs arbitrary: a) (simp_all add: dadd_def)

lemma dsum_nonneg: "(\<And>x. x \<in> set xs \<Longrightarrow> 0 \<le> x) \<Longrightarrow> 0 \<le> dsum xs"
  by (simp add: dsum_def fold_dadd_nonneg)

lemma dsum_snoc: "dsum (xs @ [x]) = dadd (dsum xs) x"
  by (simp add: dsum_def)

lemma to_integral_down_bounds:
  assumes "0 \<le> x"
  shows "0 \<le> to_integral ROUND_DOWN x" and "of_int (to_integral ROUND_DOWN x) \<le> x"
    and "x < of_int (to_integral ROUND_DOWN x) + 1"
  using assms floor_correct [of x] by simp_all

lemma quantize_Inr:
  assumes "quantize m k x = Inr y"
  obtains n where "n = to_integral m (x * 10 ^ k)" "y = of_int n / 10 ^ k" "\<bar>n\<bar> < 10 ^ 28" "exact28 y"
  using assms exact28_fraction by (auto simp: quantize_def Let_def split: if_splits)

lemma dadd_ge: "exact28 a \<Longrightarrow> a \<le> x \<Longrightarrow> 0 \<le> y \<Longrightarrow> a \<le> dadd x y"
  using rnd_mono [of a "x + y"] by (simp add: dadd_def rnd_exact)

lemma dadd_le: "exact28 a \<Longrightarrow> x \<le> a \<Longrightarrow> y \<le> 0 \<Longrightarrow> dadd x y \<le> a"
  using rnd_mono [of "x + y" a] by (simp add: dadd_def rnd_exact)

lemma exact28_one [simp]: "exact28 1"
  by (simp add: exact28_def)

end
