(* ===== verification/Enums.thy ===== *)
theory Enums
  imports Dec
begin

text \<open>
  \<open>domain/enums.py\<close> and the exceptions of \<open>errors.py\<close> that the modelled code raises.

  A message of the program (a rejection reason, an exception text) is a \<open>reason\<close>: the
  template's key and the strings and numbers interpolated into it. The rendered sentence is not
  modelled, what it says is.
\<close>

datatype run_mode = BACKTEST | PAPER | LIVE

datatype side = BUY | SELL

datatype order_type = MARKET | LIMIT | STOP | STOP_LIMIT | TRAILING_STOP

datatype time_in_force = DAY | GTC | IOC | FOK | OPG | CLS

datatype order_status =
  PENDING_RISK | REJECTED_RISK | PENDING_SUBMIT | SUBMITTED | PARTIALLY_FILLED | FILLED
| CANCELLED | REJECTED | EXPIRED

datatype signal_action = ENTER_LONG | ENTER_SHORT | EXIT | SCALE_IN | SCALE_OUT | HOLD

datatype stop_type = FIXED_PCT | FIXED_AMOUNT | TRAILING_PCT | ATR | TIME | CHANDELIER

datatype timeframe = M1 | M5 | M15 | M30 | H1 | H4 | D1

datatype reason = Reason string "string list" "dec list"

datatype exn =
  ValueError reason
| DecimalSignal dec_error
| ConfigError reason
| InvalidStateTransitionError order_status order_status
| ReconciliationError reason
| ExecutionError reason
| WarmupBlockedError reason
| ReconciliationDivergedError reason
| BrokerError reason
| BrokerConnectionError reason
| OrderRejectedError reason
| InventoryHeldError reason
| InsufficientFundsError reason
| BacktestError reason
| DataError reason
| DataGapError reason
| UnadjustedDataError reason
| LookaheadError reason
| InvalidRuleError reason
| StrategyError reason
| KillSwitchUnavailableError bool
| RiskLimitBreachedError string reason
| RuntimeError reason
| NotImplementedError reason
| WorkerError reason

text \<open>The subclasses of \<open>BrokerError\<close> and of \<open>OrderRejectedError\<close>, which an \<open>except\<close> clause catches too.\<close>

fun is_broker_error :: "exn \<Rightarrow> bool" where
  "is_broker_error (BrokerError _) = True"
| "is_broker_error (BrokerConnectionError _) = True"
| "is_broker_error (OrderRejectedError _) = True"
| "is_broker_error (InventoryHeldError _) = True"
| "is_broker_error (InsufficientFundsError _) = True"
| "is_broker_error _ = False"

fun is_connection_error :: "exn \<Rightarrow> bool" where
  "is_connection_error (BrokerConnectionError _) = True"
| "is_connection_error _ = False"

fun is_inventory_held :: "exn \<Rightarrow> bool" where
  "is_inventory_held (InventoryHeldError _) = True"
| "is_inventory_held _ = False"

text \<open>\<open>DataError\<close> and its subclasses.\<close>

fun is_data_error :: "exn \<Rightarrow> bool" where
  "is_data_error (DataError _) = True"
| "is_data_error (DataGapError _) = True"
| "is_data_error (UnadjustedDataError _) = True"
| "is_data_error _ = False"

fun is_warmup_blocked :: "exn \<Rightarrow> bool" where
  "is_warmup_blocked (WarmupBlockedError _) = True"
| "is_warmup_blocked (ReconciliationDivergedError _) = True"
| "is_warmup_blocked _ = False"

text \<open>\<open>_BOOKING_REFUSED\<close> of the runner: the refusals raised before a fill touches the book.\<close>

fun is_booking_refused :: "exn \<Rightarrow> bool" where
  "is_booking_refused (ReconciliationError _) = True"
| "is_booking_refused (InvalidStateTransitionError _ _) = True"
| "is_booking_refused _ = False"

fun is_value_error :: "exn \<Rightarrow> bool" where
  "is_value_error (ValueError _) = True"
| "is_value_error _ = False"

text \<open>What \<open>except (ValueError, ATPError)\<close> catches.\<close>

fun is_value_or_atp_error :: "exn \<Rightarrow> bool" where
  "is_value_or_atp_error (DecimalSignal _) = False"
| "is_value_or_atp_error (RuntimeError _) = False"
| "is_value_or_atp_error (NotImplementedError _) = False"
| "is_value_or_atp_error _ = True"

fun side_sign :: "side \<Rightarrow> dec" where
  "side_sign BUY = 1"
| "side_sign SELL = - 1"

fun side_opposite :: "side \<Rightarrow> side" where
  "side_opposite BUY = SELL"
| "side_opposite SELL = BUY"

fun side_value :: "side \<Rightarrow> string" where
  "side_value BUY = ''buy''"
| "side_value SELL = ''sell''"

definition TERMINAL :: "order_status list" where
  "TERMINAL = [REJECTED_RISK, FILLED, CANCELLED, REJECTED, EXPIRED]"

definition is_terminal :: "order_status \<Rightarrow> bool" where
  "is_terminal s \<longleftrightarrow> s \<in> set TERMINAL"

definition status_is_open :: "order_status \<Rightarrow> bool" where
  "status_is_open s \<longleftrightarrow> s \<in> {SUBMITTED, PARTIALLY_FILLED}"

fun timeframe_seconds :: "timeframe \<Rightarrow> int" where
  "timeframe_seconds M1 = 60"
| "timeframe_seconds M5 = 300"
| "timeframe_seconds M15 = 900"
| "timeframe_seconds M30 = 1800"
| "timeframe_seconds H1 = 3600"
| "timeframe_seconds H4 = 14400"
| "timeframe_seconds D1 = 86400"

text \<open>Decimal signals raised inside a larger call are exceptions of that call.\<close>

definition lift_dec :: "dec_error + 'a \<Rightarrow> exn + 'a" where
  "lift_dec r = (case r of Inl e \<Rightarrow> Inl (DecimalSignal e) | Inr x \<Rightarrow> Inr x)"

definition value_error :: "string \<Rightarrow> exn" where
  "value_error key = ValueError (Reason key [] [])"

lemma lift_dec_simps [simp, result_simps]:
  "lift_dec (Inl e) = Inl (DecimalSignal e)" "lift_dec (Inr x) = Inr x"
  by (simp_all add: lift_dec_def)

lemma lift_dec_Inr: "lift_dec r = Inr x \<longleftrightarrow> r = Inr x"
  by (cases r) simp_all

lemma is_terminal_simps [simp]:
  "is_terminal REJECTED_RISK" "is_terminal FILLED" "is_terminal CANCELLED"
  "is_terminal REJECTED" "is_terminal EXPIRED"
  "\<not> is_terminal PENDING_RISK" "\<not> is_terminal PENDING_SUBMIT"
  "\<not> is_terminal SUBMITTED" "\<not> is_terminal PARTIALLY_FILLED"
  by (simp_all add: is_terminal_def TERMINAL_def)

lemma open_not_terminal: "status_is_open s \<Longrightarrow> \<not> is_terminal s"
  by (auto simp: status_is_open_def)

lemma side_sign_cases: "side_sign s = 1 \<or> side_sign s = - 1"
  by (cases s) simp_all

lemma side_sign_opposite: "side_sign (side_opposite s) = - side_sign s"
  by (cases s) simp_all

lemma side_opposite_inv [simp]: "side_opposite (side_opposite s) = s"
  by (cases s) simp_all

lemma timeframe_seconds_pos [simp]: "0 < timeframe_seconds t"
  by (cases t) simp_all

end
