(* ===== verification/Orders.thy ===== *)
theory Orders
  imports Enums
begin

text \<open>
  \<open>domain/order.py\<close>: fills, orders and order requests. An \<open>Order\<close> is mutable in the code; here
  each operation returns the updated record. \<open>apply_fill\<close> is the one status change that does not
  go through the transition table of \<open>execution/state.py\<close>.
\<close>

record fill =
  f_order_id :: string
  f_ts :: ts
  f_qty :: dec
  f_price :: dec
  f_fee :: dec
  f_venue_id :: "string option"

record order =
  o_symbol :: string
  o_side :: side
  o_qty :: dec
  o_type :: order_type
  o_tif :: time_in_force
  o_limit :: "dec option"
  o_stop :: "dec option"
  o_trail :: "dec option"
  o_id :: string
  o_client_id :: string
  o_broker_id :: "string option"
  o_strategy :: "string option"
  o_signal :: "string option"
  o_parent :: "string option"
  o_purpose :: string
  o_status :: order_status
  o_filled :: dec
  o_avg :: "dec option"
  o_fills :: "fill list"
  o_created_at :: "ts option"
  o_submitted_at :: "ts option"
  o_filled_at :: "ts option"
  o_reject_reason :: "reason option"
  o_rejected_by :: "string option"

text \<open>\<open>Order.__post_init__\<close>: the checks every construction runs.\<close>

definition new_order :: "order \<Rightarrow> exn + order" where
  "new_order o1 =
     (if o_qty o1 \<le> 0 then Inl (value_error ''order qty must be positive'')
      else if o_type o1 \<in> {LIMIT, STOP_LIMIT} \<and> o_limit o1 = None
        then Inl (value_error ''requires limit_price'')
      else if o_type o1 \<in> {STOP, STOP_LIMIT} \<and> o_stop o1 = None
        then Inl (value_error ''requires stop_price'')
      else if o_purpose o1 = [] then Inl (value_error ''an order needs a purpose'')
      else Inr o1)"

text \<open>The defaults of the dataclass, for the two identifiers its factories draw.\<close>

definition order_defaults :: "string \<Rightarrow> string \<Rightarrow> string \<Rightarrow> side \<Rightarrow> dec \<Rightarrow> order" where
  "order_defaults oid cid sm sd q =
     \<lparr>o_symbol = sm, o_side = sd, o_qty = q, o_type = MARKET, o_tif = DAY, o_limit = None,
      o_stop = None, o_trail = None, o_id = oid, o_client_id = cid, o_broker_id = None,
      o_strategy = None, o_signal = None, o_parent = None, o_purpose = ''entry'',
      o_status = PENDING_RISK, o_filled = 0, o_avg = None, o_fills = [], o_created_at = None,
      o_submitted_at = None, o_filled_at = None, o_reject_reason = None, o_rejected_by = None\<rparr>"

definition fill_notional :: "fill \<Rightarrow> dec" where
  "fill_notional f = dmul (f_qty f) (f_price f)"

definition remaining_qty :: "order \<Rightarrow> dec" where
  "remaining_qty o1 = dsub (o_qty o1) (o_filled o1)"

definition is_complete :: "order \<Rightarrow> bool" where
  "is_complete o1 = is_terminal (o_status o1)"

definition signed_filled_qty :: "order \<Rightarrow> dec" where
  "signed_filled_qty o1 = dmul (o_filled o1) (side_sign (o_side o1))"

definition total_fees :: "order \<Rightarrow> dec" where
  "total_fees o1 = dsum (map f_fee (o_fills o1))"

text \<open>\<open>x or Decimal(0)\<close> of an optional amount.\<close>

definition or_zero :: "dec option \<Rightarrow> dec" where
  "or_zero x = (case x of None \<Rightarrow> 0 | Some v \<Rightarrow> v)"

definition order_apply_fill :: "fill \<Rightarrow> order \<Rightarrow> exn + order" where
  "order_apply_fill f o1 =
     (if f_qty f \<le> 0 then Inl (value_error ''fill qty must be positive'')
      else if remaining_qty o1 < f_qty f then Inl (value_error ''overfill'')
      else
        let prior_notional = dmul (or_zero (o_avg o1)) (o_filled o1);
            filled = dadd (o_filled o1) (f_qty f)
        in bind_r (lift_dec (ddiv_r (dadd prior_notional (fill_notional f)) filled)) (\<lambda>avg.
             let o2 = o1\<lparr>o_filled := filled, o_avg := Some avg, o_fills := o_fills o1 @ [f]\<rparr>
             in Inr (if remaining_qty o2 = 0
                     then o2\<lparr>o_status := FILLED, o_filled_at := Some (f_ts f)\<rparr>
                     else o2\<lparr>o_status := PARTIALLY_FILLED\<rparr>)))"

fun order_apply_fills :: "fill list \<Rightarrow> order \<Rightarrow> exn + order" where
  "order_apply_fills [] o1 = Inr o1"
| "order_apply_fills (f # fs) o1 = bind_r (order_apply_fill f o1) (order_apply_fills fs)"

record order_request =
  r_symbol :: string
  r_side :: side
  r_decided_at :: ts
  r_type :: order_type
  r_qty :: "dec option"
  r_notional :: "dec option"
  r_limit :: "dec option"
  r_stop_loss :: "dec option"
  r_take_profit :: "dec option"
  r_tif :: time_in_force
  r_strategy :: "string option"
  r_signal :: "string option"
  r_purpose :: string

text \<open>
  \<open>OrderRequest.__post_init__\<close>. \<open>aware\<close> says whether the datetime handed to the constructor
  carries a time zone; past this check it is an instant.
\<close>

definition new_order_request :: "bool \<Rightarrow> order_request \<Rightarrow> exn + order_request" where
  "new_order_request aware r =
     (if \<not> aware then Inl (value_error ''decided_at must be tz-aware UTC'')
      else if r_purpose r = [] then Inl (value_error ''an order request needs a purpose'')
      else if r_qty r \<noteq> None \<and> r_notional r \<noteq> None
        then Inl (value_error ''a quantity or a notional, not both'')
      else if (case r_qty r of Some q \<Rightarrow> q \<le> 0 | None \<Rightarrow> False)
        then Inl (value_error ''request qty must be positive'')
      else if (case r_notional r of Some n \<Rightarrow> n \<le> 0 | None \<Rightarrow> False)
        then Inl (value_error ''request notional must be positive'')
      else Inr r)"

text \<open>
  The well-formedness of an order's accounting: quantities are amounts a venue states,
  the filled quantity is between zero and the order's, and it is the sum of the fills.
\<close>

definition order_wf :: "order \<Rightarrow> bool" where
  "order_wf o1 \<longleftrightarrow> amount9 (o_qty o1) \<and> amount9 (o_filled o1) \<and> 0 \<le> o_filled o1
     \<and> o_filled o1 \<le> o_qty o1 \<and> o_filled o1 = sum_list (map f_qty (o_fills o1))
     \<and> (\<forall>f \<in> set (o_fills o1). 0 < f_qty f)"

lemma fold_notional_simps [simp]: "or_zero None = 0" "or_zero (Some x) = x"
  by (simp_all add: or_zero_def)

lemma new_order_Inr: "new_order o1 = Inr o2 \<Longrightarrow> o2 = o1 \<and> 0 < o_qty o1 \<and> o_purpose o1 \<noteq> []"
  by (auto simp: new_order_def split: if_splits)

lemma order_defaults_wf: "0 < q \<Longrightarrow> amount9 q \<Longrightarrow> order_wf (order_defaults oid cid sm sd q)"
  by (simp add: order_wf_def order_defaults_def)

lemma order_wfD:
  assumes "order_wf o1"
  shows "amount9 (o_qty o1)" "amount9 (o_filled o1)" "0 \<le> o_filled o1" "o_filled o1 \<le> o_qty o1"
  using assms unfolding order_wf_def by blast+

lemma remaining_wf: "order_wf o1 \<Longrightarrow> remaining_qty o1 = o_qty o1 - o_filled o1"
  unfolding remaining_qty_def by (intro dsub_amount9 order_wfD)

lemma order_apply_fill_guard:
  assumes "order_apply_fill f o1 = Inr o2"
  shows "0 < f_qty f" "f_qty f \<le> remaining_qty o1"
  using assms by (simp_all add: order_apply_fill_def not_less [symmetric] split: if_splits)

lemma order_apply_fill_Inr:
  assumes "order_apply_fill f o1 = Inr o2"
  obtains avg where "o2 = (let o' = o1\<lparr>o_filled := dadd (o_filled o1) (f_qty f), o_avg := Some avg,
      o_fills := o_fills o1 @ [f]\<rparr> in if remaining_qty o' = 0
      then o'\<lparr>o_status := FILLED, o_filled_at := Some (f_ts f)\<rparr>
      else o'\<lparr>o_status := PARTIALLY_FILLED\<rparr>)"
proof -
  note g = order_apply_fill_guard [OF assms]
  then have "\<not> f_qty f \<le> 0" "\<not> remaining_qty o1 < f_qty f" by simp_all
  with assms that show thesis
    unfolding order_apply_fill_def Let_def by (simp only: if_False) (auto simp only: bind_r_eq_Inr sum.inject)
qed

lemma order_apply_fill_cases:
  assumes "order_apply_fill f o1 = Inr o2"
  shows "o_filled o2 = dadd (o_filled o1) (f_qty f)" and "o_fills o2 = o_fills o1 @ [f]"
    and "o_qty o2 = o_qty o1" and "o_side o2 = o_side o1" and "o_symbol o2 = o_symbol o1"
    and "o_status o2 = (if remaining_qty o2 = 0 then FILLED else PARTIALLY_FILLED)"
    and "o_client_id o2 = o_client_id o1" and "o_broker_id o2 = o_broker_id o1"
    and "o_id o2 = o_id o1"
proof -
  obtain avg where o2: "o2 = (let o' = o1\<lparr>o_filled := dadd (o_filled o1) (f_qty f), o_avg := Some avg,
      o_fills := o_fills o1 @ [f]\<rparr> in if remaining_qty o' = 0
      then o'\<lparr>o_status := FILLED, o_filled_at := Some (f_ts f)\<rparr>
      else o'\<lparr>o_status := PARTIALLY_FILLED\<rparr>)"
    using assms by (rule order_apply_fill_Inr)
  show "o_filled o2 = dadd (o_filled o1) (f_qty f)" and "o_fills o2 = o_fills o1 @ [f]"
    and "o_qty o2 = o_qty o1" and "o_side o2 = o_side o1" and "o_symbol o2 = o_symbol o1"
    and "o_status o2 = (if remaining_qty o2 = 0 then FILLED else PARTIALLY_FILLED)"
    and "o_client_id o2 = o_client_id o1" and "o_broker_id o2 = o_broker_id o1"
    and "o_id o2 = o_id o1"
    unfolding o2 by (simp_all add: Let_def remaining_qty_def)
qed

lemma order_apply_fill_wf:
  assumes "order_wf o1" "amount9 (f_qty f)" "order_apply_fill f o1 = Inr o2"
  shows "order_wf o2"
proof -
  note c = order_apply_fill_cases [OF assms(3)] and g = order_apply_fill_guard [OF assms(3)]
    and w = order_wfD [OF assms(1)]
  have le: "f_qty f \<le> o_qty o1 - o_filled o1" using g(2) remaining_wf [OF assms(1)] by simp
  have filled: "o_filled o2 = o_filled o1 + f_qty f"
    unfolding c(1) by (rule dadd_amount9 [OF w(2) assms(2)])
  have "amount9 (o_filled o1 + f_qty f)"
    by (rule amount9_le [OF w(2) assms(2) _ _ w(1)]) (use le g w in simp_all)
  with assms(1) c g le filled show ?thesis by (simp add: order_wf_def)
qed

lemma order_apply_fills_wf:
  assumes "order_wf o1" "\<forall>f \<in> set fs. amount9 (f_qty f)" "order_apply_fills fs o1 = Inr o2"
  shows "order_wf o2 \<and> o_qty o2 = o_qty o1 \<and> o_fills o2 = o_fills o1 @ fs"
  using assms
proof (induction fs arbitrary: o1)
  case (Cons f fs)
  then obtain o' where o': "order_apply_fill f o1 = Inr o'" "order_apply_fills fs o' = Inr o2"
    by (auto simp: bind_r_eq_Inr)
  have wf: "order_wf o'" using Cons.prems(1,2) o'(1) by (auto intro: order_apply_fill_wf)
  from Cons.IH [OF wf _ o'(2)] Cons.prems(2) order_apply_fill_cases [OF o'(1)] show ?case by simp
qed auto

lemma order_apply_fills_status:
  assumes "fs \<noteq> []" "order_apply_fills fs o1 = Inr o2"
  shows "o_status o2 = (if remaining_qty o2 = 0 then FILLED else PARTIALLY_FILLED)"
  using assms
proof (induction fs arbitrary: o1)
  case (Cons f fs)
  then obtain o' where o': "order_apply_fill f o1 = Inr o'" "order_apply_fills fs o' = Inr o2"
    by (auto simp: bind_r_eq_Inr)
  then show ?case using Cons.IH [of o'] order_apply_fill_cases(6) [OF o'(1)] by (cases "fs = []") auto
qed simp

text \<open>
  Any sequence of fills an order accepts keeps its books: the filled quantity is the sum
  of the fills booked, it never exceeds the order's quantity, and the order is \<open>FILLED\<close> exactly
  when nothing remains (and is then left alone: an overfill is refused).
\<close>

theorem order_fills_accounting:
  assumes "order_wf o1" "\<forall>f \<in> set fs. amount9 (f_qty f)" "fs \<noteq> []"
    and "order_apply_fills fs o1 = Inr o2"
  shows "o_filled o2 = o_filled o1 + sum_list (map f_qty fs)
    \<and> 0 \<le> o_filled o2 \<and> o_filled o2 \<le> o_qty o1
    \<and> o_status o2 = (if o_filled o2 = o_qty o1 then FILLED else PARTIALLY_FILLED)"
proof -
  have all: "order_wf o2" "o_qty o2 = o_qty o1" "o_fills o2 = o_fills o1 @ fs"
    using order_apply_fills_wf [OF assms(1,2,4)] by blast+
  have "o_status o2 = (if remaining_qty o2 = 0 then FILLED else PARTIALLY_FILLED)"
    using assms(3,4) by (rule order_apply_fills_status)
  with remaining_wf [OF all(1)] all assms(1) show ?thesis by (auto simp: order_wf_def)
qed

theorem order_fills_accounting_witness:
  "let f = (\<lambda>q p. \<lparr>f_order_id = ''a'', f_ts = 0, f_qty = q, f_price = p, f_fee = 0, f_venue_id = None\<rparr>);
       o1 = order_defaults ''a'' ''c'' ''SPY'' BUY 10;
       r = order_apply_fills [f 4 100, f 6 105] o1
   in is_ok r \<and> (\<forall>o2. r = Inr o2 \<longrightarrow> o_filled o2 = 10 \<and> o_status o2 = FILLED)"
proof -
  define f where "f = (\<lambda>q p. \<lparr>f_order_id = ''a'', f_ts = 0, f_qty = q, f_price = p, f_fee = 0,
    f_venue_id = None\<rparr> :: fill)"
  define o1 where "o1 = order_defaults ''a'' ''c'' ''SPY'' BUY 10"
  define fs where "fs = [f 4 100, f 6 105]"
  have amt: "amount9 4" "amount9 6" "amount9 10" by (simp_all add: amount9_def)
  have wf: "order_wf o1" by (simp add: o1_def order_defaults_wf amt)
  have am: "\<forall>f \<in> set fs. amount9 (f_qty f)" by (simp add: fs_def f_def amt)
  have ne: "fs \<noteq> []" by (simp add: fs_def)
  have ok: "is_ok (order_apply_fills fs o1)"
    by (simp add: fs_def f_def o1_def order_defaults_def order_apply_fill_def remaining_qty_def
        fill_notional_def ddiv_r_def dec_ops)
  moreover have "o_filled o2 = 10 \<and> o_status o2 = FILLED"
    if r: "order_apply_fills fs o1 = Inr o2" for o2
    using order_fills_accounting [OF wf am ne r]
    by (simp add: fs_def f_def o1_def order_defaults_def)
  ultimately show ?thesis unfolding Let_def f_def [symmetric] o1_def [symmetric] fs_def [symmetric]
    by blast
qed

end
