(* ===== verification/Positions.thy ===== *)
theory Positions
  imports Orders
begin

text \<open>
  \<open>domain/position.py\<close>: a holding in one symbol, and the portfolio that owns the holdings. The
  accounting identity of \<open>Position.apply_fill\<close> is stated for fills whose arithmetic needs no
  rounding (\<open>fill_exact\<close>); what each branch does to the basis holds of every fill.
\<close>

record position =
  p_symbol :: string
  p_qty :: dec
  p_avg_entry :: dec
  p_realized :: dec
  p_fees :: dec
  p_opened_at :: "ts option"
  p_last :: "dec option"
  p_stop_loss :: "dec option"
  p_take_profit :: "dec option"
  p_high_water :: "dec option"
  p_broker_protected :: dec

definition new_position :: "string \<Rightarrow> position" where
  "new_position sm = \<lparr>p_symbol = sm, p_qty = 0, p_avg_entry = 0, p_realized = 0, p_fees = 0,
     p_opened_at = None, p_last = None, p_stop_loss = None, p_take_profit = None,
     p_high_water = None, p_broker_protected = 0\<rparr>"

definition is_flat :: "position \<Rightarrow> bool" where "is_flat p \<longleftrightarrow> p_qty p = 0"
definition is_long :: "position \<Rightarrow> bool" where "is_long p \<longleftrightarrow> 0 < p_qty p"
definition is_short :: "position \<Rightarrow> bool" where "is_short p \<longleftrightarrow> p_qty p < 0"

definition unprotected_qty :: "position \<Rightarrow> dec" where
  "unprotected_qty p = max 0 (dsub (dabs (p_qty p)) (p_broker_protected p))"

definition market_value :: "position \<Rightarrow> dec" where
  "market_value p = (case p_last p of None \<Rightarrow> 0 | Some m \<Rightarrow> dmul (p_qty p) m)"

definition exposure :: "position \<Rightarrow> dec" where
  "exposure p = dabs (market_value p)"

definition unrealized_pnl :: "position \<Rightarrow> dec" where
  "unrealized_pnl p = (case p_last p of None \<Rightarrow> 0
     | Some m \<Rightarrow> if is_flat p then 0 else dmul (dsub m (p_avg_entry p)) (p_qty p))"

definition total_pnl :: "position \<Rightarrow> dec" where
  "total_pnl p = dsub (dadd (p_realized p) (unrealized_pnl p)) (p_fees p)"

text \<open>The three cases of \<open>apply_fill\<close>: the new position before the common tail, and the P&L realised.\<close>

definition fill_basis :: "fill \<Rightarrow> dec \<Rightarrow> position \<Rightarrow> dec \<times> position" where
  "fill_basis f signed p =
     (let old = p_qty p; price = f_price f in
      if old = 0 then (0, p\<lparr>p_avg_entry := price, p_opened_at := Some (f_ts f)\<rparr>)
      else if (0 < old) = (0 < signed) then
        let old_abs = dabs old; add_abs = dabs signed
        in (0, p\<lparr>p_avg_entry := ddiv (dadd (dmul (p_avg_entry p) old_abs) (dmul price add_abs))
                                       (dadd old_abs add_abs)\<rparr>)
      else
        let direction = (if 0 < old then 1 else - 1);
            closed = min (dabs signed) (dabs old);
            realized = dmul (dmul closed (dsub price (p_avg_entry p))) direction;
            p1 = p\<lparr>p_realized := dadd (p_realized p) realized\<rparr>
        in (realized, if dabs old < dabs signed
                      then p1\<lparr>p_avg_entry := price, p_opened_at := Some (f_ts f)\<rparr> else p1))"

definition clear_if_flat :: "position \<Rightarrow> position" where
  "clear_if_flat p = (if p_qty p = 0
     then p\<lparr>p_avg_entry := 0, p_opened_at := None, p_stop_loss := None, p_take_profit := None,
            p_high_water := None, p_broker_protected := 0\<rparr> else p)"

definition position_apply_fill :: "fill \<Rightarrow> dec \<Rightarrow> position \<Rightarrow> exn + (dec \<times> position)" where
  "position_apply_fill f signed p =
     (if f_qty f \<le> 0 then Inl (value_error ''fill qty must be positive'')
      else if signed = 0 then Inl (value_error ''signed_qty must be non-zero'')
      else if dabs signed \<noteq> f_qty f then Inl (value_error ''signed_qty magnitude does not match'')
      else
        let (realized, p1) = fill_basis f signed p;
            p2 = p1\<lparr>p_qty := dadd (p_qty p) signed, p_fees := dadd (p_fees p1) (f_fee f),
                    p_last := Some (f_price f)\<rparr>
        in Inr (realized, clear_if_flat p2))"

record portfolio =
  pf_cash :: dec
  pf_starting_equity :: dec
  pf_fees_settled :: dec
  pf_positions :: "position dict"
  pf_equity_curve :: "(ts \<times> dec) list"

definition total_market_value :: "portfolio \<Rightarrow> dec" where
  "total_market_value pf = dsum (map market_value (dict_values (pf_positions pf)))"

definition equity :: "portfolio \<Rightarrow> dec" where
  "equity pf = dadd (pf_cash pf) (total_market_value pf)"

definition gross_exposure :: "portfolio \<Rightarrow> dec" where
  "gross_exposure pf = dsum (map exposure (dict_values (pf_positions pf)))"

definition net_exposure :: "portfolio \<Rightarrow> dec" where
  "net_exposure pf = total_market_value pf"

definition leverage :: "portfolio \<Rightarrow> dec" where
  "leverage pf = (let eq = equity pf in if eq \<noteq> 0 then ddiv (gross_exposure pf) eq else 0)"

definition open_positions :: "portfolio \<Rightarrow> position list" where
  "open_positions pf = filter (\<lambda>p. \<not> is_flat p) (dict_values (pf_positions pf))"

definition unmarked_symbols :: "portfolio \<Rightarrow> string list" where
  "unmarked_symbols pf = str_sort (map p_symbol
     (filter (\<lambda>p. \<not> is_flat p \<and> p_last p = None) (dict_values (pf_positions pf))))"

text \<open>
  \<open>Portfolio.position\<close> is a \<open>setdefault\<close>: the book after the call, and the position it returns.
\<close>

definition touch_position :: "string \<Rightarrow> portfolio \<Rightarrow> portfolio" where
  "touch_position sm pf = pf\<lparr>pf_positions := dict_setdefault sm (new_position sm) (pf_positions pf)\<rparr>"

definition position_of :: "string \<Rightarrow> portfolio \<Rightarrow> position" where
  "position_of sm pf = dict_get_or (pf_positions pf) sm (new_position sm)"

definition put_position :: "string \<Rightarrow> position \<Rightarrow> portfolio \<Rightarrow> portfolio" where
  "put_position sm p pf = pf\<lparr>pf_positions := dict_set sm p (pf_positions pf)\<rparr>"

definition mark :: "string \<Rightarrow> dec \<Rightarrow> ts \<Rightarrow> portfolio \<Rightarrow> portfolio" where
  "mark sm price t pf =
     (let pf1 = put_position sm ((position_of sm pf)\<lparr>p_last := Some price\<rparr>) pf
      in pf1\<lparr>pf_equity_curve := pf_equity_curve pf1 @ [(t, equity pf1)]\<rparr>)"

text \<open>No arithmetic of this fill needs more than 28 digits.\<close>

definition fill_exact :: "fill \<Rightarrow> dec \<Rightarrow> position \<Rightarrow> bool" where
  "fill_exact f s p \<longleftrightarrow>
     (let q = p_qty p; a = p_avg_entry p; x = f_price f; c = min \<bar>s\<bar> \<bar>q\<bar> in
      exact28 s \<and> exact28 q \<and> exact28 (q + s) \<and> exact28 (a * \<bar>q\<bar>) \<and> exact28 (x * \<bar>s\<bar>)
      \<and> exact28 (a * \<bar>q\<bar> + x * \<bar>s\<bar>) \<and> exact28 (\<bar>q\<bar> + \<bar>s\<bar>)
      \<and> exact28 ((a * \<bar>q\<bar> + x * \<bar>s\<bar>) / (\<bar>q\<bar> + \<bar>s\<bar>))
      \<and> exact28 (x - a) \<and> exact28 (c * (x - a)) \<and> exact28 (p_realized p + c * (x - a))
      \<and> exact28 (p_realized p - c * (x - a)))"

text \<open>The cost of the open quantity less what has been realised: the money put in, net.\<close>

definition invested :: "position \<Rightarrow> dec" where
  "invested p = p_qty p * p_avg_entry p - p_realized p"

text \<open>What a position owes its own quantity: a flat one carries no basis and no protection.\<close>

definition position_wf :: "position \<Rightarrow> bool" where
  "position_wf p \<longleftrightarrow> (p_qty p = 0 \<longrightarrow> p_avg_entry p = 0 \<and> p_opened_at p = None \<and> p_stop_loss p = None
     \<and> p_take_profit p = None \<and> p_high_water p = None \<and> p_broker_protected p = 0)"

lemma is_flat_cases: "is_flat p \<or> is_long p \<or> is_short p"
  by (auto simp: is_flat_def is_long_def is_short_def)

lemma new_position_simps [simp]:
  "p_symbol (new_position sm) = sm" "p_qty (new_position sm) = 0" "p_last (new_position sm) = None"
  "is_flat (new_position sm)"
  by (simp_all add: new_position_def is_flat_def)

lemma market_value_flat: "is_flat p \<Longrightarrow> market_value p = 0"
  by (simp add: market_value_def is_flat_def dmul_def split: option.split)

lemma exposure_nonneg [simp]: "0 \<le> exposure p"
  by (simp add: exposure_def)

lemma gross_exposure_nonneg: "0 \<le> gross_exposure pf"
  by (auto simp: gross_exposure_def intro!: dsum_nonneg)

lemma unprotected_nonneg: "0 \<le> unprotected_qty p"
  by (simp add: unprotected_qty_def)

lemma clear_if_flat_simps [simp]:
  "p_qty (clear_if_flat p) = p_qty p" "p_realized (clear_if_flat p) = p_realized p"
  "p_fees (clear_if_flat p) = p_fees p" "p_last (clear_if_flat p) = p_last p"
  "p_symbol (clear_if_flat p) = p_symbol p"
  by (simp_all add: clear_if_flat_def)

lemma clear_if_flat_wf: "position_wf (clear_if_flat p)"
  by (simp add: clear_if_flat_def position_wf_def)

lemma clear_if_flat_open: "p_qty p \<noteq> 0 \<Longrightarrow> clear_if_flat p = p"
  by (simp add: clear_if_flat_def)

lemma invested_clear: "invested (clear_if_flat p) = invested p"
  by (cases "p_qty p = 0") (simp_all add: invested_def clear_if_flat_def)

lemma position_of_touch [simp]: "position_of sm (touch_position sm pf) = position_of sm pf"
  by (simp add: position_of_def touch_position_def dict_get_or_def)

lemma position_of_put [simp]:
  "position_of sm' (put_position sm p pf) = (if sm' = sm then p else position_of sm' pf)"
  by (simp add: position_of_def put_position_def dict_get_or_def)

lemma position_apply_fill_Inr:
  assumes "position_apply_fill f s p = Inr (r, p')"
  shows "0 < f_qty f" "s \<noteq> 0" "dabs s = f_qty f" "r = fst (fill_basis f s p)"
    and "p' = clear_if_flat ((snd (fill_basis f s p))\<lparr>p_qty := dadd (p_qty p) s,
           p_fees := dadd (p_fees (snd (fill_basis f s p))) (f_fee f), p_last := Some (f_price f)\<rparr>)"
  using assms
  by (auto simp: position_apply_fill_def Let_def not_le split: if_splits prod.splits)

lemma fill_basis_frame [simp]:
  "p_fees (snd (fill_basis f s p)) = p_fees p" "p_symbol (snd (fill_basis f s p)) = p_symbol p"
  "p_stop_loss (snd (fill_basis f s p)) = p_stop_loss p"
  by (simp_all add: fill_basis_def Let_def)

lemma position_apply_fill_frame:
  assumes "position_apply_fill f s p = Inr (r, p')"
  shows "p_qty p' = dadd (p_qty p) s" and "p_fees p' = dadd (p_fees p) (f_fee f)"
    and "p_last p' = Some (f_price f)" and "p_symbol p' = p_symbol p" and "position_wf p'"
  unfolding position_apply_fill_Inr(5) [OF assms] by (simp_all add: clear_if_flat_wf)

text \<open>The money identity of one case each, on exact arithmetic.\<close>

lemma invested_fill_basis:
  assumes ex: "fill_exact f s p" and s: "s \<noteq> 0"
  shows "(p_qty p + s) * p_avg_entry (snd (fill_basis f s p)) - p_realized (snd (fill_basis f s p))
         = invested p + s * f_price f"
proof -
  let ?q = "p_qty p" and ?a = "p_avg_entry p" and ?x = "f_price f"
  have e: "exact28 s" "exact28 ?q" "exact28 (?a * \<bar>?q\<bar>)" "exact28 (?x * \<bar>s\<bar>)"
    "exact28 (?a * \<bar>?q\<bar> + ?x * \<bar>s\<bar>)" "exact28 (\<bar>?q\<bar> + \<bar>s\<bar>)"
    "exact28 ((?a * \<bar>?q\<bar> + ?x * \<bar>s\<bar>) / (\<bar>?q\<bar> + \<bar>s\<bar>))" "exact28 (?x - ?a)"
    "exact28 (min \<bar>s\<bar> \<bar>?q\<bar> * (?x - ?a))" "exact28 (p_realized p + min \<bar>s\<bar> \<bar>?q\<bar> * (?x - ?a))"
    "exact28 (p_realized p - min \<bar>s\<bar> \<bar>?q\<bar> * (?x - ?a))"
    using ex by (simp_all add: fill_exact_def Let_def)
  have abs: "dabs s = \<bar>s\<bar>" "dabs ?q = \<bar>?q\<bar>" using e by (simp_all add: dabs_exact)
  consider (flat) "?q = 0" | (add) "?q \<noteq> 0" "(0 < ?q) = (0 < s)" | (reduce) "?q \<noteq> 0" "(0 < ?q) \<noteq> (0 < s)"
    by blast
  then show ?thesis
  proof cases
    case flat
    then show ?thesis by (simp add: fill_basis_def invested_def)
  next
    case add
    then have sgn: "(?q + s) = (if 0 < ?q then 1 else - 1) * (\<bar>?q\<bar> + \<bar>s\<bar>)" "\<bar>?q\<bar> + \<bar>s\<bar> \<noteq> 0"
      using s by (auto simp: abs_if)
    have "p_avg_entry (snd (fill_basis f s p)) = (?a * \<bar>?q\<bar> + ?x * \<bar>s\<bar>) / (\<bar>?q\<bar> + \<bar>s\<bar>)"
      using add e by (simp add: fill_basis_def Let_def abs dmul_def dadd_def ddiv_def rnd_exact)
    moreover have "p_realized (snd (fill_basis f s p)) = p_realized p"
      using add by (simp add: fill_basis_def Let_def)
    ultimately have "(?q + s) * p_avg_entry (snd (fill_basis f s p)) - p_realized (snd (fill_basis f s p))
        = (if 0 < ?q then 1 else - 1) * (?a * \<bar>?q\<bar> + ?x * \<bar>s\<bar>) - p_realized p"
      using sgn by simp
    also have "\<dots> = invested p + s * ?x"
      using add s by (auto simp: invested_def abs_if algebra_simps)
    finally show ?thesis .
  next
    case reduce
    define c where "c = min \<bar>s\<bar> \<bar>?q\<bar>"
    note ec = e(8,9,10,11) [folded c_def]
    have "p_realized (snd (fill_basis f s p))
        = dadd (p_realized p) (dmul (dmul c (dsub ?x ?a)) (if 0 < ?q then 1 else - 1))"
      using reduce by (simp add: fill_basis_def Let_def abs c_def)
    then have "p_realized (snd (fill_basis f s p)) = p_realized p + (if 0 < ?q then 1 else - 1) * (c * (?x - ?a))"
      using ec by (simp add: dmul_def dadd_def dsub_def rnd_exact rnd_minus)
    moreover have "p_avg_entry (snd (fill_basis f s p)) = (if \<bar>?q\<bar> < \<bar>s\<bar> then ?x else ?a)"
      using reduce by (simp add: fill_basis_def Let_def abs)
    ultimately show ?thesis
      using reduce s by (auto simp: c_def invested_def abs_if min_def algebra_simps split: if_splits)
  qed
qed

text \<open>
  The money identity of \<open>Position.apply_fill\<close>, over its three cases (open or add, reduce or
  close, flip): what is invested, the open quantity at its basis less the P&L already realised,
  moves by exactly the signed notional of the fill. No P&L is created or lost by any of them.
\<close>

theorem position_fill_conserves_money:
  assumes "fill_exact f s p" "position_apply_fill f s p = Inr (r, p')"
  shows "invested p' = invested p + s * f_price f \<and> p_qty p' = p_qty p + s"
proof -
  note i = position_apply_fill_Inr [OF assms(2)]
  have "exact28 (p_qty p + s)" using assms(1) by (simp add: fill_exact_def Let_def)
  then have q: "dadd (p_qty p) s = p_qty p + s" by (simp add: dadd_def rnd_exact)
  have "invested p' = (p_qty p + s) * p_avg_entry (snd (fill_basis f s p))
      - p_realized (snd (fill_basis f s p))"
    unfolding i(5) invested_clear by (simp add: invested_def q)
  with invested_fill_basis [OF assms(1) i(2)] position_apply_fill_frame(1) [OF assms(2)] q
  show ?thesis by simp
qed

theorem position_fill_conserves_money_witness:
  "let f = \<lparr>f_order_id = ''a'', f_ts = 7, f_qty = 15, f_price = 110, f_fee = 0, f_venue_id = None\<rparr>;
       p = (new_position ''SPY'')\<lparr>p_qty := 10, p_avg_entry := 100\<rparr>;
       p' = p\<lparr>p_qty := - 5, p_avg_entry := 110, p_realized := 100, p_opened_at := Some 7,
              p_last := Some 110\<rparr>
   in fill_exact f (- 15) p \<and> position_apply_fill f (- 15) p = Inr (100, p')
      \<and> invested p' = invested p + (- 15) * 110"
proof -
  define f where "f = \<lparr>f_order_id = ''a'', f_ts = 7, f_qty = 15, f_price = 110, f_fee = 0, f_venue_id = None\<rparr>"
  define p where "p = (new_position ''SPY'')\<lparr>p_qty := 10, p_avg_entry := 100\<rparr>"
  define p' where "p' = p\<lparr>p_qty := - 5, p_avg_entry := 110, p_realized := 100, p_opened_at := Some 7,
    p_last := Some 110\<rparr>"
  have ex: "fill_exact f (- 15) p"
    by (simp add: fill_exact_def f_def p_def new_position_def exact28_def min_def)
  have ap: "position_apply_fill f (- 15) p = Inr (100, p')"
    by (simp add: position_apply_fill_def fill_basis_def clear_if_flat_def f_def p_def p'_def
        new_position_def dec_ops min_def Let_def)
  have "invested p' = invested p + (- 15) * f_price f"
    using position_fill_conserves_money [OF ex ap] by blast
  with ex ap show ?thesis unfolding Let_def f_def [symmetric] p_def [symmetric] p'_def [symmetric]
    by (simp add: f_def)
qed

text \<open>
  Which side of a fill moves the basis, for every fill the position accepts, rounding
  included: opening sets it to the price, reducing leaves it, a flip restarts it at the price;
  a position left flat keeps no basis, no protective level and no venue cover; the P&L a
  reduction realises has the sign of the price's move in the position's favour.
\<close>

theorem position_fill_basis:
  assumes "position_apply_fill f s p = Inr (r, p')"
  shows "position_wf p'
    \<and> (is_flat p \<longrightarrow> r = 0 \<and> (\<not> is_flat p' \<longrightarrow> p_avg_entry p' = f_price f))
    \<and> (is_long p \<and> s < 0 \<or> is_short p \<and> 0 < s \<longrightarrow>
        (\<not> is_flat p' \<longrightarrow> p_avg_entry p' = (if dabs (p_qty p) < dabs s then f_price f else p_avg_entry p))
        \<and> (0 < r \<longleftrightarrow> (if is_long p then p_avg_entry p < f_price f else f_price f < p_avg_entry p)))
    \<and> (is_long p \<and> 0 < s \<or> is_short p \<and> s < 0 \<longrightarrow> r = 0 \<and> p_realized p' = p_realized p)"
proof -
  note i = position_apply_fill_Inr [OF assms]
  have q: "p_qty p' = dadd (p_qty p) s" by (rule position_apply_fill_frame(1) [OF assms])
  have p': "\<not> is_flat p' \<Longrightarrow> p_avg_entry p' = p_avg_entry (snd (fill_basis f s p))"
    using q unfolding i(5) by (simp add: clear_if_flat_def is_flat_def)
  have pos: "0 < dabs (p_qty p)" "0 < dabs s" if "\<not> is_flat p"
    using that i(2) by (simp_all add: is_flat_def less_le)
  have r: "0 < r \<longleftrightarrow> (if is_long p then p_avg_entry p < f_price f else f_price f < p_avg_entry p)"
    if "is_long p \<and> s < 0 \<or> is_short p \<and> 0 < s"
    using that i(4) pos
    by (auto simp: fill_basis_def Let_def is_long_def is_short_def is_flat_def dmul_def dsub_def
        zero_less_mult_iff mult_less_0_iff min_def split: if_splits)
  have real: "p_realized p' = p_realized (snd (fill_basis f s p))" unfolding i(5) by simp
  show ?thesis
    using position_apply_fill_frame(5) [OF assms] i(4) p' r real
    by (auto simp: fill_basis_def Let_def is_flat_def is_long_def is_short_def)
qed

theorem position_fill_basis_witness:
  "let f = \<lparr>f_order_id = ''a'', f_ts = 7, f_qty = 4, f_price = 110, f_fee = 0, f_venue_id = None\<rparr>;
       p = (new_position ''SPY'')\<lparr>p_qty := 10, p_avg_entry := 100\<rparr>;
       p' = p\<lparr>p_qty := 6, p_realized := 40, p_last := Some 110\<rparr>
   in position_apply_fill f (- 4) p = Inr (40, p') \<and> position_wf p' \<and> p_avg_entry p' = 100"
proof -
  define f where "f = \<lparr>f_order_id = ''a'', f_ts = 7, f_qty = 4, f_price = 110, f_fee = 0, f_venue_id = None\<rparr>"
  define p where "p = (new_position ''SPY'')\<lparr>p_qty := 10, p_avg_entry := 100\<rparr>"
  define p' where "p' = p\<lparr>p_qty := 6, p_realized := 40, p_last := Some 110\<rparr>"
  have ap: "position_apply_fill f (- 4) p = Inr (40, p')"
    by (simp add: position_apply_fill_def fill_basis_def clear_if_flat_def f_def p_def p'_def
        new_position_def dec_ops min_def Let_def)
  have "position_wf p'" using position_fill_basis [OF ap] by blast
  with ap show ?thesis unfolding Let_def f_def [symmetric] p_def [symmetric] p'_def [symmetric]
    by (simp add: p'_def p_def)
qed

end
