(* ===== verification/OrderState.thy ===== *)
theory OrderState
  imports Orders
begin

text \<open>
  \<open>execution/state.py\<close> (the transition table and \<open>transition\<close>), \<open>execution/trade_updates.py\<close> (one
  pushed venue event folded into an order) and \<open>execution/recovery.py\<close> (the events a missed
  stream would have carried, reconstructed from the venue's running totals).

  \<open>apply_trade_update\<close> returns the order beside the outcome: the code mutates the order before
  some of its refusals, and what it did stays done.
\<close>

fun TRANSITIONS :: "order_status \<Rightarrow> order_status list" where
  "TRANSITIONS PENDING_RISK = [PENDING_SUBMIT, REJECTED_RISK]"
| "TRANSITIONS PENDING_SUBMIT = [SUBMITTED, REJECTED, CANCELLED]"
| "TRANSITIONS SUBMITTED = [PARTIALLY_FILLED, FILLED, CANCELLED, REJECTED, EXPIRED]"
| "TRANSITIONS PARTIALLY_FILLED = [PARTIALLY_FILLED, FILLED, CANCELLED, EXPIRED]"
| "TRANSITIONS FILLED = []"
| "TRANSITIONS CANCELLED = []"
| "TRANSITIONS REJECTED = []"
| "TRANSITIONS REJECTED_RISK = []"
| "TRANSITIONS EXPIRED = []"

definition can_transition :: "order_status \<Rightarrow> order_status \<Rightarrow> bool" where
  "can_transition current target \<longleftrightarrow> target \<in> set (TRANSITIONS current)"

definition assert_transition :: "order_status \<Rightarrow> order_status \<Rightarrow> exn + unit" where
  "assert_transition current target =
     guard_r (can_transition current target) (InvalidStateTransitionError current target)"

definition is_stale_event :: "order_status \<Rightarrow> order_status \<Rightarrow> bool" where
  "is_stale_event current incoming \<longleftrightarrow> is_terminal current \<and> incoming \<noteq> current"

definition record_move ::
  "order_status \<Rightarrow> ts option \<Rightarrow> reason option \<Rightarrow> string option \<Rightarrow> order \<Rightarrow> order" where
  "record_move target tm why who o1 =
     (let o2 = o1\<lparr>o_status := target\<rparr>;
          o3 = (if target = SUBMITTED \<and> tm \<noteq> None then o2\<lparr>o_submitted_at := tm\<rparr> else o2)
      in if target = REJECTED \<or> target = REJECTED_RISK
         then (let o4 = (if why \<noteq> None then o3\<lparr>o_reject_reason := why\<rparr> else o3)
               in if who \<noteq> None then o4\<lparr>o_rejected_by := who\<rparr> else o4)
         else o3)"

definition transition ::
  "order_status \<Rightarrow> ts option \<Rightarrow> reason option \<Rightarrow> string option \<Rightarrow> order \<Rightarrow> exn + (bool \<times> order)" where
  "transition target tm why who o1 =
     (let current = o_status o1 in
      if current = target then Inr (False, o1)
      else if is_stale_event current target then Inr (False, o1)
      else bind_r (assert_transition current target) (\<lambda>_.
             Inr (True, record_move target tm why who o1)))"

record trade_update =
  u_event :: string
  u_client_id :: string
  u_broker_id :: string
  u_symbol :: string
  u_at :: ts
  u_status :: "order_status option"
  u_fill :: "fill option"
  u_reason :: "reason option"
  u_broker :: "string option"

definition CAN_FILL :: "order_status list" where
  "CAN_FILL = filter (\<lambda>s. can_transition s PARTIALLY_FILLED)
     [PENDING_RISK, REJECTED_RISK, PENDING_SUBMIT, SUBMITTED, PARTIALLY_FILLED, FILLED,
      CANCELLED, REJECTED, EXPIRED]"

definition PRE_ACK :: "order_status list" where
  "PRE_ACK = [PENDING_RISK, PENDING_SUBMIT]"

definition already_seen :: "order \<Rightarrow> fill \<Rightarrow> bool" where
  "already_seen o1 f \<longleftrightarrow> (case f_venue_id f of None \<Rightarrow> False
     | Some v \<Rightarrow> \<exists>seen \<in> set (o_fills o1). f_venue_id seen = Some v)"

text \<open>The two implied transitions of a fill that arrives before its acknowledgement.\<close>

definition acknowledge :: "ts \<Rightarrow> order \<Rightarrow> exn + order" where
  "acknowledge tm o1 =
     bind_r (if o_status o1 = PENDING_RISK
             then bind_r (transition PENDING_SUBMIT None None None o1) (\<lambda>r. Inr (snd r))
             else Inr o1) (\<lambda>o2.
     bind_r (transition SUBMITTED (Some tm) None None o2) (\<lambda>r. Inr (snd r)))"

definition apply_fill_event :: "trade_update \<Rightarrow> fill \<Rightarrow> order \<Rightarrow> (exn + bool) \<times> order" where
  "apply_fill_event u f o1 =
     (if already_seen o1 f then (Inr False, o1)
      else case (if o_status o1 \<in> set PRE_ACK then acknowledge (u_at u) o1 else Inr o1) of
          Inl e \<Rightarrow> (Inl e, o1)
        | Inr o2 \<Rightarrow>
            if o_status o2 \<notin> set CAN_FILL
              then (Inl (ReconciliationError (Reason ''a fill cannot be applied from that status'' [] [])), o2)
            else if remaining_qty o2 < f_qty f
              then (Inl (ReconciliationError (Reason ''our book and the venue disagree'' [] [])), o2)
            else (case order_apply_fill f o2 of Inl e \<Rightarrow> (Inl e, o2) | Inr o3 \<Rightarrow> (Inr True, o3)))"

definition apply_status_event :: "trade_update \<Rightarrow> order \<Rightarrow> (exn + bool) \<times> order" where
  "apply_status_event u o1 =
     (case u_status u of None \<Rightarrow> (Inr False, o1)
      | Some s \<Rightarrow> (case transition s (Some (u_at u)) (u_reason u) (u_broker u) o1 of
            Inl e \<Rightarrow> (Inl e, o1) | Inr (changed, o2) \<Rightarrow> (Inr changed, o2)))"

definition apply_trade_update :: "trade_update \<Rightarrow> order \<Rightarrow> (exn + bool) \<times> order" where
  "apply_trade_update u o1 =
     (if u_client_id u \<noteq> o_client_id o1
        then (Inl (ReconciliationError (Reason ''refusing to fill the wrong order'' [] [])), o1)
      else
        let o2 = (if o_broker_id o1 = None then o1\<lparr>o_broker_id := Some (u_broker_id u)\<rparr> else o1)
        in case u_fill u of Some f \<Rightarrow> apply_fill_event u f o2 | None \<Rightarrow> apply_status_event u o2)"

text \<open>A run of events over one order: it stops at the first refusal.\<close>

fun apply_trade_updates :: "trade_update list \<Rightarrow> order \<Rightarrow> exn + order" where
  "apply_trade_updates [] o1 = Inr o1"
| "apply_trade_updates (u # us) o1 =
     (case apply_trade_update u o1 of (Inl e, _) \<Rightarrow> Inl e | (Inr _, o2) \<Rightarrow> apply_trade_updates us o2)"

text \<open>\<open>execution/recovery.py\<close>. \<open>fill_key\<close> is the synthetic identity \<open>rest_recovery:<id>:<qty>\<close>.\<close>

definition RECOVERED :: string where "RECOVERED = ''rest_recovery''"

definition FILL_OWNED :: "order_status list" where "FILL_OWNED = [FILLED, PARTIALLY_FILLED]"

definition reconstruct_fill ::
  "(string option \<Rightarrow> dec \<Rightarrow> string) \<Rightarrow> order \<Rightarrow> order \<Rightarrow> dec \<Rightarrow> ts \<Rightarrow> fill option" where
  "reconstruct_fill fill_key ours theirs missing tm =
     (case o_avg theirs of None \<Rightarrow> None
      | Some their_avg \<Rightarrow>
          let their_notional = dmul their_avg (o_filled theirs);
              our_notional = dmul (or_zero (o_avg ours)) (o_filled ours);
              price = ddiv (dsub their_notional our_notional) missing
          in if price \<le> 0 then None
             else Some \<lparr>f_order_id = o_id ours, f_ts = tm, f_qty = missing, f_price = price, f_fee = 0,
                        f_venue_id = Some (fill_key (o_broker_id theirs) (o_filled theirs))\<rparr>)"

definition recovered_update :: "order \<Rightarrow> order \<Rightarrow> ts \<Rightarrow> string option \<Rightarrow> trade_update" where
  "recovered_update ours theirs tm broker =
     \<lparr>u_event = RECOVERED, u_client_id = o_client_id ours,
      u_broker_id = (case o_broker_id theirs of Some b \<Rightarrow> if b \<noteq> [] then b else (case o_broker_id ours of Some c \<Rightarrow> c | None \<Rightarrow> [])
                     | None \<Rightarrow> (case o_broker_id ours of Some c \<Rightarrow> c | None \<Rightarrow> [])),
      u_symbol = o_symbol ours, u_at = tm, u_status = None, u_fill = None, u_reason = None,
      u_broker = broker\<rparr>"

definition missed_updates ::
  "(string option \<Rightarrow> dec \<Rightarrow> string) \<Rightarrow> order \<Rightarrow> order \<Rightarrow> ts \<Rightarrow> string option \<Rightarrow> trade_update list" where
  "missed_updates fill_key ours theirs now broker =
     (let tm = (case o_filled_at theirs of Some t \<Rightarrow> t | None \<Rightarrow> now);
          base = recovered_update ours theirs tm broker;
          missing = dsub (o_filled theirs) (o_filled ours);
          status = (if o_status theirs \<notin> set FILL_OWNED \<and> o_status theirs \<noteq> o_status ours
                    then [base\<lparr>u_status := Some (o_status theirs), u_reason := o_reject_reason theirs\<rparr>]
                    else [])
      in if missing < 0 then []
         else if 0 < missing
         then (case reconstruct_fill fill_key ours theirs missing tm of
                 None \<Rightarrow> []
               | Some f \<Rightarrow> base\<lparr>u_fill := Some f\<rparr> # status)
         else status)"

text \<open>One venue event happening to an order: what a stream can do to our book.\<close>

inductive venue_step :: "order \<Rightarrow> order \<Rightarrow> bool" where
  update: "apply_trade_update u o1 = (r, o2) \<Longrightarrow> venue_step o1 o2"

inductive venue_run :: "order \<Rightarrow> order \<Rightarrow> bool" where
  refl: "venue_run o1 o1"
| step: "venue_run o1 o2 \<Longrightarrow> venue_step o2 o3 \<Longrightarrow> venue_run o1 o3"

text \<open>Which statuses an order can move through, reflexively: the table's closure.\<close>

inductive status_path :: "order_status \<Rightarrow> order_status \<Rightarrow> bool" where
  here: "status_path s s"
| move: "status_path a b \<Longrightarrow> can_transition b c \<Longrightarrow> status_path a c"

inductive_simps venue_step_simp: "venue_step o1 o2"
inductive_cases status_path_cases: "status_path a b"

lemma CAN_FILL_eq: "CAN_FILL = [SUBMITTED, PARTIALLY_FILLED]"
  by (simp add: CAN_FILL_def can_transition_def)

lemma terminal_no_transition: "is_terminal s \<Longrightarrow> \<not> can_transition s t"
  by (cases s) (simp_all add: can_transition_def)

lemma not_terminal_has_transition: "\<not> is_terminal s \<Longrightarrow> \<exists>t. can_transition s t"
  by (cases s) (auto simp: can_transition_def)

lemma status_path_trans: "status_path b c \<Longrightarrow> status_path a b \<Longrightarrow> status_path a c"
  by (induction rule: status_path.induct) (auto intro: status_path.move)

lemma status_path_terminal:
  assumes "status_path a b" "is_terminal a"
  shows "b = a"
  using assms by (induction rule: status_path.induct) (auto simp: terminal_no_transition)

lemma record_move_simps [simp]:
  "o_status (record_move t tm why who o1) = t" "o_filled (record_move t tm why who o1) = o_filled o1"
  "o_fills (record_move t tm why who o1) = o_fills o1" "o_avg (record_move t tm why who o1) = o_avg o1"
  "o_qty (record_move t tm why who o1) = o_qty o1"
  "o_client_id (record_move t tm why who o1) = o_client_id o1"
  "o_broker_id (record_move t tm why who o1) = o_broker_id o1"
  by (simp_all add: record_move_def Let_def)

lemma transition_cases:
  assumes "transition t tm why who o1 = Inr (ch, o2)"
  shows "\<not> ch \<and> o2 = o1 \<and> (o_status o1 = t \<or> is_terminal (o_status o1))
         \<or> ch \<and> can_transition (o_status o1) t \<and> o2 = record_move t tm why who o1"
  using assms
  by (auto simp: transition_def Let_def is_stale_event_def assert_transition_def bind_r_eq_Inr
      split: if_splits)

lemma transition_path:
  "transition t tm why who o1 = Inr (ch, o2) \<Longrightarrow> status_path (o_status o1) (o_status o2)"
  by (drule transition_cases) (auto intro: status_path.intros)

lemma acknowledge_path:
  assumes "acknowledge tm o1 = Inr o2"
  shows "status_path (o_status o1) (o_status o2)" "o_fills o2 = o_fills o1" "o_filled o2 = o_filled o1"
    "o_qty o2 = o_qty o1"
proof -
  obtain o' c1 c2 where o': "(if o_status o1 = PENDING_RISK then transition PENDING_SUBMIT None None None o1 else Inr (c1, o1)) = Inr (c1, o')"
    "transition SUBMITTED (Some tm) None None o' = Inr (c2, o2)"
    using assms by (auto simp: acknowledge_def bind_r_eq_Inr split: if_splits)
  have 1: "status_path (o_status o1) (o_status o')"
    using o'(1) by (auto split: if_splits intro: status_path.here dest: transition_path)
  show "status_path (o_status o1) (o_status o2)"
    by (rule status_path_trans [OF transition_path [OF o'(2)] 1])
  have "o_fills o' = o_fills o1 \<and> o_filled o' = o_filled o1 \<and> o_qty o' = o_qty o1"
    using o'(1) transition_cases by (fastforce split: if_splits)
  with transition_cases [OF o'(2)]
  show "o_fills o2 = o_fills o1" "o_filled o2 = o_filled o1" "o_qty o2 = o_qty o1" by auto
qed

lemma fill_path:
  assumes "o_status o1 \<in> set CAN_FILL" "order_apply_fill f o1 = Inr o2"
  shows "status_path (o_status o1) (o_status o2)"
proof -
  have "can_transition (o_status o1) (o_status o2)"
    using assms(1) order_apply_fill_cases(6) [OF assms(2)]
    by (auto simp: CAN_FILL_eq can_transition_def)
  then show ?thesis by (blast intro: status_path.intros)
qed

lemma apply_trade_update_path:
  assumes "apply_trade_update u o1 = (r, o2)"
  shows "status_path (o_status o1) (o_status o2)"
proof -
  define oa where "oa = (if o_broker_id o1 = None then o1\<lparr>o_broker_id := Some (u_broker_id u)\<rparr> else o1)"
  have oa: "o_status oa = o_status o1" by (simp add: oa_def)
  have fill: "status_path (o_status oa) (o_status o2)" if f: "apply_fill_event u f oa = (r, o2)" for f
  proof -
    define ack where "ack = (if o_status oa \<in> set PRE_ACK then acknowledge (u_at u) oa else Inr oa)"
    have p: "status_path (o_status oa) (o_status ob)" if "ack = Inr ob" for ob
      using that by (auto simp: ack_def intro: acknowledge_path(1) status_path.here split: if_splits)
    show ?thesis
      using f p unfolding apply_fill_event_def ack_def [symmetric]
      by (auto split: if_splits sum.splits intro: status_path.here
          dest: fill_path elim: status_path_trans)
  qed
  have stat: "status_path (o_status oa) (o_status o2)" if "apply_status_event u oa = (r, o2)"
    using that
    by (auto simp: apply_status_event_def split: option.splits sum.splits prod.splits
        intro: transition_path status_path.here)
  show ?thesis
    using assms fill stat oa unfolding apply_trade_update_def oa_def [symmetric] Let_def
    by (auto split: if_splits option.splits intro: status_path.here)
qed

lemma venue_run_path: "venue_run o1 o2 \<Longrightarrow> status_path (o_status o1) (o_status o2)"
proof (induction rule: venue_run.induct)
  case (step o1 o2 o3)
  then obtain u r where u: "apply_trade_update u o2 = (r, o3)" by (auto simp: venue_step_simp)
  show ?case by (rule status_path_trans [OF apply_trade_update_path [OF u] step.IH])
qed (rule status_path.here)

text \<open>A terminal order: every event is refused or discarded, and only a missing venue id is learnt.\<close>

lemma terminal_event_frame:
  assumes "is_terminal (o_status o1)" "apply_trade_update u o1 = (r, o2)"
  shows "\<exists>b. o2 = o1\<lparr>o_broker_id := b\<rparr>"
proof -
  have n: "o_status o1 \<notin> set CAN_FILL" "o_status o1 \<notin> set PRE_ACK"
    using assms(1) by (cases "o_status o1"; simp add: CAN_FILL_eq PRE_ACK_def)+
  have id: "o1 = o1\<lparr>o_broker_id := o_broker_id o1\<rparr>" by simp
  have "o2 = o1\<lparr>o_broker_id := o_broker_id o1\<rparr> \<or> o2 = o1\<lparr>o_broker_id := Some (u_broker_id u)\<rparr>"
    using assms n
    by (auto simp: apply_trade_update_def Let_def apply_fill_event_def apply_status_event_def
        transition_def is_stale_event_def split: if_splits option.splits)
  then show ?thesis by blast
qed

text \<open>
  C20. The order state machine's safety: once an order is terminal, no sequence of venue events,
  in any order and from any replay, changes its status, its fills, its quantity or its average:
  at most a venue identifier it did not have is recorded. Every status a run reaches is
  reachable through the transition table.
\<close>

theorem terminal_orders_stay:
  assumes "venue_run o1 o2"
  shows "status_path (o_status o1) (o_status o2)
    \<and> (is_terminal (o_status o1) \<longrightarrow> (\<exists>b. o2 = o1\<lparr>o_broker_id := b\<rparr>))"
proof
  show "status_path (o_status o1) (o_status o2)" by (rule venue_run_path [OF assms])
  show "is_terminal (o_status o1) \<longrightarrow> (\<exists>b. o2 = o1\<lparr>o_broker_id := b\<rparr>)"
    using assms
  proof (induction rule: venue_run.induct)
    case (refl o1)
    have "o1 = o1\<lparr>o_broker_id := o_broker_id o1\<rparr>" by simp
    then show ?case by blast
  next
    case (step o1 o2 o3)
    show ?case
    proof
      assume t: "is_terminal (o_status o1)"
      with step.IH obtain b where b: "o2 = o1\<lparr>o_broker_id := b\<rparr>" by blast
      from step.hyps(2) obtain u r where u: "apply_trade_update u o2 = (r, o3)" by (auto simp: venue_step_simp)
      have "is_terminal (o_status o2)" using t b by simp
      from terminal_event_frame [OF this u] obtain c where "o3 = o2\<lparr>o_broker_id := c\<rparr>" by blast
      with b have "o3 = o1\<lparr>o_broker_id := c\<rparr>" by simp
      then show "\<exists>b. o3 = o1\<lparr>o_broker_id := b\<rparr>" by blast
    qed
  qed
qed

theorem terminal_orders_stay_witness:
  "let u = \<lparr>u_event = ''fill'', u_client_id = ''c'', u_broker_id = ''b'', u_symbol = ''SPY'', u_at = 3,
            u_status = Some SUBMITTED, u_fill = None, u_reason = None, u_broker = None\<rparr>;
       o1 = (order_defaults ''a'' ''c'' ''SPY'' BUY 10)\<lparr>o_status := FILLED, o_filled := 10\<rparr>
   in venue_run o1 (snd (apply_trade_update u o1))
      \<and> (\<exists>b. snd (apply_trade_update u o1) = o1\<lparr>o_broker_id := b\<rparr>)"
proof -
  define u where "u = \<lparr>u_event = ''fill'', u_client_id = ''c'', u_broker_id = ''b'', u_symbol = ''SPY'',
    u_at = 3, u_status = Some SUBMITTED, u_fill = None, u_reason = None, u_broker = None\<rparr>"
  define o1 where "o1 = (order_defaults ''a'' ''c'' ''SPY'' BUY 10)\<lparr>o_status := FILLED, o_filled := 10\<rparr>"
  have run: "venue_run o1 (snd (apply_trade_update u o1))"
    by (rule venue_run.step [OF venue_run.refl], rule venue_step.update [of u], rule prod.collapse [symmetric])
  have "is_terminal (o_status o1)" by (simp add: o1_def)
  with terminal_orders_stay [OF run] run show ?thesis
    unfolding Let_def u_def [symmetric] o1_def [symmetric] by blast
qed

lemma apply_trade_update_ids:
  assumes "apply_trade_update u o1 = (Inr ch, o2)"
  shows "u_client_id u = o_client_id o1"
  using assms by (auto simp: apply_trade_update_def split: if_splits)

lemma acknowledge_ids:
  assumes "acknowledge tm o1 = Inr o2"
  shows "o_client_id o2 = o_client_id o1 \<and> o_broker_id o2 = o_broker_id o1"
proof -
  have *: "o_client_id b = o_client_id a \<and> o_broker_id b = o_broker_id a"
    if "transition t x y z a = Inr (c, b)" for t x y z a b c
    using transition_cases [OF that] by auto
  show ?thesis using assms by (auto simp: acknowledge_def bind_r_eq_Inr split: if_splits dest!: *)
qed

lemma apply_fill_event_replay:
  assumes "apply_fill_event u f o1 = (Inr ch, o2)" "f_venue_id f \<noteq> None"
  shows "apply_fill_event u f o2 = (Inr False, o2)
         \<and> o_client_id o2 = o_client_id o1 \<and> o_broker_id o2 = o_broker_id o1"
proof -
  define ack where "ack = (if o_status o1 \<in> set PRE_ACK then acknowledge (u_at u) o1 else Inr o1)"
  have ids: "o_client_id oa = o_client_id o1 \<and> o_broker_id oa = o_broker_id o1" if "ack = Inr oa" for oa
    using that by (auto simp: ack_def acknowledge_ids split: if_splits)
  consider "already_seen o1 f" "o2 = o1" | oa where "ack = Inr oa" "order_apply_fill f oa = Inr o2"
    using assms(1) unfolding apply_fill_event_def ack_def [symmetric]
    by (auto split: if_splits sum.splits)
  then show ?thesis
  proof cases
    case 1
    then show ?thesis by (simp add: apply_fill_event_def)
  next
    case 2
    have "already_seen o2 f"
      using assms(2) order_apply_fill_cases(2) [OF 2(2)] by (auto simp: already_seen_def)
    with ids [OF 2(1)] order_apply_fill_cases(7,8) [OF 2(2)] show ?thesis
      by (simp add: apply_fill_event_def)
  qed
qed

lemma apply_status_event_replay:
  assumes "apply_status_event u o1 = (Inr ch, o2)"
  shows "apply_status_event u o2 = (Inr False, o2)
         \<and> o_client_id o2 = o_client_id o1 \<and> o_broker_id o2 = o_broker_id o1"
proof (cases "u_status u")
  case None
  with assms show ?thesis by (simp add: apply_status_event_def)
next
  case (Some t)
  with assms have tr: "transition t (Some (u_at u)) (u_reason u) (u_broker u) o1 = Inr (ch, o2)"
    by (auto simp: apply_status_event_def split: sum.splits prod.splits)
  have "transition t (Some (u_at u)) (u_reason u) (u_broker u) o2 = Inr (False, o2)"
    using transition_cases [OF tr] by (auto simp: transition_def Let_def is_stale_event_def)
  with Some transition_cases [OF tr] show ?thesis by (auto simp: apply_status_event_def)
qed

text \<open>
  A venue that says the same thing twice changes the order once: replaying an event that was
  accepted (a status, or a fill that carries the venue's identifier) is discarded and leaves the
  order exactly as the first delivery did.
\<close>

theorem trade_update_replay_discarded:
  assumes "apply_trade_update u o1 = (Inr ch, o2)"
    and "\<forall>f. u_fill u = Some f \<longrightarrow> f_venue_id f \<noteq> None"
  shows "apply_trade_update u o2 = (Inr False, o2)"
proof -
  define oa where "oa = (if o_broker_id o1 = None then o1\<lparr>o_broker_id := Some (u_broker_id u)\<rparr> else o1)"
  have b: "o_broker_id oa \<noteq> None" "o_client_id oa = o_client_id o1" by (auto simp: oa_def)
  note cid = apply_trade_update_ids [OF assms(1)]
  have "case u_fill u of Some f \<Rightarrow> apply_fill_event u f oa = (Inr ch, o2)
        | None \<Rightarrow> apply_status_event u oa = (Inr ch, o2)"
    using assms(1) cid unfolding apply_trade_update_def Let_def oa_def [symmetric] by (simp split: option.splits)
  then have "(case u_fill u of Some f \<Rightarrow> apply_fill_event u f o2 | None \<Rightarrow> apply_status_event u o2) = (Inr False, o2)
      \<and> o_client_id o2 = o_client_id oa \<and> o_broker_id o2 = o_broker_id oa"
    using assms(2) by (auto split: option.splits dest: apply_fill_event_replay apply_status_event_replay)
  then obtain res: "(case u_fill u of Some f \<Rightarrow> apply_fill_event u f o2 | None \<Rightarrow> apply_status_event u o2) = (Inr False, o2)"
    and "o_broker_id o2 \<noteq> None" "u_client_id u = o_client_id o2"
    using b cid by simp
  then have "(if o_broker_id o2 = None then o2\<lparr>o_broker_id := Some (u_broker_id u)\<rparr> else o2) = o2"
    "\<not> u_client_id u \<noteq> o_client_id o2" by simp_all
  with res show ?thesis unfolding apply_trade_update_def Let_def by (simp only: if_False)
qed

theorem trade_update_replay_discarded_witness:
  "let f = \<lparr>f_order_id = ''a'', f_ts = 3, f_qty = 4, f_price = 100, f_fee = 0, f_venue_id = Some ''v''\<rparr>;
       u = \<lparr>u_event = ''fill'', u_client_id = ''c'', u_broker_id = ''b'', u_symbol = ''SPY'', u_at = 3,
            u_status = None, u_fill = Some f, u_reason = None, u_broker = None\<rparr>;
       o1 = order_defaults ''a'' ''c'' ''SPY'' BUY 10; o2 = snd (apply_trade_update u o1)
   in fst (apply_trade_update u o1) = Inr True \<and> o_filled o2 = 4
      \<and> apply_trade_update u o2 = (Inr False, o2)"
proof -
  define f where "f = \<lparr>f_order_id = ''a'', f_ts = 3, f_qty = 4, f_price = 100, f_fee = 0, f_venue_id = Some ''v''\<rparr>"
  define u where "u = \<lparr>u_event = ''fill'', u_client_id = ''c'', u_broker_id = ''b'', u_symbol = ''SPY'',
    u_at = 3, u_status = None, u_fill = Some f, u_reason = None, u_broker = None\<rparr>"
  define o1 where "o1 = order_defaults ''a'' ''c'' ''SPY'' BUY 10"
  have ev: "fst (apply_trade_update u o1) = Inr True \<and> o_filled (snd (apply_trade_update u o1)) = 4"
    by (simp add: apply_trade_update_def apply_fill_event_def already_seen_def PRE_ACK_def
        acknowledge_def transition_def is_stale_event_def assert_transition_def can_transition_def
        record_move_def CAN_FILL_eq order_apply_fill_def remaining_qty_def fill_notional_def
        ddiv_r_def dec_ops u_def f_def o1_def order_defaults_def Let_def)
  then have "apply_trade_update u o1 = (Inr True, snd (apply_trade_update u o1))"
    by (simp add: prod_eq_iff)
  then have "apply_trade_update u (snd (apply_trade_update u o1)) = (Inr False, snd (apply_trade_update u o1))"
    by (rule trade_update_replay_discarded) (simp add: u_def f_def)
  with ev show ?thesis unfolding Let_def f_def [symmetric] u_def [symmetric] o1_def [symmetric] by blast
qed

text \<open>
  The tranche \<open>missed_updates\<close> reconstructs, booked on our copy, brings the average to the venue's.
  \<open>recovery_exact\<close> lists the amounts that must fit 28 digits for the equality to be exact.
\<close>

definition recovery_exact :: "order \<Rightarrow> order \<Rightarrow> dec \<Rightarrow> bool" where
  "recovery_exact ours theirs avg \<longleftrightarrow>
     (let theirs_n = avg * o_filled theirs; ours_n = or_zero (o_avg ours) * o_filled ours in
      exact28 avg \<and> exact28 theirs_n \<and> exact28 ours_n \<and> exact28 (theirs_n - ours_n)
      \<and> exact28 ((theirs_n - ours_n) / (o_filled theirs - o_filled ours)) \<and> ours_n < theirs_n)"

lemma recovered_update_simps [simp]:
  "u_client_id (recovered_update ours theirs tm b) = o_client_id ours"
  "u_fill (recovered_update ours theirs tm b) = None" "u_status (recovered_update ours theirs tm b) = None"
  "u_at (recovered_update ours theirs tm b) = tm" "u_broker (recovered_update ours theirs tm b) = b"
  by (simp_all add: recovered_update_def)

lemma reconstruct_fill_price:
  assumes ex: "recovery_exact ours theirs avg" and a: "o_avg theirs = Some avg"
    and lt: "o_filled ours < o_filled theirs"
  defines "missing \<equiv> o_filled theirs - o_filled ours"
  defines "price \<equiv> (avg * o_filled theirs - or_zero (o_avg ours) * o_filled ours) / missing"
  shows "reconstruct_fill key ours theirs missing tm =
    Some \<lparr>f_order_id = o_id ours, f_ts = tm, f_qty = missing, f_price = price, f_fee = 0,
          f_venue_id = Some (key (o_broker_id theirs) (o_filled theirs))\<rparr>"
    and "0 < price"
proof -
  have m: "0 < missing" using lt by (simp add: missing_def)
  have e: "exact28 (avg * o_filled theirs)" "exact28 (or_zero (o_avg ours) * o_filled ours)"
    "exact28 (avg * o_filled theirs - or_zero (o_avg ours) * o_filled ours)" "exact28 price"
    "or_zero (o_avg ours) * o_filled ours < avg * o_filled theirs"
    using ex by (simp_all add: recovery_exact_def Let_def price_def missing_def)
  show p: "0 < price" using e(5) m by (simp add: price_def)
  have "ddiv (dsub (dmul avg (o_filled theirs)) (dmul (or_zero (o_avg ours)) (o_filled ours))) missing = price"
    using e(1-4) by (simp add: dmul_def dsub_def ddiv_def rnd_exact price_def)
  with a p show "reconstruct_fill key ours theirs missing tm =
    Some \<lparr>f_order_id = o_id ours, f_ts = tm, f_qty = missing, f_price = price, f_fee = 0,
          f_venue_id = Some (key (o_broker_id theirs) (o_filled theirs))\<rparr>"
    by (simp add: reconstruct_fill_def Let_def)
qed

lemma apply_reconstructed:
  assumes ex: "recovery_exact ours theirs avg" and wf: "order_wf ours" "amount9 (o_filled theirs)"
    and lt: "o_filled ours < o_filled theirs" "o_filled theirs \<le> o_qty ours"
    and f: "f_qty f = o_filled theirs - o_filled ours"
      "f_price f = (avg * o_filled theirs - or_zero (o_avg ours) * o_filled ours) / (o_filled theirs - o_filled ours)"
  shows "\<exists>o2. order_apply_fill f ours = Inr o2 \<and> o_filled o2 = o_filled theirs \<and> o_avg o2 = Some avg
    \<and> o_status o2 = (if o_filled theirs = o_qty ours then FILLED else PARTIALLY_FILLED)
    \<and> o_client_id o2 = o_client_id ours \<and> o_broker_id o2 = o_broker_id ours"
proof -
  note w = order_wfD [OF wf(1)]
  have am: "amount9 (o_filled theirs - o_filled ours)"
    by (rule amount9_diff [OF wf(2) w(2,3)]) (use lt in simp)
  have filled: "dadd (o_filled ours) (f_qty f) = o_filled theirs"
    using dadd_amount9 [OF w(2) am] by (simp add: f)
  have e: "exact28 (avg * o_filled theirs)" "exact28 (or_zero (o_avg ours) * o_filled ours)"
    "exact28 (avg * o_filled theirs - or_zero (o_avg ours) * o_filled ours)" "exact28 avg"
    using ex by (simp_all add: recovery_exact_def Let_def)
  have nz: "0 < o_filled theirs - o_filled ours" "0 < o_filled theirs" using lt w(3) by linarith+
  have notional: "fill_notional f = avg * o_filled theirs - or_zero (o_avg ours) * o_filled ours"
    using e(3) nz by (simp add: fill_notional_def f dmul_def rnd_exact)
  have prior: "dmul (or_zero (o_avg ours)) (o_filled ours) = or_zero (o_avg ours) * o_filled ours"
    using e(2) by (simp add: dmul_def rnd_exact)
  have avg: "ddiv_r (dadd (dmul (or_zero (o_avg ours)) (o_filled ours)) (fill_notional f)) (o_filled theirs) = Inr avg"
    using nz e(1,4) unfolding notional prior by (simp add: ddiv_r_def ddiv_def dadd_def rnd_exact)
  have rem: "dsub (o_qty ours) (o_filled theirs) = o_qty ours - o_filled theirs"
    by (rule dsub_amount9 [OF w(1) wf(2)])
  have g: "\<not> f_qty f \<le> 0" "\<not> remaining_qty ours < f_qty f"
    using nz lt by (simp_all add: f remaining_wf [OF wf(1)])
  show ?thesis
    using g avg rem
    by (simp add: order_apply_fill_def Let_def filled remaining_qty_def)
qed

lemma recovery_ahead:
  assumes "recovery_exact ours theirs avg" "o_avg theirs = Some avg"
    and "order_wf ours" "amount9 (o_filled theirs)"
    and "o_filled ours < o_filled theirs" "o_filled theirs \<le> o_qty ours"
    and "o_status ours \<in> {SUBMITTED, PARTIALLY_FILLED}" "o_broker_id ours \<noteq> None"
    and "o_status theirs \<in> {FILLED, PARTIALLY_FILLED, CANCELLED, EXPIRED}"
    and "\<forall>f \<in> set (o_fills ours). f_venue_id f \<noteq> Some (key (o_broker_id theirs) (o_filled theirs))"
  shows "\<exists>o2. apply_trade_updates (missed_updates key ours theirs now broker) ours = Inr o2
    \<and> o_filled o2 = o_filled theirs \<and> o_avg o2 = Some avg
    \<and> o_status o2 = (if o_filled theirs = o_qty ours then FILLED
                      else if o_status theirs \<in> set FILL_OWNED then PARTIALLY_FILLED
                      else o_status theirs)"
proof -
  define tm where "tm = (case o_filled_at theirs of Some t \<Rightarrow> t | None \<Rightarrow> now)"
  define base where "base = recovered_update ours theirs tm broker"
  define m where "m = o_filled theirs - o_filled ours"
  note w = order_wfD [OF assms(3)]
  have missing: "dsub (o_filled theirs) (o_filled ours) = m" "0 < m"
    using assms(5) by (simp_all add: m_def dsub_amount9 [OF assms(4) w(2)])
  obtain f where f: "reconstruct_fill key ours theirs m tm = Some f" "f_qty f = m"
    "f_price f = (avg * o_filled theirs - or_zero (o_avg ours) * o_filled ours) / m"
    "f_venue_id f = Some (key (o_broker_id theirs) (o_filled theirs))"
    using reconstruct_fill_price(1) [OF assms(1,2,5), of key tm] by (auto simp: m_def)
  obtain o2 where o2: "order_apply_fill f ours = Inr o2" "o_filled o2 = o_filled theirs" "o_avg o2 = Some avg"
    "o_status o2 = (if o_filled theirs = o_qty ours then FILLED else PARTIALLY_FILLED)"
    "o_client_id o2 = o_client_id ours" "o_broker_id o2 = o_broker_id ours"
    using apply_reconstructed [OF assms(1,3,4,5,6) f(2,3) [unfolded m_def]] by blast
  have u1: "apply_trade_update (base\<lparr>u_fill := Some f\<rparr>) ours = (Inr True, o2)"
    using assms(7,8,10) f o2(1) order_apply_fill_guard [OF o2(1)]
    by (auto simp: apply_trade_update_def apply_fill_event_def already_seen_def base_def PRE_ACK_def CAN_FILL_eq)
  have ms: "missed_updates key ours theirs now broker = base\<lparr>u_fill := Some f\<rparr> #
      (if o_status theirs \<notin> set FILL_OWNED \<and> o_status theirs \<noteq> o_status ours
       then [base\<lparr>u_status := Some (o_status theirs), u_reason := o_reject_reason theirs\<rparr>] else [])"
    using missing f(1) by (simp add: missed_updates_def Let_def base_def tm_def)
  show ?thesis
  proof (cases "o_status theirs \<in> set FILL_OWNED")
    case True
    then show ?thesis using ms u1 o2 by simp
  next
    case False
    then have st: "o_status theirs \<in> {CANCELLED, EXPIRED}" using assms(9) by (auto simp: FILL_OWNED_def)
    then have ne: "o_status theirs \<noteq> o_status ours" using assms(7) by auto
    have "\<exists>r o3. apply_trade_update (base\<lparr>u_status := Some (o_status theirs), u_reason := o_reject_reason theirs\<rparr>) o2
        = (Inr r, o3) \<and> o_filled o3 = o_filled o2 \<and> o_avg o3 = o_avg o2
        \<and> o_status o3 = (if o_filled theirs = o_qty ours then FILLED else o_status theirs)"
      using st o2(4,5,6) assms(8)
      by (auto simp: apply_trade_update_def apply_status_event_def base_def transition_def
          is_stale_event_def assert_transition_def can_transition_def split: if_splits)
    with ms u1 o2 False ne show ?thesis by auto
  qed
qed

lemma recovery_level:
  assumes "o_filled theirs = o_filled ours" "o_broker_id ours \<noteq> None" "o_status ours \<in> {SUBMITTED, PARTIALLY_FILLED}"
    and "o_status theirs \<in> {CANCELLED, EXPIRED} \<or> o_status theirs = REJECTED \<and> o_status ours = SUBMITTED"
  shows "\<exists>o2. apply_trade_updates (missed_updates key ours theirs now broker) ours = Inr o2
    \<and> o_filled o2 = o_filled ours \<and> o_avg o2 = o_avg ours \<and> o_status o2 = o_status theirs"
  using assms
  by (auto simp: missed_updates_def Let_def FILL_OWNED_def dsub_def apply_trade_update_def apply_status_event_def transition_def
      is_stale_event_def assert_transition_def can_transition_def guard_r_def record_move_def)

text \<open>A report of an order of size \<open>q\<close> whose status goes with its fills.\<close>

definition report_ok :: "dec \<Rightarrow> order \<Rightarrow> bool" where
  "report_ok q o1 \<longleftrightarrow> 0 \<le> o_filled o1 \<and> o_filled o1 \<le> q \<and>
     (case o_status o1 of SUBMITTED \<Rightarrow> o_filled o1 = 0 | REJECTED \<Rightarrow> o_filled o1 = 0
      | PARTIALLY_FILLED \<Rightarrow> 0 < o_filled o1 | FILLED \<Rightarrow> 0 < o_filled o1 | CANCELLED \<Rightarrow> True | EXPIRED \<Rightarrow> True | _ \<Rightarrow> False)"

text \<open>
  C21. What catching up over REST does to a working order with quantity still open, when the arithmetic
  needs no rounding, the missed part had a positive price, its id is not booked yet and the venue's report
  is consistent. If the venue has filled less than our book, or more but names no average price,
  nothing is applied and the order is as it was. Otherwise the order ends with the venue's filled
  quantity: with its average price, when fills had been missed, and else with our own; with its status,
  except that an order filled whole is \<open>FILLED\<close> whatever the venue calls it, and a part the venue calls
  by a fill status is \<open>PARTIALLY_FILLED\<close>. A cancel or an expiry is applied after the fill it must not
  strand, and also when nothing had been filled since.
\<close>

theorem recovery_converges:
  assumes "order_wf ours" "o_status ours \<in> {SUBMITTED, PARTIALLY_FILLED}" "report_ok (o_qty ours) ours" "o_filled ours < o_qty ours"
    and "o_broker_id ours \<noteq> None" "report_ok (o_qty ours) theirs" "amount9 (o_filled theirs)"
    and "\<And>avg. o_filled ours < o_filled theirs \<Longrightarrow> o_avg theirs = Some avg \<Longrightarrow> recovery_exact ours theirs avg"
    and "\<forall>f \<in> set (o_fills ours). f_venue_id f \<noteq> Some (key (o_broker_id theirs) (o_filled theirs))"
  shows "\<exists>o2. apply_trade_updates (missed_updates key ours theirs now broker) ours = Inr o2
    \<and> (if o_filled theirs < o_filled ours \<or> o_filled ours < o_filled theirs \<and> o_avg theirs = None then o2 = ours
       else o_filled o2 = o_filled theirs \<and> o_avg o2 = (if o_filled ours < o_filled theirs then o_avg theirs else o_avg ours)
         \<and> o_status o2 = (if o_filled theirs = o_qty ours then FILLED
                         else if o_status theirs \<in> set FILL_OWNED then PARTIALLY_FILLED
                         else o_status theirs))"
proof -
  have gap: "dsub (o_filled theirs) (o_filled ours) = o_filled theirs - o_filled ours"
    by (rule dsub_amount9 [OF assms(7) order_wfD(2) [OF assms(1)]])
  consider "o_filled theirs < o_filled ours" | "o_filled theirs = o_filled ours" | "o_filled ours < o_filled theirs" by linarith
  then show ?thesis
  proof cases
    case 1
    then show ?thesis by (simp add: missed_updates_def Let_def gap)
  next
    case 2
    show ?thesis
    proof (cases "o_status theirs \<in> set FILL_OWNED \<or> o_status theirs = o_status ours")
      case True
      then have "o_status ours = (if o_status theirs \<in> set FILL_OWNED then PARTIALLY_FILLED else o_status theirs)"
        using 2 assms(2,3,6) by (auto simp: report_ok_def FILL_OWNED_def split: if_splits)
      moreover have "missed_updates key ours theirs now broker = []" using True 2 gap by (auto simp: missed_updates_def Let_def)
      ultimately show ?thesis using 2 assms(4) by simp
    next
      case False
      then have "o_status theirs \<in> {CANCELLED, EXPIRED} \<or> o_status theirs = REJECTED \<and> o_status ours = SUBMITTED"
        using 2 assms(2,3,6) by (auto simp: report_ok_def FILL_OWNED_def split: order_status.splits)
      from recovery_level [OF 2 assms(5,2) this] False 2 assms(4) show ?thesis by auto
    qed
  next
    case 3
    show ?thesis
    proof (cases "o_avg theirs")
      case None
      then show ?thesis using 3 by (simp add: missed_updates_def Let_def gap reconstruct_fill_def)
    next
      case (Some avg)
      have "o_filled theirs \<le> o_qty ours" "o_status theirs \<in> {FILLED, PARTIALLY_FILLED, CANCELLED, EXPIRED}"
        using assms(3,6) 3 by (auto simp: report_ok_def split: order_status.splits)
      from recovery_ahead [OF assms(8) [OF 3 Some] Some assms(1,7) 3 this(1) assms(2,5) this(2), where key = key, OF assms(9), of now broker] 3 Some
      show ?thesis by auto
    qed
  qed
qed

theorem recovery_converges_witness:
  "let ours = (order_defaults ''a'' ''c'' ''SPY'' BUY 10)\<lparr>o_status := SUBMITTED, o_broker_id := Some ''b''\<rparr>;
       theirs = ours\<lparr>o_filled := 4, o_avg := Some 101, o_status := CANCELLED\<rparr>
   in \<exists>o2. apply_trade_updates (missed_updates (\<lambda>b q. ''k'') ours theirs 9 None) ours = Inr o2
      \<and> o_filled o2 = 4 \<and> o_avg o2 = Some 101 \<and> o_status o2 = CANCELLED"
proof -
  define ours where "ours = (order_defaults ''a'' ''c'' ''SPY'' BUY 10)\<lparr>o_status := SUBMITTED, o_broker_id := Some ''b''\<rparr>"
  define theirs where "theirs = ours\<lparr>o_filled := 4, o_avg := Some 101, o_status := CANCELLED\<rparr>"
  have e: "recovery_exact ours theirs 101" "order_wf ours" "amount9 (o_filled theirs)" "report_ok (o_qty ours) ours" "report_ok (o_qty ours) theirs"
    by (simp_all add: ours_def theirs_def order_defaults_def recovery_exact_def exact28_def order_wf_def amount9_def report_ok_def)
  have a: "o_status ours = SUBMITTED" "o_filled ours = 0" "o_qty ours = 10" "o_broker_id ours = Some ''b''" "o_fills ours = []"
    "o_filled theirs = 4" "o_avg theirs = Some 101" "o_status theirs = CANCELLED"
    by (simp_all add: ours_def theirs_def order_defaults_def)
  from recovery_converges [where ours = ours and theirs = theirs and key = "\<lambda>b q. ''k''" and now = 9 and broker = None] e a
  have "\<exists>o2. apply_trade_updates (missed_updates (\<lambda>b q. ''k'') ours theirs 9 None) ours = Inr o2
    \<and> o_filled o2 = 4 \<and> o_avg o2 = Some 101 \<and> o_status o2 = CANCELLED" by (auto simp: FILL_OWNED_def)
  then show ?thesis unfolding Let_def ours_def [symmetric] theirs_def [symmetric] .
qed

end
