(* ===== verification/KillSwitch.thy ===== *)
theory KillSwitch
  imports Enums
begin

text \<open>
  \<open>risk/killswitch.py\<close>: halt records, the one-way latch \<open>_merge\<close>, the JSON payload a record is
  stored as, and \<open>RedisKillSwitch\<close> over a shared key-value store.

  Redis is a service other processes write to. \<open>engage\<close> takes what the others do before each of
  its own round trips as a list of store updates, one per round trip, so an interleaving is an
  argument. \<open>SET NX\<close>, \<open>GET\<close>, \<open>MGET\<close> and the two Lua scripts of the file (compare-and-set, get
  and delete) act on the store as Redis documents them. A JSON value is the tree \<open>json.dumps\<close>
  writes; an ISO timestamp leaf is the instant it denotes. Log lines, the publication on the
  halts channel and the alert are effects outside the model; whether one is announced is in the
  result.
\<close>

datatype halt_scope = GLOBAL | STRATEGY | SYMBOL

datatype halt_reason =
  HR_MANUAL | DAILY_LOSS_LIMIT | RECONCILIATION_MISMATCH | DATA_FEED_LOST | BROKER_UNREACHABLE
| RATE_LIMIT_STORM | UNHANDLED_EXCEPTION

record halt_escalation =
  e_from_reason :: halt_reason
  e_at :: ts
  e_by :: string
  e_detail :: string

record impugnment =
  i_symbols :: "string list"
  i_reason :: halt_reason
  i_at :: ts
  i_by :: string
  i_detail :: string

record halt_record =
  h_scope :: halt_scope
  h_reason :: halt_reason
  h_engaged_at :: ts
  h_engaged_by :: string
  h_detail :: string
  h_target :: "string option"
  h_escalation :: "halt_escalation option"
  h_impugned :: "impugnment list"

definition unproven_symbols :: "halt_record \<Rightarrow> string list" where
  "unproven_symbols h = concat (map i_symbols (h_impugned h))"

definition book_is_unproven :: "halt_record \<Rightarrow> bool" where
  "book_is_unproven h \<longleftrightarrow> h_impugned h \<noteq> []"

definition merge :: "halt_record \<Rightarrow> halt_record \<Rightarrow> halt_record" where
  "merge existing incoming =
     (let fresh = filter (\<lambda>i. \<not> set (i_symbols i) \<subseteq> set (unproven_symbols existing)) (h_impugned incoming);
          impugned = h_impugned existing @ fresh;
          escalates = fresh \<noteq> [] \<and> h_impugned existing = []
      in if \<not> escalates then (if fresh = [] then existing else existing\<lparr>h_impugned := impugned\<rparr>)
         else existing\<lparr>h_reason := h_reason incoming, h_impugned := impugned,
                h_escalation := Some \<lparr>e_from_reason = h_reason existing, e_at = h_engaged_at incoming,
                  e_by = h_engaged_by incoming, e_detail = h_detail incoming\<rparr>\<rparr>)"

record halt_state =
  hs_halts :: "halt_record list"
  hs_unreadable :: bool

definition engaged :: "halt_state \<Rightarrow> bool" where
  "engaged s \<longleftrightarrow> hs_unreadable s \<or> hs_halts s \<noteq> []"

definition position_is_unproven :: "halt_state \<Rightarrow> string \<Rightarrow> bool" where
  "position_is_unproven s sm \<longleftrightarrow> (\<exists>h \<in> set (hs_halts s). sm \<in> set (unproven_symbols h))"

section \<open>The payload\<close>

datatype json = JNull | JStr string | JTime ts | JList "json list" | JObj "(string \<times> json) list" | JBad

fun scope_value :: "halt_scope \<Rightarrow> string" where
  "scope_value GLOBAL = ''global''"
| "scope_value STRATEGY = ''strategy''"
| "scope_value SYMBOL = ''symbol''"

fun reason_value :: "halt_reason \<Rightarrow> string" where
  "reason_value HR_MANUAL = ''manual''"
| "reason_value DAILY_LOSS_LIMIT = ''daily_loss_limit''"
| "reason_value RECONCILIATION_MISMATCH = ''reconciliation_mismatch''"
| "reason_value DATA_FEED_LOST = ''data_feed_lost''"
| "reason_value BROKER_UNREACHABLE = ''broker_unreachable''"
| "reason_value RATE_LIMIT_STORM = ''rate_limit_storm''"
| "reason_value UNHANDLED_EXCEPTION = ''unhandled_exception''"

definition encode_escalation :: "halt_escalation \<Rightarrow> json" where
  "encode_escalation e = JObj [(''from_reason'', JStr (reason_value (e_from_reason e))),
     (''at'', JTime (e_at e)), (''by'', JStr (e_by e)), (''detail'', JStr (e_detail e))]"

definition encode_impugnment :: "impugnment \<Rightarrow> json" where
  "encode_impugnment i = JObj [(''symbols'', JList (map JStr (i_symbols i))),
     (''reason'', JStr (reason_value (i_reason i))), (''at'', JTime (i_at i)),
     (''by'', JStr (i_by i)), (''detail'', JStr (i_detail i))]"

definition encode :: "halt_record \<Rightarrow> json" where
  "encode h = JObj ([(''scope'', JStr (scope_value (h_scope h))), (''reason'', JStr (reason_value (h_reason h))),
      (''engaged_at'', JTime (h_engaged_at h)), (''engaged_by'', JStr (h_engaged_by h)),
      (''detail'', JStr (h_detail h)),
      (''target'', case h_target h of None \<Rightarrow> JNull | Some t \<Rightarrow> JStr t)]
     @ (case h_escalation h of None \<Rightarrow> [] | Some e \<Rightarrow> [(''escalation'', encode_escalation e)])
     @ (if h_impugned h \<noteq> [] then [(''impugned'', JList (map encode_impugnment (h_impugned h)))] else []))"

fun as_str :: "json \<Rightarrow> string option" where
  "as_str (JStr s) = Some s"
| "as_str _ = None"

fun as_time :: "json \<Rightarrow> ts option" where
  "as_time (JTime t) = Some t"
| "as_time _ = None"

definition field :: "json \<Rightarrow> string \<Rightarrow> json option" where
  "field j k = (case j of JObj kvs \<Rightarrow> map_of kvs k | _ \<Rightarrow> None)"

definition str_field :: "json \<Rightarrow> string \<Rightarrow> string option" where
  "str_field j k = Option.bind (field j k) as_str"

definition time_field :: "json \<Rightarrow> string \<Rightarrow> ts option" where
  "time_field j k = Option.bind (field j k) as_time"

text \<open>\<open>payload.get(k, "")\<close>: an absent field is the empty text.\<close>

definition str_field_or_empty :: "json \<Rightarrow> string \<Rightarrow> string option" where
  "str_field_or_empty j k = (case field j k of None \<Rightarrow> Some [] | Some v \<Rightarrow> as_str v)"

definition parse_scope :: "string \<Rightarrow> halt_scope option" where
  "parse_scope s = List.find (\<lambda>x. scope_value x = s) [GLOBAL, STRATEGY, SYMBOL]"

definition parse_reason :: "string \<Rightarrow> halt_reason option" where
  "parse_reason s = List.find (\<lambda>x. reason_value x = s)
     [HR_MANUAL, DAILY_LOSS_LIMIT, RECONCILIATION_MISMATCH, DATA_FEED_LOST, BROKER_UNREACHABLE,
      RATE_LIMIT_STORM, UNHANDLED_EXCEPTION]"

fun sequence_opt :: "'a option list \<Rightarrow> 'a list option" where
  "sequence_opt [] = Some []"
| "sequence_opt (x # xs) = Option.bind x (\<lambda>y. map_option ((#) y) (sequence_opt xs))"

definition decode_escalation :: "json \<Rightarrow> halt_escalation option" where
  "decode_escalation j =
     Option.bind (Option.bind (str_field j ''from_reason'') parse_reason) (\<lambda>r.
     Option.bind (time_field j ''at'') (\<lambda>t.
     Option.bind (str_field j ''by'') (\<lambda>b.
     Option.bind (str_field_or_empty j ''detail'') (\<lambda>d.
       Some \<lparr>e_from_reason = r, e_at = t, e_by = b, e_detail = d\<rparr>))))"

definition decode_impugnment :: "json \<Rightarrow> impugnment option" where
  "decode_impugnment j =
     Option.bind (case field j ''symbols'' of Some (JList xs) \<Rightarrow> sequence_opt (map as_str xs) | _ \<Rightarrow> None) (\<lambda>ss.
     Option.bind (Option.bind (str_field j ''reason'') parse_reason) (\<lambda>r.
     Option.bind (time_field j ''at'') (\<lambda>t.
     Option.bind (str_field j ''by'') (\<lambda>b.
     Option.bind (str_field_or_empty j ''detail'') (\<lambda>d.
       Some \<lparr>i_symbols = ss, i_reason = r, i_at = t, i_by = b, i_detail = d\<rparr>)))))"

definition decode :: "json \<Rightarrow> halt_record option" where
  "decode j =
     Option.bind (case field j ''escalation'' of None \<Rightarrow> Some None | Some JNull \<Rightarrow> Some None
                  | Some e \<Rightarrow> map_option Some (decode_escalation e)) (\<lambda>esc.
     Option.bind (Option.bind (str_field j ''scope'') parse_scope) (\<lambda>sc.
     Option.bind (Option.bind (str_field j ''reason'') parse_reason) (\<lambda>r.
     Option.bind (time_field j ''engaged_at'') (\<lambda>t.
     Option.bind (str_field j ''engaged_by'') (\<lambda>b.
     Option.bind (str_field_or_empty j ''detail'') (\<lambda>d.
     Option.bind (case field j ''target'' of None \<Rightarrow> Some None | Some JNull \<Rightarrow> Some None
                  | Some v \<Rightarrow> map_option Some (as_str v)) (\<lambda>tgt.
     Option.bind (case field j ''impugned'' of None \<Rightarrow> Some []
                  | Some (JList xs) \<Rightarrow> sequence_opt (map decode_impugnment xs) | Some _ \<Rightarrow> None) (\<lambda>imp.
       Some \<lparr>h_scope = sc, h_reason = r, h_engaged_at = t, h_engaged_by = b, h_detail = d,
             h_target = tgt, h_escalation = esc, h_impugned = imp\<rparr>))))))))"

section \<open>The switch\<close>

type_synonym store = "string \<Rightarrow> json option"

definition halt_key :: "string \<Rightarrow> halt_scope \<Rightarrow> string option \<Rightarrow> exn + string" where
  "halt_key prefix scope target =
     (if scope = GLOBAL then Inr (prefix @ '':global'')
      else case target of
          Some (c # t) \<Rightarrow> Inr (prefix @ '':'' @ scope_value scope @ '':'' @ (c # t))
        | _ \<Rightarrow> Inl (value_error ''a scoped halt needs a target''))"

definition covering_keys :: "string \<Rightarrow> string option \<Rightarrow> string option \<Rightarrow> string list" where
  "covering_keys prefix strategy symbol =
     [prefix @ '':global'']
     @ (case strategy of Some (c # t) \<Rightarrow> [prefix @ '':strategy:'' @ (c # t)] | _ \<Rightarrow> [])
     @ (case symbol of Some (c # t) \<Rightarrow> [prefix @ '':symbol:'' @ (c # t)] | _ \<Rightarrow> [])"

text \<open>\<open>halt_state\<close>: \<open>None\<close> for the store is an unreachable Redis.\<close>

definition read_halt_state ::
  "string \<Rightarrow> store option \<Rightarrow> string option \<Rightarrow> string option \<Rightarrow> halt_state" where
  "read_halt_state prefix st strategy symbol =
     (case st of None \<Rightarrow> \<lparr>hs_halts = [], hs_unreadable = True\<rparr>
      | Some s \<Rightarrow>
          let raws = List.map_filter s (covering_keys prefix strategy symbol)
          in \<lparr>hs_halts = List.map_filter decode raws,
              hs_unreadable = (\<exists>raw \<in> set raws. decode raw = None)\<rparr>)"

definition is_engaged :: "string \<Rightarrow> store option \<Rightarrow> string option \<Rightarrow> string option \<Rightarrow> bool" where
  "is_engaged prefix st strategy symbol = engaged (read_halt_state prefix st strategy symbol)"

definition clean_symbols :: "string list \<Rightarrow> exn + string list" where
  "clean_symbols ss =
     (let cleaned = remdups (map (\<lambda>s. str_upper (str_strip s)) ss)
      in if [] \<in> set cleaned then Inl (value_error ''an impugned symbol cannot be blank'')
         else Inr (str_sort cleaned))"

definition MAX_ENGAGE_ATTEMPTS :: nat where "MAX_ENGAGE_ATTEMPTS = 3"

datatype announcement = Engaged halt_record | Escalated halt_record halt_record

text \<open>A halt a component asks the kill switch for: reason, detail, symbols it cannot prove.\<close>

record halt_request =
  hq_scope :: halt_scope
  hq_reason :: halt_reason
  hq_by :: string
  hq_detail :: string
  hq_unproven :: "string list"

definition engage_record ::
  "halt_scope \<Rightarrow> halt_reason \<Rightarrow> string \<Rightarrow> string \<Rightarrow> string option \<Rightarrow> string list \<Rightarrow> ts \<Rightarrow> halt_record" where
  "engage_record scope why by_whom detail target symbols now =
     \<lparr>h_scope = scope, h_reason = why, h_engaged_at = now, h_engaged_by = by_whom, h_detail = detail,
      h_target = target, h_escalation = None,
      h_impugned = (if symbols \<noteq> [] then [\<lparr>i_symbols = symbols, i_reason = why, i_at = now,
                      i_by = by_whom, i_detail = detail\<rparr>] else [])\<rparr>"

text \<open>
  One pass of the loop per attempt left. \<open>others\<close> holds, for each attempt, what the other
  processes do to the store before the \<open>SET NX\<close>, before the \<open>GET\<close> and before the script.
\<close>

fun engage_loop ::
  "nat \<Rightarrow> (nat \<Rightarrow> ts) \<Rightarrow> (ts \<Rightarrow> halt_record) \<Rightarrow> string \<Rightarrow>
   (nat \<Rightarrow> (store \<Rightarrow> store) \<times> (store \<Rightarrow> store) \<times> (store \<Rightarrow> store)) \<Rightarrow> bool \<Rightarrow> store \<Rightarrow>
   (exn + halt_record \<times> announcement option) \<times> store" where
  "engage_loop 0 clock mk key others saw st = (Inl (KillSwitchUnavailableError saw), st)"
| "engage_loop (Suc n) clock mk key others saw st =
     (let rec = mk (clock n); (e1, e2, e3) = others n; st1 = e1 st in
      case st1 key of
        None \<Rightarrow> (Inr (rec, Some (Engaged rec)), st1(key \<mapsto> encode rec))
      | Some _ \<Rightarrow>
          let st2 = e2 st1 in
          (case st2 key of
             None \<Rightarrow> engage_loop n clock mk key others False st2
           | Some raw \<Rightarrow>
               (case decode raw of
                  None \<Rightarrow> (Inl (value_error ''undecodable halt record''), st2)
                | Some existing \<Rightarrow>
                    let merged = merge existing rec in
                    if merged = existing then (Inr (existing, None), st2)
                    else
                      let st3 = e3 st2 in
                      if st3 key = Some raw
                      then (Inr (merged, Some (Escalated existing merged)), st3(key \<mapsto> encode merged))
                      else engage_loop n clock mk key others True st3)))"

definition engage where
  "engage prefix clock others scope why by_whom detail target unproven st =
     (case halt_key prefix scope target of Inl e \<Rightarrow> (Inl e, st)
      | Inr key \<Rightarrow>
          (case clean_symbols unproven of Inl e \<Rightarrow> (Inl e, st)
           | Inr symbols \<Rightarrow>
               engage_loop MAX_ENGAGE_ATTEMPTS clock
                 (engage_record scope why by_whom detail target symbols) key others False st))"

text \<open>\<open>clear\<close>: the deletion happens before the decode, which may still raise.\<close>

definition clear ::
  "string \<Rightarrow> halt_scope \<Rightarrow> string \<Rightarrow> string option \<Rightarrow> store \<Rightarrow> (exn + halt_record option) \<times> store" where
  "clear prefix scope cleared_by target st =
     (if str_strip cleared_by = [] then (Inl (value_error ''clearing a halt requires a named human''), st)
      else case halt_key prefix scope target of Inl e \<Rightarrow> (Inl e, st)
        | Inr key \<Rightarrow>
            (case st key of None \<Rightarrow> (Inr None, st)
             | Some raw \<Rightarrow> ((case decode raw of None \<Rightarrow> Inl (value_error ''undecodable halt record'')
                             | Some h \<Rightarrow> Inr (Some h)), st(key := None))))"

definition active_halts :: "string list \<Rightarrow> store \<Rightarrow> exn + halt_record list" where
  "active_halts keys st =
     (case sequence_opt (map decode (List.map_filter st keys)) of
        None \<Rightarrow> Inl (value_error ''undecodable halt record'') | Some hs \<Rightarrow> Inr hs)"

section \<open>The latch\<close>

lemma merge_frame [simp]:
  "h_scope (merge e i) = h_scope e" "h_target (merge e i) = h_target e"
  "h_engaged_at (merge e i) = h_engaged_at e" "h_engaged_by (merge e i) = h_engaged_by e"
  "h_detail (merge e i) = h_detail e"
  by (simp_all add: merge_def Let_def)

lemma merge_impugned:
  "h_impugned (merge e i) = h_impugned e @
     filter (\<lambda>x. \<not> set (i_symbols x) \<subseteq> set (unproven_symbols e)) (h_impugned i)"
  by (simp add: merge_def Let_def)

lemma merge_unproven:
  "set (unproven_symbols (merge e i)) = set (unproven_symbols e) \<union> set (unproven_symbols i)"
  by (auto simp: unproven_symbols_def merge_impugned)

lemma merge_covered:
  assumes "\<forall>x \<in> set (h_impugned i). set (i_symbols x) \<subseteq> set (unproven_symbols e)"
  shows "merge e i = e"
proof -
  have "filter (\<lambda>x. \<not> set (i_symbols x) \<subseteq> set (unproven_symbols e)) (h_impugned i) = []"
    using assms by (simp add: filter_empty_conv)
  then show ?thesis by (simp add: merge_def Let_def)
qed

lemma merge_idem: "merge (merge e i) i = merge e i"
proof (rule merge_covered)
  show "\<forall>x \<in> set (h_impugned i). set (i_symbols x) \<subseteq> set (unproven_symbols (merge e i))"
    unfolding merge_unproven by (auto simp: unproven_symbols_def)
qed

lemma merge_escalates:
  "h_reason (merge e i) = (if h_impugned e = [] \<and> h_impugned (merge e i) \<noteq> [] then h_reason i else h_reason e)"
  "h_escalation (merge e i) = (if h_impugned e = [] \<and> h_impugned (merge e i) \<noteq> []
     then Some \<lparr>e_from_reason = h_reason e, e_at = h_engaged_at i, e_by = h_engaged_by i, e_detail = h_detail i\<rparr> else h_escalation e)"
  by (auto simp: merge_def Let_def)

text \<open>Why trading was first halted: an escalation keeps the reason it replaced.\<close>

definition first_reason :: "halt_record \<Rightarrow> halt_reason" where
  "first_reason h = (case h_escalation h of None \<Rightarrow> h_reason h | Some x \<Rightarrow> e_from_reason x)"

definition escalation_has_evidence :: "halt_record \<Rightarrow> bool" where
  "escalation_has_evidence h \<longleftrightarrow> (h_escalation h \<noteq> None \<longrightarrow> h_impugned h \<noteq> [])"

lemma merge_keeps_origin:
  assumes "escalation_has_evidence e"
  shows "escalation_has_evidence (merge e i) \<and> first_reason (merge e i) = first_reason e"
  using assms by (auto simp: escalation_has_evidence_def first_reason_def merge_escalates merge_impugned split: option.splits)

lemma merges_keep_origin:
  "escalation_has_evidence e \<Longrightarrow> first_reason (foldl merge e is) = first_reason e
     \<and> h_engaged_at (foldl merge e is) = h_engaged_at e \<and> h_engaged_by (foldl merge e is) = h_engaged_by e
     \<and> h_detail (foldl merge e is) = h_detail e"
  by (induction "is" arbitrary: e) (simp_all add: merge_keeps_origin)

text \<open>
  C18. The halt latch. A merge never changes what is halted, who halted it, when, or the detail that was given.
  It appends impugnments and drops none, and the symbols the platform cannot prove are exactly those
  either record names; a repeated engage is absorbed. The reason rises once, when the first evidence
  arrives, and only then is the escalation written, with the reason it replaced; any other merge leaves
  both alone. So after any number of merges the reason for which trading was first halted, when and by
  whom are still on the record.
\<close>

theorem merge_is_a_latch:
  "h_scope (merge e i) = h_scope e \<and> h_target (merge e i) = h_target e
   \<and> h_engaged_at (merge e i) = h_engaged_at e \<and> h_engaged_by (merge e i) = h_engaged_by e
   \<and> h_detail (merge e i) = h_detail e
   \<and> (\<exists>fresh. h_impugned (merge e i) = h_impugned e @ fresh \<and> set fresh \<subseteq> set (h_impugned i))
   \<and> set (unproven_symbols (merge e i)) = set (unproven_symbols e) \<union> set (unproven_symbols i)
   \<and> merge (merge e i) i = merge e i
   \<and> (if h_impugned e = [] \<and> h_impugned (merge e i) \<noteq> []
      then h_reason (merge e i) = h_reason i
        \<and> h_escalation (merge e i) = Some \<lparr>e_from_reason = h_reason e, e_at = h_engaged_at i, e_by = h_engaged_by i, e_detail = h_detail i\<rparr>
      else h_reason (merge e i) = h_reason e \<and> h_escalation (merge e i) = h_escalation e)
   \<and> first_reason (foldl merge (e\<lparr>h_escalation := None\<rparr>) is) = h_reason e
   \<and> h_engaged_at (foldl merge (e\<lparr>h_escalation := None\<rparr>) is) = h_engaged_at e
   \<and> h_engaged_by (foldl merge (e\<lparr>h_escalation := None\<rparr>) is) = h_engaged_by e"
proof -
  have "escalation_has_evidence (e\<lparr>h_escalation := None\<rparr>)" "first_reason (e\<lparr>h_escalation := None\<rparr>) = h_reason e"
    by (simp_all add: escalation_has_evidence_def first_reason_def)
  with merges_keep_origin [OF this(1)] show ?thesis
    by (auto simp: merge_unproven merge_idem merge_escalates merge_impugned)
qed

section \<open>The payload round trip\<close>

lemma parse_scope_value [simp]: "parse_scope (scope_value s) = Some s"
  by (cases s) (simp_all add: parse_scope_def)

lemma parse_reason_value [simp]: "parse_reason (reason_value r) = Some r"
  by (cases r) (simp_all add: parse_reason_def)

lemma sequence_opt_map: "(\<And>x. x \<in> set xs \<Longrightarrow> f (g x) = Some x) \<Longrightarrow> sequence_opt (map f (map g xs)) = Some xs"
  by (induction xs) auto

lemma as_str_all: "sequence_opt (map as_str (map JStr xs)) = Some xs"
  by (rule sequence_opt_map) simp

lemma decode_escalation_encode [simp]: "decode_escalation (encode_escalation e) = Some e"
  by (simp add: decode_escalation_def encode_escalation_def str_field_def time_field_def
      str_field_or_empty_def field_def)

lemma decode_impugnment_encode [simp]: "decode_impugnment (encode_impugnment i) = Some i"
  using as_str_all [of "i_symbols i"]
  by (simp add: decode_impugnment_def encode_impugnment_def str_field_def time_field_def
      str_field_or_empty_def field_def)

lemma decode_impugnments: "sequence_opt (map decode_impugnment (map encode_impugnment xs)) = Some xs"
  by (rule sequence_opt_map) simp

lemma field_encode:
  "field (encode h) ''scope'' = Some (JStr (scope_value (h_scope h)))"
  "field (encode h) ''reason'' = Some (JStr (reason_value (h_reason h)))"
  "field (encode h) ''engaged_at'' = Some (JTime (h_engaged_at h))"
  "field (encode h) ''engaged_by'' = Some (JStr (h_engaged_by h))"
  "field (encode h) ''detail'' = Some (JStr (h_detail h))"
  "field (encode h) ''target'' = Some (case h_target h of None \<Rightarrow> JNull | Some t \<Rightarrow> JStr t)"
  "field (encode h) ''escalation'' = map_option encode_escalation (h_escalation h)"
  "field (encode h) ''impugned'' =
     (if h_impugned h \<noteq> [] then Some (JList (map encode_impugnment (h_impugned h))) else None)"
  by (simp_all add: encode_def field_def split: option.split)

lemma decode_encode [simp]: "decode (encode h) = Some h"
proof -
  obtain e where e: "h_escalation h = None \<or> h_escalation h = Some e" by (cases "h_escalation h") auto
  have esc: "(case field (encode h) ''escalation'' of None \<Rightarrow> Some None | Some JNull \<Rightarrow> Some None
      | Some e \<Rightarrow> map_option Some (decode_escalation e)) = Some (h_escalation h)"
    using e by (auto simp: field_encode encode_escalation_def decode_escalation_encode [unfolded encode_escalation_def])
  have imp: "(case field (encode h) ''impugned'' of None \<Rightarrow> Some []
      | Some (JList xs) \<Rightarrow> sequence_opt (map decode_impugnment xs) | Some _ \<Rightarrow> None) = Some (h_impugned h)"
    using decode_impugnments [of "h_impugned h"] by (simp add: field_encode)
  have tgt: "(case field (encode h) ''target'' of None \<Rightarrow> Some None | Some JNull \<Rightarrow> Some None
      | Some v \<Rightarrow> map_option Some (as_str v)) = Some (h_target h)"
    by (cases "h_target h") (simp_all add: field_encode)
  show ?thesis
    unfolding decode_def esc imp tgt
    by (simp add: str_field_def time_field_def str_field_or_empty_def field_encode)
qed

text \<open>
  What \<open>_encode\<close> writes \<open>_decode\<close> reads back, escalation and impugnments included: no halt
  changes by being stored.
\<close>

theorem halt_payload_roundtrip: "decode (encode h) = Some h"
  by (rule decode_encode)

section \<open>Reading and engaging\<close>

lemma map_filter_mem: "y \<in> set (List.map_filter f xs) \<longleftrightarrow> (\<exists>x \<in> set xs. f x = Some y)"
  by (force simp: List.map_filter_def)

lemma set_map_filter: "set (List.map_filter f xs) = {y. \<exists>x \<in> set xs. f x = Some y}"
  by (auto simp: map_filter_mem)

lemma read_sees:
  assumes "key \<in> set (covering_keys prefix strategy symbol)" "s key = Some raw"
  shows "engaged (read_halt_state prefix (Some s) strategy symbol)"
    and "decode raw = Some h \<Longrightarrow> h \<in> set (hs_halts (read_halt_state prefix (Some s) strategy symbol))"
proof -
  have raw: "raw \<in> set (List.map_filter s (covering_keys prefix strategy symbol))"
    using assms by (auto simp: map_filter_mem)
  show mem: "decode raw = Some h \<Longrightarrow> h \<in> set (hs_halts (read_halt_state prefix (Some s) strategy symbol))" for h
    using raw by (simp add: read_halt_state_def Let_def map_filter_mem [of h decode]) blast
  show "engaged (read_halt_state prefix (Some s) strategy symbol)"
  proof (cases "decode raw")
    case None
    with raw show ?thesis by (auto simp: engaged_def read_halt_state_def Let_def)
  next
    case (Some h)
    with mem show ?thesis by (fastforce simp: engaged_def)
  qed
qed

lemma halt_key_covered:
  assumes "halt_key prefix scope target = Inr key"
  shows "case scope of GLOBAL \<Rightarrow> key \<in> set (covering_keys prefix strategy symbol)
    | STRATEGY \<Rightarrow> key \<in> set (covering_keys prefix target symbol)
    | SYMBOL \<Rightarrow> key \<in> set (covering_keys prefix strategy target)"
  using assms
  by (auto simp: halt_key_def covering_keys_def split: halt_scope.splits option.splits list.splits if_splits)

lemma clean_symbols_set:
  "clean_symbols ss = Inr out \<Longrightarrow> set out = (\<lambda>s. str_upper (str_strip s)) ` set ss"
  by (auto simp: clean_symbols_def Let_def split: if_splits)

lemma engage_record_unproven [simp]:
  "set (unproven_symbols (engage_record scope why who detail target syms now)) = set syms"
  by (simp add: engage_record_def unproven_symbols_def)

lemma engage_loop_recorded:
  assumes "engage_loop n clock mk key others saw st = (Inr (rec, ann), st')"
    and "\<And>t. set (unproven_symbols (mk t)) = S"
  shows "\<exists>raw. st' key = Some raw \<and> decode raw = Some rec \<and> S \<subseteq> set (unproven_symbols rec)"
  using assms(1)
proof (induction n arbitrary: saw st)
  case (Suc n)
  obtain e1 e2 e3 where o: "others n = (e1, e2, e3)" by (cases "others n") auto
  have m: "S \<subseteq> set (unproven_symbols (merge ex (mk t)))" for ex t
    by (simp add: merge_unproven assms(2))
  have m': "S \<subseteq> set (unproven_symbols ex)" if "merge ex (mk t) = ex" for ex t
    using m [of ex t] that by simp
  show ?case
    using Suc.prems Suc.IH assms(2) m
    by (auto simp: o Let_def split: option.splits if_splits) (use m' in blast)+
qed simp

lemma engage_recorded:
  assumes "engage prefix clock others scope why who detail target unproven st = (Inr (rec, ann), st')"
  shows "\<exists>key raw. halt_key prefix scope target = Inr key \<and> st' key = Some raw \<and> decode raw = Some rec
    \<and> (\<lambda>s. str_upper (str_strip s)) ` set unproven \<subseteq> set (unproven_symbols rec)"
proof -
  obtain key syms where k: "halt_key prefix scope target = Inr key" "clean_symbols unproven = Inr syms"
    using assms by (auto simp: engage_def split: sum.splits)
  with assms have loop: "engage_loop MAX_ENGAGE_ATTEMPTS clock (engage_record scope why who detail target syms)
      key others False st = (Inr (rec, ann), st')" by (simp add: engage_def)
  from engage_loop_recorded [OF loop, of "set syms"] k clean_symbols_set [OF k(2)] show ?thesis by auto
qed

text \<open>The reads a halt of this scope and target covers.\<close>

definition covers :: "halt_scope \<Rightarrow> string option \<Rightarrow> string option \<Rightarrow> string option \<Rightarrow> bool" where
  "covers scope target strategy symbol \<longleftrightarrow>
     (case scope of GLOBAL \<Rightarrow> True | STRATEGY \<Rightarrow> strategy = target | SYMBOL \<Rightarrow> symbol = target)"

text \<open>
  C17. An engage that returns is in force, whatever its scope and whatever other processes did to the store
  between its round trips. After its last round trip every read the halt covers (each one for a global
  halt, each read of the strategy or of the symbol it names for a scoped one) says engaged, and reports
  every position the caller could not prove as unproven.
\<close>

theorem engage_is_in_force:
  assumes "engage prefix clock others scope why who detail target unproven st = (Inr (rec, ann), st')"
    and "covers scope target strategy symbol"
  shows "is_engaged prefix (Some st') strategy symbol
    \<and> (\<forall>sm \<in> set unproven. position_is_unproven (read_halt_state prefix (Some st') strategy symbol)
                              (str_upper (str_strip sm)))"
proof -
  obtain key raw where k: "halt_key prefix scope target = Inr key" "st' key = Some raw"
    "decode raw = Some rec" "(\<lambda>s. str_upper (str_strip s)) ` set unproven \<subseteq> set (unproven_symbols rec)"
    using engage_recorded [OF assms(1)] by blast
  have c: "key \<in> set (covering_keys prefix strategy symbol)"
    using halt_key_covered [OF k(1), of strategy symbol] assms(2) by (simp add: covers_def split: halt_scope.splits)
  from read_sees(1) [where s = st' and raw = raw, OF c k(2)]
    read_sees(2) [where s = st' and raw = raw, OF c k(2,3)] k(4) show ?thesis
    by (auto simp: is_engaged_def position_is_unproven_def)
qed

theorem engage_is_in_force_witness:
  "let r = engage ''atp'' (\<lambda>_. 5) (\<lambda>_. (id, id, id)) STRATEGY HR_MANUAL ''op'' [] (Some ''s1'') ['' spy''] (\<lambda>_. None)
   in (\<exists>rec. fst r = Inr (rec, Some (Engaged rec))) \<and> is_engaged ''atp'' (Some (snd r)) (Some ''s1'') None
      \<and> position_is_unproven (read_halt_state ''atp'' (Some (snd r)) (Some ''s1'') (Some ''SPY'')) ''SPY''"
proof -
  define r where "r = engage ''atp'' (\<lambda>_. 5) (\<lambda>_. (id, id, id)) STRATEGY HR_MANUAL ''op'' [] (Some ''s1'') ['' spy''] (\<lambda>_. None)"
  have up: "str_upper (str_strip '' spy'') = ''SPY''" by code_simp
  have ex: "\<exists>rec. fst r = Inr (rec, Some (Engaged rec))"
    by (simp add: r_def engage_def halt_key_def clean_symbols_def up MAX_ENGAGE_ATTEMPTS_def numeral_3_eq_3 Let_def)
  from this obtain rec where rec: "engage ''atp'' (\<lambda>_. 5) (\<lambda>_. (id, id, id)) STRATEGY HR_MANUAL ''op'' [] (Some ''s1'') ['' spy''] (\<lambda>_. None)
      = (Inr (rec, Some (Engaged rec)), snd r)" by (auto simp: r_def prod_eq_iff)
  from engage_is_in_force [OF rec, of "Some ''s1''" None] engage_is_in_force [OF rec, of "Some ''s1''" "Some ''SPY''"] up ex
  show ?thesis unfolding Let_def r_def [symmetric] by (simp add: covers_def)
qed

text \<open>
  The kill switch fails closed: with the store unreachable every read says engaged; with it
  reachable, any value on a covering key, readable or not, refuses; and an undecodable record
  hides none of the others.
\<close>

theorem halt_state_fails_closed:
  "is_engaged prefix None strategy symbol
   \<and> (is_engaged prefix (Some s) strategy symbol \<longleftrightarrow>
       (\<exists>key \<in> set (covering_keys prefix strategy symbol). s key \<noteq> None))
   \<and> (\<exists>hs. hs = set (hs_halts (read_halt_state prefix (Some s) strategy symbol))
       \<and> hs = {h. \<exists>key \<in> set (covering_keys prefix strategy symbol). \<exists>raw. s key = Some raw \<and> decode raw = Some h})"
proof (intro conjI exI [of _ "set (hs_halts (read_halt_state prefix (Some s) strategy symbol))"])
  show "is_engaged prefix None strategy symbol"
    by (simp add: is_engaged_def engaged_def read_halt_state_def)
  show "is_engaged prefix (Some s) strategy symbol \<longleftrightarrow>
      (\<exists>key \<in> set (covering_keys prefix strategy symbol). s key \<noteq> None)" (is "?l \<longleftrightarrow> ?r")
  proof
    assume l: ?l
    show ?r
    proof (rule ccontr)
      assume "\<not> ?r"
      then have "List.map_filter s (covering_keys prefix strategy symbol) = []"
        by (auto simp: List.map_filter_def filter_empty_conv)
      with l show False by (simp add: is_engaged_def engaged_def read_halt_state_def Let_def)
    qed
  next
    assume ?r
    then show ?l using read_sees(1) by (auto simp: is_engaged_def)
  qed
  show "set (hs_halts (read_halt_state prefix (Some s) strategy symbol))
      = {h. \<exists>key \<in> set (covering_keys prefix strategy symbol). \<exists>raw. s key = Some raw \<and> decode raw = Some h}"
    unfolding read_halt_state_def by (simp add: Let_def set_map_filter) blast
qed simp

section \<open>What a rule may assume of the switch\<close>

locale halt_source =
  fixes state_of :: "string option \<Rightarrow> string option \<Rightarrow> halt_state"
  assumes global_covers: "engaged (state_of None None) \<Longrightarrow> engaged (state_of strategy symbol)"
    and global_evidence: "position_is_unproven (state_of None None) sm \<Longrightarrow>
          position_is_unproven (state_of strategy symbol) sm"
    and evidence_engages: "position_is_unproven (state_of strategy symbol) sm \<Longrightarrow>
          engaged (state_of strategy symbol)"
begin

lemma clear_everywhere:
  "\<not> engaged (state_of strategy symbol) \<Longrightarrow>
   \<not> engaged (state_of None None) \<and> \<not> position_is_unproven (state_of strategy symbol) sm"
  using global_covers evidence_engages by blast

end

lemma read_halt_state_global:
  assumes "h \<in> set (hs_halts (read_halt_state prefix st None None))"
  shows "h \<in> set (hs_halts (read_halt_state prefix st strategy symbol))"
  using assms
  by (auto simp: read_halt_state_def Let_def covering_keys_def List.map_filter_def split: option.splits)

interpretation redis: halt_source "read_halt_state prefix st" for prefix st
proof
  show "engaged (read_halt_state prefix st strategy symbol)"
    if "engaged (read_halt_state prefix st None None)" for strategy symbol
    using that
    by (cases st) (auto simp: engaged_def read_halt_state_def Let_def covering_keys_def List.map_filter_def
        split: option.splits if_splits)
qed (auto simp: position_is_unproven_def engaged_def dest: read_halt_state_global)

end
