(* ===== verification/RiskLimits.thy ===== *)
theory RiskLimits
  imports Enums
begin

text \<open>
  \<open>risk/limits.py\<close>: the account-wide ceilings and the checks their constructor runs. A value
  typed by an operator can be a NaN or an infinity, and how many decimal places it was written
  with matters to one check, so here a decimal is its sign-and-coefficient form \<open>raw_dec\<close>;
  a constructed \<open>risk_limits\<close> holds plain values.
\<close>

datatype raw_dec = Finite int int | Infinite bool | NotANumber

fun raw_value :: "raw_dec \<Rightarrow> dec" where
  "raw_value (Finite coeff exponent) = of_int coeff * 10 powi exponent"
| "raw_value _ = 0"

definition MAX_POSITION_CEILING :: dec where "MAX_POSITION_CEILING = 1"
definition MAX_GROSS_CEILING :: dec where "MAX_GROSS_CEILING = 4"
definition MAX_DAILY_LOSS_CEILING :: dec where "MAX_DAILY_LOSS_CEILING = 1"
definition MAX_STOP_LOSS :: dec where "MAX_STOP_LOSS = 1"
definition MAX_TAKE_PROFIT :: dec where "MAX_TAKE_PROFIT = 10"
definition STORED_DECIMAL_PLACES :: int where "STORED_DECIMAL_PLACES = 8"
definition MAX_COUNT :: int where "MAX_COUNT = 2147483647"

record risk_limits =
  l_max_position_pct :: dec
  l_max_gross_exposure_pct :: dec
  l_max_daily_loss_pct :: dec
  l_max_orders_per_minute :: int
  l_max_open_positions :: int
  l_max_quote_age_seconds :: int
  l_default_stop_loss_pct :: dec
  l_default_take_profit_pct :: dec

record limits_input =
  in_position :: raw_dec
  in_gross :: raw_dec
  in_daily :: raw_dec
  in_orders :: int
  in_open :: int
  in_age :: int
  in_stop :: raw_dec
  in_target :: raw_dec

definition config_error :: "string \<Rightarrow> string \<Rightarrow> exn" where
  "config_error name what = ConfigError (Reason what [name] [])"

definition check_fraction :: "string \<Rightarrow> raw_dec \<Rightarrow> dec \<Rightarrow> bool \<Rightarrow> exn + dec" where
  "check_fraction name v cap exclusive =
     (case v of
        Finite coeff exponent \<Rightarrow>
          let x = raw_value v in
          if x \<le> 0 then Inl (config_error name ''must be greater than zero'')
          else if cap < x \<or> exclusive \<and> x = cap
            then Inl (config_error name ''refuses anything above the ceiling'')
          else if STORED_DECIMAL_PLACES < - exponent
            then Inl (config_error name ''more decimal places than it is stored at'')
          else Inr x
      | _ \<Rightarrow> Inl (config_error name ''must be a finite number''))"

definition check_count :: "string \<Rightarrow> int \<Rightarrow> exn + int" where
  "check_count name v =
     (if v < 1 then Inl (config_error name ''must be at least 1'')
      else if MAX_COUNT < v then Inl (config_error name ''larger than this can store'')
      else Inr v)"

definition new_risk_limits :: "limits_input \<Rightarrow> exn + risk_limits" where
  "new_risk_limits i =
     bind_r (check_fraction ''max_position_pct'' (in_position i) MAX_POSITION_CEILING False) (\<lambda>p.
     bind_r (check_fraction ''max_gross_exposure_pct'' (in_gross i) MAX_GROSS_CEILING False) (\<lambda>g.
     bind_r (check_fraction ''max_daily_loss_pct'' (in_daily i) MAX_DAILY_LOSS_CEILING False) (\<lambda>d.
     bind_r (check_fraction ''default_stop_loss_pct'' (in_stop i) MAX_STOP_LOSS True) (\<lambda>s.
     bind_r (check_fraction ''default_take_profit_pct'' (in_target i) MAX_TAKE_PROFIT False) (\<lambda>t.
     bind_r (check_count ''max_orders_per_minute'' (in_orders i)) (\<lambda>n.
     bind_r (check_count ''max_open_positions'' (in_open i)) (\<lambda>k.
     bind_r (check_count ''max_quote_age_seconds'' (in_age i)) (\<lambda>a.
       if g < p then Inl (config_error ''max_position_pct'' ''lets one symbol exceed the gross limit'')
       else Inr \<lparr>l_max_position_pct = p, l_max_gross_exposure_pct = g, l_max_daily_loss_pct = d,
                 l_max_orders_per_minute = n, l_max_open_positions = k, l_max_quote_age_seconds = a,
                 l_default_stop_loss_pct = s, l_default_take_profit_pct = t\<rparr>))))))))"

definition DEFAULT_LIMITS_INPUT :: limits_input where
  "DEFAULT_LIMITS_INPUT = \<lparr>in_position = Finite 10 (- 2), in_gross = Finite 100 (- 2),
     in_daily = Finite 3 (- 2), in_orders = 30, in_open = 20, in_age = 30,
     in_stop = Finite 2 (- 2), in_target = Finite 6 (- 2)\<rparr>"

text \<open>What every stored row satisfies, and what storing at eight places keeps.\<close>

definition limits_wf :: "risk_limits \<Rightarrow> bool" where
  "limits_wf l \<longleftrightarrow>
     0 < l_max_position_pct l \<and> l_max_position_pct l \<le> 1
     \<and> l_max_position_pct l \<le> l_max_gross_exposure_pct l \<and> l_max_gross_exposure_pct l \<le> 4
     \<and> 0 < l_max_daily_loss_pct l \<and> l_max_daily_loss_pct l \<le> 1
     \<and> 0 < l_default_stop_loss_pct l \<and> l_default_stop_loss_pct l < 1
     \<and> 0 < l_default_take_profit_pct l \<and> l_default_take_profit_pct l \<le> 10
     \<and> 1 \<le> l_max_orders_per_minute l \<and> l_max_orders_per_minute l < 2 ^ 31
     \<and> 1 \<le> l_max_open_positions l \<and> l_max_open_positions l < 2 ^ 31
     \<and> 1 \<le> l_max_quote_age_seconds l \<and> l_max_quote_age_seconds l < 2 ^ 31"

definition stored_scale :: "dec \<Rightarrow> dec" where
  "stored_scale x = of_int (to_integral ROUND_HALF_UP (x * 10 ^ 8)) / 10 ^ 8"

lemma raw_places:
  assumes "- exponent \<le> 8"
  shows "(of_int coeff * 10 powi exponent * 10 ^ 8 :: rat) = of_int (coeff * 10 ^ nat (exponent + 8))"
proof -
  have "(10::rat) powi exponent * 10 ^ 8 = 10 powi (exponent + 8)"
    by (subst power_int_add) simp_all
  also have "\<dots> = 10 ^ nat (exponent + 8)" using assms by (simp add: power_int_def)
  finally show ?thesis by (simp add: mult.assoc)
qed

lemma check_fraction_Inr:
  assumes "check_fraction name v cap exclusive = Inr x"
  shows "0 < x" "x \<le> cap" "exclusive \<longrightarrow> x < cap" "stored_scale x = x"
proof -
  obtain c e where v: "v = Finite c e" "x = of_int c * 10 powi e" "- e \<le> 8"
    using assms by (cases v) (auto simp: check_fraction_def Let_def STORED_DECIMAL_PLACES_def split: if_splits)
  show "0 < x" "x \<le> cap" "exclusive \<longrightarrow> x < cap"
    using assms v by (auto simp: check_fraction_def Let_def split: if_splits)
  have "x * 10 ^ 8 = of_int (c * 10 ^ nat (e + 8))" using raw_places [OF v(3)] v(2) by simp
  moreover from this have "to_integral ROUND_HALF_UP (x * 10 ^ 8) = c * 10 ^ nat (e + 8)"
    by (simp add: floor_eq_iff ceiling_eq_iff del: of_int_mult of_int_power)
  ultimately show "stored_scale x = x" by (simp add: stored_scale_def)
qed

lemma check_count_Inr: "check_count name v = Inr n \<Longrightarrow> n = v \<and> 1 \<le> v \<and> v < 2 ^ 31"
  by (auto simp: check_count_def MAX_COUNT_def split: if_splits)

text \<open>
  C26. A constructed \<open>RiskLimits\<close> is a set of limits: every fraction is positive and inside its
  bound, the stop is a level above zero, the counts fit the column, the position limit is the
  one in force; and rounding each fraction to the column's eight places changes none of them,
  so what is stored loads back.
\<close>

theorem risk_limits_wf:
  assumes "new_risk_limits i = Inr l"
  shows "limits_wf l \<and> stored_scale (l_max_position_pct l) = l_max_position_pct l
    \<and> stored_scale (l_max_gross_exposure_pct l) = l_max_gross_exposure_pct l
    \<and> stored_scale (l_max_daily_loss_pct l) = l_max_daily_loss_pct l
    \<and> stored_scale (l_default_stop_loss_pct l) = l_default_stop_loss_pct l
    \<and> stored_scale (l_default_take_profit_pct l) = l_default_take_profit_pct l"
proof -
  obtain p g d s t n k a
    where P: "check_fraction ''max_position_pct'' (in_position i) MAX_POSITION_CEILING False = Inr p"
      and G: "check_fraction ''max_gross_exposure_pct'' (in_gross i) MAX_GROSS_CEILING False = Inr g"
      and D: "check_fraction ''max_daily_loss_pct'' (in_daily i) MAX_DAILY_LOSS_CEILING False = Inr d"
      and S: "check_fraction ''default_stop_loss_pct'' (in_stop i) MAX_STOP_LOSS True = Inr s"
      and T: "check_fraction ''default_take_profit_pct'' (in_target i) MAX_TAKE_PROFIT False = Inr t"
      and N: "check_count ''max_orders_per_minute'' (in_orders i) = Inr n"
             "check_count ''max_open_positions'' (in_open i) = Inr k"
             "check_count ''max_quote_age_seconds'' (in_age i) = Inr a"
      and pg: "\<not> g < p"
      and l: "l = \<lparr>l_max_position_pct = p, l_max_gross_exposure_pct = g, l_max_daily_loss_pct = d,
                 l_max_orders_per_minute = n, l_max_open_positions = k, l_max_quote_age_seconds = a,
                 l_default_stop_loss_pct = s, l_default_take_profit_pct = t\<rparr>"
    using assms by (auto simp: new_risk_limits_def bind_r_eq_Inr split: if_splits)
  show ?thesis unfolding l limits_wf_def
    using check_fraction_Inr [OF P] check_fraction_Inr [OF G] check_fraction_Inr [OF D]
      check_fraction_Inr [OF S] check_fraction_Inr [OF T] N [THEN check_count_Inr] pg
    by (simp add: MAX_POSITION_CEILING_def MAX_GROSS_CEILING_def MAX_DAILY_LOSS_CEILING_def
        MAX_STOP_LOSS_def MAX_TAKE_PROFIT_def)
qed

theorem risk_limits_wf_witness:
  "\<exists>l. new_risk_limits DEFAULT_LIMITS_INPUT = Inr l \<and> limits_wf l \<and> l_max_position_pct l = 1/10"
proof -
  have "\<exists>l. new_risk_limits DEFAULT_LIMITS_INPUT = Inr l \<and> l_max_position_pct l = 1/10"
    by (simp add: new_risk_limits_def DEFAULT_LIMITS_INPUT_def check_fraction_def check_count_def
        MAX_POSITION_CEILING_def MAX_GROSS_CEILING_def MAX_DAILY_LOSS_CEILING_def MAX_STOP_LOSS_def
        MAX_TAKE_PROFIT_def STORED_DECIMAL_PLACES_def MAX_COUNT_def power_int_def power2_eq_square)
  then show ?thesis using risk_limits_wf by blast
qed

end
