(* ===== verification/RiskRules.thy ===== *)
theory RiskRules
  imports Positions KillSwitch RiskLimits
begin

text \<open>
  \<open>risk/rules.py\<close>: the nine pre-trade rules, the helpers they share, and position sizing; with the
  verdict and the two books of \<open>risk/engine.py\<close> that every rule takes.

  What a rule reads from outside the books is in \<open>risk_env\<close>: the clock, the calendar's answer, the
  time of the last tick, the kill switch's answer. \<open>rb_shared\<close> says that the committed book is the
  settled one (nothing in flight), so that an insertion through one is seen through the other.
\<close>

record risk_decision =
  rd_approved :: bool
  rd_rule :: string
  rd_reason :: reason
  rd_adjusted :: "dec option"

definition no_reason :: reason where "no_reason = Reason [] [] []"

definition allow :: risk_decision where
  "allow = \<lparr>rd_approved = True, rd_rule = [], rd_reason = no_reason, rd_adjusted = None\<rparr>"

definition deny :: "string \<Rightarrow> reason \<Rightarrow> risk_decision" where
  "deny rule why = \<lparr>rd_approved = False, rd_rule = rule, rd_reason = why, rd_adjusted = None\<rparr>"

definition shrink :: "string \<Rightarrow> reason \<Rightarrow> dec \<Rightarrow> exn + risk_decision" where
  "shrink rule why qty =
     (if qty \<le> 0 then Inl (value_error ''a shrink must leave something to trade'')
      else Inr \<lparr>rd_approved = True, rd_rule = rule, rd_reason = why, rd_adjusted = Some qty\<rparr>)"

record risk_books =
  rb_committed :: portfolio
  rb_settled :: portfolio
  rb_in_flight :: "(dec \<times> dec) dict"
  rb_shared :: bool

record risk_env =
  env_now :: ts
  env_is_open :: "ts \<Rightarrow> bool"
  env_last_tick :: "string \<Rightarrow> ts option"
  env_halt :: "string option \<Rightarrow> string \<Rightarrow> halt_state"

definition DAILY_LOSS_RULE :: string where "DAILY_LOSS_RULE = ''daily_loss_limit''"
definition RATE_LIMIT_RULE :: string where "RATE_LIMIT_RULE = ''rate_limit''"
definition EXIT_BLIND_RULES :: "string list" where
  "EXIT_BLIND_RULES = [''trading_hours'', RATE_LIMIT_RULE, ''stale_data'']"

definition held_in :: "portfolio \<Rightarrow> string \<Rightarrow> position option" where
  "held_in pf sm = dict_get (pf_positions pf) sm"

definition reduces_position :: "order \<Rightarrow> portfolio \<Rightarrow> bool" where
  "reduces_position o1 pf =
     (case held_in pf (o_symbol o1) of
        None \<Rightarrow> False
      | Some p \<Rightarrow> if is_flat p then False
                 else if o_side o1 = SELL then is_long p else is_short p)"

definition closes_without_reversing :: "order \<Rightarrow> portfolio \<Rightarrow> bool" where
  "closes_without_reversing o1 pf \<longleftrightarrow> reduces_position o1 pf
     \<and> (case held_in pf (o_symbol o1) of None \<Rightarrow> False | Some p \<Rightarrow> o_qty o1 \<le> dabs (p_qty p))"

definition reference_price :: "string \<Rightarrow> portfolio \<Rightarrow> dec option \<Rightarrow> dec option" where
  "reference_price sm pf lp =
     (case lp of Some l \<Rightarrow> Some l
      | None \<Rightarrow> (case held_in pf sm of None \<Rightarrow> None | Some p \<Rightarrow> p_last p))"

definition price_for :: "order \<Rightarrow> portfolio \<Rightarrow> dec option" where
  "price_for o1 pf = reference_price (o_symbol o1) pf (o_limit o1)"

definition signed_remaining :: "order \<Rightarrow> dec" where
  "signed_remaining o1 = dmul (remaining_qty o1) (side_sign (o_side o1))"

definition signed_qty :: "order \<Rightarrow> dec" where
  "signed_qty o1 = dmul (o_qty o1) (side_sign (o_side o1))"

text \<open>One in-flight order projected onto the copied positions and cash; marks come from the original.\<close>

definition project_one :: "portfolio \<Rightarrow> order \<Rightarrow> position dict \<times> dec \<Rightarrow> position dict \<times> dec" where
  "project_one pf o1 pc =
     (let sm = o_symbol o1;
          p = dict_get_or (fst pc) sm (new_position sm);
          signed = signed_remaining o1;
          p1 = p\<lparr>p_qty := dadd (p_qty p) signed\<rparr>
      in case price_for o1 pf of
           None \<Rightarrow> (dict_set sm p1 (fst pc), snd pc)
         | Some price \<Rightarrow>
             (dict_set sm (if p_last p1 = None then p1\<lparr>p_last := Some price\<rparr> else p1) (fst pc),
              dsub (snd pc) (dmul signed price)))"

definition committed_orders :: "portfolio \<Rightarrow> order list \<Rightarrow> order list" where
  "committed_orders pf pending = filter (\<lambda>o1. 0 < remaining_qty o1 \<and> \<not> reduces_position o1 pf) pending"

definition project_pending :: "portfolio \<Rightarrow> order list \<Rightarrow> portfolio" where
  "project_pending pf pending =
     (let committed = committed_orders pf pending in
      if committed = [] then pf
      else let pc = fold (project_one pf) committed (pf_positions pf, pf_cash pf)
           in pf\<lparr>pf_cash := snd pc, pf_positions := fst pc\<rparr>)"

definition add_in_flight :: "order \<Rightarrow> (dec \<times> dec) dict \<Rightarrow> (dec \<times> dec) dict" where
  "add_in_flight o1 totals =
     (let remaining = remaining_qty o1 in
      if remaining \<le> 0 then totals
      else let (buys, sells) = dict_get_or totals (o_symbol o1) (0, 0)
           in dict_set (o_symbol o1)
                (if o_side o1 = BUY then (dadd buys remaining, sells) else (buys, dadd sells remaining)) totals)"

definition in_flight_by_symbol :: "order list \<Rightarrow> (dec \<times> dec) dict" where
  "in_flight_by_symbol pending = fold add_in_flight pending []"

definition qty_in :: "portfolio \<Rightarrow> string \<Rightarrow> dec" where
  "qty_in pf sm = (case held_in pf sm of None \<Rightarrow> 0 | Some p \<Rightarrow> p_qty p)"

definition producible_quantities :: "string \<Rightarrow> risk_books \<Rightarrow> dec list" where
  "producible_quantities sm bks =
     (let held = qty_in (rb_settled bks) sm;
          (buys, sells) = dict_get_or (rb_in_flight bks) sm (0, 0)
      in [held, dadd held buys, dsub held sells, qty_in (rb_committed bks) sm])"

fun list_max :: "dec list \<Rightarrow> dec" where
  "list_max [] = 0"
| "list_max [x] = x"
| "list_max (x # y # xs) = max x (list_max (y # xs))"

definition worst_resulting_qty :: "order \<Rightarrow> risk_books \<Rightarrow> dec" where
  "worst_resulting_qty o1 bks =
     list_max (map (\<lambda>q. dabs (dadd q (signed_qty o1))) (producible_quantities (o_symbol o1) bks))"

definition worst_magnitude :: "string \<Rightarrow> risk_books \<Rightarrow> dec" where
  "worst_magnitude sm bks = list_max (map dabs (producible_quantities sm bks))"

definition unpriced_book :: "string \<Rightarrow> portfolio \<Rightarrow> risk_decision option" where
  "unpriced_book rule pf =
     (let unmarked = unmarked_symbols pf in
      if unmarked \<noteq> [] then Some (deny rule (Reason ''cannot value the book: no mark'' unmarked [])) else None)"

text \<open>The rules. A rule that keeps state between checks carries it.\<close>

datatype risk_rule =
  KillSwitchRule
| TradingHoursRule bool
| RateLimitRule "ts list"
| StaleDataRule
| MaxPositionSizeRule
| MaxExposureRule
| MaxOpenPositionsRule
| DailyLossLimitRule "dec option"
| BuyingPowerRule
| CustomRule "order \<Rightarrow> risk_books \<Rightarrow> risk_limits \<Rightarrow> risk_decision"

definition check_kill_switch :: "risk_env \<Rightarrow> order \<Rightarrow> risk_books \<Rightarrow> risk_decision" where
  "check_kill_switch env o1 bks =
     (let st = env_halt env (o_strategy o1) (o_symbol o1);
          settled = rb_settled bks in
      if \<not> engaged st then allow
      else if \<not> reduces_position o1 settled
        then deny ''kill_switch'' (Reason ''trading is halted'' [] [])
      else if position_is_unproven st (o_symbol o1)
        then deny ''kill_switch'' (Reason ''trading is halted and the quantity is unproven'' [o_symbol o1] [])
      else if \<not> closes_without_reversing o1 settled
        then deny ''kill_switch'' (Reason ''would reverse the position rather than close it'' [o_symbol o1]
               [o_qty o1, dabs (qty_in settled (o_symbol o1))])
      else allow)"

definition check_trading_hours :: "risk_env \<Rightarrow> bool \<Rightarrow> risk_decision" where
  "check_trading_hours env extended =
     (if extended then allow
      else if \<not> env_is_open env (env_now env) then deny ''trading_hours'' (Reason ''the exchange is closed'' [] [])
      else allow)"

definition RATE_WINDOW :: int where "RATE_WINDOW = 60 * 10 ^ 6"

definition check_rate_limit :: "risk_env \<Rightarrow> risk_limits \<Rightarrow> ts list \<Rightarrow> risk_decision \<times> ts list" where
  "check_rate_limit env lims recent =
     (let now = env_now env;
          cutoff = now - RATE_WINDOW;
          kept = dropWhile (\<lambda>t. t \<le> cutoff) recent
      in if l_max_orders_per_minute lims \<le> int (length kept)
         then (deny RATE_LIMIT_RULE (Reason ''orders in the last minute, at the limit'' [] []), kept)
         else (allow, kept @ [now]))"

definition check_stale_data :: "risk_env \<Rightarrow> risk_limits \<Rightarrow> order \<Rightarrow> risk_decision" where
  "check_stale_data env lims o1 =
     (case env_last_tick env (o_symbol o1) of
        None \<Rightarrow> deny ''stale_data'' (Reason ''no market data has arrived'' [o_symbol o1] [])
      | Some seen \<Rightarrow>
          if l_max_quote_age_seconds lims * 10 ^ 6 < env_now env - seen
          then deny ''stale_data'' (Reason ''data is older than the limit'' [o_symbol o1] []) else allow)"

definition check_max_position :: "risk_limits \<Rightarrow> order \<Rightarrow> risk_books \<Rightarrow> risk_decision" where
  "check_max_position lims o1 bks =
     (let rule = ''max_position_size''; pf = rb_committed bks in
      if closes_without_reversing o1 (rb_settled bks) then allow
      else case unpriced_book rule pf of Some d \<Rightarrow> d
      | None \<Rightarrow> (case price_for o1 pf of
          None \<Rightarrow> deny rule (Reason ''no price available'' [o_symbol o1] [])
        | Some price \<Rightarrow>
            let eq = equity pf in
            if eq \<le> 0 then deny rule (Reason ''equity is not positive'' [] [eq])
            else let resulting = dmul (worst_resulting_qty o1 bks) price;
                     cap = dmul (l_max_position_pct lims) eq
                 in if cap < resulting then deny rule (Reason ''over the cap'' [o_symbol o1] [resulting, cap])
                    else allow))"

text \<open>
  \<open>MaxExposureRule.check\<close> calls \<open>portfolio.position\<close>, which inserts a flat position for an unheld
  symbol into the committed book, and so into the settled one when they are shared.
\<close>

definition touch_committed :: "string \<Rightarrow> risk_books \<Rightarrow> risk_books" where
  "touch_committed sm bks =
     (let b1 = bks\<lparr>rb_committed := touch_position sm (rb_committed bks)\<rparr>
      in if rb_shared bks then b1\<lparr>rb_settled := touch_position sm (rb_settled bks)\<rparr> else b1)"

text \<open>What the orders working in the other symbols can add: \<open>Inl\<close> is a symbol that cannot be valued.\<close>

fun add_working :: "risk_books \<Rightarrow> string \<Rightarrow> string list \<Rightarrow> dec \<Rightarrow> string + dec" where
  "add_working bks sm [] acc = Inr acc"
| "add_working bks sm (s # ss) acc =
     (if s = sm then add_working bks sm ss acc
      else let extra = dsub (worst_magnitude s bks) (dabs (qty_in (rb_committed bks) s)) in
           if extra \<le> 0 then add_working bks sm ss acc
           else case (case held_in (rb_committed bks) s of None \<Rightarrow> None | Some p \<Rightarrow> p_last p) of
                  None \<Rightarrow> Inl s
                | Some m \<Rightarrow> add_working bks sm ss (dadd acc (dmul extra m)))"

definition check_max_exposure ::
  "risk_limits \<Rightarrow> order \<Rightarrow> risk_books \<Rightarrow> risk_decision \<times> risk_books" where
  "check_max_exposure lims o1 bks =
     (let rule = ''max_gross_exposure''; sm = o_symbol o1; pf = rb_committed bks in
      if closes_without_reversing o1 (rb_settled bks) then (allow, bks)
      else case unpriced_book rule pf of Some d \<Rightarrow> (d, bks)
      | None \<Rightarrow> (case price_for o1 pf of
          None \<Rightarrow> (deny rule (Reason ''no price available'' [sm] []), bks)
        | Some price \<Rightarrow>
            let eq = equity pf in
            if eq \<le> 0 then (deny rule (Reason ''equity is not positive'' [] [eq]), bks)
            else
              let b1 = touch_committed sm bks;
                  pf1 = rb_committed b1;
                  held = p_qty (position_of sm pf1);
                  signed = signed_qty o1;
                  without = dsub (gross_exposure pf1) (dmul (dabs held) price);
                  r0 = dadd without (dmul (dabs (dadd held signed)) price);
                  r1 = dadd r0 (dmul (dsub (worst_resulting_qty o1 b1) (dabs (dadd held signed))) price)
              in case add_working b1 sm (dict_keys (rb_in_flight b1)) r1 of
                   Inl s \<Rightarrow> (deny rule (Reason ''cannot value the working quantity: no mark'' [s] []), b1)
                 | Inr resulting \<Rightarrow>
                     let cap = dmul (l_max_gross_exposure_pct lims) eq
                     in if cap < resulting then (deny rule (Reason ''over the cap'' [] [resulting, cap]), b1)
                        else (allow, b1)))"

definition check_daily_loss :: "risk_limits \<Rightarrow> dec option \<Rightarrow> order \<Rightarrow> risk_books \<Rightarrow> risk_decision" where
  "check_daily_loss lims anchor o1 bks =
     (if reduces_position o1 (rb_settled bks) then allow
      else let pf = rb_committed bks in
        case anchor of
          None \<Rightarrow> deny DAILY_LOSS_RULE (Reason ''starting equity has not been anchored'' [] [])
        | Some start \<Rightarrow>
            if start \<le> 0 then deny DAILY_LOSS_RULE (Reason ''day-start equity is not positive'' [] [start])
            else case unpriced_book DAILY_LOSS_RULE pf of Some d \<Rightarrow> d
            | None \<Rightarrow>
                let change = ddiv (dsub (equity pf) start) start in
                if change \<le> dneg (l_max_daily_loss_pct lims)
                then deny DAILY_LOSS_RULE (Reason ''down on the day, at or past the limit'' [] [change])
                else allow)"

definition check_max_open :: "risk_limits \<Rightarrow> order \<Rightarrow> risk_books \<Rightarrow> risk_decision" where
  "check_max_open lims o1 bks =
     (let pf = rb_committed bks in
      if (case held_in pf (o_symbol o1) of None \<Rightarrow> False | Some p \<Rightarrow> \<not> is_flat p) then allow
      else if l_max_open_positions lims \<le> int (length (open_positions pf))
        then deny ''max_open_positions'' (Reason ''already at the limit'' [] [])
      else allow)"

definition check_buying_power :: "order \<Rightarrow> risk_books \<Rightarrow> risk_decision" where
  "check_buying_power o1 bks =
     (if reduces_position o1 (rb_settled bks) then allow
      else let pf = rb_committed bks in
        case price_for o1 pf of
          None \<Rightarrow> deny ''buying_power'' (Reason ''no price available'' [o_symbol o1] [])
        | Some price \<Rightarrow>
            let cost = dmul (o_qty o1) price in
            if pf_cash pf < cost then deny ''buying_power'' (Reason ''would cost more than cash'' [o_symbol o1] [cost, pf_cash pf])
            else allow)"

definition check_rule ::
  "risk_env \<Rightarrow> risk_limits \<Rightarrow> order \<Rightarrow> risk_books \<Rightarrow> risk_rule \<Rightarrow> risk_decision \<times> risk_rule \<times> risk_books" where
  "check_rule env lims o1 bks r =
     (case r of
        KillSwitchRule \<Rightarrow> (check_kill_switch env o1 bks, r, bks)
      | TradingHoursRule ext \<Rightarrow> (check_trading_hours env ext, r, bks)
      | RateLimitRule recent \<Rightarrow> (let (d, rec1) = check_rate_limit env lims recent in (d, RateLimitRule rec1, bks))
      | StaleDataRule \<Rightarrow> (check_stale_data env lims o1, r, bks)
      | MaxPositionSizeRule \<Rightarrow> (check_max_position lims o1 bks, r, bks)
      | MaxExposureRule \<Rightarrow> (let (d, b1) = check_max_exposure lims o1 bks in (d, r, b1))
      | MaxOpenPositionsRule \<Rightarrow> (check_max_open lims o1 bks, r, bks)
      | DailyLossLimitRule anchor \<Rightarrow> (check_daily_loss lims anchor o1 bks, r, bks)
      | BuyingPowerRule \<Rightarrow> (check_buying_power o1 bks, r, bks)
      | CustomRule f \<Rightarrow> (f o1 bks lims, r, bks))"

text \<open>The books \<open>RiskEngine.validate\<close> hands to every rule.\<close>

definition books_of :: "portfolio \<Rightarrow> order list \<Rightarrow> risk_books" where
  "books_of pf working =
     \<lparr>rb_committed = project_pending pf working, rb_settled = pf,
      rb_in_flight = in_flight_by_symbol working, rb_shared = (committed_orders pf working = [])\<rparr>"

text \<open>\<open>position_size\<close>: intent to whole shares, towards zero.\<close>

definition size_raw :: "string \<Rightarrow> dec \<Rightarrow> dec \<Rightarrow> dec option \<Rightarrow> dec \<Rightarrow> dec option \<Rightarrow> exn + dec" where
  "size_raw method eq price stop pct vol =
     (if method = ''fixed_qty'' then Inr pct
      else if method = ''fixed_notional'' then Inr (ddiv pct price)
      else if method = ''equity_pct'' then Inr (ddiv (dmul eq pct) price)
      else if method = ''risk_pct'' then
        (case stop of None \<Rightarrow> Inl (value_error ''risk_pct sizing needs a stop'')
         | Some s \<Rightarrow> let per_share = dabs (dsub price s) in
             if per_share = 0 then Inl (value_error ''risk per share is zero'')
             else Inr (ddiv (dmul eq pct) per_share))
      else if method = ''volatility_target'' then
        (case vol of None \<Rightarrow> Inl (value_error ''needs the volatility'')
         | Some v \<Rightarrow> if v \<le> 0 then Inl (value_error ''needs the volatility'')
                    else Inr (ddiv (dmul eq (ddiv pct v)) price))
      else Inl (value_error ''unknown position sizing method''))"

definition position_size :: "string \<Rightarrow> dec \<Rightarrow> dec \<Rightarrow> dec option \<Rightarrow> dec \<Rightarrow> dec option \<Rightarrow> exn + dec" where
  "position_size method eq price stop pct vol =
     (if eq \<le> 0 then Inl (value_error ''cannot size against that equity'')
      else if price \<le> 0 then Inl (value_error ''cannot size at that price'')
      else if pct \<le> 0 then Inl (value_error ''position size value must be positive'')
      else map_sum id (\<lambda>raw. of_int (to_integral ROUND_DOWN raw)) (size_raw method eq price stop pct vol))"

section \<open>Lookups\<close>

lemma allow_simps [simp]: "rd_approved allow" "rd_adjusted allow = None" "rd_rule allow = []"
  by (simp_all add: allow_def)

lemma deny_simps [simp]:
  "\<not> rd_approved (deny r w)" "rd_adjusted (deny r w) = None" "rd_rule (deny r w) = r"
  by (simp_all add: deny_def)

lemma unpriced_book_Some: "unpriced_book r pf = Some d \<Longrightarrow> \<not> rd_approved d \<and> rd_adjusted d = None \<and> rd_rule d = r"
  by (auto simp: unpriced_book_def Let_def split: if_splits)

lemma list_max_ge: "x \<in> set xs \<Longrightarrow> x \<le> list_max xs"
  by (induction xs rule: list_max.induct) auto

lemma list_max_mem: "xs \<noteq> [] \<Longrightarrow> list_max xs \<in> set xs"
  by (induction xs rule: list_max.induct) (auto simp: max_def)

lemma held_in_touch:
  "held_in (touch_position sm pf) s =
     (if s = sm then Some (position_of sm pf) else held_in pf s)"
  by (simp add: held_in_def touch_position_def position_of_def dict_get_or_def)

lemma position_of_held: "position_of sm pf = (case held_in pf sm of None \<Rightarrow> new_position sm | Some p \<Rightarrow> p)"
  by (simp add: position_of_def held_in_def dict_get_or_def)

lemma qty_in_position_of: "qty_in pf sm = p_qty (position_of sm pf)"
  by (simp add: qty_in_def position_of_held split: option.split)

lemma qty_in_touch [simp]: "qty_in (touch_position sm pf) s = qty_in pf s"
  by (auto simp: qty_in_def held_in_touch position_of_held split: option.splits)

lemma reduces_touch [simp]: "reduces_position o1 (touch_position sm pf) = reduces_position o1 pf"
  by (auto simp: reduces_position_def held_in_touch position_of_held split: option.splits)

lemma closes_touch [simp]: "closes_without_reversing o1 (touch_position sm pf) = closes_without_reversing o1 pf"
  by (auto simp: closes_without_reversing_def held_in_touch position_of_held reduces_position_def
      split: option.splits)

lemma price_for_touch [simp]: "price_for o1 (touch_position sm pf) = price_for o1 pf"
  by (auto simp: price_for_def reference_price_def held_in_touch position_of_held split: option.splits)

lemma touch_positions:
  "pf_positions (touch_position sm pf) =
     (if held_in pf sm = None then pf_positions pf @ [(sm, new_position sm)] else pf_positions pf)"
  by (auto simp: touch_position_def held_in_def dict_setdefault_def dict_set_new split: option.split)

lemma exact28_dsum [simp]: "exact28 (dsum xs)"
  by (induction xs rule: rev_induct) (simp_all add: dsum_snoc exact28_def [of 0])

lemma dsum_snoc_0: "dsum (xs @ [0]) = dsum xs"
  using exact28_dsum [of xs] by (simp add: dsum_snoc dadd_def rnd_exact)

lemma touch_sums [simp]:
  "total_market_value (touch_position sm pf) = total_market_value pf"
  "gross_exposure (touch_position sm pf) = gross_exposure pf"
  "pf_cash (touch_position sm pf) = pf_cash pf"
  by (simp_all add: total_market_value_def gross_exposure_def touch_positions dict_values_def dsum_snoc_0
      market_value_flat exposure_def dabs_def)
    (simp add: touch_position_def)

lemma touch_book [simp]:
  "equity (touch_position sm pf) = equity pf"
  "unmarked_symbols (touch_position sm pf) = unmarked_symbols pf"
  "open_positions (touch_position sm pf) = open_positions pf"
  "unpriced_book r (touch_position sm pf) = unpriced_book r pf"
  by (simp_all add: equity_def unmarked_symbols_def unpriced_book_def open_positions_def touch_positions
      dict_values_def)

lemma touch_committed_simps [simp]:
  "rb_committed (touch_committed sm b) = touch_position sm (rb_committed b)"
  "rb_in_flight (touch_committed sm b) = rb_in_flight b"
  "rb_settled (touch_committed sm b) = (if rb_shared b then touch_position sm (rb_settled b) else rb_settled b)"
  by (simp_all add: touch_committed_def Let_def)

lemma producible_touch [simp]: "producible_quantities s (touch_committed sm b) = producible_quantities s b"
  by (simp add: producible_quantities_def)

lemma worst_touch [simp]:
  "worst_resulting_qty o1 (touch_committed sm b) = worst_resulting_qty o1 b"
  "worst_magnitude s (touch_committed sm b) = worst_magnitude s b"
  by (simp_all add: worst_resulting_qty_def worst_magnitude_def)

lemma add_working_touch [simp]: "add_working (touch_committed sm b) s ss acc = add_working b s ss acc"
  by (induction ss arbitrary: acc) (auto simp: Let_def held_in_touch position_of_held split: option.splits)

section \<open>What every rule of the chain promises\<close>

text \<open>
  The contract the engine relies on: a rule of the platform never shrinks an order, a denial names
  the rule, and the verdict does not see the flat position another rule may have inserted.
\<close>

locale order_check =
  fixes check :: "order \<Rightarrow> risk_books \<Rightarrow> risk_decision"
    and name :: string
  assumes no_shrink: "rd_adjusted (check o1 b) = None"
    and names_itself: "\<not> rd_approved (check o1 b) \<Longrightarrow> rd_rule (check o1 b) = name"
    and touch_blind: "check o1 (touch_committed sm b) = check o1 b"
begin

lemma verdict_touches: "check o1 (fold touch_committed ss b) = check o1 b"
  by (induction ss arbitrary: b) (simp_all add: touch_blind)

end

text \<open>A ceiling besides stands aside for an order that only closes into what is held.\<close>

locale exit_check = order_check +
  assumes lets_exits_go:
    "closes_without_reversing o1 pf \<Longrightarrow> rd_approved (check o1 (books_of pf pending))"
begin

lemma denied_is_no_exit:
  "\<not> rd_approved (check o1 (books_of pf pending)) \<Longrightarrow> \<not> closes_without_reversing o1 pf"
  using lets_exits_go by blast

end

lemma kill_switch_touch: "check_kill_switch env o1 (touch_committed sm b) = check_kill_switch env o1 b"
  by (simp add: check_kill_switch_def Let_def)

interpretation kill_switch: order_check "check_kill_switch env" "''kill_switch''" for env
  by unfold_locales (auto simp: check_kill_switch_def Let_def kill_switch_touch split: if_splits)

interpretation trading_hours: order_check "\<lambda>o1 b. check_trading_hours env ext" "''trading_hours''" for env ext
  by unfold_locales (auto simp: check_trading_hours_def split: if_splits)

interpretation rate_limit: order_check "\<lambda>o1 b. fst (check_rate_limit env lims rec)" RATE_LIMIT_RULE for env lims rec
  by unfold_locales (auto simp: check_rate_limit_def Let_def split: if_splits)

interpretation stale_data: order_check "\<lambda>o1 b. check_stale_data env lims o1" "''stale_data''" for env lims
  by unfold_locales (auto simp: check_stale_data_def split: option.splits if_splits)

lemma books_of_simps [simp]:
  "rb_settled (books_of pf ps) = pf" "rb_committed (books_of pf ps) = project_pending pf ps"
  "rb_in_flight (books_of pf ps) = in_flight_by_symbol ps"
  by (simp_all add: books_of_def)

interpretation max_position: exit_check "check_max_position lims" "''max_position_size''" for lims
proof
  fix o1 b sm
  show "check_max_position lims o1 (touch_committed sm b) = check_max_position lims o1 b"
    by (simp add: check_max_position_def Let_def split: option.split)
  show "rd_adjusted (check_max_position lims o1 b) = None"
    by (auto simp: check_max_position_def Let_def dest: unpriced_book_Some split: option.splits)
  show "\<not> rd_approved (check_max_position lims o1 b) \<Longrightarrow> rd_rule (check_max_position lims o1 b) = ''max_position_size''"
    by (auto simp: check_max_position_def Let_def dest: unpriced_book_Some split: option.splits if_splits)
next
  fix o1 pf ps assume "closes_without_reversing o1 pf"
  then show "rd_approved (check_max_position lims o1 (books_of pf ps))"
    by (simp add: check_max_position_def Let_def)
qed

lemma qty_position_of_touch [simp]: "p_qty (position_of sm (touch_position t pf)) = p_qty (position_of sm pf)"
  by (simp flip: qty_in_position_of)

lemma max_exposure_touch:
  "fst (check_max_exposure lims o1 (touch_committed sm b)) = fst (check_max_exposure lims o1 b)"
  by (simp add: check_max_exposure_def Let_def split: option.split sum.split)

lemma max_exposure_books:
  "snd (check_max_exposure lims o1 b) = b \<or> snd (check_max_exposure lims o1 b) = touch_committed (o_symbol o1) b"
  by (auto simp: check_max_exposure_def Let_def split: option.split sum.split)

interpretation max_exposure: exit_check "\<lambda>o1 b. fst (check_max_exposure lims o1 b)" "''max_gross_exposure''" for lims
proof
  fix o1 b sm
  show "fst (check_max_exposure lims o1 (touch_committed sm b)) = fst (check_max_exposure lims o1 b)"
    by (rule max_exposure_touch)
  show "rd_adjusted (fst (check_max_exposure lims o1 b)) = None"
    by (auto simp: check_max_exposure_def Let_def dest: unpriced_book_Some split: option.splits sum.splits)
  show "\<not> rd_approved (fst (check_max_exposure lims o1 b)) \<Longrightarrow>
        rd_rule (fst (check_max_exposure lims o1 b)) = ''max_gross_exposure''"
    by (auto simp: check_max_exposure_def Let_def dest: unpriced_book_Some split: option.splits sum.splits if_splits)
next
  fix o1 pf ps assume "closes_without_reversing o1 pf"
  then show "rd_approved (fst (check_max_exposure lims o1 (books_of pf ps)))"
    by (simp add: check_max_exposure_def Let_def)
qed

lemma daily_loss_touch: "check_daily_loss lims a o1 (touch_committed sm b) = check_daily_loss lims a o1 b"
  by (simp add: check_daily_loss_def Let_def split: option.split)

interpretation daily_loss: exit_check "check_daily_loss lims a" DAILY_LOSS_RULE for lims a
proof
  fix o1 b sm
  show "check_daily_loss lims a o1 (touch_committed sm b) = check_daily_loss lims a o1 b"
    by (rule daily_loss_touch)
  show "rd_adjusted (check_daily_loss lims a o1 b) = None"
    by (auto simp: check_daily_loss_def Let_def dest: unpriced_book_Some split: option.splits)
  show "\<not> rd_approved (check_daily_loss lims a o1 b) \<Longrightarrow> rd_rule (check_daily_loss lims a o1 b) = DAILY_LOSS_RULE"
    by (auto simp: check_daily_loss_def Let_def dest: unpriced_book_Some split: option.splits if_splits)
next
  fix o1 pf ps assume "closes_without_reversing o1 pf"
  then show "rd_approved (check_daily_loss lims a o1 (books_of pf ps))"
    by (simp add: check_daily_loss_def closes_without_reversing_def)
qed

interpretation buying_power: exit_check check_buying_power "''buying_power''"
proof
  fix o1 b sm
  show "check_buying_power o1 (touch_committed sm b) = check_buying_power o1 b"
    by (simp add: check_buying_power_def Let_def split: option.split)
  show "rd_adjusted (check_buying_power o1 b) = None"
    by (auto simp: check_buying_power_def Let_def split: option.splits)
  show "\<not> rd_approved (check_buying_power o1 b) \<Longrightarrow> rd_rule (check_buying_power o1 b) = ''buying_power''"
    by (auto simp: check_buying_power_def Let_def split: option.splits if_splits)
next
  fix o1 pf ps assume "closes_without_reversing o1 pf"
  then show "rd_approved (check_buying_power o1 (books_of pf ps))"
    by (simp add: check_buying_power_def closes_without_reversing_def)
qed

section \<open>The projection\<close>

lemma project_one_qty:
  "dict_get_or (fst (project_one pf o1 pc)) s (new_position s) =
     (let p = dict_get_or (fst pc) s (new_position s) in
      if s = o_symbol o1
      then p\<lparr>p_qty := dadd (p_qty p) (signed_remaining o1),
             p_last := (case p_last p of Some m \<Rightarrow> Some m | None \<Rightarrow> price_for o1 pf)\<rparr>
      else p)"
  by (auto simp: project_one_def Let_def dict_get_or_def split: option.splits)

lemma project_one_get:
  "dict_get (fst (project_one pf o1 pc)) s =
     (if s = o_symbol o1 then Some (dict_get_or (fst (project_one pf o1 pc)) s (new_position s))
      else dict_get (fst pc) s)"
  by (auto simp: project_one_def Let_def dict_get_or_def split: option.splits)

lemma signed_remaining_sign:
  "0 < remaining_qty o1 \<Longrightarrow> (0 < signed_remaining o1 \<longleftrightarrow> o_side o1 = BUY)"
  "0 < remaining_qty o1 \<Longrightarrow> (signed_remaining o1 < 0 \<longleftrightarrow> o_side o1 = SELL)"
  by (cases "o_side o1"; simp add: signed_remaining_def dmul_def)+

definition same_side :: "dec \<Rightarrow> dec \<Rightarrow> bool" where
  "same_side held q \<longleftrightarrow> (0 < held \<longrightarrow> held \<le> q) \<and> (held < 0 \<longrightarrow> q \<le> held)"

text \<open>
  Projecting an order the committed list keeps never brings a held quantity nearer to zero: the
  list holds no order that reduces the book it is projected onto.
\<close>

lemma committed_side:
  assumes "o1 \<in> set (committed_orders pf ps)"
  shows "0 < qty_in pf (o_symbol o1) \<Longrightarrow> 0 \<le> signed_remaining o1"
    and "qty_in pf (o_symbol o1) < 0 \<Longrightarrow> signed_remaining o1 \<le> 0"
  using assms signed_remaining_sign [of o1]
  by (cases "o_side o1";
      auto simp: committed_orders_def reduces_position_def qty_in_def is_flat_def is_long_def is_short_def
        split: option.splits)+

lemma projection_keeps:
  assumes "set os \<subseteq> set (committed_orders pf ps)"
    and "P (p_qty (dict_get_or (fst pc) s (new_position s)))"
    and "\<And>o1 x. o1 \<in> set (committed_orders pf ps) \<Longrightarrow> o_symbol o1 = s \<Longrightarrow> P x \<Longrightarrow> P (dadd x (signed_remaining o1))"
  shows "P (p_qty (dict_get_or (fst (fold (project_one pf) os pc)) s (new_position s)))"
  using assms(1,2)
proof (induction os arbitrary: pc)
  case (Cons o1 os)
  have "P (p_qty (dict_get_or (fst (project_one pf o1 pc)) s (new_position s)))"
    using Cons.prems assms(3) [of o1] by (auto simp: project_one_qty Let_def)
  with Cons show ?case by simp
qed simp

lemma position_of_dict: "position_of s pf = dict_get_or (pf_positions pf) s (new_position s)"
  by (simp add: position_of_def)

lemma project_pending_keeps:
  assumes "P (qty_in pf s)"
    and "\<And>o1 x. o1 \<in> set (committed_orders pf ps) \<Longrightarrow> o_symbol o1 = s \<Longrightarrow> P x \<Longrightarrow> P (dadd x (signed_remaining o1))"
  shows "P (qty_in (project_pending pf ps) s)"
proof (cases "committed_orders pf ps = []")
  case True
  then show ?thesis using assms(1) by (simp add: project_pending_def)
next
  case False
  have "P (p_qty (dict_get_or
      (fst (fold (project_one pf) (committed_orders pf ps) (pf_positions pf, pf_cash pf))) s (new_position s)))"
    using assms by (intro projection_keeps [where P = P and ps = ps]) (simp_all flip: position_of_dict qty_in_position_of)
  with False show ?thesis
    by (simp add: project_pending_def Let_def qty_in_position_of position_of_dict)
qed

lemma projection_same_side:
  assumes "exact28 (qty_in pf s)"
  shows "same_side (qty_in pf s) (qty_in (project_pending pf ps) s)"
proof (rule project_pending_keeps)
  show "same_side (qty_in pf s) (qty_in pf s)" by (simp add: same_side_def)
next
  fix o1 x assume "o1 \<in> set (committed_orders pf ps)" "o_symbol o1 = s" "same_side (qty_in pf s) x"
  then show "same_side (qty_in pf s) (dadd x (signed_remaining o1))"
    using committed_side [of o1 pf ps] assms by (auto simp: same_side_def intro: dadd_ge dadd_le)
qed

lemma projection_keeps_held:
  assumes "qty_in pf s \<noteq> 0"
  shows "qty_in (project_pending pf ps) s \<noteq> 0"
proof (cases "0 < qty_in pf s")
  case True
  have "0 < qty_in (project_pending pf ps) s"
    by (rule project_pending_keeps) (use True committed_side(1) in \<open>force simp: dadd_def\<close>)+
  then show ?thesis by simp
next
  case False
  with assms have neg: "qty_in pf s < 0" by simp
  have "qty_in (project_pending pf ps) s < 0"
    by (rule project_pending_keeps) (use neg committed_side(2) in \<open>force simp: dadd_def\<close>)+
  then show ?thesis by simp
qed

lemma reduces_held: "reduces_position o1 pf \<Longrightarrow> qty_in pf (o_symbol o1) \<noteq> 0"
  by (auto simp: reduces_position_def qty_in_def is_flat_def split: option.splits if_splits)

lemma qty_in_held: "qty_in pf s \<noteq> 0 \<Longrightarrow> \<exists>p. held_in pf s = Some p \<and> \<not> is_flat p"
  by (auto simp: qty_in_def is_flat_def split: option.splits)

interpretation max_open: exit_check "check_max_open lims" "''max_open_positions''" for lims
proof
  fix o1 b sm
  show "check_max_open lims o1 (touch_committed sm b) = check_max_open lims o1 b"
    by (auto simp: check_max_open_def Let_def held_in_touch position_of_held split: option.split)
  show "rd_adjusted (check_max_open lims o1 b) = None"
    by (simp add: check_max_open_def Let_def)
  show "\<not> rd_approved (check_max_open lims o1 b) \<Longrightarrow> rd_rule (check_max_open lims o1 b) = ''max_open_positions''"
    by (auto simp: check_max_open_def Let_def split: if_splits)
next
  fix o1 pf ps assume "closes_without_reversing o1 pf"
  then have "qty_in (project_pending pf ps) (o_symbol o1) \<noteq> 0"
    by (intro projection_keeps_held reduces_held) (simp add: closes_without_reversing_def)
  then show "rd_approved (check_max_open lims o1 (books_of pf ps))"
    by (auto simp: check_max_open_def Let_def dest: qty_in_held)
qed

end
