(* ===== verification/RiskEngine.thy ===== *)
theory RiskEngine
  imports RiskRules
begin

text \<open>
  \<open>risk/engine.py\<close>: the rule chain. \<open>validate\<close> returns the verdict with everything the call may have
  changed: the order (a rule that shrinks sets its quantity), the rules (the rate limit remembers
  the attempt) and the settled portfolio (into which a shared committed book may have inserted a
  flat position).
\<close>

record risk_engine =
  en_limits :: risk_limits
  en_rules :: "risk_rule list"

definition new_engine :: "risk_limits \<Rightarrow> risk_rule list option \<Rightarrow> exn + risk_engine" where
  "new_engine lims rules =
     (case rules of None \<Rightarrow> Inl (ConfigError (Reason ''needs an explicit rule chain'' [] []))
      | Some rs \<Rightarrow> Inr \<lparr>en_limits = lims, en_rules = rs\<rparr>)"

fun run_chain ::
  "risk_env \<Rightarrow> risk_limits \<Rightarrow> risk_rule list \<Rightarrow> order \<Rightarrow> risk_books \<Rightarrow> dec option
     \<Rightarrow> risk_decision \<times> order \<times> risk_rule list \<times> risk_books" where
  "run_chain env lims [] o1 bks adjusted = (allow\<lparr>rd_adjusted := adjusted\<rparr>, o1, [], bks)"
| "run_chain env lims (r # rs) o1 bks adjusted =
     (let (d, r1, b1) = check_rule env lims o1 bks r in
      if \<not> rd_approved d then (d, o1, r1 # rs, b1)
      else
        let (o2, adj2) = (case rd_adjusted d of Some q \<Rightarrow> (o1\<lparr>o_qty := q\<rparr>, Some q) | None \<Rightarrow> (o1, adjusted));
            (d2, o3, rs2, b2) = run_chain env lims rs o2 b1 adj2
        in (d2, o3, r1 # rs2, b2))"

definition validate ::
  "risk_env \<Rightarrow> risk_engine \<Rightarrow> order \<Rightarrow> portfolio \<Rightarrow> order list
     \<Rightarrow> risk_decision \<times> order \<times> risk_engine \<times> portfolio" where
  "validate env en o1 pf pending =
     (let (d, o2, rs2, b2) = run_chain env (en_limits en) (en_rules en) o1 (books_of pf pending) None
      in (d, o2, en\<lparr>en_rules := rs2\<rparr>, rb_settled b2))"

definition validate_or_raise ::
  "risk_env \<Rightarrow> risk_engine \<Rightarrow> order \<Rightarrow> portfolio \<Rightarrow> order list
     \<Rightarrow> (exn + unit) \<times> order \<times> risk_engine \<times> portfolio" where
  "validate_or_raise env en o1 pf pending =
     (let (d, rest) = validate env en o1 pf pending
      in (if rd_approved d then Inr () else Inl (RiskLimitBreachedError (rd_rule d) (rd_reason d)), rest))"

fun anchor_rule :: "dec \<Rightarrow> risk_rule \<Rightarrow> risk_rule" where
  "anchor_rule eq (DailyLossLimitRule _) = DailyLossLimitRule (Some eq)"
| "anchor_rule eq r = r"

fun is_anchored_rule :: "risk_rule \<Rightarrow> bool" where
  "is_anchored_rule (DailyLossLimitRule _) = True"
| "is_anchored_rule r = False"

definition anchor_session :: "dec \<Rightarrow> risk_engine \<Rightarrow> nat \<times> risk_engine" where
  "anchor_session eq en =
     (length (filter is_anchored_rule (en_rules en)), en\<lparr>en_rules := map (anchor_rule eq) (en_rules en)\<rparr>)"

definition default_rules :: "risk_rule list" where
  "default_rules =
     [KillSwitchRule, TradingHoursRule False, RateLimitRule [], StaleDataRule, MaxPositionSizeRule,
      MaxExposureRule, MaxOpenPositionsRule, DailyLossLimitRule None, BuyingPowerRule]"

definition REPLAY_BLIND_RULES :: "string list" where
  "REPLAY_BLIND_RULES = [''trading_hours'', ''stale_data'', ''kill_switch'', ''rate_limit'']"

definition backtest_rules :: "risk_rule list" where
  "backtest_rules =
     [MaxPositionSizeRule, MaxExposureRule, MaxOpenPositionsRule, DailyLossLimitRule None, BuyingPowerRule]"

text \<open>The name a rule's verdicts carry, and the rules the platform itself defines.\<close>

fun rule_name :: "risk_rule \<Rightarrow> string" where
  "rule_name KillSwitchRule = ''kill_switch''"
| "rule_name (TradingHoursRule _) = ''trading_hours''"
| "rule_name (RateLimitRule _) = RATE_LIMIT_RULE"
| "rule_name StaleDataRule = ''stale_data''"
| "rule_name MaxPositionSizeRule = ''max_position_size''"
| "rule_name MaxExposureRule = ''max_gross_exposure''"
| "rule_name MaxOpenPositionsRule = ''max_open_positions''"
| "rule_name (DailyLossLimitRule _) = DAILY_LOSS_RULE"
| "rule_name BuyingPowerRule = ''buying_power''"
| "rule_name (CustomRule f) = []"

fun builtin :: "risk_rule \<Rightarrow> bool" where
  "builtin (CustomRule f) = False"
| "builtin r = True"

definition verdict :: "risk_env \<Rightarrow> risk_limits \<Rightarrow> order \<Rightarrow> risk_books \<Rightarrow> risk_rule \<Rightarrow> risk_decision" where
  "verdict env lims o1 b r = fst (check_rule env lims o1 b r)"

definition judged :: "risk_env \<Rightarrow> risk_engine \<Rightarrow> order \<Rightarrow> portfolio \<Rightarrow> order list \<Rightarrow> risk_rule \<Rightarrow> risk_decision" where
  "judged env en o1 pf ps r = verdict env (en_limits en) o1 (books_of pf ps) r"

text \<open>A chain the platform builds, in whatever state its rules have reached.\<close>

definition same_rule :: "risk_rule \<Rightarrow> risk_rule \<Rightarrow> bool" where
  "same_rule r r' \<longleftrightarrow> builtin r \<and> builtin r' \<and> rule_name r = rule_name r'"

definition platform_engine :: "risk_engine \<Rightarrow> bool" where
  "platform_engine en \<longleftrightarrow> list_all2 same_rule (en_rules en) default_rules"

text \<open>A book, limits and an engine to evaluate the model on.\<close>

definition sample_position :: position where
  "sample_position = (new_position ''AAPL'')\<lparr>p_qty := 100, p_avg_entry := 150, p_last := Some 150\<rparr>"

definition sample_portfolio :: portfolio where
  "sample_portfolio = \<lparr>pf_cash = 100000, pf_starting_equity = 115000, pf_fees_settled = 0,
     pf_positions = [(''AAPL'', sample_position)], pf_equity_curve = []\<rparr>"

definition sample_limits :: risk_limits where
  "sample_limits = \<lparr>l_max_position_pct = 1/10, l_max_gross_exposure_pct = 1, l_max_daily_loss_pct = 3/100,
     l_max_orders_per_minute = 30, l_max_open_positions = 20, l_max_quote_age_seconds = 30,
     l_default_stop_loss_pct = 2/100, l_default_take_profit_pct = 6/100\<rparr>"

definition sample_env :: "halt_record list \<Rightarrow> risk_env" where
  "sample_env hs = \<lparr>env_now = 0, env_is_open = (\<lambda>_. True), env_last_tick = (\<lambda>_. Some 0),
     env_halt = (\<lambda>_ _. \<lparr>hs_halts = hs, hs_unreadable = False\<rparr>)\<rparr>"

definition sample_engine :: risk_engine where
  "sample_engine = snd (anchor_session 115000 \<lparr>en_limits = sample_limits, en_rules = default_rules\<rparr>)"

definition sample_order :: order where
  "sample_order = order_defaults ''o'' ''c'' ''MSFT'' BUY 10"

lemmas sample_defs = sample_position_def sample_portfolio_def sample_limits_def sample_env_def sample_engine_def sample_order_def

lemmas risk_eval =
  validate_def anchor_session_def default_rules_def check_rule_def check_kill_switch_def check_trading_hours_def
  check_rate_limit_def check_stale_data_def check_max_position_def check_max_exposure_def check_max_open_def
  check_daily_loss_def check_buying_power_def engaged_def RATE_WINDOW_def
  books_of_def project_pending_def committed_orders_def in_flight_by_symbol_def closes_without_reversing_def reduces_position_def
  held_in_def unpriced_book_def unmarked_symbols_def price_for_def reference_price_def equity_def total_market_value_def market_value_def
  gross_exposure_def exposure_def is_flat_def is_long_def is_short_def qty_in_def producible_quantities_def worst_resulting_qty_def worst_magnitude_def
  signed_qty_def open_positions_def dict_values_def dict_keys_def dict_get_or_def dsum_def position_of_def order_defaults_def new_position_def
  touch_committed_def touch_position_def dict_setdefault_def dict_set_new dict_get_Cons
lemma verdict_simps [simp]:
  "verdict env lims o1 b KillSwitchRule = check_kill_switch env o1 b"
  "verdict env lims o1 b (TradingHoursRule ext) = check_trading_hours env ext"
  "verdict env lims o1 b (RateLimitRule rec) = fst (check_rate_limit env lims rec)"
  "verdict env lims o1 b StaleDataRule = check_stale_data env lims o1"
  "verdict env lims o1 b MaxPositionSizeRule = check_max_position lims o1 b"
  "verdict env lims o1 b MaxExposureRule = fst (check_max_exposure lims o1 b)"
  "verdict env lims o1 b MaxOpenPositionsRule = check_max_open lims o1 b"
  "verdict env lims o1 b (DailyLossLimitRule a) = check_daily_loss lims a o1 b"
  "verdict env lims o1 b BuyingPowerRule = check_buying_power o1 b"
  by (simp_all add: verdict_def check_rule_def case_prod_beta)

lemmas rules_keep_size =
  kill_switch.no_shrink trading_hours.no_shrink rate_limit.no_shrink stale_data.no_shrink
  max_position.no_shrink max_exposure.no_shrink max_open.no_shrink daily_loss.no_shrink
  buying_power.no_shrink

lemmas rules_name_themselves =
  kill_switch.names_itself trading_hours.names_itself rate_limit.names_itself stale_data.names_itself
  max_position.names_itself max_exposure.names_itself max_open.names_itself daily_loss.names_itself
  buying_power.names_itself

text \<open>The three that read neither book have nothing to be blind to.\<close>

lemmas rules_touch_blind =
  kill_switch.verdict_touches max_position.verdict_touches max_exposure.verdict_touches
  max_open.verdict_touches daily_loss.verdict_touches buying_power.verdict_touches

lemma builtin_keeps_size: "builtin r \<Longrightarrow> rd_adjusted (verdict env lims o1 b r) = None"
  by (cases r) (simp_all add: rules_keep_size)

lemma builtin_names_itself:
  "builtin r \<Longrightarrow> \<not> rd_approved (verdict env lims o1 b r) \<Longrightarrow> rd_rule (verdict env lims o1 b r) = rule_name r"
proof (cases r)
qed (simp_all only: builtin.simps verdict_simps rule_name.simps rules_name_themselves simp_thms)

lemma builtin_touch_blind:
  "builtin r \<Longrightarrow> verdict env lims o1 (fold touch_committed ss b) r = verdict env lims o1 b r"
  by (cases r) (simp_all add: rules_touch_blind)

lemma builtin_books:
  assumes "builtin r" "check_rule env lims o1 b r = (d, r1, b1)"
  shows "\<exists>ss. b1 = fold touch_committed ss b" "same_rule r1 r"
proof -
  have "b1 = b \<or> b1 = touch_committed (o_symbol o1) b"
    using assms max_exposure_books [of lims o1 b]
    by (cases r) (auto simp: check_rule_def Let_def split: prod.splits)
  then show "\<exists>ss. b1 = fold touch_committed ss b"
    by (metis fold_simps(1) fold_simps(2))
  show "same_rule r1 r"
    using assms by (cases r) (auto simp: check_rule_def same_rule_def split: prod.splits)
qed

definition first_denial :: "(risk_rule \<Rightarrow> risk_decision) \<Rightarrow> risk_rule list \<Rightarrow> risk_rule option" where
  "first_denial v rules = find (\<lambda>r. \<not> rd_approved (v r)) rules"

lemma first_denial_mem: "first_denial v rs = Some r \<Longrightarrow> r \<in> set rs \<and> \<not> rd_approved (v r)"
  by (auto simp: first_denial_def find_Some_iff)

lemma first_denial_split:
  "first_denial v rs = Some r \<Longrightarrow>
     \<exists>pre post. rs = pre @ r # post \<and> (\<forall>r' \<in> set pre. rd_approved (v r')) \<and> \<not> rd_approved (v r)"
proof (induction rs)
  case (Cons x rs)
  show ?case
  proof (cases "rd_approved (v x)")
    case True
    with Cons obtain pre post where "rs = pre @ r # post" "\<forall>r' \<in> set pre. rd_approved (v r')" "\<not> rd_approved (v r)"
      by (auto simp: first_denial_def)
    with True show ?thesis by (intro exI [of _ "x # pre"] exI [of _ post]) simp
  next
    case False
    with Cons.prems show ?thesis by (intro exI [of _ "[]"] exI [of _ rs]) (simp add: first_denial_def)
  qed
qed (simp add: first_denial_def)

lemma first_denial_None: "first_denial v rs = None \<longleftrightarrow> (\<forall>r \<in> set rs. rd_approved (v r))"
  by (auto simp: first_denial_def find_None_iff)

lemma run_chain_builtin:
  "\<forall>r \<in> set rules. builtin r \<Longrightarrow> run_chain env lims rules o1 b adj = (d, o2, rs2, b2) \<Longrightarrow>
     o2 = o1 \<and> (\<exists>ss. b2 = fold touch_committed ss b) \<and> list_all2 same_rule rs2 rules
     \<and> d = (case first_denial (verdict env lims o1 b) rules of
             None \<Rightarrow> allow\<lparr>rd_adjusted := adj\<rparr> | Some r \<Rightarrow> verdict env lims o1 b r)"
proof (induction rules arbitrary: b d o2 rs2 b2)
  case Nil
  then show ?case by (auto simp: first_denial_def intro: exI [of _ "[]"])
next
  case (Cons r rs)
  obtain d1 r1 b1 where c: "check_rule env lims o1 b r = (d1, r1, b1)" by (cases "check_rule env lims o1 b r")
  obtain d' o' rs' b' where rest: "run_chain env lims rs o1 b1 adj = (d', o', rs', b')"
    by (cases "run_chain env lims rs o1 b1 adj")
  have b: "builtin r" and bs: "\<forall>r \<in> set rs. builtin r" using Cons.prems(1) by auto
  have d1: "d1 = verdict env lims o1 b r" using c by (simp add: verdict_def)
  obtain ss where ss: "b1 = fold touch_committed ss b" using builtin_books(1) [OF b c] by blast
  note IH = Cons.IH [OF bs rest]
  have same: "first_denial (verdict env lims o1 b1) rs = first_denial (verdict env lims o1 b) rs"
    using bs by (induction rs) (simp_all add: first_denial_def ss builtin_touch_blind)
  have self: "list_all2 same_rule rs rs"
    using bs by (induction rs) (auto simp: same_rule_def)
  show ?case
  proof (cases "rd_approved d1")
    case False
    then have "(d, o2, rs2, b2) = (d1, o1, r1 # rs, b1)" using Cons.prems(2) c by simp
    with False d1 ss self builtin_books(2) [OF b c] show ?thesis
      by (auto simp: first_denial_def)
  next
    case True
    then have "(d, o2, rs2, b2) = (d', o', r1 # rs', b')"
      using Cons.prems(2) c rest builtin_keeps_size [OF b, of env lims o1 "b"] d1 by simp
    moreover obtain ss' where "b' = fold touch_committed ss' b1" using IH by blast
    then have "b' = fold touch_committed (ss @ ss') b" by (simp add: ss)
    then have "\<exists>ss. b' = fold touch_committed ss b" ..
    moreover have "d' = (case first_denial (verdict env lims o1 b) rs of
             None \<Rightarrow> allow\<lparr>rd_adjusted := adj\<rparr> | Some r \<Rightarrow> verdict env lims o1 b r)"
    proof (cases "first_denial (verdict env lims o1 b) rs")
      case None
      with IH show ?thesis by (simp add: same)
    next
      case (Some r')
      with IH bs first_denial_mem [OF Some] show ?thesis by (simp add: same builtin_touch_blind flip: ss) (simp add: ss builtin_touch_blind)
    qed
    ultimately show ?thesis
      using IH True d1 builtin_books(2) [OF b c] by (simp add: first_denial_def)
  qed
qed

text \<open>Everything a chain of the platform's own rules decides and leaves behind, in one fact.\<close>

lemma validate_builtin:
  assumes "\<forall>r \<in> set (en_rules en). builtin r" "validate env en o1 pf ps = (d, o2, en2, pf2)"
  shows "o2 = o1" "en_limits en2 = en_limits en" "list_all2 same_rule (en_rules en2) (en_rules en)"
    "\<And>s. qty_in pf2 s = qty_in pf s" "equity pf2 = equity pf" "pf_cash pf2 = pf_cash pf"
    "d = (case first_denial (verdict env (en_limits en) o1 (books_of pf ps)) (en_rules en) of
            None \<Rightarrow> allow | Some r \<Rightarrow> verdict env (en_limits en) o1 (books_of pf ps) r)"
proof -
  obtain rs2 b2 where r: "run_chain env (en_limits en) (en_rules en) o1 (books_of pf ps) None = (d, o2, rs2, b2)"
    and en2: "en2 = en\<lparr>en_rules := rs2\<rparr>" "pf2 = rb_settled b2"
    using assms(2) by (auto simp: validate_def split: prod.splits)
  note R = run_chain_builtin [OF assms(1) r]
  obtain ss where ss: "b2 = fold touch_committed ss (books_of pf ps)" using R by blast
  have fixed: "(\<forall>s. qty_in (rb_settled (fold touch_committed ss b)) s = qty_in (rb_settled b) s)
      \<and> equity (rb_settled (fold touch_committed ss b)) = equity (rb_settled b)
      \<and> pf_cash (rb_settled (fold touch_committed ss b)) = pf_cash (rb_settled b)" for b
    by (induction ss arbitrary: b) simp_all
  show "o2 = o1" "en_limits en2 = en_limits en" "list_all2 same_rule (en_rules en2) (en_rules en)"
    "\<And>s. qty_in pf2 s = qty_in pf s" "equity pf2 = equity pf" "pf_cash pf2 = pf_cash pf"
    using R fixed [of "books_of pf ps"] by (simp_all add: en2 ss)
  show "d = (case first_denial (verdict env (en_limits en) o1 (books_of pf ps)) (en_rules en) of
            None \<Rightarrow> allow | Some r \<Rightarrow> verdict env (en_limits en) o1 (books_of pf ps) r)"
    using R by (simp add: allow_def split: option.split)
qed

lemma builtin_allow:
  assumes "\<forall>r \<in> set (en_rules en). builtin r" "validate env en o1 pf ps = (d, o2, en2, pf2)"
    "rd_approved d" "r \<in> set (en_rules en)"
  shows "rd_approved (verdict env (en_limits en) o1 (books_of pf ps) r)"
  using validate_builtin(7) [OF assms(1,2)] assms(3,4)
  by (auto simp: first_denial_None dest: first_denial_mem split: option.splits)

lemma platform_builtin: "platform_engine en \<Longrightarrow> \<forall>r \<in> set (en_rules en). builtin r"
  unfolding platform_engine_def list_all2_conv_all_nth by (auto simp: in_set_conv_nth same_rule_def)

lemma platform_names: "platform_engine en \<Longrightarrow> map rule_name (en_rules en) = map rule_name default_rules"
  unfolding platform_engine_def
  by (rule nth_equalityI) (auto simp: list_all2_conv_all_nth same_rule_def)

lemma same_rule_simps:
  "same_rule r KillSwitchRule \<longleftrightarrow> r = KillSwitchRule"
  "same_rule r (TradingHoursRule x) \<longleftrightarrow> (\<exists>y. r = TradingHoursRule y)"
  "same_rule r (RateLimitRule ts) \<longleftrightarrow> (\<exists>y. r = RateLimitRule y)"
  "same_rule r StaleDataRule \<longleftrightarrow> r = StaleDataRule"
  "same_rule r MaxPositionSizeRule \<longleftrightarrow> r = MaxPositionSizeRule"
  "same_rule r MaxExposureRule \<longleftrightarrow> r = MaxExposureRule"
  "same_rule r MaxOpenPositionsRule \<longleftrightarrow> r = MaxOpenPositionsRule"
  "same_rule r (DailyLossLimitRule a) \<longleftrightarrow> (\<exists>y. r = DailyLossLimitRule y)"
  "same_rule r BuyingPowerRule \<longleftrightarrow> r = BuyingPowerRule"
  by (cases r; simp add: same_rule_def RATE_LIMIT_RULE_def DAILY_LOSS_RULE_def)+

lemma platform_rule_cases:
  assumes "platform_engine en"
  obtains ext rec a where "en_rules en =
     [KillSwitchRule, TradingHoursRule ext, RateLimitRule rec, StaleDataRule, MaxPositionSizeRule,
      MaxExposureRule, MaxOpenPositionsRule, DailyLossLimitRule a, BuyingPowerRule]"
  using assms that by (auto simp: platform_engine_def default_rules_def list_all2_Cons2 same_rule_simps)

lemma chain_verdict_split:
  assumes "\<forall>r \<in> set (en_rules en). builtin r" "validate env en o1 pf ps = (d, o2, en2, pf2)" "\<not> rd_approved d"
  obtains pre r post where "en_rules en = pre @ r # post" "r \<in> set (en_rules en)"
    "\<forall>r' \<in> set pre. rd_approved (verdict env (en_limits en) o1 (books_of pf ps) r')"
    "d = verdict env (en_limits en) o1 (books_of pf ps) r" "rd_rule d = rule_name r"
proof -
  note V = validate_builtin(7) [OF assms(1,2)]
  obtain r where fd: "first_denial (verdict env (en_limits en) o1 (books_of pf ps)) (en_rules en) = Some r"
    using V assms(3) by (auto split: option.splits)
  obtain pre post where split: "en_rules en = pre @ r # post"
    "\<forall>r' \<in> set pre. rd_approved (verdict env (en_limits en) o1 (books_of pf ps) r')"
    "\<not> rd_approved (verdict env (en_limits en) o1 (books_of pf ps) r)"
    using first_denial_split [OF fd] by blast
  have "builtin r" using split(1) assms(1) by simp
  then have "rd_rule (verdict env (en_limits en) o1 (books_of pf ps) r) = rule_name r"
    using builtin_names_itself split(3) by blast
  moreover have "d = verdict env (en_limits en) o1 (books_of pf ps) r" using V fd by (simp only: option.case)
  ultimately show thesis using that split by simp
qed

lemma judged_eq: "judged env en o1 pf ps = verdict env (en_limits en) o1 (books_of pf ps)"
  by (simp add: fun_eq_iff judged_def)

text \<open>
  C3. The chain's contract, for any chain of the platform's own rules: an order is approved exactly
  when every rule approves it on the books the call began with; otherwise the verdict is that of the
  first rule that refuses, under its own name. Validating moves no money: the order, every held
  quantity, cash and equity are what they were, although one rule inserts into the book it reads.
\<close>

theorem chain_verdict:
  assumes "\<forall>r \<in> set (en_rules en). builtin r" "validate env en o1 pf ps = (d, o2, en2, pf2)"
  shows "(rd_approved d \<longleftrightarrow> (\<forall>r \<in> set (en_rules en). rd_approved (judged env en o1 pf ps r)))
    \<and> (\<not> rd_approved d \<longrightarrow> (\<exists>pre r post. en_rules en = pre @ r # post \<and> (\<forall>r' \<in> set pre. rd_approved (judged env en o1 pf ps r'))
          \<and> d = judged env en o1 pf ps r \<and> rd_rule d = rule_name r))
    \<and> o2 = o1 \<and> (\<forall>s. qty_in pf2 s = qty_in pf s) \<and> pf_cash pf2 = pf_cash pf \<and> equity pf2 = equity pf"
proof -
  note V = validate_builtin [OF assms]
  have "rd_approved d \<longleftrightarrow> (\<forall>r \<in> set (en_rules en). rd_approved (judged env en o1 pf ps r))"
    using V(7) builtin_allow [OF assms] first_denial_None [of "judged env en o1 pf ps" "en_rules en"]
    by (auto simp: judged_eq dest: first_denial_mem split: option.splits)
  moreover have "\<exists>pre r post. en_rules en = pre @ r # post \<and> (\<forall>r' \<in> set pre. rd_approved (judged env en o1 pf ps r'))
          \<and> d = judged env en o1 pf ps r \<and> rd_rule d = rule_name r" if "\<not> rd_approved d"
    using chain_verdict_split [OF assms that] unfolding judged_def by metis
  ultimately show ?thesis using V by blast
qed

theorem chain_verdict_witness:
  "\<exists>d o2 en2 pf2. validate (sample_env []) sample_engine (sample_order\<lparr>o_limit := Some 3000\<rparr>) sample_portfolio []
       = (d, o2, en2, pf2) \<and> rd_rule d = ''max_position_size'' \<and> qty_in pf2 ''AAPL'' = 100"
proof -
  let ?v = "validate (sample_env []) sample_engine (sample_order\<lparr>o_limit := Some 3000\<rparr>) sample_portfolio []"
  obtain d o2 en2 pf2 where v: "?v = (d, o2, en2, pf2)" by (cases ?v)
  have "rd_rule (fst ?v) = ''max_position_size''"
    by (simp add: sample_defs risk_eval dec_ops Let_def)
  moreover have "qty_in sample_portfolio ''AAPL'' = 100"
    by (simp add: sample_defs qty_in_def held_in_def dict_get_Cons)
  moreover have "\<forall>r \<in> set (en_rules sample_engine). builtin r"
    by (simp add: sample_engine_def anchor_session_def default_rules_def)
  ultimately show ?thesis using v chain_verdict [OF _ v] by auto
qed

end
