(* ===== verification/RiskBounds.thy ===== *)
theory RiskBounds
  imports RiskEngine
begin

text \<open>
  What an approval by the chain guarantees: the bound a ceiling measures covers every way the orders
  in flight can fill, an order let through a halt is an exit from a proven position, an exit is
  refused only by the rules blind to the book, and the sliding window of the rate limit. And what a
  position size computed from a stop puts at risk.
\<close>

section \<open>Every way the working orders can fill\<close>

text \<open>Each working order paired with the quantity of it that ends up filling.\<close>

definition fill_outcome :: "string \<Rightarrow> (order \<times> dec) list \<Rightarrow> dec" where
  "fill_outcome sm fills =
     sum_list (map (\<lambda>(o1, g). if o_symbol o1 = sm then side_sign (o_side o1) * g else 0) fills)"

definition can_fill :: "(order \<times> dec) list \<Rightarrow> bool" where
  "can_fill fills \<longleftrightarrow> (\<forall>(o1, g) \<in> set fills. 0 \<le> g \<and> g \<le> remaining_qty o1)"

text \<open>Quantities of at most nine decimals whose total stays far inside 28 digits.\<close>

definition book_amounts :: "portfolio \<Rightarrow> order list \<Rightarrow> order \<Rightarrow> bool" where
  "book_amounts pf ps o1 \<longleftrightarrow>
     (\<forall>w \<in> set ps. amount9 (remaining_qty w)) \<and> amount9 (o_qty o1) \<and> amount9 (qty_in pf (o_symbol o1))
     \<and> \<bar>qty_in pf (o_symbol o1)\<bar> + \<bar>o_qty o1\<bar> + sum_list (map (\<lambda>w. \<bar>remaining_qty w\<bar>) ps) < 10 ^ 17"

definition working_on :: "string \<Rightarrow> side \<Rightarrow> order list \<Rightarrow> order list" where
  "working_on sm sd ps = filter (\<lambda>w. o_symbol w = sm \<and> o_side w = sd \<and> 0 < remaining_qty w) ps"

lemma in_flight_totals:
  "dict_get_or (in_flight_by_symbol ps) sm (0, 0) =
     (dsum (map remaining_qty (working_on sm BUY ps)), dsum (map remaining_qty (working_on sm SELL ps)))"
proof (induction ps rule: rev_induct)
  case Nil
  show ?case by (simp add: in_flight_by_symbol_def working_on_def dict_get_or_def)
next
  case (snoc w ps)
  have "in_flight_by_symbol (ps @ [w]) = add_in_flight w (in_flight_by_symbol ps)"
    by (simp add: in_flight_by_symbol_def)
  with snoc show ?case
    by (cases "o_side w")
      (auto simp: add_in_flight_def Let_def working_on_def dict_get_or_def dsum_snoc split: prod.splits option.splits)
qed

lemma dsum_amount9:
  assumes "\<forall>x \<in> set xs. amount9 x \<and> 0 \<le> x" "sum_list xs < 10 ^ 18"
  shows "dsum xs = sum_list xs \<and> amount9 (sum_list xs)"
  using assms
proof (induction xs rule: rev_induct)
  case (snoc x xs)
  have nn: "0 \<le> sum_list xs" using snoc.prems by (intro sum_list_nonneg) auto
  with snoc have IH: "dsum xs = sum_list xs" "amount9 (sum_list xs)" by auto
  have "amount9 (sum_list xs + x)"
    using IH snoc.prems nn by (auto simp: amount9_def distrib_right)
  with IH snoc.prems show ?case by (simp add: dsum_snoc dadd_amount9)
qed simp

lemma working_sum:
  fixes sm sd ps
  assumes "\<forall>w \<in> set ps. amount9 (remaining_qty w)" "sum_list (map (\<lambda>w. \<bar>remaining_qty w\<bar>) ps) < 10 ^ 17"
  defines "t \<equiv> sum_list (map remaining_qty (working_on sm sd ps))"
  shows "dsum (map remaining_qty (working_on sm sd ps)) = t" "amount9 t" "0 \<le> t"
    "t \<le> sum_list (map (\<lambda>w. \<bar>remaining_qty w\<bar>) ps)"
proof -
  show le: "t \<le> sum_list (map (\<lambda>w. \<bar>remaining_qty w\<bar>) ps)"
    unfolding t_def working_on_def by (induction ps) auto
  have nn: "\<forall>x \<in> set (map remaining_qty (working_on sm sd ps)). amount9 x \<and> 0 \<le> x"
    using assms(1) by (auto simp: working_on_def)
  show "0 \<le> t" unfolding t_def by (rule sum_list_nonneg) (use nn in auto)
  have "t < 10 ^ 18" using le assms(2) by simp
  then show "dsum (map remaining_qty (working_on sm sd ps)) = t" "amount9 t"
    using dsum_amount9 [OF nn] by (simp_all add: t_def)
qed

lemma fill_outcome_bounds:
  assumes "can_fill fills"
  shows "- sum_list (map remaining_qty (working_on sm SELL (map fst fills))) \<le> fill_outcome sm fills"
    "fill_outcome sm fills \<le> sum_list (map remaining_qty (working_on sm BUY (map fst fills)))"
proof -
  have "- sum_list (map remaining_qty (working_on sm SELL (map fst fills))) \<le> fill_outcome sm fills
    \<and> fill_outcome sm fills \<le> sum_list (map remaining_qty (working_on sm BUY (map fst fills)))"
    using assms
  proof (induction fills)
    case Nil
    show ?case by (simp add: fill_outcome_def working_on_def)
  next
    case (Cons f fs)
    obtain w g where f: "f = (w, g)" by (cases f)
    have IH: "- sum_list (map remaining_qty (working_on sm SELL (map fst fs))) \<le> fill_outcome sm fs"
      "fill_outcome sm fs \<le> sum_list (map remaining_qty (working_on sm BUY (map fst fs)))"
      using Cons by (auto simp: can_fill_def)
    have "0 \<le> g" "g \<le> remaining_qty w" using Cons.prems f by (auto simp: can_fill_def)
    with IH show ?case by (cases "o_side w") (auto simp: f fill_outcome_def working_on_def)
  qed
  then show "- sum_list (map remaining_qty (working_on sm SELL (map fst fills))) \<le> fill_outcome sm fills"
    "fill_outcome sm fills \<le> sum_list (map remaining_qty (working_on sm BUY (map fst fills)))" by simp_all
qed

lemma amount9_combine:
  assumes "amount9 a" "amount9 b" "\<bar>a + b\<bar> < 10 ^ 18"
  shows "amount9 (a + b)"
  using assms by (simp add: amount9_def distrib_right)

lemma amount9_combine_diff:
  assumes "amount9 a" "amount9 b" "\<bar>a - b\<bar> < 10 ^ 18"
  shows "amount9 (a - b)"
  using amount9_combine [of a "- b"] assms by simp

lemma signed_qty_exact: "amount9 (o_qty o1) \<Longrightarrow> signed_qty o1 = side_sign (o_side o1) * o_qty o1"
  by (cases "o_side o1") (simp_all add: signed_qty_def amount9_exact)

lemma worst_covers_fills:
  assumes "can_fill fills" "book_amounts pf (map fst fills) o1"
  shows "\<bar>qty_in pf (o_symbol o1) + fill_outcome (o_symbol o1) fills + side_sign (o_side o1) * o_qty o1\<bar>
    \<le> worst_resulting_qty o1 (books_of pf (map fst fills))"
proof -
  define sm ps where "sm = o_symbol o1" and "ps = map fst fills"
  define held s where "held = qty_in pf sm" and "s = side_sign (o_side o1) * o_qty o1"
  define B S where "B = sum_list (map remaining_qty (working_on sm BUY ps))"
    and "S = sum_list (map remaining_qty (working_on sm SELL ps))"
  have A: "\<forall>w \<in> set ps. amount9 (remaining_qty w)" "amount9 (o_qty o1)" "amount9 held"
    "\<bar>held\<bar> + \<bar>o_qty o1\<bar> + sum_list (map (\<lambda>w. \<bar>remaining_qty w\<bar>) ps) < 10 ^ 17"
    using assms(2) by (auto simp: book_amounts_def held_def sm_def ps_def)
  have small: "sum_list (map (\<lambda>w. \<bar>remaining_qty w\<bar>) ps) < 10 ^ 17" using A(4) by linarith
  note WB = working_sum [OF A(1) small, of sm BUY, folded B_def]
    and WS = working_sum [OF A(1) small, of sm SELL, folded S_def]
  have s: "amount9 s" "signed_qty o1 = s" "\<bar>s\<bar> = \<bar>o_qty o1\<bar>"
    using A(2) by (cases "o_side o1"; simp add: s_def signed_qty_exact)+
  have pow: "(10::rat) ^ 17 \<le> 10 ^ 18" by simp
  have "\<bar>held + B\<bar> < 10 ^ 18" "\<bar>held - S\<bar> < 10 ^ 18" using A(4) WB WS pow by linarith+
  then have hi: "amount9 (held + B)" and lo: "amount9 (held - S)"
    using A(3) WB(2) WS(2) by (blast intro: amount9_combine amount9_combine_diff)+
  have q: "producible_quantities sm (books_of pf ps) = [held, held + B, held - S, qty_in (project_pending pf ps) sm]"
    using A(3) WB WS by (simp add: producible_quantities_def Let_def in_flight_totals held_def dadd_amount9 dsub_amount9)
  have bound: "\<bar>q + s\<bar> \<le> worst_resulting_qty o1 (books_of pf ps)"
    if "q \<in> {held + B, held - S}" for q
  proof -
    have "amount9 q" using that hi lo by blast
    then have "dabs (dadd q s) = \<bar>q + s\<bar>"
      using s(1) by (simp add: dadd_amount9 dabs_exact amount9_sum_exact)
    moreover have "dabs (dadd q s) \<le> worst_resulting_qty o1 (books_of pf ps)"
      unfolding worst_resulting_qty_def s(2) by (rule list_max_ge) (use that in \<open>auto simp: q sm_def [symmetric]\<close>)
    ultimately show ?thesis by simp
  qed
  have "- S \<le> fill_outcome sm fills" "fill_outcome sm fills \<le> B"
    using fill_outcome_bounds [OF assms(1), of sm] by (simp_all add: B_def S_def ps_def)
  with bound [of "held + B"] bound [of "held - S"]
  have "\<bar>held + fill_outcome sm fills + s\<bar> \<le> worst_resulting_qty o1 (books_of pf ps)" by auto
  then show ?thesis by (simp add: held_def s_def sm_def ps_def)
qed

section \<open>What an approval means\<close>

lemma platform_allow:
  assumes "platform_engine en" "validate env en o1 pf ps = (d, o2, en2, pf2)" "rd_approved d"
  shows "rd_approved (check_kill_switch env o1 (books_of pf ps))"
    "rd_approved (check_max_position (en_limits en) o1 (books_of pf ps))"
    "rd_approved (check_max_open (en_limits en) o1 (books_of pf ps))"
    "\<exists>a. DailyLossLimitRule a \<in> set (en_rules en) \<and> rd_approved (check_daily_loss (en_limits en) a o1 (books_of pf ps))"
    "rd_approved (check_buying_power o1 (books_of pf ps))"
proof -
  note A = builtin_allow [OF platform_builtin [OF assms(1)] assms(2,3)]
  obtain ext rec a where rules: "en_rules en =
     [KillSwitchRule, TradingHoursRule ext, RateLimitRule rec, StaleDataRule, MaxPositionSizeRule,
      MaxExposureRule, MaxOpenPositionsRule, DailyLossLimitRule a, BuyingPowerRule]"
    using platform_rule_cases [OF assms(1)] by blast
  show "rd_approved (check_kill_switch env o1 (books_of pf ps))"
    "rd_approved (check_max_position (en_limits en) o1 (books_of pf ps))"
    "rd_approved (check_max_open (en_limits en) o1 (books_of pf ps))"
    "rd_approved (check_buying_power o1 (books_of pf ps))"
    using A [of KillSwitchRule] A [of MaxPositionSizeRule] A [of MaxOpenPositionsRule] A [of BuyingPowerRule]
    by (simp_all add: rules)
  show "\<exists>a. DailyLossLimitRule a \<in> set (en_rules en) \<and> rd_approved (check_daily_loss (en_limits en) a o1 (books_of pf ps))"
    using A [of "DailyLossLimitRule a"] by (auto simp: rules)
qed

lemma max_position_approved:
  assumes "rd_approved (check_max_position lims o1 b)" "\<not> closes_without_reversing o1 (rb_settled b)"
  obtains price where "price_for o1 (rb_committed b) = Some price" "0 < equity (rb_committed b)"
    "dmul (worst_resulting_qty o1 b) price \<le> dmul (l_max_position_pct lims) (equity (rb_committed b))"
  using assms
  by (auto simp: check_max_position_def Let_def not_le dest: unpriced_book_Some split: option.splits if_splits)

text \<open>
  C4. The position cap holds for the whole batch. When the chain approves an order that is not an
  exit, the symbol's position stays within \<open>max_position_pct\<close> of the committed equity at the
  reference price, however much of each working order fills before, none and all included.
\<close>

theorem approved_order_is_capped:
  assumes "platform_engine en" "validate env en o1 pf (map fst fills) = (d, o2, en2, pf2)" "rd_approved d"
    and "\<not> closes_without_reversing o1 pf"
    and "can_fill fills" "book_amounts pf (map fst fills) o1"
    and "price_for o1 (project_pending pf (map fst fills)) = Some price" "0 \<le> price"
  shows "dmul \<bar>qty_in pf (o_symbol o1) + fill_outcome (o_symbol o1) fills + side_sign (o_side o1) * o_qty o1\<bar> price
    \<le> dmul (l_max_position_pct (en_limits en)) (equity (project_pending pf (map fst fills)))"
proof -
  obtain p where "price_for o1 (project_pending pf (map fst fills)) = Some p"
    "dmul (worst_resulting_qty o1 (books_of pf (map fst fills))) p
       \<le> dmul (l_max_position_pct (en_limits en)) (equity (project_pending pf (map fst fills)))"
    using max_position_approved [OF platform_allow(2) [OF assms(1-3)]] assms(4) by auto
  moreover have "dmul \<bar>qty_in pf (o_symbol o1) + fill_outcome (o_symbol o1) fills + side_sign (o_side o1) * o_qty o1\<bar> price
      \<le> dmul (worst_resulting_qty o1 (books_of pf (map fst fills))) price"
    by (rule dmul_mono, rule mult_right_mono) (use worst_covers_fills [OF assms(5,6)] assms(8) in simp_all)
  ultimately show ?thesis using assms(7) by simp
qed

definition sample_working :: "(order \<times> dec) list" where
  "sample_working = [((order_defaults ''w'' ''k'' ''MSFT'' BUY 20)\<lparr>o_limit := Some 300\<rparr>, 5)]"

theorem approved_order_is_capped_witness:
  "dmul \<bar>qty_in sample_portfolio ''MSFT'' + 5 + 10\<bar> 300
     \<le> dmul (1/10) (equity (project_pending sample_portfolio (map fst sample_working)))"
proof -
  let ?o = "sample_order\<lparr>o_limit := Some 300\<rparr>"
  let ?v = "validate (sample_env []) sample_engine ?o sample_portfolio (map fst sample_working)"
  obtain d o2 en2 pf2 where v: "?v = (d, o2, en2, pf2)" by (cases ?v)
  have "rd_approved (fst ?v)"
    by (simp add: sample_working_def sample_defs risk_eval project_one_def add_in_flight_def
        signed_remaining_def remaining_qty_def new_position_def dec_ops Let_def)
  then have a: "rd_approved d" using v by simp
  have p: "platform_engine sample_engine"
    by (simp add: platform_engine_def sample_engine_def anchor_session_def default_rules_def same_rule_def)
  have "book_amounts sample_portfolio (map fst sample_working) ?o" "can_fill sample_working"
    "\<not> closes_without_reversing ?o sample_portfolio"
    "price_for ?o (project_pending sample_portfolio (map fst sample_working)) = Some 300"
    "l_max_position_pct (en_limits sample_engine) = 1/10"
    "fill_outcome (o_symbol ?o) sample_working = 5"
    by (simp_all add: book_amounts_def can_fill_def sample_working_def sample_defs risk_eval
        remaining_qty_def amount9_def fill_outcome_def dec_ops anchor_session_def)
  with approved_order_is_capped [OF p v a, of 300] show ?thesis
    by (simp add: sample_order_def order_defaults_def)
qed

text \<open>
  C5. A halt lets through exits only, and only provable ones: while a halt covers the order, an
  approved order closes into the settled position, stops at flat, and its symbol's quantity is not
  under doubt.
\<close>

theorem halted_approves_only_proven_exits:
  assumes "platform_engine en" "validate env en o1 pf ps = (d, o2, en2, pf2)" "rd_approved d"
    and "engaged (env_halt env (o_strategy o1) (o_symbol o1))" "exact28 (qty_in pf (o_symbol o1))"
  shows "\<not> position_is_unproven (env_halt env (o_strategy o1) (o_symbol o1)) (o_symbol o1)
    \<and> (o_side o1 = SELL \<and> 0 < qty_in pf (o_symbol o1) \<and> o_qty o1 \<le> qty_in pf (o_symbol o1)
       \<or> o_side o1 = BUY \<and> qty_in pf (o_symbol o1) < 0 \<and> o_qty o1 \<le> - qty_in pf (o_symbol o1))"
proof -
  have "closes_without_reversing o1 pf
      \<and> \<not> position_is_unproven (env_halt env (o_strategy o1) (o_symbol o1)) (o_symbol o1)"
    using platform_allow(1) [OF assms(1-3)] assms(4)
    by (auto simp: check_kill_switch_def Let_def split: if_splits)
  with assms(5) show ?thesis
    by (cases "o_side o1")
      (auto simp: closes_without_reversing_def reduces_position_def qty_in_def is_flat_def is_long_def is_short_def
        dabs_exact split: option.splits if_splits)
qed

definition sample_halt :: halt_record where
  "sample_halt = \<lparr>h_scope = GLOBAL, h_reason = HR_MANUAL, h_engaged_at = 0, h_engaged_by = ''ops'',
     h_detail = [], h_target = None, h_escalation = None, h_impugned = []\<rparr>"

theorem halted_approves_only_proven_exits_witness:
  "rd_approved (fst (validate (sample_env [sample_halt]) sample_engine
      (order_defaults ''o'' ''c'' ''AAPL'' SELL 60) sample_portfolio []))
    \<and> 60 \<le> qty_in sample_portfolio ''AAPL''"
proof -
  let ?o = "order_defaults ''o'' ''c'' ''AAPL'' SELL 60"
  let ?v = "validate (sample_env [sample_halt]) sample_engine ?o sample_portfolio []"
  obtain d o2 en2 pf2 where v: "?v = (d, o2, en2, pf2)" by (cases ?v)
  have app: "rd_approved (fst ?v)"
    by (simp add: sample_defs risk_eval sample_halt_def position_is_unproven_def unproven_symbols_def
        dec_ops Let_def)
  have p: "platform_engine sample_engine"
    by (simp add: platform_engine_def sample_engine_def anchor_session_def default_rules_def same_rule_def)
  have "engaged (env_halt (sample_env [sample_halt]) (o_strategy ?o) (o_symbol ?o))"
    "exact28 (qty_in sample_portfolio (o_symbol ?o))"
    by (simp_all add: sample_defs engaged_def qty_in_def held_in_def dict_get_Cons order_defaults_def
        exact28_def)
  from halted_approves_only_proven_exits [OF p v _ this] app v show ?thesis
    by (simp add: order_defaults_def)
qed

text \<open>
  C6. An order that only closes into what is held is refused by a rule that reads no book, or by a
  halt that cannot prove the quantity: no ceiling, loss limit or shortage of cash holds an exit.
\<close>

theorem exits_are_refused_only_blindly:
  assumes "platform_engine en" "validate env en o1 pf ps = (d, o2, en2, pf2)" "\<not> rd_approved d"
    and "closes_without_reversing o1 pf"
  shows "rd_rule d \<in> set EXIT_BLIND_RULES
    \<or> rd_rule d = ''kill_switch'' \<and> engaged (env_halt env (o_strategy o1) (o_symbol o1))
       \<and> position_is_unproven (env_halt env (o_strategy o1) (o_symbol o1)) (o_symbol o1)"
proof -
  obtain r where r: "r \<in> set (en_rules en)" "d = verdict env (en_limits en) o1 (books_of pf ps) r" "rd_rule d = rule_name r"
    using chain_verdict_split [OF platform_builtin [OF assms(1)] assms(2,3)] by blast
  obtain ext rec a where rules: "en_rules en =
     [KillSwitchRule, TradingHoursRule ext, RateLimitRule rec, StaleDataRule, MaxPositionSizeRule,
      MaxExposureRule, MaxOpenPositionsRule, DailyLossLimitRule a, BuyingPowerRule]"
    using platform_rule_cases [OF assms(1)] by blast
  have exits: "rd_approved (check_max_position (en_limits en) o1 (books_of pf ps))"
    "rd_approved (fst (check_max_exposure (en_limits en) o1 (books_of pf ps)))"
    "rd_approved (check_max_open (en_limits en) o1 (books_of pf ps))"
    "rd_approved (check_daily_loss (en_limits en) a o1 (books_of pf ps))"
    "rd_approved (check_buying_power o1 (books_of pf ps))"
    using assms(4) max_position.lets_exits_go max_exposure.lets_exits_go max_open.lets_exits_go
      daily_loss.lets_exits_go buying_power.lets_exits_go by blast+
  have halted: "engaged (env_halt env (o_strategy o1) (o_symbol o1))
     \<and> position_is_unproven (env_halt env (o_strategy o1) (o_symbol o1)) (o_symbol o1)"
    if "\<not> rd_approved (check_kill_switch env o1 (books_of pf ps))"
    using that assms(4) by (auto simp: check_kill_switch_def Let_def closes_without_reversing_def split: if_splits)
  consider "r = KillSwitchRule" | "rule_name r \<in> set EXIT_BLIND_RULES"
    using r(1,2) assms(3) exits unfolding rules by (auto simp: EXIT_BLIND_RULES_def)
  then show ?thesis using halted r assms(3) by cases simp_all
qed

theorem exits_are_refused_only_blindly_witness:
  "rd_rule (fst (validate ((sample_env [])\<lparr>env_is_open := (\<lambda>_. False)\<rparr>) sample_engine
      (order_defaults ''o'' ''c'' ''AAPL'' SELL 60) sample_portfolio [])) \<in> set EXIT_BLIND_RULES"
proof -
  let ?e = "(sample_env [])\<lparr>env_is_open := (\<lambda>_. False)\<rparr>"
  let ?o = "order_defaults ''o'' ''c'' ''AAPL'' SELL 60"
  let ?v = "validate ?e sample_engine ?o sample_portfolio []"
  obtain d o2 en2 pf2 where v: "?v = (d, o2, en2, pf2)" by (cases ?v)
  have "\<not> rd_approved (fst ?v)"
    by (simp add: sample_defs risk_eval dec_ops Let_def)
  then have den: "\<not> rd_approved d" using v by simp
  have p: "platform_engine sample_engine"
    by (simp add: platform_engine_def sample_engine_def anchor_session_def default_rules_def same_rule_def)
  have "closes_without_reversing ?o sample_portfolio"
    by (simp add: sample_defs risk_eval dec_ops)
  moreover have "\<not> engaged (env_halt ?e (o_strategy ?o) (o_symbol ?o))"
    by (simp add: sample_env_def engaged_def)
  ultimately show ?thesis using exits_are_refused_only_blindly [OF p v den] v by simp
qed

text \<open>
  C23. No entry past the day's loss: when the chain approves an order that does not reduce what the
  account holds, the session was anchored at a positive equity and the committed equity is still
  above the anchor less \<open>max_daily_loss_pct\<close> of it.
\<close>

theorem approved_entry_within_daily_loss:
  assumes "platform_engine en" "validate env en o1 pf ps = (d, o2, en2, pf2)" "rd_approved d"
    and "\<not> reduces_position o1 pf" "exact28 (l_max_daily_loss_pct (en_limits en))"
    and "\<forall>start. DailyLossLimitRule (Some start) \<in> set (en_rules en) \<longrightarrow> exact28 (equity (project_pending pf ps) - start)"
  shows "\<exists>start. DailyLossLimitRule (Some start) \<in> set (en_rules en) \<and> 0 < start
    \<and> start - l_max_daily_loss_pct (en_limits en) * start < equity (project_pending pf ps)"
proof -
  obtain a where a: "DailyLossLimitRule a \<in> set (en_rules en)"
    "rd_approved (check_daily_loss (en_limits en) a o1 (books_of pf ps))"
    using platform_allow(4) [OF assms(1-3)] by blast
  define eq pct where "eq = equity (project_pending pf ps)" and "pct = l_max_daily_loss_pct (en_limits en)"
  obtain start where start: "a = Some start" "0 < start" "\<not> ddiv (dsub eq start) start \<le> dneg pct"
    using a(2) assms(4) unfolding eq_def pct_def
    by (auto simp: check_daily_loss_def Let_def not_le dest: unpriced_book_Some split: option.splits if_splits)
  have "dsub eq start = eq - start" using assms(6) a(1) start(1) by (simp add: dsub_def rnd_exact eq_def)
  moreover have "(eq - start) / start \<le> - pct" if "eq \<le> start - pct * start"
    using that start(2) by (simp add: divide_le_eq)
  ultimately have "\<not> eq \<le> start - pct * start"
    using start(3) rnd_mono [of "(eq - start) / start" "- pct"] by (auto simp: ddiv_def dneg_def)
  with a(1) start(1,2) show ?thesis by (auto simp: eq_def pct_def)
qed

theorem approved_entry_within_daily_loss_witness:
  "115000 - 3/100 * 115000 < equity (project_pending sample_portfolio [])"
proof -
  let ?o = "sample_order\<lparr>o_limit := Some 300\<rparr>"
  let ?v = "validate (sample_env []) sample_engine ?o sample_portfolio []"
  obtain d o2 en2 pf2 where v: "?v = (d, o2, en2, pf2)" by (cases ?v)
  have "rd_approved (fst ?v)" by (simp add: sample_defs risk_eval dec_ops Let_def)
  then have a: "rd_approved d" using v by simp
  have p: "platform_engine sample_engine"
    by (simp add: platform_engine_def sample_engine_def anchor_session_def default_rules_def same_rule_def)
  have "\<not> reduces_position ?o sample_portfolio" "exact28 (l_max_daily_loss_pct (en_limits sample_engine))"
    "\<forall>s. DailyLossLimitRule (Some s) \<in> set (en_rules sample_engine) \<longrightarrow> exact28 (equity (project_pending sample_portfolio []) - s)"
    "l_max_daily_loss_pct (en_limits sample_engine) = 3/100"
    "\<forall>s. DailyLossLimitRule (Some s) \<in> set (en_rules sample_engine) \<longrightarrow> s = 115000"
    by (simp_all add: sample_defs risk_eval dec_ops exact28_def)
  with approved_entry_within_daily_loss [OF p v a] show ?thesis by auto
qed

text \<open>
  A projection never credits an exit: with everything in flight projected, a held position is
  still on its side and at least as large, whatever reductions are working.
\<close>

theorem projection_credits_no_exit:
  assumes "exact28 (qty_in pf sm)"
  shows "(0 < qty_in pf sm \<longrightarrow> qty_in pf sm \<le> qty_in (project_pending pf ps) sm)
    \<and> (qty_in pf sm < 0 \<longrightarrow> qty_in (project_pending pf ps) sm \<le> qty_in pf sm)"
  using projection_same_side [OF assms, of ps] by (simp add: same_side_def)

theorem projection_credits_no_exit_witness:
  "100 \<le> qty_in (project_pending sample_portfolio [order_defaults ''w'' ''k'' ''AAPL'' SELL 40]) ''AAPL''"
proof -
  have "qty_in sample_portfolio ''AAPL'' = 100"
    by (simp add: sample_defs qty_in_def held_in_def dict_get_Cons)
  then show ?thesis using projection_credits_no_exit [of sample_portfolio "''AAPL''"] by (simp add: exact28_def)
qed

section \<open>The rate limit over time\<close>

text \<open>The times at which a run of checks lets an order through.\<close>

fun rate_accepted :: "risk_env \<Rightarrow> risk_limits \<Rightarrow> ts list \<Rightarrow> ts list \<Rightarrow> ts list" where
  "rate_accepted env lims recent [] = []"
| "rate_accepted env lims recent (t # ts) =
     (let (d, rec1) = check_rate_limit (env\<lparr>env_now := t\<rparr>) lims recent;
          rest = rate_accepted env lims rec1 ts
      in if rd_approved d then t # rest else rest)"

definition in_window :: "ts \<Rightarrow> ts list \<Rightarrow> ts list" where
  "in_window w ts = filter (\<lambda>t. w - RATE_WINDOW < t \<and> t \<le> w) ts"

lemma dropWhile_sorted: "sorted (ts :: ts list) \<Longrightarrow> dropWhile (\<lambda>t. t \<le> c) ts = filter (\<lambda>t. c < t) ts"
proof (induction ts)
  case (Cons t ts)
  show ?case
  proof (cases "t \<le> c")
    case False
    then have "\<forall>u \<in> set ts. c < u" using Cons.prems by auto
    then show ?thesis using False by simp
  qed (use Cons in auto)
qed simp

lemma rate_step:
  assumes "sorted (acc @ t # ts)" "recent = filter (\<lambda>u. c < u) acc" "c \<le> t - RATE_WINDOW"
  shows "check_rate_limit (env\<lparr>env_now := t\<rparr>) lims recent =
    (let kept = filter (\<lambda>u. t - RATE_WINDOW < u) acc in
     if l_max_orders_per_minute lims \<le> int (length kept)
     then (deny RATE_LIMIT_RULE (Reason ''orders in the last minute, at the limit'' [] []), kept)
     else (allow, filter (\<lambda>u. t - RATE_WINDOW < u) (acc @ [t])))"
proof -
  have "sorted recent" using assms(1,2) by (simp add: sorted_append sorted_wrt_filter)
  then have "dropWhile (\<lambda>u. u \<le> t - RATE_WINDOW) recent = filter (\<lambda>u. t - RATE_WINDOW < u) acc"
    using assms(2,3) by (auto simp: dropWhile_sorted intro: filter_cong)
  then show ?thesis by (simp add: check_rate_limit_def Let_def RATE_WINDOW_def)
qed

lemma window_snoc:
  assumes "sorted (acc @ [t])" "int (length (filter (\<lambda>u. t - RATE_WINDOW < u) acc)) < n"
    "\<And>w. int (length (in_window w acc)) \<le> n"
  shows "int (length (in_window w (acc @ [t]))) \<le> n"
proof (cases "t \<le> w")
  case True
  have "length (in_window w acc) \<le> length (filter (\<lambda>u. t - RATE_WINDOW < u) acc)"
    using True by (induction acc) (auto simp: in_window_def)
  then show ?thesis using assms(2) by (simp add: in_window_def)
qed (use assms(3) [of w] in \<open>simp add: in_window_def\<close>)

lemma rate_window_run:
  assumes "sorted (acc @ ts)" "recent = filter (\<lambda>u. c < u) acc" "\<And>t. t \<in> set ts \<Longrightarrow> c \<le> t - RATE_WINDOW"
    "\<And>w. int (length (in_window w acc)) \<le> l_max_orders_per_minute lims"
  shows "int (length (in_window w (acc @ rate_accepted env lims recent ts))) \<le> l_max_orders_per_minute lims"
  using assms
proof (induction ts arbitrary: acc recent c)
  case (Cons t ts)
  define kept where "kept = filter (\<lambda>u. t - RATE_WINDOW < u) acc"
  have later: "\<And>u. u \<in> set ts \<Longrightarrow> t - RATE_WINDOW \<le> u - RATE_WINDOW" using Cons.prems(1) by (auto simp: sorted_append)
  note step = rate_step [OF Cons.prems(1,2), of env lims, folded kept_def, OF Cons.prems(3)]
  show ?case
  proof (cases "l_max_orders_per_minute lims \<le> int (length kept)")
    case True
    have "sorted (acc @ ts)" using Cons.prems(1) by (auto simp: sorted_append)
    with True step Cons.IH [OF _ kept_def later Cons.prems(4)] show ?thesis by simp
  next
    case False
    have s: "sorted ((acc @ [t]) @ ts)" and "sorted (acc @ [t])" using Cons.prems(1) by (auto simp: sorted_append)
    then have "\<And>w. int (length (in_window w (acc @ [t]))) \<le> l_max_orders_per_minute lims"
      using window_snoc False Cons.prems(4) by (simp add: kept_def)
    with False step Cons.IH [OF s refl later] show ?thesis by simp
  qed
qed simp

text \<open>
  C24. The runaway guard: however often orders are attempted, no sixty seconds ever hold more
  accepted orders than \<open>max_orders_per_minute\<close>, refused attempts not counting.
\<close>

theorem rate_limit_window:
  assumes "sorted ts" "0 \<le> l_max_orders_per_minute lims"
  shows "int (length (in_window w (rate_accepted env lims [] ts))) \<le> l_max_orders_per_minute lims"
proof (cases ts)
  case (Cons t us)
  show ?thesis
    using rate_window_run [of "[]" ts "[]" "t - RATE_WINDOW" lims w env] assms Cons
    by (auto simp: in_window_def)
qed (use assms in \<open>simp add: in_window_def\<close>)

theorem rate_limit_window_witness:
  "int (length (in_window 5 (rate_accepted (sample_env []) (sample_limits\<lparr>l_max_orders_per_minute := 2\<rparr>) [] [1, 2, 3, 4])))
    \<le> 2 \<and> rate_accepted (sample_env []) (sample_limits\<lparr>l_max_orders_per_minute := 2\<rparr>) [] [1, 2, 3, 4] = [1, 2]"
  using rate_limit_window [of "[1, 2, 3, 4]" "sample_limits\<lparr>l_max_orders_per_minute := 2\<rparr>" 5 "sample_env []"]
  by (simp add: check_rate_limit_def RATE_WINDOW_def Let_def)

section \<open>What a size puts at risk\<close>

lemma rnd_error:
  assumes "0 < x"
  shows "\<bar>rnd x - x\<bar> \<le> x * (5 / 10 ^ 28)"
proof -
  define q :: rat where "q = 10 powi (dexp x - 27)"
  have q: "0 < q" "10 ^ 27 \<le> x / q" "rnd_pos x = of_int (round_half_even (x / q)) * q"
    using rnd_pos_scaled [OF assms] by (simp_all add: q_def)
  have "rnd x - x = (of_int (round_half_even (x / q)) - x / q) * q"
    using assms q by (simp add: rnd_def left_diff_distrib)
  then have "\<bar>rnd x - x\<bar> \<le> 1/2 * q"
    using rhe_error [of "x / q"] q(1) by (simp add: abs_mult mult_right_mono)
  also have "\<dots> \<le> x * (5 / 10 ^ 28)" using q(1,2) by (simp add: field_simps)
  finally show ?thesis .
qed

text \<open>
  Sizing by risk: the size is a whole number of shares, it loses no more than the intended
  fraction of equity when the stop is hit (within the rounding of one division), and one share more
  would lose more.
\<close>

theorem risk_size_bounds:
  assumes "position_size ''risk_pct'' eq price (Some stop) pct vol = Inr q"
    and "exact28 (eq * pct)" "exact28 (price - stop)"
  shows "0 \<le> q \<and> q \<in> \<int> \<and> q * \<bar>price - stop\<bar> \<le> eq * pct * (1 + 5 / 10 ^ 28)
    \<and> eq * pct * (1 - 5 / 10 ^ 28) < (q + 1) * \<bar>price - stop\<bar>"
proof -
  define D R where "D = \<bar>price - stop\<bar>" and "R = eq * pct"
  have pos: "0 < eq" "0 < pct" "D \<noteq> 0" and q: "q = of_int (to_integral ROUND_DOWN (rnd (R / D)))"
    using assms
    by (auto simp: position_size_def size_raw_def Let_def dec_ops D_def R_def rnd_exact dec28.r_abs
        split: if_splits)
  have RD: "0 < R" "0 < D" "0 < R / D" using pos by (simp_all add: R_def D_def)
  note B = to_integral_down_bounds [of "rnd (R / D)"]
  have raw: "rnd (R / D) \<le> R / D * (1 + 5 / 10 ^ 28)" "R / D * (1 - 5 / 10 ^ 28) \<le> rnd (R / D)"
    using rnd_error [OF RD(3)] by (simp_all add: distrib_left right_diff_distrib abs_le_iff)
  have "0 \<le> rnd (R / D)" using RD(3) by simp
  then have fl: "q \<le> rnd (R / D)" "rnd (R / D) < q + 1" using B unfolding q by blast+
  have "q * D \<le> R / D * (1 + 5 / 10 ^ 28) * D"
    by (rule mult_right_mono [OF order_trans [OF fl(1) raw(1)] less_imp_le [OF RD(2)]])
  moreover have "R / D * (1 - 5 / 10 ^ 28) * D < (q + 1) * D"
    by (rule mult_strict_right_mono [OF le_less_trans [OF raw(2) fl(2)] RD(2)])
  ultimately have "q * D \<le> R * (1 + 5 / 10 ^ 28)" "R * (1 - 5 / 10 ^ 28) < (q + 1) * D"
    using RD(2) by simp_all
  moreover have "0 \<le> q" "q \<in> \<int>" using B(1) RD(3) unfolding q by simp_all
  ultimately show ?thesis by (simp add: D_def R_def)
qed

theorem risk_size_bounds_witness:
  "position_size ''risk_pct'' 100000 150 (Some 134) (1/100) None = Inr 62
    \<and> 62 * 16 \<le> (100000 * (1/100) * (1 + 5 / 10 ^ 28) :: dec)"
proof -
  have "position_size ''risk_pct'' 100000 150 (Some 134) (1/100) None = Inr 62"
    by (simp add: position_size_def size_raw_def dec_ops Let_def floor_divide_of_int_eq [of 125 2, simplified])
  with risk_size_bounds [OF this] show ?thesis by (simp add: exact28_def)
qed

end
