(* ===== verification/Market.thy ===== *)
theory Market
  imports Enums
begin

text \<open>
  \<open>domain/market.py\<close>: instruments, bars, quotes and trades. Instants are UTC by construction here, so
  the constructor checks that remain are the symbol's case and the ordering of a bar's prices.
\<close>

record instrument =
  in_symbol :: string
  in_exchange :: string
  in_currency :: string
  in_tick_size :: dec
  in_lot_size :: dec
  in_fractionable :: bool
  in_shortable :: bool

definition new_instrument :: "instrument \<Rightarrow> exn + instrument" where
  "new_instrument i =
     (if in_symbol i \<noteq> str_upper (in_symbol i) then Inl (value_error ''symbol must be uppercase'') else Inr i)"

definition round_price :: "rounding_mode \<Rightarrow> instrument \<Rightarrow> dec \<Rightarrow> exn + dec" where
  "round_price m i price =
     bind_r (lift_dec (ddiv_r price (in_tick_size i))) (\<lambda>ticks.
     bind_r (lift_dec (quantize m 0 ticks)) (\<lambda>n. Inr (dmul n (in_tick_size i))))"

record bar =
  b_symbol :: string
  b_ts :: ts
  b_timeframe :: timeframe
  b_open :: dec
  b_high :: dec
  b_low :: dec
  b_close :: dec
  b_volume :: dec
  b_adj_close :: "dec option"
  b_vwap :: "dec option"
  b_trade_count :: "int option"

definition bar_ok :: "bar \<Rightarrow> bool" where
  "bar_ok b \<longleftrightarrow> b_low b \<le> b_open b \<and> b_open b \<le> b_high b \<and> b_low b \<le> b_close b \<and> b_close b \<le> b_high b"

definition new_bar :: "bar \<Rightarrow> exn + bar" where
  "new_bar b = (if \<not> bar_ok b then Inl (value_error ''inconsistent OHLC'') else Inr b)"

definition close_ts :: "bar \<Rightarrow> ts" where
  "close_ts b = b_ts b + timeframe_seconds (b_timeframe b) * 10 ^ 6"

definition is_adjusted :: "bar \<Rightarrow> bool" where
  "is_adjusted b \<longleftrightarrow> b_adj_close b = Some (b_close b)"

definition adjusted :: "bar \<Rightarrow> exn + bar" where
  "adjusted b =
     (case b_adj_close b of
        None \<Rightarrow> Inl (value_error ''has no adj_close, so it cannot be adjusted'')
      | Some adj \<Rightarrow>
          if b_close b \<le> 0 then Inl (value_error ''the adjustment factor is undefined'')
          else if is_adjusted b then Inr b
          else
            let factor = ddiv adj (b_close b) in
            bind_r (lift_dec (ddiv_r (b_volume b) factor)) (\<lambda>volume.
              new_bar (b\<lparr>b_open := dmul (b_open b) factor, b_high := dmul (b_high b) factor,
                         b_low := dmul (b_low b) factor, b_close := dmul (b_close b) factor,
                         b_volume := volume, b_adj_close := Some (dmul (b_close b) factor),
                         b_vwap := map_option (\<lambda>v. dmul v factor) (b_vwap b)\<rparr>)))"

definition typical_price :: "bar \<Rightarrow> dec" where
  "typical_price b = ddiv (dadd (dadd (b_high b) (b_low b)) (b_close b)) 3"

definition bar_range :: "bar \<Rightarrow> dec" where
  "bar_range b = dsub (b_high b) (b_low b)"

record quote =
  q_symbol :: string
  q_ts :: ts
  q_bid :: dec
  q_ask :: dec
  q_bid_size :: dec
  q_ask_size :: dec

definition mid :: "quote \<Rightarrow> dec" where
  "mid q = ddiv (dadd (q_bid q) (q_ask q)) 2"

definition spread :: "quote \<Rightarrow> dec" where
  "spread q = dsub (q_ask q) (q_bid q)"

definition spread_bps :: "quote \<Rightarrow> dec" where
  "spread_bps q = (if mid q \<noteq> 0 then dmul (ddiv (spread q) (mid q)) 10000 else 0)"

record trade_print =
  tp_symbol :: string
  tp_ts :: ts
  tp_price :: dec
  tp_size :: dec
  tp_conditions :: "string list"

lemma new_bar_Inr: "new_bar b = Inr b' \<longleftrightarrow> bar_ok b \<and> b' = b"
  by (auto simp: new_bar_def)

lemma dmul_right_mono: "a \<le> b \<Longrightarrow> 0 \<le> f \<Longrightarrow> dmul a f \<le> dmul b f"
  by (rule dmul_mono) (rule mult_right_mono)

lemma dmul_pos [simp]: "0 < a \<Longrightarrow> 0 < b \<Longrightarrow> 0 < dmul a b"
  by (simp add: dmul_def)

text \<open>
  Adjusting a bar for corporate actions: with a positive close and adjusted close it never
  fails, the whole candle stays ordered although every price is rounded, the result is marked as
  adjusted, and adjusting it again changes nothing.
\<close>

theorem adjusted_keeps_candle:
  assumes "bar_ok b" "b_adj_close b = Some adj" "0 < adj" "0 < b_close b"
  shows "\<exists>b'. adjusted b = Inr b' \<and> bar_ok b' \<and> is_adjusted b' \<and> adjusted b' = Inr b'
    \<and> b_symbol b' = b_symbol b \<and> b_ts b' = b_ts b \<and> 0 < b_close b'"
proof (cases "is_adjusted b")
  case True
  with assms show ?thesis by (simp add: adjusted_def)
next
  case False
  define factor where "factor = ddiv adj (b_close b)"
  have f: "0 < factor" using assms by (simp add: factor_def ddiv_def)
  let ?b = "b\<lparr>b_open := dmul (b_open b) factor, b_high := dmul (b_high b) factor,
     b_low := dmul (b_low b) factor, b_close := dmul (b_close b) factor,
     b_volume := ddiv (b_volume b) factor, b_adj_close := Some (dmul (b_close b) factor),
     b_vwap := map_option (\<lambda>v. dmul v factor) (b_vwap b)\<rparr>"
  have ok: "bar_ok ?b" using assms(1) f by (simp add: bar_ok_def dmul_right_mono)
  have "adjusted b = Inr ?b"
    using assms(2,4) False f ok by (simp add: adjusted_def factor_def [symmetric] Let_def ddiv_r_def new_bar_Inr)
  moreover have "is_adjusted ?b" by (simp add: is_adjusted_def)
  moreover have "adjusted ?b = Inr ?b" using f assms(4) by (simp add: adjusted_def is_adjusted_def not_le)
  ultimately show ?thesis using ok f assms(4) by simp
qed

definition sample_bar :: bar where
  "sample_bar = \<lparr>b_symbol = ''AAPL'', b_ts = 0, b_timeframe = D1, b_open = 400, b_high = 440, b_low = 396,
     b_close = 420, b_volume = 1000, b_adj_close = Some 105, b_vwap = None, b_trade_count = None\<rparr>"

theorem adjusted_keeps_candle_witness:
  "\<exists>b'. adjusted sample_bar = Inr b' \<and> bar_ok b' \<and> b_open b' = 100 \<and> b_volume b' = 4000"
proof -
  have "adjusted sample_bar = Inr (sample_bar\<lparr>b_open := 100, b_high := 110, b_low := 99, b_close := 105,
      b_volume := 4000\<rparr>)"
    by (simp add: adjusted_def sample_bar_def is_adjusted_def Let_def ddiv_r_def new_bar_def bar_ok_def dec_ops)
  moreover have "bar_ok sample_bar" "b_adj_close sample_bar = Some 105" "0 < b_close sample_bar"
    by (simp_all add: sample_bar_def bar_ok_def)
  then have "\<exists>b'. adjusted sample_bar = Inr b' \<and> bar_ok b'"
    using adjusted_keeps_candle [of sample_bar 105] by auto
  ultimately show ?thesis by auto
qed

end
