(* ===== verification/Matching.thy ===== *)
theory Matching
  imports Orders Market
begin

text \<open>
  \<open>execution/matching.py\<close>: whether a bar reached an order, and at what price. The backtest engine
  and the simulated broker share it.
\<close>

definition reached :: "dec \<Rightarrow> dec \<Rightarrow> bool \<Rightarrow> bool \<Rightarrow> bool" where
  "reached extreme price require_through up =
     (if up then (if require_through then price < extreme else price \<le> extreme)
      else (if require_through then extreme < price else extreme \<le> price))"

definition intended_price :: "order \<Rightarrow> bar \<Rightarrow> bool \<Rightarrow> exn + dec option" where
  "intended_price o1 b thr =
     (case o_type o1 of
        MARKET \<Rightarrow> Inr (Some (b_open b))
      | LIMIT \<Rightarrow>
          (case o_limit o1 of
             None \<Rightarrow> Inl (ExecutionError (Reason ''has no limit_price'' [] []))
           | Some l \<Rightarrow> Inr (
               if o_side o1 = BUY
               then (if reached (b_low b) l thr False then Some (min (b_open b) l) else None)
               else (if reached (b_high b) l thr True then Some (max (b_open b) l) else None)))
      | STOP \<Rightarrow>
          (case o_stop o1 of
             None \<Rightarrow> Inl (ExecutionError (Reason ''has no stop_price'' [] []))
           | Some s \<Rightarrow> Inr (
               if o_side o1 = BUY
               then (if reached (b_high b) s thr True then Some (max (b_open b) s) else None)
               else (if reached (b_low b) s thr False then Some (min (b_open b) s) else None)))
      | _ \<Rightarrow> Inl (ExecutionError (Reason ''is not modelled by the fill simulator'' [] [])))"

text \<open>
  A bar fills an order only at a price it traded at, never better than a limit buyer or seller
  asked for, never better than a stop; a market order always fills, at the open; and a limit or a
  stop fails to fill exactly when the bar did not reach its price.
\<close>

theorem intended_price_honest:
  assumes "bar_ok b" "intended_price o1 b thr = Inr p"
  shows "(\<forall>x. p = Some x \<longrightarrow> b_low b \<le> x \<and> x \<le> b_high b)
    \<and> (\<forall>x l. p = Some x \<and> o_type o1 = LIMIT \<and> o_limit o1 = Some l \<longrightarrow> (if o_side o1 = BUY then x \<le> l else l \<le> x))
    \<and> (\<forall>x s. p = Some x \<and> o_type o1 = STOP \<and> o_stop o1 = Some s \<longrightarrow> (if o_side o1 = BUY then s \<le> x else x \<le> s))
    \<and> (o_type o1 = MARKET \<longrightarrow> p = Some (b_open b))
    \<and> (\<forall>l. p = None \<and> \<not> thr \<and> o_type o1 = LIMIT \<and> o_limit o1 = Some l \<longrightarrow> (if o_side o1 = BUY then l < b_low b else b_high b < l))
    \<and> (\<forall>s. p = None \<and> \<not> thr \<and> o_type o1 = STOP \<and> o_stop o1 = Some s \<longrightarrow> (if o_side o1 = BUY then b_high b < s else s < b_low b))"
  using assms
  by (cases "o_type o1"; cases "o_side o1"; cases thr)
    (auto simp: intended_price_def reached_def bar_ok_def split: option.splits if_splits)

theorem intended_price_honest_witness:
  "intended_price ((order_defaults ''o'' ''c'' ''AAPL'' BUY 10)\<lparr>o_type := LIMIT, o_limit := Some 399\<rparr>) sample_bar False = Inr (Some 399)
    \<and> b_low sample_bar \<le> 399"
proof -
  have "intended_price ((order_defaults ''o'' ''c'' ''AAPL'' BUY 10)\<lparr>o_type := LIMIT, o_limit := Some 399\<rparr>) sample_bar False = Inr (Some 399)"
    by (simp add: intended_price_def order_defaults_def sample_bar_def reached_def)
  moreover have "bar_ok sample_bar" by (simp add: sample_bar_def bar_ok_def)
  ultimately show ?thesis using intended_price_honest [of sample_bar] by fastforce
qed

end
