(* ===== verification/Stops.thy ===== *)
theory Stops
  imports Positions Market
begin

text \<open>
  \<open>risk/stops.py\<close>: protective levels. \<open>update_trailing\<close> moves the high-water mark before it can
  refuse, so the position comes back beside the outcome.
\<close>

definition TRAILING_TYPES :: "stop_type list" where "TRAILING_TYPES = [TRAILING_PCT, CHANDELIER]"
definition FROM_ENTRY_TYPES :: "stop_type list" where "FROM_ENTRY_TYPES = [FIXED_PCT, FIXED_AMOUNT]"

record stop_config =
  sc_type :: stop_type
  sc_value :: "dec option"
  sc_multiplier :: "dec option"
  sc_period :: int
  sc_bars :: "int option"
  sc_broker_side :: bool

definition stop_config_of :: "stop_type \<Rightarrow> stop_config" where
  "stop_config_of t = \<lparr>sc_type = t, sc_value = None, sc_multiplier = None, sc_period = 14, sc_bars = None,
     sc_broker_side = True\<rparr>"

definition require_positive :: "dec option \<Rightarrow> string \<Rightarrow> exn + dec" where
  "require_positive v what =
     (case v of None \<Rightarrow> Inl (ValueError (Reason ''stops need'' [what] []))
      | Some x \<Rightarrow> if x \<le> 0 then Inl (ValueError (Reason ''must be positive'' [what] [x])) else Inr x)"

definition positive_atr :: "dec option \<Rightarrow> exn + dec" where
  "positive_atr v =
     (case v of None \<Rightarrow> Inl (value_error ''stops need a positive ATR'')
      | Some x \<Rightarrow> if x \<le> 0 then Inl (value_error ''stops need a positive ATR'') else Inr x)"

definition guard_level :: "dec \<Rightarrow> string \<Rightarrow> exn + dec" where
  "guard_level level what =
     (if level \<le> 0 then Inl (ValueError (Reason ''is not a price'' [what] [level])) else Inr level)"

definition target_hit :: "position \<Rightarrow> bar \<Rightarrow> bool" where
  "target_hit p b =
     (case p_take_profit p of None \<Rightarrow> False
      | Some t \<Rightarrow> if is_flat p then False else if is_long p then t \<le> b_high b else b_low b \<le> t)"

text \<open>The level at a percentage of, or an ATR multiple away from, an anchor, on a given side.\<close>

definition pct_level :: "dec \<Rightarrow> dec \<Rightarrow> dec \<Rightarrow> dec" where
  "pct_level anchor direction pct = dmul anchor (dadd 1 (dmul direction pct))"

definition atr_level :: "dec \<Rightarrow> dec \<Rightarrow> dec \<Rightarrow> dec \<Rightarrow> dec" where
  "atr_level anchor direction mult atr = dadd anchor (dmul (dmul direction mult) atr)"

definition initial_stop :: "dec \<Rightarrow> side \<Rightarrow> stop_config \<Rightarrow> dec option \<Rightarrow> exn + dec" where
  "initial_stop entry sd cfg atr =
     (let direction = (if sd = BUY then - 1 else 1) in
      bind_r (case sc_type cfg of
          TIME \<Rightarrow> Inl (value_error ''a time stop has no price level'')
        | FIXED_PCT \<Rightarrow> bind_r (require_positive (sc_value cfg) ''value'') (\<lambda>pct. Inr (pct_level entry direction pct))
        | TRAILING_PCT \<Rightarrow> bind_r (require_positive (sc_value cfg) ''value'') (\<lambda>pct. Inr (pct_level entry direction pct))
        | FIXED_AMOUNT \<Rightarrow> bind_r (require_positive (sc_value cfg) ''value'') (\<lambda>amount.
            Inr (dadd entry (dmul direction amount)))
        | _ \<Rightarrow> bind_r (require_positive (sc_multiplier cfg) ''multiplier'') (\<lambda>mult.
            bind_r (positive_atr atr) (\<lambda>a. Inr (atr_level entry direction mult a))))
      (\<lambda>level. guard_level level ''stop''))"

definition trailing_anchor :: "position \<Rightarrow> bar \<Rightarrow> dec" where
  "trailing_anchor p b =
     (let extreme = (if is_long p then b_high b else b_low b);
          from = (case p_high_water p of None \<Rightarrow> p_avg_entry p | Some h \<Rightarrow> h)
      in if is_long p then max from extreme else min from extreme)"

definition trailing_candidate :: "bool \<Rightarrow> dec \<Rightarrow> stop_config \<Rightarrow> dec option \<Rightarrow> exn + dec" where
  "trailing_candidate long anchor cfg atr =
     (let direction = (if long then - 1 else 1) in
      if sc_type cfg = TRAILING_PCT
      then bind_r (require_positive (sc_value cfg) ''value'') (\<lambda>pct. Inr (pct_level anchor direction pct))
      else bind_r (require_positive (sc_multiplier cfg) ''multiplier'') (\<lambda>mult.
             bind_r (positive_atr atr) (\<lambda>a. Inr (atr_level anchor direction mult a))))"

definition update_trailing ::
  "position \<Rightarrow> bar \<Rightarrow> stop_config \<Rightarrow> dec option \<Rightarrow> (exn + dec option) \<times> position" where
  "update_trailing p b cfg atr =
     (if sc_type cfg \<notin> set TRAILING_TYPES then (Inr None, p)
      else if is_flat p then (Inr None, p)
      else
        let anchor = trailing_anchor p b;
            p1 = p\<lparr>p_high_water := Some anchor\<rparr>
        in case trailing_candidate (is_long p) anchor cfg atr of
             Inl e \<Rightarrow> (Inl e, p1)
           | Inr candidate \<Rightarrow>
               if candidate \<le> 0 then (Inr None, p1)
               else case p_stop_loss p1 of
                   Some current \<Rightarrow>
                     if (if is_long p then candidate \<le> current else current \<le> candidate) then (Inr None, p1)
                     else (Inr (Some candidate), p1\<lparr>p_stop_loss := Some candidate\<rparr>)
                 | None \<Rightarrow> (Inr (Some candidate), p1\<lparr>p_stop_loss := Some candidate\<rparr>))"

definition time_exit_due :: "int \<Rightarrow> stop_config \<Rightarrow> exn + bool" where
  "time_exit_due bars_held cfg =
     (if sc_type cfg \<noteq> TIME then Inr False
      else case sc_bars cfg of
          None \<Rightarrow> Inl (value_error ''time stops need a positive bars'')
        | Some n \<Rightarrow> if n \<le> 0 then Inl (value_error ''time stops need a positive bars'') else Inr (n \<le> bars_held))"

definition should_trigger :: "position \<Rightarrow> bar \<Rightarrow> bool" where
  "should_trigger p b =
     (case p_stop_loss p of None \<Rightarrow> False
      | Some s \<Rightarrow> if is_flat p then False else if is_long p then b_low b \<le> s else s \<le> b_high b)"

definition take_profit_level :: "dec \<Rightarrow> side \<Rightarrow> stop_config \<Rightarrow> exn + dec" where
  "take_profit_level entry sd cfg =
     (if sc_type cfg \<notin> set FROM_ENTRY_TYPES then Inl (value_error ''a take-profit must be a fixed distance from entry'')
      else
        let direction = (if sd = BUY then 1 else - 1) in
        bind_r (require_positive (sc_value cfg) ''value'') (\<lambda>v.
          guard_level (if sc_type cfg = FIXED_PCT then pct_level entry direction v
                       else dadd entry (dmul direction v)) ''take-profit''))"

lemma require_positive_Inr: "require_positive v w = Inr x \<longleftrightarrow> v = Some x \<and> 0 < x"
  by (auto simp: require_positive_def split: option.splits)

lemma positive_atr_Inr: "positive_atr v = Inr x \<longleftrightarrow> v = Some x \<and> 0 < x"
  by (auto simp: positive_atr_def split: option.splits)

lemma guard_level_Inr: "guard_level l w = Inr x \<longleftrightarrow> x = l \<and> 0 < l"
  by (auto simp: guard_level_def)

lemma pct_level_side:
  assumes "exact28 entry" "0 < entry" "0 < pct"
  shows "pct_level entry (- 1) pct \<le> entry" "entry \<le> pct_level entry 1 pct"
proof -
  have "dadd 1 (dmul (- 1) pct) \<le> 1" using assms(3) by (intro dadd_le) (auto simp: dmul_def)
  then have "entry * dadd 1 (dmul (- 1) pct) \<le> entry"
    using assms(2) by (simp add: mult_left_le)
  then show "pct_level entry (- 1) pct \<le> entry"
    using rnd_mono [of _ entry] assms(1) by (simp add: pct_level_def dmul_def rnd_exact)
  have "1 \<le> dadd 1 (dmul 1 pct)" using assms(3) by (intro dadd_ge) (auto simp: dmul_def)
  then have "entry \<le> entry * dadd 1 (dmul 1 pct)"
    using assms(2) by simp
  then show "entry \<le> pct_level entry 1 pct"
    using rnd_mono [of entry] assms(1) by (simp add: pct_level_def dmul_def rnd_exact)
qed

lemma offset_side:
  assumes "exact28 entry"
  shows "0 < x \<Longrightarrow> dadd entry (dmul (- 1) x) \<le> entry" "0 < x \<Longrightarrow> entry \<le> dadd entry (dmul 1 x)"
    "0 < m \<Longrightarrow> 0 < a \<Longrightarrow> atr_level entry (- 1) m a \<le> entry"
    "0 < m \<Longrightarrow> 0 < a \<Longrightarrow> entry \<le> atr_level entry 1 m a"
  using assms
  by (auto simp: atr_level_def dmul_def mult_le_0_iff intro!: dadd_le dadd_ge)

text \<open>
  Sides of the protective levels: a computed stop is a positive price on the losing side of
  the entry and a computed target on the winning side, for both sides, every stop type, and with
  every operation rounded.
\<close>

theorem protective_levels_bracket_entry:
  assumes "exact28 entry" "0 < entry"
  shows "(\<forall>s. initial_stop entry sd cfg atr = Inr s \<longrightarrow> 0 < s \<and> (if sd = BUY then s \<le> entry else entry \<le> s))
    \<and> (\<forall>t. take_profit_level entry sd cfg = Inr t \<longrightarrow> 0 < t \<and> (if sd = BUY then entry \<le> t else t \<le> entry))"
proof -
  have "0 < s \<and> (if sd = BUY then s \<le> entry else entry \<le> s)" if "initial_stop entry sd cfg atr = Inr s" for s
    using that pct_level_side [OF assms] offset_side [OF assms(1)]
    by (cases "sc_type cfg"; cases sd)
      (auto simp: initial_stop_def Let_def bind_r_eq_Inr require_positive_Inr positive_atr_Inr guard_level_Inr)
  moreover have "0 < t \<and> (if sd = BUY then entry \<le> t else t \<le> entry)" if "take_profit_level entry sd cfg = Inr t" for t
    using that pct_level_side [OF assms] offset_side [OF assms(1)]
    by (cases sd) (auto simp: take_profit_level_def Let_def bind_r_eq_Inr require_positive_Inr guard_level_Inr
        split: if_splits)
  ultimately show ?thesis by blast
qed

theorem protective_levels_bracket_entry_witness:
  "initial_stop 100 BUY ((stop_config_of FIXED_PCT)\<lparr>sc_value := Some (1/50)\<rparr>) None = Inr 98 \<and> (98 :: dec) \<le> 100
    \<and> take_profit_level 100 SELL ((stop_config_of FIXED_AMOUNT)\<lparr>sc_value := Some 6\<rparr>) = Inr 94 \<and> (94 :: dec) \<le> 100"
proof -
  have a: "initial_stop 100 BUY ((stop_config_of FIXED_PCT)\<lparr>sc_value := Some (1/50)\<rparr>) None = Inr 98"
    "take_profit_level 100 SELL ((stop_config_of FIXED_AMOUNT)\<lparr>sc_value := Some 6\<rparr>) = Inr 94"
    by (simp_all add: initial_stop_def take_profit_level_def stop_config_of_def FROM_ENTRY_TYPES_def
        require_positive_def guard_level_def pct_level_def dec_ops Let_def)
  have "exact28 (100 :: dec)" by (simp add: exact28_def)
  from protective_levels_bracket_entry [OF this] a show ?thesis by fastforce
qed

section \<open>The ratchet\<close>

text \<open>A run of bars over one position, each with the ATR of its bar; a refusal leaves the run going.\<close>

definition trail_step :: "stop_config \<Rightarrow> bar \<times> dec option \<Rightarrow> position \<Rightarrow> position" where
  "trail_step cfg ba p = snd (update_trailing p (fst ba) cfg (snd ba))"

definition tighter :: "position \<Rightarrow> dec option \<Rightarrow> dec option \<Rightarrow> bool" where
  "tighter p old new \<longleftrightarrow>
     (\<forall>s. old = Some s \<longrightarrow> (\<exists>s'. new = Some s' \<and> (if is_long p then s \<le> s' else s' \<le> s)))"

lemma trail_step_frame:
  "p_qty (trail_step cfg ba p) = p_qty p" "p_avg_entry (trail_step cfg ba p) = p_avg_entry p"
  by (auto simp: trail_step_def update_trailing_def Let_def split: sum.split option.split)

lemma is_long_qty: "p_qty p = p_qty q \<Longrightarrow> is_long p = is_long q"
  by (simp add: is_long_def)

lemma trail_step_tighter: "tighter p (p_stop_loss p) (p_stop_loss (trail_step cfg ba p))"
  by (cases "is_long p") (auto simp: tighter_def trail_step_def update_trailing_def Let_def split: sum.split option.split)

lemma trail_run_frame: "p_qty (fold (trail_step cfg) bas p) = p_qty p"
  by (induction bas arbitrary: p) (simp_all add: trail_step_frame)

lemma trail_run_tighter: "tighter p (p_stop_loss p) (p_stop_loss (fold (trail_step cfg) bas p))"
proof (induction bas arbitrary: p)
  case (Cons ba bas)
  have "is_long (trail_step cfg ba p) = is_long p" by (rule is_long_qty) (rule trail_step_frame)
  with Cons [of "trail_step cfg ba p"] trail_step_tighter [of p cfg ba] show ?case
    by (fastforce simp: tighter_def split: if_splits)
qed (simp add: tighter_def)

definition trailing_from :: "position \<Rightarrow> dec" where
  "trailing_from p = (case p_high_water p of None \<Rightarrow> p_avg_entry p | Some h \<Rightarrow> h)"

definition best_high :: "dec \<Rightarrow> (bar \<times> dec option) list \<Rightarrow> dec" where
  "best_high from bas = fold (\<lambda>ba. max (b_high (fst ba))) bas from"

definition ratchet :: "dec option \<Rightarrow> dec \<Rightarrow> dec option" where
  "ratchet s c = (if c \<le> 0 then s else case s of None \<Rightarrow> Some c | Some x \<Rightarrow> Some (max x c))"

lemma ratchet_ratchet: "c \<le> c' \<Longrightarrow> ratchet (ratchet s c) c' = ratchet s c'"
  by (auto simp: ratchet_def max_def split: option.split)

lemma trail_step_long:
  assumes "is_long p" "sc_type cfg = TRAILING_PCT" "sc_value cfg = Some pct" "0 < pct"
  shows "p_high_water (trail_step cfg ba p) = Some (max (b_high (fst ba)) (trailing_from p))"
    "p_stop_loss (trail_step cfg ba p) = ratchet (p_stop_loss p) (pct_level (max (b_high (fst ba)) (trailing_from p)) (- 1) pct)"
  using assms
  by (auto simp: trail_step_def update_trailing_def trailing_candidate_def trailing_anchor_def trailing_from_def
      TRAILING_TYPES_def require_positive_def is_flat_def is_long_def Let_def ratchet_def max.commute
      split: option.split)

lemma pct_level_mono:
  assumes "a \<le> b" "pct \<le> 1"
  shows "pct_level a (- 1) pct \<le> pct_level b (- 1) pct"
proof -
  have "dmul (- 1) pct \<ge> - 1" using rnd_mono [of "- 1" "- pct"] assms(2) by (simp add: dmul_def rnd_minus)
  then have "0 \<le> dadd 1 (dmul (- 1) pct)" by (simp add: dadd_def)
  then show ?thesis using assms(1) by (simp add: pct_level_def dmul_mono mult_right_mono)
qed

text \<open>
  C14. The ratchet. Over any run of bars, refusals included, a protective stop never moves away from
  the price it protects, on either side. And a percentage trail on a long, of a fraction above 0 and at
  most 1 and over at least one bar, lands on a closed form: its mark is the best high since entry, and its
  stop the tighter of the stop it started with and the level that mark gives.
\<close>

theorem trailing_stop_ratchets:
  shows "tighter p (p_stop_loss p) (p_stop_loss (fold (trail_step cfg) bas p))
    \<and> (is_long p \<and> sc_type cfg = TRAILING_PCT \<and> sc_value cfg = Some pct \<and> 0 < pct \<and> pct \<le> 1 \<and> bas \<noteq> [] \<longrightarrow>
        p_high_water (fold (trail_step cfg) bas p) = Some (best_high (trailing_from p) bas)
        \<and> p_stop_loss (fold (trail_step cfg) bas p)
            = ratchet (p_stop_loss p) (pct_level (best_high (trailing_from p) bas) (- 1) pct))"
proof (intro conjI impI)
  show "tighter p (p_stop_loss p) (p_stop_loss (fold (trail_step cfg) bas p))" by (rule trail_run_tighter)
next
  assume A: "is_long p \<and> sc_type cfg = TRAILING_PCT \<and> sc_value cfg = Some pct \<and> 0 < pct \<and> pct \<le> 1 \<and> bas \<noteq> []"
  have "bas \<noteq> [] \<Longrightarrow> p_high_water (fold (trail_step cfg) bas p) = Some (best_high (trailing_from p) bas)
        \<and> p_stop_loss (fold (trail_step cfg) bas p)
            = ratchet (p_stop_loss p) (pct_level (best_high (trailing_from p) bas) (- 1) pct)"
  proof (induction bas rule: rev_induct)
    case (snoc ba bas)
    define q where "q = fold (trail_step cfg) bas p"
    have long: "is_long q" using A is_long_qty [OF trail_run_frame [of cfg bas p]] by (simp add: q_def)
    note step = trail_step_long [OF long, of cfg pct ba]
    show ?case
    proof (cases "bas = []")
      case True
      then show ?thesis using step A by (simp add: q_def best_high_def)
    next
      case False
      with snoc have IH: "p_high_water q = Some (best_high (trailing_from p) bas)"
        "p_stop_loss q = ratchet (p_stop_loss p) (pct_level (best_high (trailing_from p) bas) (- 1) pct)"
        by (simp_all add: q_def)
      have best: "best_high (trailing_from p) (bas @ [ba]) = max (b_high (fst ba)) (best_high (trailing_from p) bas)"
        by (simp add: best_high_def)
      have start: "trailing_from q = best_high (trailing_from p) bas" by (simp add: trailing_from_def IH(1))
      show ?thesis
        using step A by (simp add: best start IH(2) ratchet_ratchet pct_level_mono flip: q_def)
    qed
  qed simp
  with A show "p_high_water (fold (trail_step cfg) bas p) = Some (best_high (trailing_from p) bas)"
    "p_stop_loss (fold (trail_step cfg) bas p)
            = ratchet (p_stop_loss p) (pct_level (best_high (trailing_from p) bas) (- 1) pct)" by blast+
qed

theorem trailing_stop_ratchets_witness:
  "p_stop_loss (fold (trail_step ((stop_config_of TRAILING_PCT)\<lparr>sc_value := Some (1/10)\<rparr>))
      [(sample_bar, None), (sample_bar\<lparr>b_high := 400\<rparr>, None)]
      ((new_position ''AAPL'')\<lparr>p_qty := 10, p_avg_entry := 400\<rparr>)) = Some 396"
  using trailing_stop_ratchets [of "(new_position ''AAPL'')\<lparr>p_qty := 10, p_avg_entry := 400\<rparr>"
      "(stop_config_of TRAILING_PCT)\<lparr>sc_value := Some (1/10)\<rparr>"
      "[(sample_bar, None), (sample_bar\<lparr>b_high := 400\<rparr>, None)]" "1/10"]
  by (simp add: is_long_def stop_config_of_def new_position_def best_high_def trailing_from_def sample_bar_def
      ratchet_def pct_level_def dec_ops)

end
