(* ===== verification/Costs.thy ===== *)
theory Costs
  imports Orders Market
begin

text \<open>
  \<open>backtest/costs.py\<close>: what a fill costs. Prices move against the order by \<open>slippage\<close> and every fill
  pays a \<open>commission\<close>. The contract the simulators rely on is the locale \<open>cost_contract\<close>: a cost is
  never a rebate.

  \<open>Decimal.sqrt\<close> is the square root rounded to 28 digits, ties to even.
\<close>

fun isqrt :: "nat \<Rightarrow> nat" where
  "isqrt n = (if n = 0 then 0
     else let r = 2 * isqrt (n div 4) in if (r + 1) * (r + 1) \<le> n then r + 1 else r)"

declare isqrt.simps [simp del]

definition dsqrt :: "dec \<Rightarrow> dec_error + dec" where
  "dsqrt x =
     (if x < 0 then Inl InvalidOperation
      else if x = 0 then Inr 0
      else
        let k = 27 - dexp x div 2;
            y = x * 10 powi (2 * k);
            n = int (isqrt (nat \<lfloor>y\<rfloor>));
            half = (of_int n + 1/2) * (of_int n + 1/2);
            m = (if y < half then n else if half < y then n + 1 else if even n then n else n + 1)
        in Inr (of_int m * 10 powi (- k)))"

record per_share_params =
  ps_per_share :: dec
  ps_minimum :: dec
  ps_sec_fee_rate :: dec
  ps_taf_per_share :: dec
  ps_taf_cap :: dec

record spread_params =
  sp_half_spread_bps :: dec
  sp_impact :: dec

datatype cost_model =
  ZeroCostModel
| PerShareCostModel per_share_params
| SpreadSlippageModel spread_params
| CompositeCostModel cost_model cost_model

definition broker_total :: "per_share_params \<Rightarrow> dec \<Rightarrow> dec" where
  "broker_total c qty = (if qty \<le> 0 then 0 else max (dmul (ps_per_share c) qty) (ps_minimum c))"

definition taf_total :: "per_share_params \<Rightarrow> dec \<Rightarrow> dec" where
  "taf_total c qty = (if qty \<le> 0 then 0 else min (dmul (ps_taf_per_share c) qty) (ps_taf_cap c))"

definition per_share_commission :: "per_share_params \<Rightarrow> order \<Rightarrow> dec \<Rightarrow> dec \<Rightarrow> exn + dec" where
  "per_share_commission c o1 price qty =
     (if qty \<le> 0 then Inr 0
      else
        let filled = o_filled o1;
            broker = dsub (broker_total c (dadd filled qty)) (broker_total c filled)
        in bind_r (if o_side o1 = SELL
                   then bind_r (lift_dec (quantize ROUND_UP 2 (dmul (ps_sec_fee_rate c) (dmul price qty)))) (\<lambda>sec.
                          Inr (dadd (dadd 0 sec) (dsub (taf_total c (dadd filled qty)) (taf_total c filled))))
                   else Inr 0)
             (\<lambda>fees. lift_dec (quantize ROUND_HALF_UP 2 (dadd broker fees))))"

definition spread_slippage :: "spread_params \<Rightarrow> order \<Rightarrow> bar \<Rightarrow> dec \<Rightarrow> exn + dec" where
  "spread_slippage c o1 b price =
     (let base = ddiv (sp_half_spread_bps c) 10000 in
      bind_r (if 0 < b_volume b
              then bind_r (lift_dec (dsqrt (ddiv (remaining_qty o1) (b_volume b)))) (\<lambda>root.
                     Inr (dadd base (dmul (sp_impact c) root)))
              else Inr base)
        (\<lambda>fraction. Inr (dmul (dmul price fraction) (if o_side o1 = BUY then 1 else - 1))))"

fun commission :: "cost_model \<Rightarrow> order \<Rightarrow> dec \<Rightarrow> dec \<Rightarrow> exn + dec" where
  "commission ZeroCostModel o1 price qty = Inr 0"
| "commission (PerShareCostModel c) o1 price qty = per_share_commission c o1 price qty"
| "commission (SpreadSlippageModel c) o1 price qty = Inr 0"
| "commission (CompositeCostModel a b) o1 price qty = commission a o1 price qty"

fun slippage :: "cost_model \<Rightarrow> order \<Rightarrow> bar \<Rightarrow> dec \<Rightarrow> exn + dec" where
  "slippage ZeroCostModel o1 b price = Inr 0"
| "slippage (PerShareCostModel c) o1 b price = Inr 0"
| "slippage (SpreadSlippageModel c) o1 b price = spread_slippage c o1 b price"
| "slippage (CompositeCostModel a c) o1 b price = slippage c o1 b price"

definition per_share_default :: per_share_params where
  "per_share_default = \<lparr>ps_per_share = 5 / 10 ^ 3, ps_minimum = 1, ps_sec_fee_rate = 278 / 10 ^ 7,
     ps_taf_per_share = 166 / 10 ^ 6, ps_taf_cap = 83 / 10\<rparr>"

definition spread_default :: spread_params where
  "spread_default = \<lparr>sp_half_spread_bps = 2, sp_impact = 1 / 10\<rparr>"

definition alpaca_equities_default :: cost_model where
  "alpaca_equities_default = CompositeCostModel
     (PerShareCostModel (per_share_default\<lparr>ps_per_share := 0, ps_minimum := 0\<rparr>)) (SpreadSlippageModel spread_default)"

text \<open>Parameters that describe costs: none is negative.\<close>

fun costs_ok :: "cost_model \<Rightarrow> bool" where
  "costs_ok ZeroCostModel = True"
| "costs_ok (PerShareCostModel c) \<longleftrightarrow> 0 \<le> ps_per_share c \<and> 0 \<le> ps_minimum c \<and> 0 \<le> ps_sec_fee_rate c
     \<and> 0 \<le> ps_taf_per_share c \<and> 0 \<le> ps_taf_cap c"
| "costs_ok (SpreadSlippageModel c) \<longleftrightarrow> 0 \<le> sp_half_spread_bps c \<and> 0 \<le> sp_impact c"
| "costs_ok (CompositeCostModel a b) \<longleftrightarrow> costs_ok a \<and> costs_ok b"

section \<open>The contract\<close>

locale cost_contract =
  fixes comm :: "order \<Rightarrow> dec \<Rightarrow> dec \<Rightarrow> exn + dec"
    and slip :: "order \<Rightarrow> bar \<Rightarrow> dec \<Rightarrow> exn + dec"
  assumes no_rebate: "comm o1 price qty = Inr c \<Longrightarrow> exact28 (o_filled o1) \<Longrightarrow> 0 \<le> price \<Longrightarrow> 0 \<le> c"
    and adverse: "slip o1 b price = Inr s \<Longrightarrow> 0 \<le> price \<Longrightarrow> if o_side o1 = BUY then 0 \<le> s else s \<le> 0"
begin

lemma fill_no_better:
  assumes "slip o1 b price = Inr s" "exact28 price" "0 \<le> price"
  shows "if o_side o1 = BUY then price \<le> dadd price s else dadd price s \<le> price"
  using adverse [OF assms(1,3)] assms(2) by (auto intro: dadd_ge dadd_le)

end

lemma isqrt_square: "isqrt n * isqrt n \<le> n \<and> n < (isqrt n + 1) * (isqrt n + 1)"
proof (induction n rule: isqrt.induct)
  case (1 n)
  show ?case
  proof (cases "n = 0")
    case False
    define m where "m = isqrt (n div 4)"
    have IH: "m * m \<le> n div 4" "n div 4 < (m + 1) * (m + 1)" using 1 False by (simp_all add: m_def)
    then have "n div 4 + 1 \<le> (m + 1) * (m + 1)" by simp
    then have "4 * (n div 4) + 4 \<le> 4 * ((m + 1) * (m + 1))" "4 * (m * m) \<le> 4 * (n div 4)"
      using IH(1) by simp_all
    moreover have "4 * (n div 4) \<le> n" "n < 4 * (n div 4) + 4" by presburger+
    ultimately have b: "(2 * m) * (2 * m) \<le> n" "n < (2 * m + 2) * (2 * m + 2)"
      by (simp_all add: algebra_simps)
    have "isqrt n = (if (2 * m + 1) * (2 * m + 1) \<le> n then 2 * m + 1 else 2 * m)"
      using False by (simp add: isqrt.simps [of n] m_def Let_def)
    with b show ?thesis by (auto simp: not_le)
  qed (simp add: isqrt.simps [of 0])
qed

lemma dsqrt_nonneg: "dsqrt x = Inr y \<Longrightarrow> 0 \<le> y"
  by (auto simp: dsqrt_def Let_def split: if_splits)

lemma quantize_nonneg: "quantize m k x = Inr y \<Longrightarrow> 0 \<le> x \<Longrightarrow> 0 \<le> y"
proof (elim quantize_Inr)
  fix n assume "0 \<le> x" "n = to_integral m (x * 10 ^ k)" "y = of_int n / 10 ^ k"
  moreover have "0 \<le> z \<Longrightarrow> 0 \<le> to_integral m z" for z
    using rhe_mono [of 0 z] rhe_of_int [of 0] by (cases m) auto
  ultimately show "0 \<le> y" by simp
qed

lemma dmul_left_mono: "a \<le> b \<Longrightarrow> 0 \<le> c \<Longrightarrow> dmul c a \<le> dmul c b"
  by (rule dmul_mono) (rule mult_left_mono)

lemma broker_total_mono:
  assumes "costs_ok (PerShareCostModel c)" "a \<le> b"
  shows "broker_total c a \<le> broker_total c b"
  using assms dmul_left_mono [of a b "ps_per_share c"] by (auto simp: broker_total_def max_def)

lemma taf_total_mono:
  assumes "costs_ok (PerShareCostModel c)" "a \<le> b"
  shows "taf_total c a \<le> taf_total c b"
  using assms dmul_left_mono [of a b "ps_taf_per_share c"] by (auto simp: taf_total_def min_def dmul_def)

lemma per_share_nonneg:
  assumes "costs_ok (PerShareCostModel c)" "per_share_commission c o1 price qty = Inr x" "exact28 (o_filled o1)" "0 \<le> price"
  shows "0 \<le> x"
proof (cases "qty \<le> 0")
  case True
  with assms(2) show ?thesis by (simp add: per_share_commission_def)
next
  case False
  then have up: "o_filled o1 \<le> dadd (o_filled o1) qty" using assms(3) by (intro dadd_ge) auto
  have b: "0 \<le> dsub (broker_total c (dadd (o_filled o1) qty)) (broker_total c (o_filled o1))"
    and t: "0 \<le> dsub (taf_total c (dadd (o_filled o1) qty)) (taf_total c (o_filled o1))"
    using broker_total_mono [OF assms(1) up] taf_total_mono [OF assms(1) up] by (simp_all add: dsub_def)
  have s: "0 \<le> dmul (ps_sec_fee_rate c) (dmul price qty)" using assms(1,4) False by (simp add: dmul_def)
  show ?thesis
    using assms(2) False b t s
    by (auto simp: per_share_commission_def Let_def bind_r_eq_Inr lift_dec_Inr dadd_def
        split: if_splits dest!: quantize_nonneg)
qed

lemma costs_contract: "costs_ok m \<Longrightarrow> cost_contract (commission m) (slippage m)"
proof (induction m)
  case (PerShareCostModel c)
  then show ?case by unfold_locales (auto intro: per_share_nonneg)
next
  case (SpreadSlippageModel c)
  show ?case
  proof
    fix o1 b price s
    assume "slippage (SpreadSlippageModel c) o1 b price = Inr s" "0 \<le> price"
    with SpreadSlippageModel show "if o_side o1 = BUY then 0 \<le> s else s \<le> 0"
      by (auto simp: spread_slippage_def Let_def bind_r_eq_Inr lift_dec_Inr dadd_def dmul_def ddiv_def
          split: if_splits dest!: dsqrt_nonneg)
  qed simp
next
  case (CompositeCostModel a b)
  then have "cost_contract (commission a) (slippage a)" "cost_contract (commission b) (slippage b)" by simp_all
  then show ?case unfolding cost_contract_def by simp
qed (unfold_locales, simp_all)

interpretation alpaca: cost_contract "commission alpaca_equities_default" "slippage alpaca_equities_default"
  by (rule costs_contract) (simp add: alpaca_equities_default_def per_share_default_def spread_default_def)

text \<open>
  Costs never pay: with non-negative parameters, however models are composed, a commission is
  never a rebate and the price after slippage is never better for the order than the price before.
\<close>

theorem costs_never_pay:
  assumes "costs_ok m"
  shows "(\<forall>c. commission m o1 price qty = Inr c \<and> exact28 (o_filled o1) \<and> 0 \<le> price \<longrightarrow> 0 \<le> c)
    \<and> (\<forall>s. slippage m o1 b price = Inr s \<and> exact28 price \<and> 0 \<le> price \<longrightarrow>
          (if o_side o1 = BUY then price \<le> dadd price s else dadd price s \<le> price))"
  using cost_contract.no_rebate [OF costs_contract [OF assms]]
    cost_contract.fill_no_better [OF costs_contract [OF assms]] by blast

theorem costs_never_pay_witness:
  "slippage (SpreadSlippageModel spread_default) ((order_defaults ''o'' ''c'' ''AAPL'' BUY 10)) (sample_bar\<lparr>b_volume := 0\<rparr>) 400
     = Inr (8/100) \<and> (400::dec) \<le> dadd 400 (8/100)"
proof -
  let ?o = "order_defaults ''o'' ''c'' ''AAPL'' BUY 10" and ?b = "sample_bar\<lparr>b_volume := 0\<rparr>"
  have s: "slippage (SpreadSlippageModel spread_default) ?o ?b 400 = Inr (8/100)"
    by (simp add: spread_slippage_def spread_default_def order_defaults_def dec_ops Let_def)
  have ok: "costs_ok (SpreadSlippageModel spread_default)" by (simp add: spread_default_def)
  have e: "exact28 (400 :: dec)" "(0::dec) \<le> 400" by (simp_all add: exact28_def)
  have "if o_side ?o = BUY then (400::dec) \<le> dadd 400 (8/100) else dadd 400 (8/100) \<le> (400::dec)"
    by (rule costs_never_pay [OF ok, of ?o 400 1 ?b, THEN conjunct2, rule_format, OF conjI [OF s conjI [OF e]]])
  then have "(400::dec) \<le> dadd 400 (8/100)" by (simp add: order_defaults_def)
  with s show ?thesis by blast
qed

end
