(* ===== verification/Datetimes.thy ===== *)
theory Datetimes
  imports Prelude
begin

text \<open>
  What the program uses of \<open>datetime\<close> and of number formatting. A \<open>date\<close> is its proleptic Gregorian
  ordinal, 1 for 1 January of year 1; an instant is microseconds in UTC since 1970, which is what an
  aware \<open>datetime\<close> denotes. \<open>ord2ymd\<close> is the standard library's own decomposition.
\<close>

type_synonym date = int

fun nat_digits :: "nat \<Rightarrow> string" where
  "nat_digits n = (if n < 10 then [char_of (48 + n)] else nat_digits (n div 10) @ [char_of (48 + n mod 10)])"

declare nat_digits.simps [simp del]

definition int_digits :: "int \<Rightarrow> string" where
  "int_digits n = (if n < 0 then ''-'' else []) @ nat_digits (nat \<bar>n\<bar>)"

text \<open>\<open>%0kd\<close> of a number below \<open>10 ^ k\<close>.\<close>

fun pad_digits :: "nat \<Rightarrow> nat \<Rightarrow> string" where
  "pad_digits 0 n = []"
| "pad_digits (Suc k) n = pad_digits k (n div 10) @ [char_of (48 + n mod 10)]"

definition is_leap :: "int \<Rightarrow> bool" where
  "is_leap y \<longleftrightarrow> y mod 4 = 0 \<and> (y mod 100 \<noteq> 0 \<or> y mod 400 = 0)"

definition month_lengths :: "bool \<Rightarrow> int list" where
  "month_lengths leap = [31, if leap then 29 else 28, 31, 30, 31, 30, 31, 31, 30, 31, 30, 31]"

text \<open>The month, counted from \<open>m\<close>, and the day that the \<open>r\<close>-th day of a year falls on.\<close>

fun month_day :: "int list \<Rightarrow> int \<Rightarrow> int \<Rightarrow> int \<times> int" where
  "month_day [] m r = (m, r + 1)"
| "month_day (l # ls) m r = (if r < l then (m, r + 1) else month_day ls (m + 1) (r - l))"

definition ord2ymd :: "date \<Rightarrow> int \<times> int \<times> int" where
  "ord2ymd d =
     (let n = d - 1;
          n400 = n div 146097; r = n mod 146097;
          n100 = r div 36524; r = r mod 36524;
          n4 = r div 1461; r = r mod 1461;
          n1 = r div 365; r = r mod 365;
          y = n400 * 400 + n100 * 100 + n4 * 4 + n1 + 1
      in if n1 = 4 \<or> n100 = 4 then (y - 1, 12, 31)
         else (y, month_day (month_lengths (n1 = 3 \<and> (n4 \<noteq> 24 \<or> n100 = 3))) 1 r))"

definition ymd2ord :: "int \<times> int \<times> int \<Rightarrow> date" where
  "ymd2ord ymd =
     (let (y, m, d) = ymd; y' = y - 1
      in 365 * y' + y' div 4 - y' div 100 + y' div 400
         + sum_list (take (nat (m - 1)) (month_lengths (is_leap y))) + d)"

text \<open>\<open>date.weekday()\<close>: Monday is 0.\<close>

definition weekday :: "date \<Rightarrow> int" where
  "weekday d = (d + 6) mod 7"

definition DAY_US :: int where "DAY_US = 86400 * 10 ^ 6"
definition EPOCH_ORD :: date where "EPOCH_ORD = 719163"

definition utc_date :: "ts \<Rightarrow> date" where
  "utc_date t = EPOCH_ORD + t div DAY_US"

text \<open>\<open>datetime.isoformat()\<close> of an instant in UTC: the fraction is written only when there is one.\<close>

definition iso_date :: "date \<Rightarrow> string" where
  "iso_date d = (let (y, m, dd) = ord2ymd d
     in pad_digits 4 (nat y) @ ''-'' @ pad_digits 2 (nat m) @ ''-'' @ pad_digits 2 (nat dd))"

definition iso_time :: "int \<Rightarrow> string" where
  "iso_time us =
     (let s = us div 10 ^ 6; f = us mod 10 ^ 6
      in pad_digits 2 (nat (s div 3600)) @ '':'' @ pad_digits 2 (nat (s div 60 mod 60)) @ '':''
         @ pad_digits 2 (nat (s mod 60)) @ (if f = 0 then [] else ''.'' @ pad_digits 6 (nat f)))"

definition isoformat :: "ts \<Rightarrow> string" where
  "isoformat t = iso_date (utc_date t) @ ''T'' @ iso_time (t mod DAY_US) @ ''+00:00''"

text \<open>The instants a \<open>datetime\<close> can hold: years 1 to 9999.\<close>

definition representable :: "ts \<Rightarrow> bool" where
  "representable t \<longleftrightarrow> 1 \<le> utc_date t \<and> utc_date t \<le> 3652059"

lemma char_digit: "char_of (48 + a) = (char_of (48 + b) :: char) \<Longrightarrow> a < 10 \<Longrightarrow> b < 10 \<Longrightarrow> a = b" for a b :: nat
  by (drule arg_cong [where f = "of_char :: char \<Rightarrow> nat"]) simp

lemma nat_digits_inj: "nat_digits m = nat_digits n \<Longrightarrow> m = n"
proof (induction m arbitrary: n rule: nat_digits.induct)
  case (1 m)
  note IH = 1(1) and eq = 1(2)
  have ne: "nat_digits k \<noteq> []" for k by (subst nat_digits.simps) simp
  note unfold = nat_digits.simps [of m] nat_digits.simps [of n]
  consider "m < 10" "n < 10" | "m < 10" "\<not> n < 10" | "\<not> m < 10" "n < 10" | "\<not> m < 10" "\<not> n < 10" by blast
  then show ?case
  proof cases
    case 1
    with eq have "char_of (48 + m) = (char_of (48 + n) :: char)" by (simp add: unfold)
    then show ?thesis using 1 by (rule char_digit)
  next
    case 4
    with eq have "nat_digits (m div 10) = nat_digits (n div 10)"
      and last: "char_of (48 + m mod 10) = (char_of (48 + n mod 10) :: char)"
      by (simp_all add: unfold)
    with IH 4 have "m div 10 = n div 10" by blast
    moreover have "m mod 10 = n mod 10" by (rule char_digit [OF last]) simp_all
    ultimately show ?thesis by (metis div_mult_mod_eq)
  qed (use eq ne ne [THEN not_sym] in \<open>simp_all add: unfold\<close>)
qed

lemma pad_digits_length [simp]: "length (pad_digits k n) = k"
  by (induction k arbitrary: n) simp_all

lemma pad_digits_inj: "pad_digits k m = pad_digits k n \<Longrightarrow> m < 10 ^ k \<Longrightarrow> n < 10 ^ k \<Longrightarrow> m = n"
proof (induction k arbitrary: m n)
  case (Suc k)
  from Suc.prems have "m div 10 = n div 10"
    by (intro Suc.IH) (auto simp: less_mult_imp_div_less)
  moreover have "m mod 10 = n mod 10" using Suc.prems(1) by (intro char_digit) simp_all
  ultimately show ?case by (metis div_mult_mod_eq)
qed simp

lemma pad_int_inj:
  "pad_digits k (nat x) = pad_digits k (nat y) \<Longrightarrow> 0 \<le> x \<Longrightarrow> x < 10 ^ k \<Longrightarrow> 0 \<le> y \<Longrightarrow> y < 10 ^ k \<Longrightarrow> x = y"
  by (drule pad_digits_inj) (simp_all add: nat_less_iff eq_nat_nat_iff)

lemma month_day_bounds:
  "0 \<le> r \<Longrightarrow> r < sum_list ls \<Longrightarrow> (\<forall>l \<in> set ls. l \<le> 31) \<Longrightarrow> month_day ls m r = (m', d)
     \<Longrightarrow> m \<le> m' \<and> m' < m + int (length ls) \<and> 1 \<le> d \<and> d \<le> 31
        \<and> r + 1 = sum_list (take (nat (m' - m)) ls) + d"
proof (induction ls arbitrary: m r)
  case (Cons l ls)
  show ?case
  proof (cases "r < l")
    case False
    with Cons.prems have "month_day ls (m + 1) (r - l) = (m', d)" by simp
    with Cons.IH [of "r - l" "m + 1"] Cons.prems False
    have h: "m + 1 \<le> m'" "m' < m + 1 + int (length ls)" "1 \<le> d" "d \<le> 31"
      "r - l + 1 = sum_list (take (nat (m' - (m + 1))) ls) + d" by auto
    from h(1) have "nat (m' - m) = Suc (nat (m' - (m + 1)))" by simp
    with h show ?thesis by simp
  qed (use Cons.prems in auto)
qed simp

lemma sum_month_lengths: "sum_list (month_lengths leap) = (if leap then 366 else 365)"
  by (simp add: month_lengths_def)

lemma ord2ymd_parts:
  assumes "ord2ymd d = (y, m, dd)"
  obtains a b c e r1 r2 r3 r4 where
    "d - 1 = 146097 * a + r1" "r1 = 36524 * b + r2" "r2 = 1461 * c + r3" "r3 = 365 * e + r4"
    "0 \<le> r1" "r1 < 146097" "0 \<le> r2" "r2 < 36524" "0 \<le> r3" "r3 < 1461" "0 \<le> r4" "r4 < 365"
    "0 \<le> b" "b \<le> 4" "0 \<le> c" "c \<le> 24" "0 \<le> e" "e \<le> 4"
    "(y, m, dd) = (if e = 4 \<or> b = 4 then (a * 400 + b * 100 + c * 4 + e + 1 - 1, 12, 31)
      else (a * 400 + b * 100 + c * 4 + e + 1, month_day (month_lengths (e = 3 \<and> (c \<noteq> 24 \<or> b = 3))) 1 r4))"
proof -
  define a r1 where "a = (d - 1) div 146097" and "r1 = (d - 1) mod 146097"
  define b r2 where "b = r1 div 36524" and "r2 = r1 mod 36524"
  define c r3 where "c = r2 div 1461" and "r3 = r2 mod 1461"
  define e r4 where "e = r3 div 365" and "r4 = r3 mod 365"
  note defs = a_def r1_def b_def r2_def c_def r3_def e_def r4_def
  have eq: "d - 1 = 146097 * a + r1" "r1 = 36524 * b + r2" "r2 = 1461 * c + r3" "r3 = 365 * e + r4"
    by (simp_all add: defs)
  have lo: "0 \<le> r1" "r1 < 146097" "0 \<le> r2" "r2 < 36524" "0 \<le> r3" "r3 < 1461" "0 \<le> r4" "r4 < 365"
    by (simp_all add: defs)
  have rng: "0 \<le> b" "b \<le> 4" "0 \<le> c" "c \<le> 24" "0 \<le> e" "e \<le> 4"
    using eq lo by linarith+
  have res: "(y, m, dd) = (if e = 4 \<or> b = 4 then (a * 400 + b * 100 + c * 4 + e + 1 - 1, 12, 31)
      else (a * 400 + b * 100 + c * 4 + e + 1, month_day (month_lengths (e = 3 \<and> (c \<noteq> 24 \<or> b = 3))) 1 r4))"
    using assms by (simp only: ord2ymd_def Let_def a_def b_def c_def e_def r1_def r2_def r3_def r4_def)
  show thesis by (rule that [OF eq lo rng res])
qed

text \<open>The month and day of a date are in range, and with the year they determine it.\<close>

lemma ord2ymd_inverse:
  assumes ymd: "ord2ymd d = (y, m, dd)"
  shows "1 \<le> m" "m \<le> 12" "1 \<le> dd" "dd \<le> 31" "ymd2ord (y, m, dd) = d"
proof -
  obtain a b c e r1 r2 r3 r4 where
    eq: "d - 1 = 146097 * a + r1" "r1 = 36524 * b + r2" "r2 = 1461 * c + r3" "r3 = 365 * e + r4"
    and lo: "0 \<le> r1" "r1 < 146097" "0 \<le> r2" "r2 < 36524" "0 \<le> r3" "r3 < 1461" "0 \<le> r4" "r4 < 365"
    and rng: "0 \<le> b" "b \<le> 4" "0 \<le> c" "c \<le> 24" "0 \<le> e" "e \<le> 4"
    and res: "(y, m, dd) = (if e = 4 \<or> b = 4 then (a * 400 + b * 100 + c * 4 + e + 1 - 1, 12, 31)
      else (a * 400 + b * 100 + c * 4 + e + 1, month_day (month_lengths (e = 3 \<and> (c \<noteq> 24 \<or> b = 3))) 1 r4))"
    by (rule ord2ymd_parts [OF ymd])
  have b4: "b = 4 \<Longrightarrow> r2 = 0 \<and> c = 0 \<and> e = 0 \<and> r4 = 0" using eq lo rng by auto
  have e4: "e = 4 \<Longrightarrow> r4 = 0 \<and> b \<noteq> 4 \<and> c \<noteq> 24" using eq lo rng b4 by auto
  have divs: "(400 * a + 100 * b + 4 * c + x) div 4 = 100 * a + 25 * b + c"
      "(400 * a + 100 * b + 4 * c + x) div 100 = 4 * a + b"
      "(400 * a + 100 * b + 4 * c + x) div 400 = a"
    if "b < 4" "0 \<le> x" "x < 4" "4 * c + x < 100" for x
  proof -
    show "(400 * a + 100 * b + 4 * c + x) div 4 = 100 * a + 25 * b + c"
      by (rule int_div_pos_eq [where r = x]) (use that rng in simp_all)
    show "(400 * a + 100 * b + 4 * c + x) div 100 = 4 * a + b"
      by (rule int_div_pos_eq [where r = "4 * c + x"]) (use that rng in simp_all)
    show "(400 * a + 100 * b + 4 * c + x) div 400 = a"
      by (rule int_div_pos_eq [where r = "100 * b + 4 * c + x"]) (use that rng in simp_all)
  qed
  have goal: "1 \<le> m \<and> m \<le> 12 \<and> 1 \<le> dd \<and> dd \<le> 31 \<and> ymd2ord (y, m, dd) = d"
  proof (cases "e = 4 \<or> b = 4")
    case True
    with res have y: "y = a * 400 + b * 100 + c * 4 + e" and md: "m = 12" "dd = 31" by auto
    have leap: "is_leap y"
    proof (cases "b = 4")
      case True
      then have "y = 400 * (a + 1)" using b4 y by simp
      then show ?thesis by (simp add: is_leap_def)
    next
      case False
      with True e4 rng have e: "e = 4" "c < 24" by auto
      have "y = 4 * (100 * a + 25 * b + c + 1)" and r: "y = 4 * (c + 1) + (4 * a + b) * 100"
        using e y by auto
      moreover have "y mod 100 = 4 * (c + 1)"
        unfolding r mod_mult_self1 using e rng by simp
      ultimately show ?thesis using rng by (simp add: is_leap_def)
    qed
    have "ymd2ord (y, m, dd) = 365 * (y - 1) + (y - 1) div 4 - (y - 1) div 100 + (y - 1) div 400 + 366"
      by (simp add: ymd2ord_def month_lengths_def leap md Let_def)
    also have "\<dots> = d"
    proof (cases "b = 4")
      case True
      have "(400 * a + 399) div 4 = 100 * a + 99" "(400 * a + 399) div 100 = 4 * a + 3" "(400 * a + 399) div 400 = a"
        by simp_all
      with True b4 y eq show ?thesis by simp
    next
      case False
      with True e4 rng have e: "e = 4" "b < 4" "c < 24" by auto
      have "y - 1 = 400 * a + 100 * b + 4 * c + 3" using y e by simp
      then show ?thesis using e eq e4 divs [of 3] rng by (simp add: algebra_simps)
    qed
    finally show ?thesis by (simp add: md)
  next
    case False
    let ?leap = "e = 3 \<and> (c \<noteq> 24 \<or> b = 3)"
    from False res have y: "y = a * 400 + b * 100 + c * 4 + e + 1"
      and md: "month_day (month_lengths ?leap) 1 r4 = (m, dd)" by auto
    have small: "b < 4" "e < 4" using False rng by auto
    have r4: "y = (e + 1) + (100 * a + 25 * b + c) * 4" and r100: "y = (4 * c + e + 1) + (4 * a + b) * 100"
      and r400: "y = (100 * b + 4 * c + e + 1) + a * 400" using y by simp_all
    have m4: "y mod 4 = 0 \<longleftrightarrow> e = 3"
    proof -
      have "y mod 4 = (e + 1) mod 4" unfolding r4 by (rule mod_mult_self1)
      moreover from small rng have "e = 0 \<or> e = 1 \<or> e = 2 \<or> e = 3" by linarith
      ultimately show ?thesis by auto
    qed
    have m100: "y mod 100 = 0 \<longleftrightarrow> c = 24" if "e = 3"
    proof -
      have "y mod 100 = (4 * (c + 1)) mod 100" using that unfolding r100 mod_mult_self1 by (simp add: algebra_simps)
      then show ?thesis using rng by (cases "c = 24") simp_all
    qed
    have m400: "y mod 400 = 0 \<longleftrightarrow> b = 3" if "e = 3" "c = 24"
    proof -
      have "y mod 400 = (100 * (b + 1)) mod 400" using that unfolding r400 mod_mult_self1 by (simp add: algebra_simps)
      then show ?thesis using rng small by (cases "b = 3") simp_all
    qed
    have leap: "is_leap y = ?leap"
      using m4 m100 m400 by (auto simp: is_leap_def)
    have "r4 < sum_list (month_lengths ?leap)" using lo by (simp add: sum_month_lengths)
    from month_day_bounds [OF lo(7) this _ md]
    have h: "1 \<le> m" "m < 13" "1 \<le> dd" "dd \<le> 31" "r4 + 1 = sum_list (take (nat (m - 1)) (month_lengths ?leap)) + dd"
      by (simp_all add: month_lengths_def)
    have "ymd2ord (y, m, dd) = d"
      using h(5) divs [of e] small rng eq
      by (simp add: ymd2ord_def leap Let_def) (simp add: y algebra_simps)
    with h show ?thesis by simp
  qed
  then show "1 \<le> m" "m \<le> 12" "1 \<le> dd" "dd \<le> 31" "ymd2ord (y, m, dd) = d" by blast+
qed

lemma ord2ymd_year:
  assumes "1 \<le> d" "d \<le> 3652059" and ymd: "ord2ymd d = (y, m, dd)"
  shows "1 \<le> y" "y < 10000"
proof -
  obtain a b c e r1 r2 r3 r4 where
    eq: "d - 1 = 146097 * a + r1" "r1 = 36524 * b + r2" "r2 = 1461 * c + r3" "r3 = 365 * e + r4"
    and lo: "0 \<le> r1" "r1 < 146097" "0 \<le> r2" "r2 < 36524" "0 \<le> r3" "r3 < 1461" "0 \<le> r4" "r4 < 365"
    and rng: "0 \<le> b" "b \<le> 4" "0 \<le> c" "c \<le> 24" "0 \<le> e" "e \<le> 4"
    and res: "(y, m, dd) = (if e = 4 \<or> b = 4 then (a * 400 + b * 100 + c * 4 + e + 1 - 1, 12, 31)
      else (a * 400 + b * 100 + c * 4 + e + 1, month_day (month_lengths (e = 3 \<and> (c \<noteq> 24 \<or> b = 3))) 1 r4))"
    by (rule ord2ymd_parts [OF ymd])
  have y: "y = a * 400 + b * 100 + c * 4 + e + (if e = 4 \<or> b = 4 then 0 else 1)"
    using res by (auto split: if_splits)
  have "0 \<le> a" "a \<le> 24" using assms(1,2) eq(1) lo(1,2) by linarith+
  then show "1 \<le> y" using y rng by (auto split: if_splits)
  have "y \<le> a * 400 + b * 100 + c * 4 + e + 1" using y by (auto split: if_splits)
  moreover have "a = 24 \<Longrightarrow> b * 100 + c * 4 + e \<le> 398"
  proof -
    assume a: "a = 24"
    have r1: "r1 \<le> 145730" using a assms(2) eq(1) by linarith
    have "b \<le> 3" using r1 eq lo by linarith
    moreover have "b = 3 \<Longrightarrow> r2 \<le> 36158" using r1 eq lo by linarith
    moreover have "r2 \<le> 36158 \<Longrightarrow> c = 24 \<Longrightarrow> e \<le> 2" using eq lo by linarith
    ultimately show ?thesis using rng by (cases "b = 3"; cases "c = 24") linarith+
  qed
  ultimately show "y < 10000" using \<open>a \<le> 24\<close> rng by (cases "a = 24") linarith+
qed

lemma iso_date_inj:
  assumes "1 \<le> d" "d \<le> 3652059" "1 \<le> d'" "d' \<le> 3652059" and eq: "iso_date d = iso_date d'"
  shows "d = d'"
proof -
  obtain y m dd where a: "ord2ymd d = (y, m, dd)" by (cases "ord2ymd d") auto
  obtain y' m' dd' where b: "ord2ymd d' = (y', m', dd')" by (cases "ord2ymd d'") auto
  note bounds = ord2ymd_inverse [OF a] ord2ymd_inverse [OF b]
    ord2ymd_year [OF assms(1,2) a] ord2ymd_year [OF assms(3,4) b]
  from eq have "pad_digits 4 (nat y) = pad_digits 4 (nat y')" "pad_digits 2 (nat m) = pad_digits 2 (nat m')"
    "pad_digits 2 (nat dd) = pad_digits 2 (nat dd')"
    by (simp_all add: iso_date_def a b)
  then have "y = y'" "m = m'" "dd = dd'"
    using bounds by (auto dest!: pad_int_inj)
  with bounds show ?thesis by metis
qed

lemma iso_date_length [simp]: "length (iso_date d) = 10"
  by (simp add: iso_date_def split: prod.split)

lemma iso_time_inj:
  assumes "0 \<le> t" "t < DAY_US" "0 \<le> t'" "t' < DAY_US" and eq: "iso_time t @ z = iso_time t' @ z"
  shows "t = t'"
proof -
  define s f s' f' where d: "s = t div 10 ^ 6" "f = t mod 10 ^ 6" "s' = t' div 10 ^ 6" "f' = t' mod 10 ^ 6"
  have b: "0 \<le> s" "s < 86400" "0 \<le> s'" "s' < 86400" "0 \<le> f" "f < 10 ^ 6" "0 \<le> f'" "f' < 10 ^ 6"
    using assms(1-4) by (auto simp: d DAY_US_def)
  let ?H = "\<lambda>x. nat (x div 3600)" and ?M = "\<lambda>x. nat (x div 60 mod 60)" and ?S = "\<lambda>x. nat (x mod 60)"
  from eq have eq: "iso_time t = iso_time t'" by simp
  then have p: "pad_digits 2 (?H s) = pad_digits 2 (?H s')" "pad_digits 2 (?M s) = pad_digits 2 (?M s')"
    "pad_digits 2 (?S s) = pad_digits 2 (?S s')"
    and fr: "(if f = 0 then [] else ''.'' @ pad_digits 6 (nat f)) = (if f' = 0 then [] else ''.'' @ pad_digits 6 (nat f'))"
    unfolding iso_time_def Let_def d by auto
  have h: "s div 3600 = s' div 3600" "s div 60 mod 60 = s' div 60 mod 60" "s mod 60 = s' mod 60"
  proof -
    have "x div 3600 < 100 \<and> 0 \<le> x div 3600" if "0 \<le> x" "x < 86400" for x :: int
      using that by linarith
    with b show "s div 3600 = s' div 3600" by (intro pad_int_inj [OF p(1)]) auto
    have "x mod 60 < 100 \<and> 0 \<le> x mod 60" for x :: int
      using pos_mod_bound [of 60 x] pos_mod_sign [of 60 x] by linarith
    then show "s div 60 mod 60 = s' div 60 mod 60" "s mod 60 = s' mod 60"
      by (auto intro!: pad_int_inj [OF p(2)] pad_int_inj [OF p(3)])
  qed
  have split: "x = 3600 * (x div 3600) + 60 * (x div 60 mod 60) + x mod 60" for x :: int
  proof -
    have "x div 3600 = x div 60 div 60" by (simp flip: zdiv_zmult2_eq)
    then show ?thesis using mult_div_mod_eq [of 60 x] mult_div_mod_eq [of 60 "x div 60"] by linarith
  qed
  have "s = s'" using split [of s] split [of s'] unfolding h by (rule trans [OF _ sym])
  moreover have "f = f'"
    using fr b pad_int_inj [of 6 f f'] by (auto split: if_splits)
  ultimately show ?thesis by (metis d mult_div_mod_eq)
qed

lemma isoformat_inj:
  assumes "representable t" "representable t'" and eq: "isoformat t = isoformat t'"
  shows "t = t'"
proof -
  from eq have "iso_date (utc_date t) = iso_date (utc_date t')"
    and time: "iso_time (t mod DAY_US) @ ''+00:00'' = iso_time (t' mod DAY_US) @ ''+00:00''"
    by (simp_all add: isoformat_def)
  then have "utc_date t = utc_date t'"
    using assms(1,2) by (auto simp: representable_def intro: iso_date_inj)
  then have "t div DAY_US = t' div DAY_US" by (simp add: utc_date_def)
  moreover have "t mod DAY_US = t' mod DAY_US"
    by (rule iso_time_inj [OF _ _ _ _ time]) (simp_all add: DAY_US_def)
  ultimately show ?thesis by (metis mult_div_mod_eq)
qed

end
