(* ===== verification/SimBroker.thy ===== *)
theory SimBroker
  imports Positions Matching Costs Datetimes
begin

text \<open>
  \<open>brokers/simulated.py\<close>: a venue for replays and paper runs. It holds its own record of each order,
  under an id it draws, and its own positions and cash. Operations return the result beside the
  state, because a fill that raises half way leaves what it did. An order object is shared between
  the open book and the loop that fills it; here it is written back under its key.

  The clock is an argument, as are the two identifiers a new \<open>Order\<close> draws. \<open>on_quote\<close> compares
  float timestamps; the comparison here is on the exact instants.
\<close>

definition sim_id :: "nat \<Rightarrow> string" where
  "sim_id n = ''sim-'' @ nat_digits n"

record sim_broker =
  sb_cash :: dec
  sb_positions :: "position dict"
  sb_open :: "order dict"
  sb_filled :: "order list"
  sb_latency_ms :: int
  sb_participation :: dec
  sb_require_through :: bool
  sb_by_client :: "string dict"
  sb_next_id :: nat
  sb_costs :: cost_model

definition new_sim_broker :: "cost_model \<Rightarrow> dec \<Rightarrow> sim_broker" where
  "new_sim_broker costs cash =
     \<lparr>sb_cash = cash, sb_positions = [], sb_open = [], sb_filled = [], sb_latency_ms = 50,
      sb_participation = 1/10, sb_require_through = False, sb_by_client = [], sb_next_id = 0, sb_costs = costs\<rparr>"

definition account_equity :: "sim_broker \<Rightarrow> dec" where
  "account_equity sb = dadd (sb_cash sb) (dsum (map market_value (dict_values (sb_positions sb))))"

definition find_order :: "string \<Rightarrow> sim_broker \<Rightarrow> order option" where
  "find_order bid sb =
     (case dict_get (sb_open sb) bid of Some o1 \<Rightarrow> Some o1
      | None \<Rightarrow> find (\<lambda>o1. o_broker_id o1 = Some bid) (sb_filled sb))"

definition submit_order :: "ts \<Rightarrow> order \<Rightarrow> sim_broker \<Rightarrow> (exn + order) \<times> sim_broker" where
  "submit_order now o1 sb =
     (case dict_get (sb_by_client sb) (o_client_id o1) of
        Some known \<Rightarrow>
          (case find_order known sb of
             None \<Rightarrow> (Inl (RuntimeError (Reason ''StopIteration'' [] [])), sb)
           | Some held \<Rightarrow> (Inr held, sb))
      | None \<Rightarrow>
          let sb1 = sb\<lparr>sb_next_id := sb_next_id sb + 1\<rparr>;
              bid = sim_id (sb_next_id sb1)
          in case new_order (o1\<lparr>o_broker_id := Some bid, o_status := SUBMITTED, o_submitted_at := Some now, o_fills := []\<rparr>) of
               Inl e \<Rightarrow> (Inl e, sb1)
             | Inr accepted \<Rightarrow>
                 (Inr accepted, sb1\<lparr>sb_open := dict_set bid accepted (sb_open sb1),
                                    sb_by_client := dict_set (o_client_id o1) bid (sb_by_client sb1)\<rparr>))"

definition cancel_order :: "string \<Rightarrow> sim_broker \<Rightarrow> sim_broker" where
  "cancel_order bid sb =
     (case dict_get (sb_open sb) bid of None \<Rightarrow> sb
      | Some o1 \<Rightarrow> sb\<lparr>sb_open := dict_pop bid (sb_open sb), sb_filled := sb_filled sb @ [o1\<lparr>o_status := CANCELLED\<rparr>]\<rparr>)"

definition get_order :: "string \<Rightarrow> sim_broker \<Rightarrow> order option" where
  "get_order bid sb = find_order bid sb"

definition get_open_orders :: "sim_broker \<Rightarrow> order list" where
  "get_open_orders sb = dict_values (sb_open sb)"

definition get_positions :: "sim_broker \<Rightarrow> position list" where
  "get_positions sb = filter (\<lambda>p. \<not> is_flat p) (dict_values (sb_positions sb))"

definition close_position :: "ts \<Rightarrow> string \<times> string \<Rightarrow> string \<Rightarrow> sim_broker \<Rightarrow> (exn + order) \<times> sim_broker" where
  "close_position now ids sm sb =
     (case dict_get (sb_positions sb) sm of
        None \<Rightarrow> (Inl (BrokerError (Reason ''no open position to close'' [sm] [])), sb)
      | Some p \<Rightarrow>
          if is_flat p then (Inl (BrokerError (Reason ''no open position to close'' [sm] [])), sb)
          else case new_order ((order_defaults (fst ids) (snd ids) sm (if is_long p then SELL else BUY) (dabs (p_qty p)))
                       \<lparr>o_created_at := Some now\<rparr>) of
                 Inl e \<Rightarrow> (Inl e, sb)
               | Inr o1 \<Rightarrow> submit_order now o1 sb)"

fun close_all :: "ts \<Rightarrow> (string \<times> string) list \<Rightarrow> string list \<Rightarrow> sim_broker \<Rightarrow> (exn + order list) \<times> sim_broker" where
  "close_all now (i # ids) (sm # sms) sb =
     (case close_position now i sm sb of
        (Inl e, sb1) \<Rightarrow> (Inl e, sb1)
      | (Inr o1, sb1) \<Rightarrow>
          (case close_all now ids sms sb1 of (Inl e, sb2) \<Rightarrow> (Inl e, sb2) | (Inr os, sb2) \<Rightarrow> (Inr (o1 # os), sb2)))"
| "close_all now ids sms sb = (Inr [], sb)"

definition close_all_positions :: "ts \<Rightarrow> (string \<times> string) list \<Rightarrow> sim_broker \<Rightarrow> (exn + order list) \<times> sim_broker" where
  "close_all_positions now ids sb = close_all now ids (map p_symbol (get_positions sb)) sb"

definition may_fill_on :: "order \<Rightarrow> bar \<Rightarrow> bool" where
  "may_fill_on o1 b = (case o_submitted_at o1 of None \<Rightarrow> False | Some t \<Rightarrow> t \<le> b_ts b)"

definition stop_first :: "(string \<times> order) list \<Rightarrow> (string \<times> order) list" where
  "stop_first os = filter (\<lambda>k. o_type (snd k) = STOP) os @ filter (\<lambda>k. o_type (snd k) \<noteq> STOP) os"

text \<open>\<open>_book\<close>: one fill, into the order, the position and the cash.\<close>

definition book_fill :: "string \<Rightarrow> order \<Rightarrow> dec \<Rightarrow> dec \<Rightarrow> ts \<Rightarrow> sim_broker \<Rightarrow> (exn + order) \<times> sim_broker" where
  "book_fill bid o1 qty price tm sb =
     (case commission (sb_costs sb) o1 price qty of
        Inl e \<Rightarrow> (Inl e, sb)
      | Inr fee \<Rightarrow>
          let f = \<lparr>f_order_id = o_id o1, f_ts = tm, f_qty = qty, f_price = price, f_fee = fee, f_venue_id = None\<rparr>
          in case order_apply_fill f o1 of
               Inl e \<Rightarrow> (Inl e, sb)
             | Inr o2 \<Rightarrow>
                 let sm = o_symbol o1; sign = side_sign (o_side o1);
                     p = dict_get_or (sb_positions sb) sm (new_position sm);
                     sb1 = sb\<lparr>sb_open := dict_set bid o2 (sb_open sb),
                              sb_positions := dict_setdefault sm (new_position sm) (sb_positions sb)\<rparr>
                 in case position_apply_fill f (dmul qty sign) p of
                      Inl e \<Rightarrow> (Inl e, sb1)
                    | Inr (_, p2) \<Rightarrow>
                        (Inr o2, sb1\<lparr>sb_positions := dict_set sm p2 (sb_positions sb1),
                                     sb_cash := dsub (sb_cash sb) (dadd (dmul (dmul qty price) sign) fee)\<rparr>))"

definition retire :: "string \<Rightarrow> order \<Rightarrow> order_status \<Rightarrow> sim_broker \<Rightarrow> sim_broker" where
  "retire bid o1 st sb =
     sb\<lparr>sb_open := dict_pop bid (sb_open sb),
        sb_filled := sb_filled sb @ [if st \<noteq> FILLED then o1\<lparr>o_status := st\<rparr> else o1]\<rparr>"

text \<open>One candidate of \<open>on_bar\<close>: the order that filled, if it did.\<close>

definition bar_order :: "bar \<Rightarrow> string \<Rightarrow> order \<Rightarrow> sim_broker \<Rightarrow> (exn + order option) \<times> sim_broker" where
  "bar_order b bid o1 sb =
     (case intended_price o1 b (sb_require_through sb) of
        Inl e \<Rightarrow> (Inl e, sb)
      | Inr None \<Rightarrow> (Inr None, if o_tif o1 = DAY then retire bid o1 EXPIRED sb else sb)
      | Inr (Some price) \<Rightarrow>
          (case slippage (sb_costs sb) o1 b price of
             Inl e \<Rightarrow> (Inl e, sb)
           | Inr slip \<Rightarrow>
               let fill_price = dadd price slip in
               if fill_price \<le> 0 then (Inl (BrokerError (Reason ''non-positive fill price'' [] [fill_price])), sb)
               else
                 let qty = min (remaining_qty o1) (dmul (sb_participation sb) (b_volume b)) in
                 if qty \<le> 0 then (Inr None, sb)
                 else case book_fill bid o1 qty fill_price (b_ts b) sb of
                        (Inl e, sb1) \<Rightarrow> (Inl e, sb1)
                      | (Inr o2, sb1) \<Rightarrow>
                          (Inr (Some o2),
                           if 0 < remaining_qty o2 \<and> o_tif o2 = DAY then retire bid o2 EXPIRED sb1
                           else if remaining_qty o2 = 0 then retire bid o2 FILLED sb1 else sb1)))"

fun bar_orders :: "bar \<Rightarrow> (string \<times> order) list \<Rightarrow> sim_broker \<Rightarrow> (exn + order list) \<times> sim_broker" where
  "bar_orders b [] sb = (Inr [], sb)"
| "bar_orders b ((bid, o1) # os) sb =
     (case bar_order b bid o1 sb of
        (Inl e, sb1) \<Rightarrow> (Inl e, sb1)
      | (Inr r, sb1) \<Rightarrow>
          (case bar_orders b os sb1 of
             (Inl e, sb2) \<Rightarrow> (Inl e, sb2)
           | (Inr filled, sb2) \<Rightarrow> (Inr (case r of None \<Rightarrow> filled | Some o2 \<Rightarrow> o2 # filled), sb2)))"

definition on_bar :: "bar \<Rightarrow> sim_broker \<Rightarrow> (exn + order list) \<times> sim_broker" where
  "on_bar b sb =
     bar_orders b (stop_first (filter (\<lambda>k. o_symbol (snd k) = b_symbol b \<and> may_fill_on (snd k) b) (sb_open sb))) sb"

definition quote_price :: "order \<Rightarrow> quote \<Rightarrow> exn + dec option" where
  "quote_price o1 q =
     (case o_type o1 of
        MARKET \<Rightarrow> Inr (Some (if o_side o1 = BUY then q_ask q else q_bid q))
      | LIMIT \<Rightarrow> Inr (case o_limit o1 of None \<Rightarrow> None
          | Some l \<Rightarrow> if o_side o1 = BUY then (if q_ask q \<le> l then Some (q_ask q) else None)
                     else (if l \<le> q_bid q then Some (q_bid q) else None))
      | STOP \<Rightarrow> Inr (case o_stop o1 of None \<Rightarrow> None
          | Some s \<Rightarrow> if o_side o1 = BUY then (if s \<le> mid q then Some (q_ask q) else None)
                     else (if mid q \<le> s then Some (q_bid q) else None))
      | _ \<Rightarrow> Inl (ExecutionError (Reason ''is not modelled by the quote simulator'' [] [])))"

definition quote_order :: "quote \<Rightarrow> string \<Rightarrow> order \<Rightarrow> sim_broker \<Rightarrow> (exn + order option) \<times> sim_broker" where
  "quote_order q bid o1 sb =
     (case o_submitted_at o1 of
        None \<Rightarrow> (Inr None, sb)
      | Some t \<Rightarrow>
          if q_ts q - sb_latency_ms sb * 1000 < t then (Inr None, sb)
          else case quote_price o1 q of
                 Inl e \<Rightarrow> (Inl e, sb)
               | Inr None \<Rightarrow> (Inr None, sb)
               | Inr (Some price) \<Rightarrow>
                   let available = (if o_side o1 = BUY then q_ask_size q else q_bid_size q);
                       qty = (if 0 < available then min (remaining_qty o1) available else remaining_qty o1)
                   in if qty \<le> 0 then (Inr None, sb)
                      else case book_fill bid o1 qty price (q_ts q) sb of
                             (Inl e, sb1) \<Rightarrow> (Inl e, sb1)
                           | (Inr o2, sb1) \<Rightarrow>
                               (Inr (Some o2), if remaining_qty o2 = 0 then retire bid o2 FILLED sb1 else sb1))"

fun quote_orders :: "quote \<Rightarrow> (string \<times> order) list \<Rightarrow> sim_broker \<Rightarrow> (exn + order list) \<times> sim_broker" where
  "quote_orders q [] sb = (Inr [], sb)"
| "quote_orders q ((bid, o1) # os) sb =
     (case quote_order q bid o1 sb of
        (Inl e, sb1) \<Rightarrow> (Inl e, sb1)
      | (Inr r, sb1) \<Rightarrow>
          (case quote_orders q os sb1 of
             (Inl e, sb2) \<Rightarrow> (Inl e, sb2)
           | (Inr filled, sb2) \<Rightarrow> (Inr (case r of None \<Rightarrow> filled | Some o2 \<Rightarrow> o2 # filled), sb2)))"

definition on_quote :: "quote \<Rightarrow> sim_broker \<Rightarrow> (exn + order list) \<times> sim_broker" where
  "on_quote q sb = quote_orders q (stop_first (filter (\<lambda>k. o_symbol (snd k) = q_symbol q) (sb_open sb))) sb"

text \<open>Everything that can happen to the venue.\<close>

inductive sim_step :: "sim_broker \<Rightarrow> sim_broker \<Rightarrow> bool" where
  submits: "sim_step sb (snd (submit_order now o1 sb))"
| cancels: "sim_step sb (cancel_order bid sb)"
| closes: "sim_step sb (snd (close_position now ids sm sb))"
| bars: "sim_step sb (snd (on_bar b sb))"
| quotes: "sim_step sb (snd (on_quote q sb))"

inductive sim_run :: "sim_broker \<Rightarrow> sim_broker \<Rightarrow> bool" where
  stay: "sim_run sb sb"
| more: "sim_run a b \<Longrightarrow> sim_step b c \<Longrightarrow> sim_run a c"

section \<open>The venue's record of orders\<close>

text \<open>
  Every client id stands for one venue id, every venue id was drawn from the counter, and the order it
  names is on record exactly once: open, or closed.
\<close>

definition sim_wf :: "sim_broker \<Rightarrow> bool" where
  "sim_wf sb \<longleftrightarrow>
     dict_ok (sb_open sb)
     \<and> (\<forall>bid o1. dict_get (sb_open sb) bid = Some o1 \<longrightarrow>
          o_broker_id o1 = Some bid \<and> dict_get (sb_by_client sb) (o_client_id o1) = Some bid)
     \<and> (\<forall>o1 \<in> set (sb_filled sb). \<exists>bid. o_broker_id o1 = Some bid
          \<and> dict_get (sb_by_client sb) (o_client_id o1) = Some bid \<and> dict_get (sb_open sb) bid = None)
     \<and> (\<forall>cid bid. dict_get (sb_by_client sb) cid = Some bid \<longrightarrow>
          (\<exists>k \<le> sb_next_id sb. bid = sim_id k) \<and> (\<exists>o1. find_order bid sb = Some o1 \<and> o_client_id o1 = cid))"

lemma sim_id_inj [simp]: "sim_id m = sim_id n \<longleftrightarrow> m = n"
  by (auto simp: sim_id_def dest: nat_digits_inj)

lemma find_order_open: "dict_get (sb_open sb) bid = Some o1 \<Longrightarrow> find_order bid sb = Some o1"
  by (simp add: find_order_def)

lemma sim_wfD:
  assumes "sim_wf sb"
  shows "dict_ok (sb_open sb)"
    "dict_get (sb_open sb) bid = Some w \<Longrightarrow> o_broker_id w = Some bid"
    "dict_get (sb_open sb) bid = Some w \<Longrightarrow> dict_get (sb_by_client sb) (o_client_id w) = Some bid"
    "w \<in> set (sb_filled sb) \<Longrightarrow> \<exists>bid. o_broker_id w = Some bid
          \<and> dict_get (sb_by_client sb) (o_client_id w) = Some bid \<and> dict_get (sb_open sb) bid = None"
    "dict_get (sb_by_client sb) cid = Some bid \<Longrightarrow> \<exists>k \<le> sb_next_id sb. bid = sim_id k"
    "dict_get (sb_by_client sb) cid = Some bid \<Longrightarrow> \<exists>w. find_order bid sb = Some w \<and> o_client_id w = cid"
  using assms unfolding sim_wf_def by blast+

lemma sim_wf_frame:
  assumes "sb_open sb' = sb_open sb" "sb_filled sb' = sb_filled sb" "sb_by_client sb' = sb_by_client sb"
    "sb_next_id sb \<le> sb_next_id sb'" "sim_wf sb"
  shows "sim_wf sb'"
proof -
  have "find_order k sb' = find_order k sb" for k using assms(1,2) by (simp add: find_order_def split: option.split)
  moreover have "\<exists>k \<le> sb_next_id sb'. bid = sim_id k" if "dict_get (sb_by_client sb) cid = Some bid" for cid bid
    using sim_wfD(5) [OF assms(5) that] assms(4) le_trans by blast
  ultimately show ?thesis
    using assms(5) unfolding sim_wf_def assms(1-3) by simp
qed

text \<open>What touching one open order may change: nothing of the others, nothing of the identifiers.\<close>

definition touches :: "string \<Rightarrow> sim_broker \<Rightarrow> sim_broker \<Rightarrow> bool" where
  "touches bid sb sb' \<longleftrightarrow> sim_wf sb' \<and> sb_by_client sb' = sb_by_client sb
     \<and> (\<forall>k. k \<noteq> bid \<longrightarrow> dict_get (sb_open sb') k = dict_get (sb_open sb) k)"

lemma touches_refl: "sim_wf sb \<Longrightarrow> touches bid sb sb"
  by (simp add: touches_def)

lemma touches_trans: "touches bid a b \<Longrightarrow> touches bid b c \<Longrightarrow> touches bid a c"
  by (simp add: touches_def)

definition same_ids :: "order \<Rightarrow> order \<Rightarrow> bool" where
  "same_ids a b \<longleftrightarrow> o_client_id a = o_client_id b \<and> o_broker_id a = o_broker_id b"

lemma touches_update:
  assumes "sim_wf sb" "dict_get (sb_open sb) bid = Some o1" "same_ids o2 o1"
    and "sb_open sb' = dict_set bid o2 (sb_open sb)" "sb_filled sb' = sb_filled sb"
    "sb_by_client sb' = sb_by_client sb" "sb_next_id sb' = sb_next_id sb"
  shows "touches bid sb sb' \<and> dict_get (sb_open sb') bid = Some o2"
proof -
  have find: "find_order k sb' = (if k = bid then Some o2 else find_order k sb)" for k
    using assms by (simp add: find_order_def split: option.split)
  have old: "find_order bid sb = Some o1" using assms(2) by (rule find_order_open)
  have ids: "o_client_id o2 = o_client_id o1" "o_broker_id o2 = o_broker_id o1" using assms(3) by (simp_all add: same_ids_def)
  note W = sim_wfD [OF assms(1)]
  have "sim_wf sb'" unfolding sim_wf_def assms(4-7)
  proof (intro conjI allI impI ballI)
    show "dict_ok (dict_set bid o2 (sb_open sb))" using W(1) by simp
  next
    fix k w assume "dict_get (dict_set bid o2 (sb_open sb)) k = Some w"
    then show "o_broker_id w = Some k" "dict_get (sb_by_client sb) (o_client_id w) = Some k"
      using W(2,3) assms(2) ids by (auto split: if_splits)
  next
    fix w assume "w \<in> set (sb_filled sb)"
    then obtain k where "o_broker_id w = Some k" "dict_get (sb_by_client sb) (o_client_id w) = Some k"
      "dict_get (sb_open sb) k = None" using W(4) by blast
    then show "\<exists>k. o_broker_id w = Some k \<and> dict_get (sb_by_client sb) (o_client_id w) = Some k
        \<and> dict_get (dict_set bid o2 (sb_open sb)) k = None" using assms(2) by auto
  next
    fix cid k assume c: "dict_get (sb_by_client sb) cid = Some k"
    show "\<exists>n \<le> sb_next_id sb. k = sim_id n" using W(5) [OF c] .
    show "\<exists>w. find_order k sb' = Some w \<and> o_client_id w = cid"
      using W(6) [OF c] old ids by (auto simp: find)
  qed
  then show ?thesis by (simp add: touches_def assms)
qed

lemma touches_retire:
  assumes "sim_wf sb" "dict_get (sb_open sb) bid = Some o1" "same_ids o2 o1"
  shows "touches bid sb (retire bid o2 st sb)"
proof -
  define o3 where "o3 = (if st \<noteq> FILLED then o2\<lparr>o_status := st\<rparr> else o2)"
  have ids: "o_client_id o3 = o_client_id o1" "o_broker_id o3 = o_broker_id o1"
    using assms(3) by (simp_all add: o3_def same_ids_def)
  have b1: "o_broker_id o1 = Some bid" using assms(1,2) by (auto simp: sim_wf_def)
  have none: "find (\<lambda>w. o_broker_id w = Some bid) (sb_filled sb) = None"
    using assms(1,2) by (fastforce simp: find_None_iff sim_wf_def)
  have find: "find_order k (retire bid o2 st sb) = (if k = bid then Some o3 else find_order k sb)" for k
  proof (cases "k = bid")
    case True
    with none ids(2) b1 show ?thesis by (simp add: find_order_def retire_def find_append flip: o3_def)
  next
    case False
    with ids(2) b1 show ?thesis
      by (simp add: find_order_def retire_def find_append split: option.split flip: o3_def)
  qed
  have old: "find_order bid sb = Some o1" using assms(2) by (rule find_order_open)
  note W = sim_wfD [OF assms(1)]
  have "sim_wf (retire bid o2 st sb)" unfolding sim_wf_def
  proof (intro conjI allI impI ballI)
    show "dict_ok (sb_open (retire bid o2 st sb))" using W(1) by (simp add: retire_def)
  next
    fix k w assume "dict_get (sb_open (retire bid o2 st sb)) k = Some w"
    then show "o_broker_id w = Some k" "dict_get (sb_by_client (retire bid o2 st sb)) (o_client_id w) = Some k"
      using W(2,3) by (auto simp: retire_def split: if_splits)
  next
    fix w assume "w \<in> set (sb_filled (retire bid o2 st sb))"
    then consider "w = o3" | "w \<in> set (sb_filled sb)" by (auto simp: retire_def o3_def)
    then show "\<exists>k. o_broker_id w = Some k \<and> dict_get (sb_by_client (retire bid o2 st sb)) (o_client_id w) = Some k
        \<and> dict_get (sb_open (retire bid o2 st sb)) k = None"
    proof cases
      case 1
      then show ?thesis using ids b1 W(3) [OF assms(2)] by (simp add: retire_def)
    next
      case 2
      then show ?thesis using W(4) by (fastforce simp: retire_def)
    qed
  next
    fix cid k assume "dict_get (sb_by_client (retire bid o2 st sb)) cid = Some k"
    then have c: "dict_get (sb_by_client sb) cid = Some k" by (simp add: retire_def)
    show "\<exists>n \<le> sb_next_id (retire bid o2 st sb). k = sim_id n" using W(5) [OF c] by (simp add: retire_def)
    show "\<exists>w. find_order k (retire bid o2 st sb) = Some w \<and> o_client_id w = cid"
      using W(6) [OF c] old ids by (auto simp: find)
  qed
  then show ?thesis by (simp add: touches_def retire_def)
qed

lemma book_fill_touches:
  assumes "sim_wf sb" "dict_get (sb_open sb) bid = Some o1" "book_fill bid o1 qty price tm sb = (r, sb')"
  shows "touches bid sb sb'" "r = Inr o2 \<Longrightarrow> dict_get (sb_open sb') bid = Some o2 \<and> same_ids o2 o1
    \<and> (\<exists>fee. order_apply_fill \<lparr>f_order_id = o_id o1, f_ts = tm, f_qty = qty, f_price = price, f_fee = fee,
         f_venue_id = None\<rparr> o1 = Inr o2)"
proof -
  have "touches bid sb sb' \<and> (\<forall>o2. r = Inr o2 \<longrightarrow> dict_get (sb_open sb') bid = Some o2 \<and> same_ids o2 o1
    \<and> (\<exists>fee. order_apply_fill \<lparr>f_order_id = o_id o1, f_ts = tm, f_qty = qty, f_price = price, f_fee = fee,
         f_venue_id = None\<rparr> o1 = Inr o2))"
  proof (cases "commission (sb_costs sb) o1 price qty")
    case (Inl e)
    with assms show ?thesis by (auto simp: book_fill_def touches_refl)
  next
    case (Inr fee)
    define f where "f = \<lparr>f_order_id = o_id o1, f_ts = tm, f_qty = qty, f_price = price, f_fee = fee, f_venue_id = None\<rparr>"
    show ?thesis
    proof (cases "order_apply_fill f o1")
      case (Inl e)
      with Inr assms show ?thesis by (auto simp: book_fill_def touches_refl f_def)
    next
      case ok: (Inr w)
      have ids: "same_ids w o1" using order_apply_fill_cases(7,8) [OF ok] by (simp add: same_ids_def)
      have shape: "sb_open sb' = dict_set bid w (sb_open sb)" "sb_filled sb' = sb_filled sb"
        "sb_by_client sb' = sb_by_client sb" "sb_next_id sb' = sb_next_id sb" "\<forall>o2. r = Inr o2 \<longrightarrow> o2 = w"
        using assms(3) Inr ok unfolding book_fill_def f_def [symmetric]
        by (auto simp: Let_def f_def [symmetric] split: sum.splits prod.splits)
      from touches_update [OF assms(1,2) ids shape(1-4)] shape(5) ids ok show ?thesis by (auto simp: f_def)
    qed
  qed
  then show "touches bid sb sb'" "r = Inr o2 \<Longrightarrow> dict_get (sb_open sb') bid = Some o2 \<and> same_ids o2 o1
    \<and> (\<exists>fee. order_apply_fill \<lparr>f_order_id = o_id o1, f_ts = tm, f_qty = qty, f_price = price, f_fee = fee,
         f_venue_id = None\<rparr> o1 = Inr o2)" by blast+
qed

lemma touches_wf: "touches bid sb sb' \<Longrightarrow> sim_wf sb'"
  by (simp add: touches_def)

lemma same_ids_refl [simp]: "same_ids w w"
  by (simp add: same_ids_def)

lemma filled_then_retired:
  assumes "sim_wf sb" "dict_get (sb_open sb) bid = Some o1" "book_fill bid o1 qty price tm sb = (Inr o2, sb1)"
  shows "touches bid sb (retire bid o2 st sb1)" "touches bid sb sb1"
proof -
  note B = book_fill_touches [OF assms]
  show "touches bid sb sb1" by (rule B(1))
  have "touches bid sb1 (retire bid o2 st sb1)"
    using touches_retire [OF touches_wf [OF B(1)], of bid o2 o2 st] B(2) [OF refl] by simp
  with B(1) show "touches bid sb (retire bid o2 st sb1)" by (rule touches_trans)
qed

lemma bar_order_touches:
  assumes "sim_wf sb" "dict_get (sb_open sb) bid = Some o1"
  shows "touches bid sb (snd (bar_order b bid o1 sb))"
proof -
  have "touches bid sb sb" "touches bid sb (retire bid o1 EXPIRED sb)"
    using touches_refl touches_retire assms by auto
  moreover note filled_then_retired [OF assms] book_fill_touches(1) [OF assms]
  ultimately show ?thesis
    unfolding bar_order_def by (auto simp: Let_def split: sum.split option.split prod.split)
qed

lemma quote_order_touches:
  assumes "sim_wf sb" "dict_get (sb_open sb) bid = Some o1"
  shows "touches bid sb (snd (quote_order q bid o1 sb))"
proof -
  have "touches bid sb sb" using touches_refl assms(1) by auto
  moreover note filled_then_retired [OF assms] book_fill_touches(1) [OF assms]
  ultimately show ?thesis
    unfolding quote_order_def by (auto simp: Let_def split: sum.split option.split prod.split)
qed

text \<open>A snapshot of the open book: each order under its own key, once.\<close>

definition snapshot :: "(string \<times> order) list \<Rightarrow> sim_broker \<Rightarrow> bool" where
  "snapshot os sb \<longleftrightarrow> distinct (map fst os) \<and> (\<forall>(bid, o1) \<in> set os. dict_get (sb_open sb) bid = Some o1)"

lemma snapshot_tail:
  assumes "snapshot ((bid, o1) # os) sb" "touches bid sb sb'"
  shows "snapshot os sb'"
proof -
  have d: "distinct (map fst os)" "bid \<notin> fst ` set os"
    and g: "\<And>k w. (k, w) \<in> set os \<Longrightarrow> dict_get (sb_open sb) k = Some w"
    using assms(1) by (auto simp: snapshot_def)
  have "dict_get (sb_open sb') k = Some w" if "(k, w) \<in> set os" for k w
  proof -
    have "k \<noteq> bid" using d(2) that by force
    then show ?thesis using assms(2) g [OF that] by (simp add: touches_def)
  qed
  then show ?thesis using d(1) by (auto simp: snapshot_def)
qed

lemma bar_orders_wf:
  "sim_wf sb \<Longrightarrow> snapshot os sb \<Longrightarrow> sim_wf (snd (bar_orders b os sb))
     \<and> sb_by_client (snd (bar_orders b os sb)) = sb_by_client sb"
proof (induction os arbitrary: sb)
  case (Cons k os)
  obtain bid o1 where k: "k = (bid, o1)" by (cases k)
  define sb1 where "sb1 = snd (bar_order b bid o1 sb)"
  have "dict_get (sb_open sb) bid = Some o1" using Cons.prems(2) by (simp add: snapshot_def k)
  from bar_order_touches [OF Cons.prems(1) this] have T: "touches bid sb sb1" by (simp add: sb1_def)
  have same: "sb_by_client sb1 = sb_by_client sb" using T by (simp add: touches_def)
  note IH = Cons.IH [OF touches_wf [OF T] snapshot_tail [OF Cons.prems(2) [unfolded k] T]]
  have "snd (bar_orders b (k # os) sb) = sb1 \<or> snd (bar_orders b (k # os) sb) = snd (bar_orders b os sb1)"
  proof -
    obtain r1 where r1: "bar_order b bid o1 sb = (r1, sb1)" by (cases "bar_order b bid o1 sb") (simp add: sb1_def)
    obtain r2 sb2 where r2: "bar_orders b os sb1 = (r2, sb2)" by (cases "bar_orders b os sb1")
    show ?thesis by (cases r1; cases r2) (simp_all add: k r1 r2)
  qed
  then show ?case using IH same touches_wf [OF T] by auto
qed simp

lemma quote_orders_wf:
  "sim_wf sb \<Longrightarrow> snapshot os sb \<Longrightarrow> sim_wf (snd (quote_orders q os sb))
     \<and> sb_by_client (snd (quote_orders q os sb)) = sb_by_client sb"
proof (induction os arbitrary: sb)
  case (Cons k os)
  obtain bid o1 where k: "k = (bid, o1)" by (cases k)
  define sb1 where "sb1 = snd (quote_order q bid o1 sb)"
  have "dict_get (sb_open sb) bid = Some o1" using Cons.prems(2) by (simp add: snapshot_def k)
  from quote_order_touches [OF Cons.prems(1) this] have T: "touches bid sb sb1" by (simp add: sb1_def)
  have same: "sb_by_client sb1 = sb_by_client sb" using T by (simp add: touches_def)
  note IH = Cons.IH [OF touches_wf [OF T] snapshot_tail [OF Cons.prems(2) [unfolded k] T]]
  have "snd (quote_orders q (k # os) sb) = sb1 \<or> snd (quote_orders q (k # os) sb) = snd (quote_orders q os sb1)"
  proof -
    obtain r1 where r1: "quote_order q bid o1 sb = (r1, sb1)" by (cases "quote_order q bid o1 sb") (simp add: sb1_def)
    obtain r2 sb2 where r2: "quote_orders q os sb1 = (r2, sb2)" by (cases "quote_orders q os sb1")
    show ?thesis by (cases r1; cases r2) (simp_all add: k r1 r2)
  qed
  then show ?case using IH same touches_wf [OF T] by auto
qed simp

lemma stop_first_set [simp]: "set (stop_first os) = set os"
  by (auto simp: stop_first_def)

lemma stop_first_distinct: "distinct (map fst os) \<Longrightarrow> distinct (map fst (stop_first os))"
  unfolding stop_first_def
  by (induction os) (auto dest: image_eqI)

lemma stop_first_snapshot:
  assumes "sim_wf sb"
  shows "snapshot (stop_first (filter P (sb_open sb))) sb"
proof -
  have ok: "dict_ok (sb_open sb)" by (rule sim_wfD(1) [OF assms])
  then have "distinct (map fst (filter P (sb_open sb)))"
    by (simp add: dict_ok_def dict_keys_def distinct_map_filter)
  then show ?thesis
    using dict_mem_get [OF ok] by (auto simp: snapshot_def stop_first_distinct)
qed

definition keeps_ids :: "sim_broker \<Rightarrow> sim_broker \<Rightarrow> bool" where
  "keeps_ids sb sb' \<longleftrightarrow> sim_wf sb' \<and>
     (\<forall>cid bid. dict_get (sb_by_client sb) cid = Some bid \<longrightarrow> dict_get (sb_by_client sb') cid = Some bid)"

lemma submit_fresh:
  assumes "sim_wf sb" "dict_get (sb_by_client sb) (o_client_id o1) = None"
    and "new_order (o1\<lparr>o_broker_id := Some (sim_id (sb_next_id sb + 1)), o_status := SUBMITTED,
           o_submitted_at := Some now, o_fills := []\<rparr>) = Inr acc"
    and "sb' = sb\<lparr>sb_next_id := sb_next_id sb + 1, sb_open := dict_set (sim_id (sb_next_id sb + 1)) acc (sb_open sb),
           sb_by_client := dict_set (o_client_id o1) (sim_id (sb_next_id sb + 1)) (sb_by_client sb)\<rparr>"
  shows "keeps_ids sb sb'" "dict_get (sb_open sb') (sim_id (sb_next_id sb + 1)) = Some acc"
proof -
  define bid where "bid = sim_id (sb_next_id sb + 1)"
  note W = sim_wfD [OF assms(1)]
  have acc: "o_broker_id acc = Some bid" "o_client_id acc = o_client_id o1"
    using new_order_Inr [OF assms(3)] by (simp_all add: bid_def)
  have fresh: "dict_get (sb_by_client sb) cid \<noteq> Some bid" for cid
    using W(5) [of cid bid] by (auto simp: bid_def)
  then have unused: "dict_get (sb_open sb) bid = None" using W(3) [of bid] by (cases "dict_get (sb_open sb) bid") auto
  have sb': "sb_open sb' = dict_set bid acc (sb_open sb)" "sb_filled sb' = sb_filled sb"
    "sb_by_client sb' = dict_set (o_client_id o1) bid (sb_by_client sb)" "sb_next_id sb' = sb_next_id sb + 1"
    by (simp_all add: assms(4) bid_def)
  have find: "find_order k sb' = (if k = bid then Some acc else find_order k sb)" for k
    by (simp add: find_order_def sb' split: option.split)
  have "sim_wf sb'" unfolding sim_wf_def sb'
  proof (intro conjI allI impI ballI)
    show "dict_ok (dict_set bid acc (sb_open sb))" using W(1) by simp
  next
    fix k w assume w: "dict_get (dict_set bid acc (sb_open sb)) k = Some w"
    show "o_broker_id w = Some k" using w W(2) acc by (auto split: if_splits)
    show "dict_get (dict_set (o_client_id o1) bid (sb_by_client sb)) (o_client_id w) = Some k"
      using w W(3) [of k w] acc assms(2) by (auto split: if_splits)
  next
    fix w assume "w \<in> set (sb_filled sb)"
    then obtain k where k: "o_broker_id w = Some k" "dict_get (sb_by_client sb) (o_client_id w) = Some k"
      "dict_get (sb_open sb) k = None" using W(4) by blast
    then have "k \<noteq> bid" "o_client_id w \<noteq> o_client_id o1" using fresh assms(2) by auto
    with k show "\<exists>k. o_broker_id w = Some k
        \<and> dict_get (dict_set (o_client_id o1) bid (sb_by_client sb)) (o_client_id w) = Some k
        \<and> dict_get (dict_set bid acc (sb_open sb)) k = None" by simp
  next
    fix cid k assume c: "dict_get (dict_set (o_client_id o1) bid (sb_by_client sb)) cid = Some k"
    show "\<exists>n \<le> sb_next_id sb + 1. k = sim_id n"
    proof (cases "cid = o_client_id o1")
      case True
      with c show ?thesis by (auto simp: bid_def)
    next
      case False
      with c W(5) [of cid k] show ?thesis by (auto intro: le_SucI)
    qed
    show "\<exists>w. find_order k sb' = Some w \<and> o_client_id w = cid"
      using c W(6) [of cid k] fresh acc by (auto simp: find split: if_splits)
  qed
  then show "keeps_ids sb sb'" using assms(2) by (auto simp: keeps_ids_def sb')
  show "dict_get (sb_open sb') (sim_id (sb_next_id sb + 1)) = Some acc" by (simp add: sb' bid_def)
qed

lemma keeps_refl: "sim_wf sb \<Longrightarrow> keeps_ids sb sb"
  by (simp add: keeps_ids_def)

lemma keeps_trans: "keeps_ids a b \<Longrightarrow> keeps_ids b c \<Longrightarrow> keeps_ids a c"
  by (simp add: keeps_ids_def)

lemma submit_keeps:
  assumes "sim_wf sb"
  shows "keeps_ids sb (snd (submit_order now o1 sb))"
proof (cases "dict_get (sb_by_client sb) (o_client_id o1)")
  case (Some known)
  then show ?thesis
    using keeps_refl [OF assms] by (simp add: submit_order_def split: option.split)
next
  case None
  show ?thesis
  proof (cases "new_order (o1\<lparr>o_broker_id := Some (sim_id (sb_next_id sb + 1)), o_status := SUBMITTED,
           o_submitted_at := Some now, o_fills := []\<rparr>)")
    case (Inl e)
    have "sim_wf (sb\<lparr>sb_next_id := sb_next_id sb + 1\<rparr>)" by (rule sim_wf_frame [OF _ _ _ _ assms]) simp_all
    with None Inl show ?thesis by (simp add: submit_order_def keeps_ids_def)
  next
    case (Inr acc)
    with submit_fresh(1) [OF assms None Inr refl] None show ?thesis by (simp add: submit_order_def Let_def)
  qed
qed

lemma touches_keeps: "touches bid sb sb' \<Longrightarrow> keeps_ids sb sb'"
  by (simp add: touches_def keeps_ids_def)

lemma sim_step_keeps:
  assumes "sim_step sb sb'" "sim_wf sb"
  shows "keeps_ids sb sb'"
  using assms
proof cases
  case (submits now o1)
  then show ?thesis using submit_keeps assms(2) by simp
next
  case (cancels bid)
  have "keeps_ids sb (retire bid o1 CANCELLED sb)" if "dict_get (sb_open sb) bid = Some o1" for o1
    using touches_keeps [OF touches_retire [OF assms(2) that]] by simp
  then show ?thesis using keeps_refl [OF assms(2)]
    by (simp add: cancels cancel_order_def retire_def split: option.split)
next
  case (closes now ids sm)
  show ?thesis
    using keeps_refl [OF assms(2)] submit_keeps [OF assms(2)]
    by (simp add: closes close_position_def split: option.split sum.split)
next
  case (bars b)
  then show ?thesis
    using bar_orders_wf [OF assms(2) stop_first_snapshot [OF assms(2)]] by (simp add: on_bar_def keeps_ids_def)
next
  case (quotes q)
  then show ?thesis
    using quote_orders_wf [OF assms(2) stop_first_snapshot [OF assms(2)]] by (simp add: on_quote_def keeps_ids_def)
qed

lemma sim_run_keeps:
  assumes "sim_run a b" "sim_wf a"
  shows "keeps_ids a b"
  using assms
proof induction
  case (more a b c)
  then show ?case using sim_step_keeps keeps_trans unfolding keeps_ids_def by blast
qed (rule keeps_refl)

lemma new_sim_broker_wf: "sim_wf (new_sim_broker costs cash)"
  by (simp add: sim_wf_def new_sim_broker_def)

text \<open>
  The venue never opens an order twice. On any reachable venue, once an order was accepted, then
  whatever happens in between (fills, cancels, closes, other submissions), submitting its client id
  again is answered with the order the venue holds under that id, the same venue id as the first
  time, and changes nothing.
\<close>

theorem sim_submit_idempotent:
  assumes "sim_run (new_sim_broker costs cash) sb" "submit_order now o1 sb = (Inr held, sb1)"
    "sim_run sb1 sb2" "o_client_id o2 = o_client_id o1"
  shows "\<exists>again. submit_order later o2 sb2 = (Inr again, sb2) \<and> o_broker_id again = o_broker_id held
    \<and> o_client_id again = o_client_id o1"
proof -
  have wf: "sim_wf sb" using sim_run_keeps [OF assms(1) new_sim_broker_wf] by (simp add: keeps_ids_def)
  have K: "keeps_ids sb sb1" using submit_keeps [OF wf, of now o1] assms(2) by simp
  obtain bid where bid: "dict_get (sb_by_client sb1) (o_client_id o1) = Some bid" "o_broker_id held = Some bid"
  proof (cases "dict_get (sb_by_client sb) (o_client_id o1)")
    case (Some known)
    then obtain w where w: "find_order known sb = Some w" using sim_wfD(6) [OF wf] by blast
    with Some assms(2) have "held = w" "sb1 = sb" by (auto simp: submit_order_def)
    moreover have "o_broker_id w = Some known"
      using w sim_wfD(2) [OF wf] by (auto simp: find_order_def find_Some_iff split: option.splits)
    ultimately show thesis using that Some by simp
  next
    case None
    obtain acc where acc: "new_order (o1\<lparr>o_broker_id := Some (sim_id (sb_next_id sb + 1)), o_status := SUBMITTED,
           o_submitted_at := Some now, o_fills := []\<rparr>) = Inr acc"
      using None assms(2) by (auto simp: submit_order_def Let_def split: sum.splits)
    then have "held = acc" "dict_get (sb_by_client sb1) (o_client_id o1) = Some (sim_id (sb_next_id sb + 1))"
      using None assms(2) by (auto simp: submit_order_def Let_def)
    moreover have "o_broker_id acc = Some (sim_id (sb_next_id sb + 1))" using new_order_Inr [OF acc] by simp
    ultimately show thesis using that by simp
  qed
  have wf1: "sim_wf sb1" using K by (simp add: keeps_ids_def)
  have K2: "keeps_ids sb1 sb2" by (rule sim_run_keeps [OF assms(3) wf1])
  then have wf2: "sim_wf sb2" and c: "dict_get (sb_by_client sb2) (o_client_id o1) = Some bid"
    using bid(1) by (auto simp: keeps_ids_def)
  obtain w where w: "find_order bid sb2 = Some w" "o_client_id w = o_client_id o1" using sim_wfD(6) [OF wf2 c] by blast
  have "o_broker_id w = Some bid"
    using w sim_wfD(2) [OF wf2] by (auto simp: find_order_def find_Some_iff split: option.splits)
  with w c bid(2) assms(4) show ?thesis by (simp add: submit_order_def)
qed

lemma sim_id_1: "sim_id (Suc 0) = ''sim-1''"
  by code_simp

theorem sim_submit_idempotent_witness:
  "\<exists>held sb1 again. submit_order 0 (order_defaults ''o'' ''c'' ''AAPL'' BUY 10) (new_sim_broker ZeroCostModel 1000) = (Inr held, sb1)
     \<and> submit_order 9 (order_defaults ''p'' ''c'' ''AAPL'' BUY 10) (snd (on_bar sample_bar sb1)) = (Inr again, snd (on_bar sample_bar sb1))
     \<and> o_broker_id again = Some ''sim-1''"
proof -
  let ?sb = "new_sim_broker ZeroCostModel 1000" and ?o = "order_defaults ''o'' ''c'' ''AAPL'' BUY 10"
  obtain held sb1 where s: "submit_order 0 ?o ?sb = (Inr held, sb1)" and b: "o_broker_id held = Some ''sim-1''"
    by (simp add: submit_order_def new_sim_broker_def new_order_def order_defaults_def sim_id_1 Let_def)
  have "sim_run sb1 (snd (on_bar sample_bar sb1))" by (rule more [OF stay bars])
  from sim_submit_idempotent [OF stay s this, of "order_defaults ''p'' ''c'' ''AAPL'' BUY 10" 9] s b show ?thesis
    by (auto simp: order_defaults_def)
qed

section \<open>Honest fills\<close>

definition honest_fill :: "bar \<Rightarrow> sim_broker \<Rightarrow> order \<Rightarrow> order \<Rightarrow> bool" where
  "honest_fill b sb o1 w \<longleftrightarrow>
     (\<exists>f price slip. o_fills w = o_fills o1 @ [f] \<and> f_ts f = b_ts b \<and> 0 < f_qty f \<and> f_qty f \<le> remaining_qty o1
        \<and> f_qty f \<le> dmul (sb_participation sb) (b_volume b)
        \<and> intended_price o1 b (sb_require_through sb) = Inr (Some price)
        \<and> slippage (sb_costs sb) o1 b price = Inr slip \<and> f_price f = dadd price slip \<and> 0 < f_price f)"

lemma book_fill_config:
  assumes "book_fill bid o1 qty price tm sb = (r, sb1)"
  shows "sb_participation sb1 = sb_participation sb \<and> sb_require_through sb1 = sb_require_through sb
    \<and> sb_costs sb1 = sb_costs sb"
  using assms by (auto simp: book_fill_def Let_def split: sum.splits prod.splits)

lemma retire_config [simp]:
  "sb_participation (retire bid w st sb) = sb_participation sb"
  "sb_require_through (retire bid w st sb) = sb_require_through sb" "sb_costs (retire bid w st sb) = sb_costs sb"
  by (simp_all add: retire_def)

lemma bar_order_fill:
  assumes "sim_wf sb" "dict_get (sb_open sb) bid = Some o1" "bar_order b bid o1 sb = (Inr r, sb1)"
  shows "(\<forall>w. r = Some w \<longrightarrow> honest_fill b sb o1 w) \<and> sb_participation sb1 = sb_participation sb
    \<and> sb_require_through sb1 = sb_require_through sb \<and> sb_costs sb1 = sb_costs sb"
proof (cases "intended_price o1 b (sb_require_through sb)")
  case (Inr p)
  show ?thesis
  proof (cases p)
    case None
    with Inr assms(3) show ?thesis by (auto simp: bar_order_def split: if_splits)
  next
    case (Some price)
    obtain slip where slip: "slippage (sb_costs sb) o1 b price = Inr slip" "0 < dadd price slip"
      using Inr Some assms(3) by (auto simp: bar_order_def Let_def not_le split: sum.splits if_splits)
    define qty where "qty = min (remaining_qty o1) (dmul (sb_participation sb) (b_volume b))"
    show ?thesis
    proof (cases "qty \<le> 0")
      case True
      with Inr Some slip assms(3) show ?thesis by (simp add: bar_order_def Let_def qty_def [symmetric])
    next
      case False
      obtain r1 sb2 where bk: "book_fill bid o1 qty (dadd price slip) (b_ts b) sb = (r1, sb2)"
        by (cases "book_fill bid o1 qty (dadd price slip) (b_ts b) sb")
      obtain w where w: "r1 = Inr w" "r = Some w"
        using Inr Some slip False assms(3) bk by (cases r1) (auto simp: bar_order_def Let_def qty_def [symmetric])
      obtain fee where "order_apply_fill \<lparr>f_order_id = o_id o1, f_ts = b_ts b, f_qty = qty,
          f_price = dadd price slip, f_fee = fee, f_venue_id = None\<rparr> o1 = Inr w"
        using book_fill_touches(2) [OF assms(1,2) bk w(1)] by blast
      then have "honest_fill b sb o1 w"
        using order_apply_fill_cases(2) Inr Some slip False by (fastforce simp: honest_fill_def qty_def)
      then show ?thesis
        using Inr Some slip False assms(3) bk w book_fill_config [OF bk]
        by (auto simp: bar_order_def Let_def qty_def [symmetric] split: if_splits)
    qed
  qed
qed (use assms(3) in \<open>simp add: bar_order_def\<close>)

lemma honest_fill_cong:
  "sb_participation sb1 = sb_participation sb \<Longrightarrow> sb_require_through sb1 = sb_require_through sb \<Longrightarrow>
   sb_costs sb1 = sb_costs sb \<Longrightarrow> honest_fill b sb1 = honest_fill b sb"
  by (simp add: honest_fill_def fun_eq_iff)

lemma bar_orders_fills:
  "sim_wf sb \<Longrightarrow> snapshot os sb \<Longrightarrow> bar_orders b os sb = (Inr filled, sb') \<Longrightarrow>
     \<forall>w \<in> set filled. \<exists>(bid, o1) \<in> set os. honest_fill b sb o1 w"
proof (induction os arbitrary: sb filled)
  case (Cons k os)
  obtain bid o1 where k: "k = (bid, o1)" by (cases k)
  have op: "dict_get (sb_open sb) bid = Some o1" using Cons.prems(2) by (simp add: snapshot_def k)
  obtain r sb1 where s: "bar_order b bid o1 sb = (Inr r, sb1)"
    using Cons.prems(3) by (auto simp: k split: sum.splits prod.splits)
  obtain rest where rest: "bar_orders b os sb1 = (Inr rest, sb')" "filled = (case r of None \<Rightarrow> rest | Some w \<Rightarrow> w # rest)"
    using Cons.prems(3) s by (auto simp: k split: sum.splits prod.splits)
  have T: "touches bid sb sb1" using bar_order_touches [OF Cons.prems(1) op, of b] s by simp
  note F = bar_order_fill [OF Cons.prems(1) op s]
  have "honest_fill b sb1 = honest_fill b sb" using F by (intro honest_fill_cong) auto
  with Cons.IH [OF touches_wf [OF T] snapshot_tail [OF Cons.prems(2) [unfolded k] T] rest(1)] F rest(2)
  show ?case by (cases r) (auto simp: k)
qed simp

text \<open>
  C25. A bar fills only what it could have filled: every order \<open>on_bar\<close> reports was open in that
  symbol and submitted no later than the bar opened, grew by exactly one fill, of no more than was
  outstanding and no more than the allowed share of the bar's volume, at the price the bar reached
  plus slippage.
\<close>

theorem sim_bar_fills_honest:
  assumes "sim_run (new_sim_broker costs cash) sb" "on_bar b sb = (Inr filled, sb')" "w \<in> set filled"
  shows "\<exists>bid o1. dict_get (sb_open sb) bid = Some o1 \<and> o_symbol o1 = b_symbol b \<and> may_fill_on o1 b
    \<and> honest_fill b sb o1 w"
proof -
  have wf: "sim_wf sb" using sim_run_keeps [OF assms(1) new_sim_broker_wf] by (simp add: keeps_ids_def)
  let ?os = "stop_first (filter (\<lambda>k. o_symbol (snd k) = b_symbol b \<and> may_fill_on (snd k) b) (sb_open sb))"
  obtain bid o1 where k: "(bid, o1) \<in> set ?os" "honest_fill b sb o1 w"
    using bar_orders_fills [OF wf stop_first_snapshot [OF wf] assms(2) [unfolded on_bar_def]] assms(3) by blast
  moreover have "dict_get (sb_open sb) bid = Some o1"
    using k(1) dict_mem_get [OF sim_wfD(1) [OF wf]] by simp
  ultimately show ?thesis by auto
qed

theorem sim_bar_fills_honest_witness:
  "\<exists>filled sb1 sb2 w. on_bar (sample_bar\<lparr>b_ts := 5\<rparr>) sb1 = (Inr filled, sb2) \<and> w \<in> set filled
     \<and> honest_fill (sample_bar\<lparr>b_ts := 5\<rparr>) sb1 (order_defaults ''o'' ''c'' ''AAPL'' BUY 10\<lparr>o_broker_id := Some ''sim-1'',
          o_status := SUBMITTED, o_submitted_at := Some 0\<rparr>) w \<and> o_filled w = 10"
proof -
  let ?o = "order_defaults ''o'' ''c'' ''AAPL'' BUY 10" and ?sb = "new_sim_broker ZeroCostModel 10000" and ?b = "sample_bar\<lparr>b_ts := 5\<rparr>"
  let ?sb1 = "snd (submit_order 0 ?o ?sb)"
  have run: "sim_run ?sb ?sb1" by (rule more [OF stay submits])
  have "\<exists>w sb2. on_bar ?b ?sb1 = (Inr [w], sb2) \<and> o_filled w = 10"
    by (simp add: submit_order_def new_sim_broker_def new_order_def order_defaults_def sim_id_1 Let_def
        on_bar_def stop_first_def may_fill_on_def sample_bar_def bar_order_def intended_price_def dict_set_new
        book_fill_def order_apply_fill_def position_apply_fill_def fill_basis_def dec_ops remaining_qty_def
        fill_notional_def ddiv_r_def new_position_def dict_get_Cons dict_get_or_def)
  then obtain w sb2 where w: "on_bar ?b ?sb1 = (Inr [w], sb2)" "o_filled w = 10" by blast
  from sim_bar_fills_honest [OF run w(1), of w] obtain bid o1
    where "dict_get (sb_open ?sb1) bid = Some o1" "honest_fill ?b ?sb1 o1 w" by auto
  moreover have "sb_open ?sb1 = [(''sim-1'', ?o\<lparr>o_broker_id := Some ''sim-1'', o_status := SUBMITTED, o_submitted_at := Some 0\<rparr>)]"
    by (simp add: submit_order_def new_sim_broker_def new_order_def order_defaults_def sim_id_1 Let_def dict_set_new)
  ultimately have "honest_fill ?b ?sb1 (?o\<lparr>o_broker_id := Some ''sim-1'', o_status := SUBMITTED, o_submitted_at := Some 0\<rparr>) w"
    by (auto simp: dict_get_Cons split: if_splits)
  with w show ?thesis by (intro exI [of _ "[w]"] exI [of _ ?sb1] exI [of _ sb2] exI [of _ w]) simp
qed

end
