(* ===== verification/Reconcile.thy ===== *)
theory Reconcile
  imports Positions KillSwitch
begin

text \<open>
  \<open>execution/reconciliation.py\<close>, \<open>execution/fees.py\<close> and the ledger of \<open>persistence/fees.py\<close>: our book
  against the venue's. What the venue answers (its positions, open orders and cash, or a failure)
  and what our own book is at each of the two instants it is read are arguments, because fills land
  in between. The halts a reconcile asks for are returned.

  The ledger is the table \<open>broker_fees\<close>: its primary key is the activity id, an insert of a present
  key does nothing, and the total is the exact sum over the rows of one run mode.
\<close>

datatype discrepancy_kind = POSITION_QTY | MISSING_POSITION | UNKNOWN_POSITION | ORPHAN_ORDER | CASH

fun kind_value :: "discrepancy_kind \<Rightarrow> string" where
  "kind_value POSITION_QTY = ''position_qty''"
| "kind_value MISSING_POSITION = ''missing_position''"
| "kind_value UNKNOWN_POSITION = ''unknown_position''"
| "kind_value ORPHAN_ORDER = ''orphan_order''"
| "kind_value CASH = ''cash''"

definition impugns_position :: "discrepancy_kind \<Rightarrow> bool" where
  "impugns_position k \<longleftrightarrow> k = POSITION_QTY \<or> k = MISSING_POSITION \<or> k = UNKNOWN_POSITION"

record discrepancy =
  d_kind :: discrepancy_kind
  d_symbol :: string
  d_ours :: "dec option"
  d_theirs :: "dec option"

record reconciliation_report =
  rr_checked_at :: ts
  rr_discrepancies :: "discrepancy list"
  rr_orphans :: "string list"

definition is_clean :: "reconciliation_report \<Rightarrow> bool" where
  "is_clean r \<longleftrightarrow> rr_discrepancies r = [] \<and> rr_orphans r = []"

definition by_kind :: "discrepancy list \<Rightarrow> string list dict" where
  "by_kind ds = fold (\<lambda>d m. let k = kind_value (d_kind d); nm = (if d_symbol d = [] then ''account'' else d_symbol d)
      in dict_set k (dict_get_or m k [] @ [nm]) m) ds []"

definition summary :: "reconciliation_report \<Rightarrow> string" where
  "summary r =
     (if is_clean r then ''clean''
      else
        let m = by_kind (rr_discrepancies r);
            parts = map (\<lambda>k. k @ '': '' @ str_join '', '' (str_sort (dict_get_or m k []))) (str_sort (dict_keys m));
            orphans = (if rr_orphans r \<noteq> [] then [''orphan orders: '' @ str_join '', '' (str_sort (rr_orphans r))] else [])
        in str_join '' | '' (parts @ orphans))"

record venue_view =
  vv_positions :: "position list"
  vv_orders :: "order list"
  vv_cash :: dec

definition our_quantities :: "portfolio \<Rightarrow> dec dict" where
  "our_quantities pf = map (\<lambda>(s, p). (s, p_qty p)) (filter (\<lambda>(s, p). \<not> is_flat p) (pf_positions pf))"

definition their_quantities :: "position list \<Rightarrow> dec dict" where
  "their_quantities ps = fold (\<lambda>p m. dict_set (p_symbol p) (p_qty p) m) ps []"

definition position_discrepancies :: "dec dict \<Rightarrow> position list \<Rightarrow> discrepancy list" where
  "position_discrepancies ours ps =
     (let theirs = their_quantities ps;
          symbols = str_sort (remdups (dict_keys theirs @ dict_keys ours))
      in concat (map (\<lambda>s.
           let tq = dict_get_or theirs s 0; oq = dict_get_or ours s 0 in
           if tq = oq then []
           else [\<lparr>d_kind = (if oq = 0 then MISSING_POSITION else if tq = 0 then UNKNOWN_POSITION else POSITION_QTY),
                  d_symbol = s, d_ours = Some oq, d_theirs = Some tq\<rparr>]) symbols))"

definition cash_discrepancies :: "dec \<Rightarrow> dec \<Rightarrow> dec \<Rightarrow> discrepancy list" where
  "cash_discrepancies ours theirs tolerance =
     (let drift = dsub ours theirs in
      if dabs drift \<le> tolerance then []
      else [\<lparr>d_kind = CASH, d_symbol = [], d_ours = Some ours, d_theirs = Some theirs\<rparr>])"

definition orphan_orders :: "order list \<Rightarrow> order list \<Rightarrow> order list" where
  "orphan_orders known os = filter (\<lambda>w. o_client_id w \<notin> set (map o_client_id known)) os"

definition compare_report :: "ts \<Rightarrow> portfolio \<Rightarrow> order list \<Rightarrow> dec \<Rightarrow> venue_view \<Rightarrow> reconciliation_report" where
  "compare_report now pf known tolerance v =
     (let orphans = orphan_orders known (vv_orders v) in
      \<lparr>rr_checked_at = now,
       rr_discrepancies = position_discrepancies (our_quantities pf) (vv_positions v)
          @ cash_discrepancies (pf_cash pf) (vv_cash v) tolerance
          @ map (\<lambda>w. \<lparr>d_kind = ORPHAN_ORDER, d_symbol = o_symbol w, d_ours = None, d_theirs = Some (o_qty w)\<rparr>) orphans,
       rr_orphans = map o_client_id orphans\<rparr>)"

text \<open>One instant: our book and the orders we know of, and what the venue then answers.\<close>

record reading =
  rd_book :: portfolio
  rd_known :: "order list"
  rd_venue :: "exn + venue_view"

definition compare_books ::
  "ts \<Rightarrow> dec \<Rightarrow> bool \<Rightarrow> reading \<Rightarrow> (exn + reconciliation_report) \<times> halt_request list" where
  "compare_books now tolerance halt_on r =
     (case rd_venue r of
        Inr v \<Rightarrow> (Inr (compare_report now (rd_book r) (rd_known r) tolerance v), [])
      | Inl e \<Rightarrow>
          (Inl e,
           if is_broker_error e \<and> halt_on then [\<lparr>hq_scope = GLOBAL, hq_reason = BROKER_UNREACHABLE, hq_by = ''reconciler'',
                             hq_detail = ''could not read the book of the broker'', hq_unproven = []\<rparr>] else []))"

definition mismatch_halt :: "reconciliation_report \<Rightarrow> halt_request" where
  "mismatch_halt r =
     \<lparr>hq_scope = GLOBAL, hq_reason = RECONCILIATION_MISMATCH, hq_by = ''reconciler'', hq_detail = summary r,
      hq_unproven = str_sort (remdups (map d_symbol
         (filter (\<lambda>d. impugns_position (d_kind d) \<and> d_symbol d \<noteq> []) (rr_discrepancies r))))\<rparr>"

text \<open>\<open>reconcile\<close> after the fees are settled; \<open>settle\<close> says that \<open>settle_seconds\<close> is positive.\<close>

definition reconcile ::
  "ts \<Rightarrow> dec \<Rightarrow> bool \<Rightarrow> bool \<Rightarrow> reading \<Rightarrow> reading \<Rightarrow> (exn + reconciliation_report) \<times> halt_request list" where
  "reconcile now tolerance halt_on settle r1 r2 =
     (case compare_books now tolerance halt_on r1 of
        (Inl e, hs) \<Rightarrow> (Inl e, hs)
      | (Inr rep1, _) \<Rightarrow>
          if is_clean rep1 then (Inr rep1, [])
          else (case (if settle then compare_books now tolerance halt_on r2 else (Inr rep1, [])) of
                  (Inl e, hs) \<Rightarrow> (Inl e, hs)
                | (Inr rep, _) \<Rightarrow>
                    (Inr rep, if is_clean rep \<or> \<not> halt_on then [] else [mismatch_halt rep])))"

definition adopt_broker_state :: "venue_view \<Rightarrow> portfolio \<Rightarrow> portfolio" where
  "adopt_broker_state v pf =
     pf\<lparr>pf_positions := fold (\<lambda>p m. dict_set (p_symbol p) p m) (filter (\<lambda>p. \<not> is_flat p) (vv_positions v)) [],
        pf_cash := vv_cash v\<rparr>"

section \<open>Fees\<close>

record fee_activity =
  fa_id :: string
  fa_booked_on :: int
  fa_amount :: dec

type_synonym fee_ledger = "(run_mode \<times> dec) dict"

definition ledger_total :: "run_mode \<Rightarrow> fee_ledger \<Rightarrow> dec" where
  "ledger_total m L = sum_list (map snd (filter (\<lambda>r. fst r = m) (dict_values L)))"

definition record_seen :: "run_mode \<Rightarrow> fee_activity list \<Rightarrow> fee_ledger \<Rightarrow> dec \<times> fee_ledger" where
  "record_seen m fees L =
     (let by_id = fold (\<lambda>f d. dict_set (fa_id f) f d) fees [];
          L1 = fold (\<lambda>f d. dict_setdefault (fa_id f) (m, fa_amount f) d) (dict_values by_id) L
      in (ledger_total m L1, L1))"

record fee_settlement =
  fs_total :: dec
  fs_applied :: "fee_activity list"

definition no_settlement :: fee_settlement where
  "no_settlement = \<lparr>fs_total = 0, fs_applied = []\<rparr>"

definition lookback_floor :: "int \<Rightarrow> int \<Rightarrow> int" where
  "lookback_floor today lookback_days = today - max lookback_days 0"

text \<open>\<open>feed\<close> is what the venue answers for the days since the lookback floor, or a failure.\<close>

definition settle_broker_fees ::
  "run_mode \<Rightarrow> (int \<Rightarrow> exn + fee_activity list) \<Rightarrow> int \<Rightarrow> int \<Rightarrow> portfolio \<Rightarrow> fee_ledger
     \<Rightarrow> fee_settlement \<times> portfolio \<times> fee_ledger" where
  "settle_broker_fees m feed today lookback_days pf L =
     (case feed (lookback_floor today lookback_days) of
        Inl _ \<Rightarrow> (no_settlement, pf, L)
      | Inr charged \<Rightarrow>
          let (total_seen, L1) = record_seen m charged L;
              owed = dsub total_seen (pf_fees_settled pf)
          in if owed = 0 then (no_settlement, pf, L1)
             else (\<lparr>fs_total = owed, fs_applied = charged\<rparr>,
                   pf\<lparr>pf_cash := dsub (pf_cash pf) owed, pf_fees_settled := total_seen\<rparr>, L1))"

section \<open>Comparing\<close>

lemma dict_get_our: "dict_ok (pf_positions pf) \<Longrightarrow> dict_get_or (our_quantities pf) s 0 =
    (case dict_get (pf_positions pf) s of None \<Rightarrow> 0 | Some p \<Rightarrow> p_qty p)"
proof -
  have "dict_ok d \<Longrightarrow> dict_get (map (\<lambda>(s, p). (s, p_qty p)) (filter (\<lambda>(s, p). \<not> is_flat p) d)) s
     = (case dict_get d s of None \<Rightarrow> None | Some p \<Rightarrow> if is_flat p then None else Some (p_qty p))" for d
  proof (induction d)
    case (Cons x d)
    obtain k p where x: "x = (k, p)" by (cases x)
    have "dict_ok d" "dict_get d k = None"
      using Cons.prems dict_keys_get [of k d] by (auto simp: dict_ok_def dict_keys_def x)
    with Cons.IH show ?case by (auto simp: x dict_get_Cons split: option.splits)
  qed simp
  then show "dict_ok (pf_positions pf) \<Longrightarrow> ?thesis"
    by (auto simp: our_quantities_def dict_get_or_def is_flat_def split: option.splits)
qed

lemma dict_keys_or: "s \<notin> set (dict_keys d) \<Longrightarrow> dict_get_or d s x = x"
  by (simp add: dict_keys_get dict_get_or_def)

lemma position_discrepancies_set:
  "position_discrepancies ours ps = [] \<longleftrightarrow> (\<forall>s. dict_get_or (their_quantities ps) s 0 = dict_get_or ours s 0)"
  "d_symbol ` set (position_discrepancies ours ps) = {s. dict_get_or (their_quantities ps) s 0 \<noteq> dict_get_or ours s 0}"
  "\<forall>d \<in> set (position_discrepancies ours ps). impugns_position (d_kind d)"
proof -
  have eq: "dict_get_or (their_quantities ps) s 0 = dict_get_or ours s 0"
    if "s \<notin> set (dict_keys (their_quantities ps) @ dict_keys ours)" for s
    using that by (simp add: dict_keys_or)
  then show "d_symbol ` set (position_discrepancies ours ps) = {s. dict_get_or (their_quantities ps) s 0 \<noteq> dict_get_or ours s 0}"
    by (force simp: position_discrepancies_def Let_def)
  show "position_discrepancies ours ps = [] \<longleftrightarrow> (\<forall>s. dict_get_or (their_quantities ps) s 0 = dict_get_or ours s 0)"
    using eq by (auto simp: position_discrepancies_def Let_def)
  show "\<forall>d \<in> set (position_discrepancies ours ps). impugns_position (d_kind d)"
    by (auto simp: position_discrepancies_def Let_def impugns_position_def)
qed

definition venue_qty :: "venue_view \<Rightarrow> string \<Rightarrow> dec" where
  "venue_qty v s = dict_get_or (their_quantities (vv_positions v)) s 0"

definition book_qty :: "portfolio \<Rightarrow> string \<Rightarrow> dec" where
  "book_qty pf s = (case dict_get (pf_positions pf) s of None \<Rightarrow> 0 | Some p \<Rightarrow> p_qty p)"

definition books_agree :: "portfolio \<Rightarrow> order list \<Rightarrow> dec \<Rightarrow> venue_view \<Rightarrow> bool" where
  "books_agree pf known tolerance v \<longleftrightarrow>
     (\<forall>s. venue_qty v s = book_qty pf s) \<and> dabs (dsub (pf_cash pf) (vv_cash v)) \<le> tolerance
     \<and> (\<forall>w \<in> set (vv_orders v). o_client_id w \<in> set (map o_client_id known))"

lemma compare_clean:
  assumes "dict_ok (pf_positions pf)"
  shows "is_clean (compare_report now pf known tolerance v) \<longleftrightarrow> books_agree pf known tolerance v"
  using dict_get_our [OF assms]
  by (auto simp: is_clean_def compare_report_def books_agree_def venue_qty_def book_qty_def Let_def
      position_discrepancies_set cash_discrepancies_def orphan_orders_def filter_empty_conv)

lemma unproven_of_report:
  assumes "dict_ok (pf_positions pf)"
  shows "set (hq_unproven (mismatch_halt (compare_report now pf known tolerance v)))
    = {s. s \<noteq> [] \<and> venue_qty v s \<noteq> book_qty pf s}"
proof -
  have "set (hq_unproven (mismatch_halt (compare_report now pf known tolerance v)))
      = d_symbol ` set (position_discrepancies (our_quantities pf) (vv_positions v)) - {[]}"
    using position_discrepancies_set(3) [of "our_quantities pf" "vv_positions v"]
    by (auto simp: mismatch_halt_def compare_report_def Let_def cash_discrepancies_def impugns_position_def
        split: if_splits)
  then show ?thesis
    using dict_get_our [OF assms] by (auto simp: position_discrepancies_set venue_qty_def book_qty_def)
qed

text \<open>
  C16. A reconcile halts on a divergence that survives one re-read, and on nothing else: when the
  venue answers, a halt is asked for exactly when both readings disagree in some quantity, in cash
  beyond the tolerance, or in an order we do not know. It is one global halt, and the symbols it
  declares unproven are exactly those whose quantities differ in the second reading.
\<close>

theorem reconcile_halts_exactly:
  assumes "reconcile now tolerance True True r1 r2 = (res, halts)"
    "rd_venue r1 = Inr v1" "rd_venue r2 = Inr v2"
    "dict_ok (pf_positions (rd_book r1))" "dict_ok (pf_positions (rd_book r2))"
  shows "(halts = [] \<longleftrightarrow> books_agree (rd_book r1) (rd_known r1) tolerance v1
                      \<or> books_agree (rd_book r2) (rd_known r2) tolerance v2)
    \<and> (\<forall>h \<in> set halts. halts = [h] \<and> hq_scope h = GLOBAL \<and> hq_reason h = RECONCILIATION_MISMATCH
         \<and> set (hq_unproven h) = {s. s \<noteq> [] \<and> venue_qty v2 s \<noteq> book_qty (rd_book r2) s})
    \<and> (\<exists>rep. res = Inr rep \<and> (halts = [] \<longleftrightarrow> is_clean rep))"
proof -
  define p1 p2 where "p1 = compare_report now (rd_book r1) (rd_known r1) tolerance v1"
    and "p2 = compare_report now (rd_book r2) (rd_known r2) tolerance v2"
  have c: "is_clean p1 \<longleftrightarrow> books_agree (rd_book r1) (rd_known r1) tolerance v1"
    "is_clean p2 \<longleftrightarrow> books_agree (rd_book r2) (rd_known r2) tolerance v2"
    using compare_clean [OF assms(4)] compare_clean [OF assms(5)] by (simp_all add: p1_def p2_def)
  have "(res, halts) = (if is_clean p1 then (Inr p1, []) else (Inr p2, if is_clean p2 then [] else [mismatch_halt p2]))"
    using assms(2,3) unfolding assms(1) [symmetric] by (simp add: reconcile_def compare_books_def p1_def p2_def)
  moreover have "set (hq_unproven (mismatch_halt p2)) = {s. s \<noteq> [] \<and> venue_qty v2 s \<noteq> book_qty (rd_book r2) s}"
    unfolding p2_def by (rule unproven_of_report [OF assms(5)])
  moreover have "hq_scope (mismatch_halt p2) = GLOBAL" "hq_reason (mismatch_halt p2) = RECONCILIATION_MISMATCH"
    by (simp_all add: mismatch_halt_def)
  ultimately show ?thesis using c by (auto split: if_splits)
qed

definition sample_reading :: "dec \<Rightarrow> dec \<Rightarrow> reading" where
  "sample_reading ours theirs =
     \<lparr>rd_book = \<lparr>pf_cash = 100, pf_starting_equity = 100, pf_fees_settled = 0,
        pf_positions = [(''SPY'', (new_position ''SPY'')\<lparr>p_qty := ours\<rparr>)], pf_equity_curve = []\<rparr>,
      rd_known = [], rd_venue = Inr \<lparr>vv_positions = [(new_position ''SPY'')\<lparr>p_qty := theirs\<rparr>], vv_orders = [], vv_cash = 100\<rparr>\<rparr>"

theorem reconcile_halts_exactly_witness:
  "\<exists>res h. reconcile 0 1 True True (sample_reading 5 5) (sample_reading 5 5) = (res, [])
     \<and> reconcile 0 1 True True (sample_reading 5 7) (sample_reading 5 6) = (snd h, [fst h])
     \<and> ''SPY'' \<in> set (hq_unproven (fst h))"
proof -
  have book: "rd_venue (sample_reading a b) = Inr \<lparr>vv_positions = [(new_position ''SPY'')\<lparr>p_qty := b\<rparr>], vv_orders = [], vv_cash = 100\<rparr>"
    "dict_ok (pf_positions (rd_book (sample_reading a b)))" "rd_known (sample_reading a b) = []" for a b
    by (simp_all add: sample_reading_def dict_ok_def dict_keys_def)
  have agree: "books_agree (rd_book (sample_reading a b)) [] 1
      \<lparr>vv_positions = [(new_position ''SPY'')\<lparr>p_qty := b\<rparr>], vv_orders = [], vv_cash = 100\<rparr> \<longleftrightarrow> b = a" for a b
    by (auto simp: books_agree_def sample_reading_def venue_qty_def book_qty_def their_quantities_def dict_get_Cons
        dict_get_or_def dec_ops)
  obtain res1 hs1 where 1: "reconcile 0 1 True True (sample_reading 5 5) (sample_reading 5 5) = (res1, hs1)"
    by (cases "reconcile 0 1 True True (sample_reading 5 5) (sample_reading 5 5)")
  obtain res2 hs2 where 2: "reconcile 0 1 True True (sample_reading 5 7) (sample_reading 5 6) = (res2, hs2)"
    by (cases "reconcile 0 1 True True (sample_reading 5 7) (sample_reading 5 6)")
  have "hs1 = []" using reconcile_halts_exactly [OF 1 book(1) book(1) book(2) book(2)] agree book(3) by simp
  note H = reconcile_halts_exactly [OF 2 book(1) book(1) book(2) book(2)]
  have "hs2 \<noteq> []" using H agree book(3) by simp
  then obtain h hs where hs: "hs2 = h # hs" by (cases hs2) auto
  then have "h \<in> set hs2" by simp
  note H2 = bspec [OF conjunct1 [OF conjunct2 [OF H]] this]
  have "hs2 = [h]" and un: "set (hq_unproven h) =
      {s. s \<noteq> [] \<and> venue_qty \<lparr>vv_positions = [(new_position ''SPY'')\<lparr>p_qty := 6\<rparr>], vv_orders = [], vv_cash = 100\<rparr> s
                   \<noteq> book_qty (rd_book (sample_reading 5 6)) s}"
    using H2 by blast+
  moreover have "''SPY'' \<in> set (hq_unproven h)"
    unfolding un by (simp add: venue_qty_def book_qty_def their_quantities_def sample_reading_def dict_get_Cons dict_get_or_def)
  ultimately have "hs2 = [h]" "''SPY'' \<in> set (hq_unproven h)" by blast+
  with 1 2 \<open>hs1 = []\<close> show ?thesis by (intro exI [of _ res1] exI [of _ "(h, res2)"]) simp
qed

lemma fold_set_get:
  "dict_get (fold (\<lambda>p m. dict_set (k p) (v p) m) ps m) s =
     (case find (\<lambda>p. k p = s) (rev ps) of Some p \<Rightarrow> Some (v p) | None \<Rightarrow> dict_get m s)"
  by (induction ps arbitrary: m) (auto simp: find_append split: option.splits)

text \<open>
  Adopting the venue's book ends every disagreement with it: afterwards each quantity is the
  venue's and so is the cash, for whatever book we held before.
\<close>

theorem adopting_agrees:
  assumes "distinct (map p_symbol (vv_positions v))"
    "\<forall>w \<in> set (vv_orders v). o_client_id w \<in> set (map o_client_id known)" "0 \<le> tolerance"
  shows "books_agree (adopt_broker_state v pf) known tolerance v"
proof -
  have fnd: "find (\<lambda>p. p_symbol p = s) (rev (filter (\<lambda>p. \<not> is_flat p) ps))
      = (case find (\<lambda>p. p_symbol p = s) (rev ps) of None \<Rightarrow> None | Some p \<Rightarrow> if is_flat p then None else Some p)"
    if "distinct (map p_symbol ps)" for ps s
    using that
  proof (induction ps)
    case (Cons p ps)
    have "find (\<lambda>p. p_symbol p = s) (rev ps) = None" if "p_symbol p = s"
      using Cons.prems that by (fastforce simp: find_None_iff image_iff)
    with Cons show ?case by (auto simp: find_append split: option.splits)
  qed simp
  have "venue_qty v s = book_qty (adopt_broker_state v pf) s" for s
    using fnd [OF assms(1), of s]
    by (auto simp: venue_qty_def book_qty_def adopt_broker_state_def their_quantities_def dict_get_or_def
        fold_set_get is_flat_def split: option.splits)
  then show ?thesis using assms(2,3) by (simp add: books_agree_def adopt_broker_state_def dsub_def dabs_def)
qed

theorem adopting_agrees_witness:
  "books_agree (adopt_broker_state \<lparr>vv_positions = [(new_position ''SPY'')\<lparr>p_qty := 7\<rparr>], vv_orders = [], vv_cash = 50\<rparr>
     (rd_book (sample_reading 5 5))) [] 1 \<lparr>vv_positions = [(new_position ''SPY'')\<lparr>p_qty := 7\<rparr>], vv_orders = [], vv_cash = 50\<rparr>"
  by (rule adopting_agrees) simp_all

section \<open>Settling fees\<close>

lemma setdefault_keeps: "dict_get d k = Some x \<Longrightarrow> dict_get (dict_setdefault j v d) k = Some x"
  by (auto simp: dict_get_or_def)

lemma setdefault_same: "dict_get d k \<noteq> None \<Longrightarrow> dict_setdefault k v d = d"
  by (auto simp: dict_setdefault_def)

lemma fold_setdefault_same:
  "\<forall>f \<in> set fs. dict_get d (k f) \<noteq> None \<Longrightarrow> fold (\<lambda>f d. dict_setdefault (k f) (v f) d) fs d = d"
  by (induction fs) (simp_all add: setdefault_same)

lemma fold_setdefault_dom:
  "(dict_get (fold (\<lambda>f d. dict_setdefault (k f) (v f) d) fs d) j \<noteq> None) =
     (dict_get d j \<noteq> None \<or> (\<exists>f \<in> set fs. k f = j))"
  by (induction fs arbitrary: d) auto

lemma values_of_fold_set:
  "set (dict_values (fold (\<lambda>f d. dict_set (k f) f d) fs [])) \<subseteq> set fs"
proof -
  have "\<forall>x \<in> set (fold (\<lambda>f d. dict_set (k f) f d) fs d). x \<in> set d \<or> snd x \<in> set fs" for d
  proof (induction fs arbitrary: d)
    case (Cons f fs)
    have "\<forall>x \<in> set (dict_set (k f) f d). x \<in> set d \<or> snd x = f"
      unfolding dict_set_def by (induction d) auto
    with Cons [of "dict_set (k f) f d"] show ?case by auto
  qed simp
  from this [of "[]"] show ?thesis by (auto simp: dict_values_def)
qed

lemma record_seen_again:
  assumes "\<forall>f \<in> set fees. dict_get L (fa_id f) \<noteq> None"
  shows "record_seen m fees L = (ledger_total m L, L)"
proof -
  have "fold (\<lambda>f d. dict_setdefault (fa_id f) (m, fa_amount f) d)
      (dict_values (fold (\<lambda>f d. dict_set (fa_id f) f d) fees [])) L = L"
    by (rule fold_setdefault_same) (use assms values_of_fold_set [of fa_id fees] in blast)
  then show ?thesis by (simp add: record_seen_def Let_def)
qed

lemma record_seen_total: "fst (record_seen m fees L) = ledger_total m (snd (record_seen m fees L))"
  by (simp add: record_seen_def Let_def)

text \<open>
  Each fee is charged once. A settlement moves cash and the settled figure together and brings
  the latter to the ledger's total; once it has, offering the same charges again, or any charges the
  ledger has already recorded, moves nothing; and a settlement whose book was lost before it was
  stored, while the ledger's rows were kept, is derived again to the same book.
\<close>

theorem fees_charged_once:
  assumes "settle_broker_fees m feed today days pf L = (st, pf1, L1)" "feed (lookback_floor today days) = Inr charged"
    and "exact28 (ledger_total m L1 - pf_fees_settled pf)" "exact28 (pf_cash pf - (ledger_total m L1 - pf_fees_settled pf))"
  shows "pf_cash pf1 + pf_fees_settled pf1 = pf_cash pf + pf_fees_settled pf
    \<and> pf_fees_settled pf1 = ledger_total m L1 \<and> pf_positions pf1 = pf_positions pf
    \<and> (\<forall>feed2 today2 days2 c2. feed2 (lookback_floor today2 days2) = Inr c2 \<and> (\<forall>f \<in> set c2. dict_get L1 (fa_id f) \<noteq> None)
         \<longrightarrow> settle_broker_fees m feed2 today2 days2 pf1 L1 = (no_settlement, pf1, L1))
    \<and> (\<forall>f \<in> set charged. dict_get L1 (fa_id f) \<noteq> None)
    \<and> settle_broker_fees m feed today days pf L1 = (st, pf1, L1)"
proof -
  define owed where "owed = ledger_total m L1 - pf_fees_settled pf"
  obtain total where seen: "record_seen m charged L = (total, L1)"
    using assms(1,2) by (auto simp: settle_broker_fees_def Let_def split: prod.splits if_splits)
  have total: "total = ledger_total m L1" using record_seen_total [of m charged L] seen by simp
  have d: "dsub total (pf_fees_settled pf) = owed" "dsub (pf_cash pf) owed = pf_cash pf - owed"
    using assms(3,4) by (simp_all add: dsub_def owed_def total rnd_exact)
  have step: "settle_broker_fees m feed today days pf L0 =
      (if owed = 0 then (no_settlement, pf, L1)
       else (\<lparr>fs_total = owed, fs_applied = charged\<rparr>,
             pf\<lparr>pf_cash := pf_cash pf - owed, pf_fees_settled := total\<rparr>, L1))"
    if "record_seen m charged L0 = (total, L1)" for L0
    using that assms(2) d by (simp add: settle_broker_fees_def)
  have dom: "\<forall>f \<in> set charged. dict_get L1 (fa_id f) \<noteq> None"
  proof
    fix f assume f: "f \<in> set charged"
    let ?by = "fold (\<lambda>f d. dict_set (fa_id f) f d) charged []"
    have "find (\<lambda>g. fa_id g = fa_id f) (rev charged) \<noteq> None" using f by (auto simp: find_None_iff)
    then obtain g where g: "find (\<lambda>g. fa_id g = fa_id f) (rev charged) = Some g" by blast
    have "dict_get ?by (fa_id f) = Some g" "fa_id g = fa_id f"
      using g by (simp_all add: fold_set_get [where v = "\<lambda>g. g"]) (auto simp: find_Some_iff)
    then have "\<exists>g \<in> set (dict_values ?by). fa_id g = fa_id f"
      by (force simp: dict_values_def dest!: dict_get_mem)
    moreover have "L1 = fold (\<lambda>f d. dict_setdefault (fa_id f) (m, fa_amount f) d) (dict_values ?by) L"
      using seen by (simp add: record_seen_def Let_def)
    ultimately show "dict_get L1 (fa_id f) \<noteq> None" by (simp only: fold_setdefault_dom) blast
  qed
  have again: "settle_broker_fees m feed today days pf L1 = (st, pf1, L1)"
    using step [OF seen] step [OF record_seen_again [OF dom, of m, folded total]] assms(1) by simp
  have pf1: "pf1 = (if owed = 0 then pf else pf\<lparr>pf_cash := pf_cash pf - owed, pf_fees_settled := total\<rparr>)"
    using step [OF seen] assms(1) by (auto split: if_splits)
  have settled: "pf_fees_settled pf1 = ledger_total m L1" using pf1 total by (auto simp: owed_def)
  have "settle_broker_fees m feed2 today2 days2 pf1 L1 = (no_settlement, pf1, L1)"
    if "feed2 (lookback_floor today2 days2) = Inr c2" "\<forall>f \<in> set c2. dict_get L1 (fa_id f) \<noteq> None" for feed2 today2 days2 c2
    using that record_seen_again [OF that(2), of m] settled by (simp add: settle_broker_fees_def dsub_def)
  with dom again settled pf1 show ?thesis by (auto simp: owed_def total)
qed

definition sample_fee :: fee_activity where
  "sample_fee = \<lparr>fa_id = ''a1'', fa_booked_on = 0, fa_amount = 414 / 100\<rparr>"

theorem fees_charged_once_witness:
  "\<exists>st pf1 L1. settle_broker_fees PAPER (\<lambda>_. Inr [sample_fee]) 10 30 (rd_book (sample_reading 5 5)) [] = (st, pf1, L1)
     \<and> pf_cash pf1 = 9586 / 100 \<and> settle_broker_fees PAPER (\<lambda>_. Inr [sample_fee]) 11 30 pf1 L1 = (no_settlement, pf1, L1)"
proof -
  let ?pf = "rd_book (sample_reading 5 5)" and ?feed = "\<lambda>_::int. Inr [sample_fee] :: exn + fee_activity list"
  obtain st pf1 L1 where s: "settle_broker_fees PAPER ?feed 10 30 ?pf [] = (st, pf1, L1)"
    by (cases "settle_broker_fees PAPER ?feed 10 30 ?pf []")
  have L1: "L1 = [(''a1'', (PAPER, 414 / 100))]" "pf_cash pf1 = 9586 / 100"
    using s by (auto simp: settle_broker_fees_def record_seen_def ledger_total_def sample_fee_def sample_reading_def
        dict_set_new dict_values_def dict_setdefault_def dec_ops Let_def split: if_splits)
  have "exact28 (ledger_total PAPER L1 - pf_fees_settled ?pf)"
    "exact28 (pf_cash ?pf - (ledger_total PAPER L1 - pf_fees_settled ?pf))"
    by (simp_all add: L1 ledger_total_def dict_values_def sample_reading_def exact28_def)
  note F = fees_charged_once [OF s refl this]
  have "\<forall>f \<in> set [sample_fee]. dict_get L1 (fa_id f) \<noteq> None" by (simp add: L1 sample_fee_def dict_get_Cons)
  with F have "settle_broker_fees PAPER ?feed 11 30 pf1 L1 = (no_settlement, pf1, L1)"
    by (metis (no_types, lifting))
  with s L1 show ?thesis by (intro exI [of _ st] exI [of _ pf1] exI [of _ L1]) simp
qed

text \<open>
  The ledger's key is the activity id alone, while an id is unique only inside one run mode: a
  charge of one mode whose id the other mode has already recorded is never recorded, and its amount
  never reaches cash.
\<close>

theorem fee_id_of_other_mode_is_lost:
  assumes "dict_get L (fa_id f) = Some (PAPER, a)" "feed (lookback_floor today days) = Inr [f]"
    and "ledger_total LIVE L = pf_fees_settled pf"
  shows "settle_broker_fees LIVE feed today days pf L = (no_settlement, pf, L)"
proof -
  have "record_seen LIVE [f] L = (ledger_total LIVE L, L)" by (rule record_seen_again) (simp add: assms(1))
  then show ?thesis using assms(2,3) by (simp add: settle_broker_fees_def dsub_def)
qed

theorem fee_id_of_other_mode_is_lost_witness:
  "settle_broker_fees LIVE (\<lambda>_. Inr [sample_fee]) 10 30 (rd_book (sample_reading 5 5)) [(''a1'', (PAPER, 1))]
     = (no_settlement, rd_book (sample_reading 5 5), [(''a1'', (PAPER, 1))])"
  by (rule fee_id_of_other_mode_is_lost [where f = sample_fee and a = 1])
    (simp_all add: sample_fee_def dict_get_Cons ledger_total_def dict_values_def sample_reading_def)

end
