(* ===== verification/Idempotency.thy ===== *)
theory Idempotency
  imports Orders Datetimes
begin

text \<open>
  \<open>execution/idempotency.py\<close>: the key a venue deduplicates on, as a digest of the decision. The hash
  is a parameter, \<open>hex\<close>, for \<open>sha256(text.encode("utf-8")).hexdigest()\<close>; the text that is hashed is
  modelled to the character. Two decisions have the same text only when they are the same decision.
\<close>

definition PREFIX :: string where "PREFIX = ''atp-''"
definition DIGEST_CHARS :: nat where "DIGEST_CHARS = 24"
definition SEP :: string where "SEP = [CHR 0x1F]"

definition PURPOSE_ENTRY :: string where "PURPOSE_ENTRY = ''entry''"
definition PURPOSE_EXIT :: string where "PURPOSE_EXIT = ''exit''"
definition PURPOSE_FLATTEN :: string where "PURPOSE_FLATTEN = ''flatten''"
definition PURPOSE_STOP_LOSS :: string where "PURPOSE_STOP_LOSS = ''stop_loss''"
definition PURPOSE_TAKE_PROFIT :: string where "PURPOSE_TAKE_PROFIT = ''take_profit''"
definition PURPOSE_TIME_EXIT :: string where "PURPOSE_TIME_EXIT = ''time_exit''"
definition PURPOSE_MANUAL :: string where "PURPOSE_MANUAL = ''manual''"
definition UNKNOWN_PURPOSE :: string where "UNKNOWN_PURPOSE = ''unknown''"

definition digest :: "(string \<Rightarrow> string) \<Rightarrow> string list \<Rightarrow> string" where
  "digest hex parts = PREFIX @ take DIGEST_CHARS (hex (str_join SEP parts))"

text \<open>\<open>s or ""\<close> of an optional string.\<close>

definition or_empty :: "string option \<Rightarrow> string" where
  "or_empty s = (case s of None \<Rightarrow> [] | Some x \<Rightarrow> x)"

definition client_key_parts :: "string \<Rightarrow> side \<Rightarrow> ts \<Rightarrow> string option \<Rightarrow> string \<Rightarrow> string list" where
  "client_key_parts sm sd t sid purpose =
     [or_empty sid, str_upper sm, side_value sd, purpose, isoformat t]"

text \<open>\<open>aware\<close> says whether the datetime carries a time zone, as in \<open>new_order_request\<close>.\<close>

definition client_order_id ::
  "(string \<Rightarrow> string) \<Rightarrow> bool \<Rightarrow> string \<Rightarrow> side \<Rightarrow> ts \<Rightarrow> string option \<Rightarrow> string \<Rightarrow> exn + string" where
  "client_order_id hex aware sm sd t sid purpose =
     (if \<not> aware then Inl (value_error ''client_order_id needs a tz-aware decided_at'')
      else if sm = [] then Inl (value_error ''client_order_id needs a symbol'')
      else if purpose = [] then Inl (value_error ''client_order_id needs a purpose'')
      else Inr (digest hex (client_key_parts sm sd t sid purpose)))"

text \<open>
  \<open>str(x.normalize())\<close>: the coefficient without trailing zeros, written plainly when the exponent
  is not positive and the leading digit is at most six places after the point, and with an
  exponent otherwise.
\<close>

function decimal_places :: "int \<Rightarrow> nat" where
  "decimal_places q = (if q \<le> 1 \<or> gcd q 10 = 1 then 0 else Suc (decimal_places (q div gcd q 10)))"
  by auto
termination
proof (relation "measure nat")
  fix q :: int
  assume "\<not> (q \<le> 1 \<or> gcd q 10 = 1)"
  then have q: "1 < q" and g: "gcd q 10 \<noteq> 1" by (auto simp: coprime_iff_gcd_eq_1)
  have "0 < gcd q 10" by simp
  with g have "1 < gcd q 10" by linarith
  with q have "q div gcd q 10 < q" by (intro int_div_less_self) (use q in auto)
  with q show "(q div gcd q 10, q) \<in> measure nat" by simp
qed simp

declare decimal_places.simps [simp del]

fun trailing_zeros :: "nat \<Rightarrow> nat" where
  "trailing_zeros n = (if n = 0 \<or> n mod 10 \<noteq> 0 then 0 else Suc (trailing_zeros (n div 10)))"

declare trailing_zeros.simps [simp del]

definition coefficient_exponent :: "dec \<Rightarrow> nat \<times> int" where
  "coefficient_exponent x =
     (let (p, q) = quotient_of \<bar>x\<bar>; k = decimal_places q in
      if 0 < k then (nat \<lfloor>\<bar>x\<bar> * 10 ^ k\<rfloor>, - int k)
      else (nat p div 10 ^ trailing_zeros (nat p), int (trailing_zeros (nat p))))"

definition int_str :: "int \<Rightarrow> string" where
  "int_str n = (if n < 0 then ''-'' else ''+'') @ nat_digits (nat \<bar>n\<bar>)"

definition dec_str :: "nat \<times> int \<Rightarrow> string" where
  "dec_str ce =
     (let (c, e) = ce; ds = nat_digits c; left = e + int (length ds);
          place = (if e \<le> 0 \<and> - 6 < left then left else 1);
          body = (if place \<le> 0 then ''0.'' @ replicate (nat (- place)) (CHR ''0'') @ ds
                  else if int (length ds) \<le> place then ds @ replicate (nat (place - int (length ds))) (CHR ''0'')
                  else take (nat place) ds @ ''.'' @ drop (nat place) ds)
      in body @ (if left = place then [] else ''E'' @ int_str (left - place)))"

definition normalized_str :: "dec \<Rightarrow> string" where
  "normalized_str x =
     (let y = rnd x in (if y < 0 then ''-'' else []) @ dec_str (if y = 0 then (0, 0) else coefficient_exponent y))"

definition protective_key_parts :: "string \<Rightarrow> string \<Rightarrow> dec \<Rightarrow> dec \<Rightarrow> nat \<Rightarrow> string list" where
  "protective_key_parts parent purpose covered_from covered_to attempt =
     [parent, purpose, normalized_str covered_from, normalized_str covered_to]
     @ (if attempt = 0 then [] else [''attempt='' @ nat_digits attempt])"

definition protective_client_order_id ::
  "(string \<Rightarrow> string) \<Rightarrow> string \<Rightarrow> string \<Rightarrow> dec \<Rightarrow> dec \<Rightarrow> int \<Rightarrow> exn + string" where
  "protective_client_order_id hex parent purpose covered_from covered_to attempt =
     (if parent = [] then Inl (value_error ''a protective order needs the client_order_id of its parent'')
      else if purpose = [] then Inl (value_error ''a protective order needs a purpose'')
      else if covered_from < 0 then Inl (value_error ''a covered range starts at or after zero'')
      else if covered_to \<le> covered_from then Inl (value_error ''a protective order must cover something'')
      else if attempt < 0 then Inl (value_error ''a re-arm attempt counts up from zero'')
      else Inr (digest hex (protective_key_parts parent purpose covered_from covered_to (nat attempt))))"

text \<open>Joining on a character no field contains can be undone.\<close>

lemma split_at_sep:
  "x @ c # xs = y @ c # ys \<Longrightarrow> c \<notin> set x \<Longrightarrow> c \<notin> set y \<Longrightarrow> x = y \<and> xs = ys"
  by (induction x arbitrary: y) (auto simp: Cons_eq_append_conv)

lemma str_join_inj:
  "str_join [c] xs = str_join [c] ys \<Longrightarrow> xs \<noteq> [] \<Longrightarrow> ys \<noteq> []
     \<Longrightarrow> (\<forall>x \<in> set xs \<union> set ys. c \<notin> set x) \<Longrightarrow> xs = ys"
proof (induction "[c]" xs arbitrary: ys rule: str_join.induct)
  case (2 x)
  then show ?case by (cases ys rule: remdups_adj.cases) (auto simp: in_set_conv_decomp)
next
  case (3 x y xs)
  then obtain y1 y2 ys' where ys: "ys = y1 # y2 # ys'"
    by (cases ys rule: remdups_adj.cases) (auto simp: in_set_conv_decomp)
  with "3.prems" split_at_sep [of x c "str_join [c] (y # xs)" y1 "str_join [c] (y2 # ys')"]
  have "x = y1" "str_join [c] (y # xs) = str_join [c] (y2 # ys')" by auto
  with "3.hyps" [of "y2 # ys'"] "3.prems" ys show ?case by auto
qed auto

lemma pad_digits_plain: "CHR 0x1F \<notin> set (pad_digits k n)"
proof (induction k arbitrary: n)
  case (Suc k)
  have "char_of (48 + n mod 10) \<noteq> CHR 0x1F"
    by (rule notI, drule arg_cong [where f = "of_char :: char \<Rightarrow> nat"]) simp
  with Suc show ?case by auto
qed simp

lemma isoformat_plain: "CHR 0x1F \<notin> set (isoformat t)"
  by (simp add: isoformat_def iso_date_def iso_time_def Let_def pad_digits_plain split: prod.split)

text \<open>Free of the separator: a symbol, a strategy id, a purpose.\<close>

definition plain :: "string \<Rightarrow> bool" where
  "plain s \<longleftrightarrow> CHR 0x1F \<notin> set s"

lemma plain_upper: "plain s \<Longrightarrow> plain (str_upper s)"
proof -
  have "chr_upper c = CHR 0x1F \<Longrightarrow> c = CHR 0x1F" for c
    by (auto simp: chr_upper_def Let_def split: if_splits
        dest!: arg_cong [where f = "of_char :: char \<Rightarrow> nat" and y = "CHR 0x1F"])
  then show "plain s \<Longrightarrow> plain (str_upper s)" unfolding plain_def str_upper_def by (metis image_iff list.set_map)
qed

lemma client_key_parts_plain:
  assumes "plain (or_empty sid)" "plain sm" "plain purpose" "x \<in> set (client_key_parts sm sd t sid purpose)"
  shows "CHR 0x1F \<notin> set x"
  using assms plain_upper [of sm] isoformat_plain [of t]
  by (cases sd) (auto simp: client_key_parts_def plain_def)

lemma client_payload_inj:
  assumes "plain (or_empty sid)" "plain sm" "plain purpose" "plain (or_empty sid')" "plain sm'" "plain purpose'"
    and "representable t" "representable t'"
  shows "str_join SEP (client_key_parts sm sd t sid purpose) = str_join SEP (client_key_parts sm' sd' t' sid' purpose')
     \<longleftrightarrow> or_empty sid = or_empty sid' \<and> str_upper sm = str_upper sm' \<and> sd = sd' \<and> purpose = purpose' \<and> t = t'"
    (is "?l = ?r")
proof
  assume ?l
  then have "client_key_parts sm sd t sid purpose = client_key_parts sm' sd' t' sid' purpose'"
    unfolding SEP_def
    using client_key_parts_plain [OF assms(1-3)] client_key_parts_plain [OF assms(4-6)]
    by (intro str_join_inj) (auto simp: client_key_parts_def)
  moreover have "side_value sd = side_value sd' \<Longrightarrow> sd = sd'" by (cases sd; cases sd') simp_all
  ultimately show ?r using isoformat_inj assms(7,8) by (auto simp: client_key_parts_def)
qed (simp add: client_key_parts_def)

text \<open>
  C22. The idempotency key is the decision. Two calls of \<open>client_order_id\<close> return the same key exactly
  when they name the same strategy, the same ticker in whatever case, the same side, the same
  purpose and the same instant, as long as the hash does not collide on the two texts it is given.
  A rebuilt order therefore reuses its key, and an exit never shares one with an entry.
\<close>

theorem order_key_is_the_decision:
  assumes "plain (or_empty sid)" "plain sm" "plain purpose" "plain (or_empty sid')" "plain sm'" "plain purpose'"
    and "sm \<noteq> []" "purpose \<noteq> []" "sm' \<noteq> []" "purpose' \<noteq> []"
    and "representable t" "representable t'"
    and no_collision: "take DIGEST_CHARS (hex (str_join SEP (client_key_parts sm sd t sid purpose)))
            = take DIGEST_CHARS (hex (str_join SEP (client_key_parts sm' sd' t' sid' purpose')))
          \<Longrightarrow> str_join SEP (client_key_parts sm sd t sid purpose) = str_join SEP (client_key_parts sm' sd' t' sid' purpose')"
  shows "client_order_id hex True sm sd t sid purpose = client_order_id hex True sm' sd' t' sid' purpose'
     \<longleftrightarrow> or_empty sid = or_empty sid' \<and> str_upper sm = str_upper sm' \<and> sd = sd' \<and> purpose = purpose' \<and> t = t'"
  using assms(7-10) client_payload_inj [OF assms(1-6) assms(11,12), of sd sd'] no_collision
  by (auto simp: client_order_id_def digest_def)

lemma order_key_is_the_decision_witness:
  "client_order_id (\<lambda>s. s) True ''spy'' SELL 0 (Some ''sma'') ''exit''
      \<noteq> client_order_id (\<lambda>s. s) True ''SPY'' SELL 0 (Some ''sma'') ''entry''"
proof -
  have r: "representable 0" by (simp add: representable_def utc_date_def EPOCH_ORD_def)
  have up: "str_upper ''spy'' = ''SPY''" "str_upper ''SPY'' = ''SPY''"
    by code_simp+
  have "client_order_id (\<lambda>s. s) True ''spy'' SELL 0 (Some ''sma'') ''exit''
       = client_order_id (\<lambda>s. s) True ''SPY'' SELL 0 (Some ''sma'') ''entry''
     \<longleftrightarrow> or_empty (Some ''sma'') = or_empty (Some ''sma'') \<and> str_upper ''spy'' = str_upper ''SPY'' \<and> SELL = SELL
       \<and> ''exit'' = ''entry'' \<and> (0 :: ts) = 0"
  proof (rule order_key_is_the_decision)
    assume "take DIGEST_CHARS (str_join SEP (client_key_parts ''spy'' SELL 0 (Some ''sma'') ''exit''))
          = take DIGEST_CHARS (str_join SEP (client_key_parts ''SPY'' SELL 0 (Some ''sma'') ''entry''))"
    then show "str_join SEP (client_key_parts ''spy'' SELL 0 (Some ''sma'') ''exit'')
          = str_join SEP (client_key_parts ''SPY'' SELL 0 (Some ''sma'') ''entry'')"
      by (simp add: client_key_parts_def up or_empty_def SEP_def DIGEST_CHARS_def)
  qed (simp_all add: r plain_def or_empty_def)
  then show ?thesis by simp
qed

end
