(* ===== verification/Actions.thy ===== *)
theory Actions
  imports Enums
begin

text \<open>
  Code that mutates its object and may raise: an action takes the state and returns the outcome
  beside the state it left, so that what a raising call did before it raised stays done.
\<close>

type_synonym ('s, 'a) act = "'s \<Rightarrow> (exn + 'a) \<times> 's"

named_theorems follows_intros "which actions only take the steps of a relation"

definition ret :: "'a \<Rightarrow> ('s, 'a) act" where
  "ret x = (\<lambda>s. (Inr x, s))"

definition raise_a :: "exn \<Rightarrow> ('s, 'a) act" where
  "raise_a e = (\<lambda>s. (Inl e, s))"

definition bind_a :: "('s, 'a) act \<Rightarrow> ('a \<Rightarrow> ('s, 'b) act) \<Rightarrow> ('s, 'b) act" where
  "bind_a m f = (\<lambda>s. case m s of (Inl e, s1) \<Rightarrow> (Inl e, s1) | (Inr x, s1) \<Rightarrow> f x s1)"

definition lift_a :: "exn + 'a \<Rightarrow> ('s, 'a) act" where
  "lift_a r = (\<lambda>s. (r, s))"

text \<open>\<open>try\<close>: the exception becomes a value the handlers inspect.\<close>

definition attempt :: "('s, 'a) act \<Rightarrow> ('s, exn + 'a) act" where
  "attempt m = (\<lambda>s. case m s of (r, s1) \<Rightarrow> (Inr r, s1))"

definition gets_a :: "('s \<Rightarrow> 'a) \<Rightarrow> ('s, 'a) act" where
  "gets_a f = (\<lambda>s. (Inr (f s), s))"

definition modify_a :: "('s \<Rightarrow> 's) \<Rightarrow> ('s, unit) act" where
  "modify_a f = (\<lambda>s. (Inr (), f s))"

text \<open>A \<open>for\<close> loop that carries a value.\<close>

fun for_a :: "('x \<Rightarrow> 'b \<Rightarrow> ('s, 'b) act) \<Rightarrow> 'x list \<Rightarrow> 'b \<Rightarrow> ('s, 'b) act" where
  "for_a f [] b = ret b"
| "for_a f (x # xs) b = bind_a (f x b) (for_a f xs)"

lemma act_simps [simp]:
  "ret x s = (Inr x, s)" "raise_a e s = (Inl e, s)" "lift_a r s = (r, s)"
  "gets_a g s = (Inr (g s), s)" "modify_a h s = (Inr (), h s)"
  by (simp_all add: ret_def raise_a_def lift_a_def gets_a_def modify_a_def)

lemma bind_a_run:
  "bind_a m f s = (case fst (m s) of Inl e \<Rightarrow> (Inl e, snd (m s)) | Inr x \<Rightarrow> f x (snd (m s)))"
  by (auto simp: bind_a_def split: prod.split sum.split)

lemma bind_a_simps [simp]:
  "bind_a (ret x) f = f x" "bind_a (raise_a e) f = raise_a e" "bind_a (lift_a (Inr x)) f = f x"
  "bind_a (lift_a (Inl e)) f = raise_a e"
  "bind_a (gets_a g) f s = f (g s) s" "bind_a (modify_a h) f' s = f' () (h s)"
  by (simp_all add: bind_a_def fun_eq_iff)

lemma attempt_run: "attempt m s = (Inr (fst (m s)), snd (m s))"
  by (simp add: attempt_def split: prod.split)

lemma bind_attempt: "bind_a (attempt m) f s = f (fst (m s)) (snd (m s))"
  by (simp add: bind_a_run attempt_run)

text \<open>Whatever the outcome, the state moves along \<open>R\<close>.\<close>

definition follows :: "('s \<Rightarrow> 's \<Rightarrow> bool) \<Rightarrow> ('s, 'a) act \<Rightarrow> bool" where
  "follows R m \<longleftrightarrow> (\<forall>s. R s (snd (m s)))"

lemma followsD: "follows R m \<Longrightarrow> R s (snd (m s))"
  by (simp add: follows_def)

lemma follows_cases [follows_intros]:
  "\<And>x f g. (\<And>e. follows R (f e)) \<Longrightarrow> (\<And>y. follows R (g y)) \<Longrightarrow> follows R (case_sum f g x)"
  "\<And>x m h. follows R m \<Longrightarrow> (\<And>y. follows R (h y)) \<Longrightarrow> follows R (case_option m h x)"
  "\<And>x k. (\<And>a b. follows R (k a b)) \<Longrightarrow> follows R (case_prod k x)"
  "\<And>c m1 m2. (c \<Longrightarrow> follows R m1) \<Longrightarrow> (\<not> c \<Longrightarrow> follows R m2) \<Longrightarrow> follows R (if c then m1 else m2)"
  "\<And>x n. follows R (n x) \<Longrightarrow> follows R (Let x n)"
  by (auto split: sum.split option.split prod.split)

locale state_relation =
  fixes R :: "'s \<Rightarrow> 's \<Rightarrow> bool"
  assumes refl: "R s s" and trans: "R a b \<Longrightarrow> R b c \<Longrightarrow> R a c"
begin

lemma ret [follows_intros]: "follows R (ret x)"
  and raise [follows_intros]: "follows R (raise_a e)"
  and lift [follows_intros]: "follows R (lift_a r)"
  and gets [follows_intros]: "follows R (gets_a g)"
  and unmoved [follows_intros]: "follows R (Pair r)"
  by (simp_all add: follows_def refl)

lemma bind [follows_intros]: "follows R m \<Longrightarrow> (\<And>x. follows R (f x)) \<Longrightarrow> follows R (bind_a m f)"
  unfolding follows_def bind_a_run by (auto simp: refl split: sum.split intro: trans)

lemma bind_after: "(\<And>x. follows R (f x)) \<Longrightarrow> R (snd (m s)) (snd (bind_a m f s))"
  by (auto simp: follows_def bind_a_run refl split: sum.split)

lemma attempt [follows_intros]: "follows R m \<Longrightarrow> follows R (attempt m)"
  by (simp add: follows_def attempt_run)

lemma modify: "(\<And>s. R s (h s)) \<Longrightarrow> follows R (modify_a h)"
  by (simp add: follows_def)

lemma for_members: "(\<And>x b. x \<in> set xs \<Longrightarrow> follows R (f x b)) \<Longrightarrow> follows R (for_a f xs b)"
  by (induction xs arbitrary: b) (auto intro: ret bind)

lemma for_loop [follows_intros]: "(\<And>x b. follows R (f x b)) \<Longrightarrow> follows R (for_a f xs b)"
  by (induction xs arbitrary: b) (simp_all add: ret bind)

end

end
