(* ===== verification/Submission.thy ===== *)
theory Submission
  imports Actions RiskEngine Idempotency Stops OrderState
begin

text \<open>
  \<open>execution/router.py\<close>, the submission path: the only code that sends an order to a venue. The world
  outside the router is a state \<open>'v\<close> and the record \<open>ports\<close> of what the router asks of it: the
  broker port, the clock and feed the risk rules read, the kill switch, the hash of the
  idempotency keys and the ids a new order draws. A \<open>'v\<close> call may change anything outside the
  router, the clock included. Calls of one router do not overlap.

  Logging and metrics are not modelled.
\<close>

record signal =
  sg_strategy :: string
  sg_symbol :: string
  sg_action :: signal_action
  sg_ts :: ts
  sg_id :: string
  sg_strength :: dec
  sg_limit :: "dec option"
  sg_stop_loss :: "dec option"
  sg_take_profit :: "dec option"

definition is_entry :: "signal \<Rightarrow> bool" where
  "is_entry sg \<longleftrightarrow> sg_action sg \<in> {ENTER_LONG, ENTER_SHORT}"

definition is_exit :: "signal \<Rightarrow> bool" where
  "is_exit sg \<longleftrightarrow> sg_action sg \<in> {EXIT, SCALE_OUT}"

record size_spec =
  ps_type :: string
  ps_value :: dec

record 'v ports =
  po_name :: string
  po_submit :: "order \<Rightarrow> 'v \<Rightarrow> (exn + order) \<times> 'v"
  po_cancel :: "string \<Rightarrow> 'v \<Rightarrow> (exn + unit) \<times> 'v"
  po_get :: "string \<Rightarrow> 'v \<Rightarrow> (exn + order option) \<times> 'v"
  po_open :: "'v \<Rightarrow> (exn + order list) \<times> 'v"
  po_sleep :: "'v \<Rightarrow> 'v"
  po_env :: "'v \<Rightarrow> risk_env"
  po_halt :: "(halt_request \<Rightarrow> 'v \<Rightarrow> (exn + unit) \<times> 'v) option"
  po_instrument :: "string \<Rightarrow> instrument option"
  po_hex :: "string \<Rightarrow> string"
  po_new_id :: "nat \<Rightarrow> string"
  po_polls :: nat

record cover =
  cv_parent :: string
  cv_from :: dec
  cv_to :: dec
  cv_released :: nat

record 'v router =
  rt_venue :: 'v
  rt_engine :: risk_engine
  rt_portfolio :: portfolio
  rt_requested :: "(dec option \<times> dec option) dict"
  rt_covered :: "dec dict"
  rt_protective :: "order list dict"
  rt_cover :: "cover dict"
  rt_drawn :: nat

type_synonym ('v, 'a) routed = "('v router, 'a) act"

definition ROUTING :: string where "ROUTING = ''routing''"
definition SIZING :: string where "SIZING = ''position_sizing''"
definition NO_ACTION :: string where "NO_ACTION = ''no_action''"

record submit_result =
  sr_order :: "order option"
  sr_decision :: risk_decision
  sr_submitted :: bool
  sr_inventory_held :: bool

definition no_action :: "reason \<Rightarrow> submit_result" where
  "no_action why = \<lparr>sr_order = None, sr_decision = allow\<lparr>rd_rule := NO_ACTION, rd_reason := why\<rparr>,
     sr_submitted = False, sr_inventory_held = False\<rparr>"

definition refused :: "string \<Rightarrow> reason \<Rightarrow> order option \<Rightarrow> submit_result" where
  "refused stage why o1 = \<lparr>sr_order = o1, sr_decision = deny stage why, sr_submitted = False, sr_inventory_held = False\<rparr>"

definition refusal_reason :: "submit_result \<Rightarrow> reason" where
  "refusal_reason r =
     (if rd_reason (sr_decision r) \<noteq> no_reason then rd_reason (sr_decision r)
      else case sr_order r of None \<Rightarrow> no_reason
        | Some o1 \<Rightarrow> (case o_reject_reason o1 of None \<Rightarrow> no_reason | Some why \<Rightarrow> why))"

text \<open>A call outside, threaded through the router's state.\<close>

definition outside :: "('v \<Rightarrow> (exn + 'a) \<times> 'v) \<Rightarrow> ('v, 'a) routed" where
  "outside f = (\<lambda>s. case f (rt_venue s) of (r, v) \<Rightarrow> (r, s\<lparr>rt_venue := v\<rparr>))"

definition draw_id :: "'v ports \<Rightarrow> ('v, string) routed" where
  "draw_id P = (\<lambda>s. (Inr (po_new_id P (rt_drawn s)), s\<lparr>rt_drawn := rt_drawn s + 1\<rparr>))"

definition exn_reason :: "exn \<Rightarrow> reason" where
  "exn_reason e = (case e of BrokerError w \<Rightarrow> w | BrokerConnectionError w \<Rightarrow> w | OrderRejectedError w \<Rightarrow> w
     | InventoryHeldError w \<Rightarrow> w | InsufficientFundsError w \<Rightarrow> w | _ \<Rightarrow> no_reason)"

definition default_instrument :: "string \<Rightarrow> instrument" where
  "default_instrument sm = \<lparr>in_symbol = sm, in_exchange = ''NASDAQ'', in_currency = ''USD'', in_tick_size = 1/100,
     in_lot_size = 1, in_fractionable = False, in_shortable = True\<rparr>"

definition instrument_of :: "'v ports \<Rightarrow> string \<Rightarrow> exn + instrument" where
  "instrument_of P sm =
     (case po_instrument P sm of Some i \<Rightarrow> Inr i | None \<Rightarrow> new_instrument (default_instrument sm))"

definition stop_rounding :: "side \<Rightarrow> rounding_mode" where
  "stop_rounding sd = (if sd = SELL then ROUND_FLOOR else ROUND_CEILING)"

definition limit_rounding :: "side \<Rightarrow> rounding_mode" where
  "limit_rounding sd = (if sd = SELL then ROUND_CEILING else ROUND_FLOOR)"

definition round_opt :: "rounding_mode \<Rightarrow> instrument \<Rightarrow> dec option \<Rightarrow> exn + dec option" where
  "round_opt m i x = (case x of None \<Rightarrow> Inr None | Some p \<Rightarrow> bind_r (round_price m i p) (\<lambda>q. Inr (Some q)))"

definition on_tick :: "'v ports \<Rightarrow> order \<Rightarrow> exn + order" where
  "on_tick P o1 =
     bind_r (instrument_of P (o_symbol o1)) (\<lambda>i.
     bind_r (round_opt (stop_rounding (o_side o1)) i (o_stop o1)) (\<lambda>st.
     bind_r (round_opt (limit_rounding (o_side o1)) i (o_limit o1)) (\<lambda>lp.
     Inr (o1\<lparr>o_stop := st, o_limit := lp\<rparr>))))"

definition judge :: "'v ports \<Rightarrow> order \<Rightarrow> order list \<Rightarrow> ('v, risk_decision \<times> order) routed" where
  "judge P o1 pending = (\<lambda>s.
     case validate (po_env P (rt_venue s)) (rt_engine s) o1 (rt_portfolio s) pending of
       (d, o2, en, pf) \<Rightarrow> (Inr (d, o2), s\<lparr>rt_engine := en, rt_portfolio := pf\<rparr>))"

definition adopt_ack :: "'v ports \<Rightarrow> order \<Rightarrow> order \<Rightarrow> ('v, bool \<times> order) routed" where
  "adopt_ack P o1 ack = (\<lambda>s.
     lift_a (bind_r (transition SUBMITTED (Some (env_now (po_env P (rt_venue s)))) None None
               (o1\<lparr>o_broker_id := o_broker_id ack\<rparr>)) (\<lambda>(_, o2).
       if o_status ack \<in> {REJECTED, CANCELLED, EXPIRED}
       then bind_r (transition (o_status ack) None (o_reject_reason ack) (Some (po_name P)) o2) (\<lambda>(_, o3). Inr (False, o3))
       else Inr (True, o2))) s)"

definition indeterminate_halt :: "order \<Rightarrow> halt_request" where
  "indeterminate_halt o1 = \<lparr>hq_scope = GLOBAL, hq_reason = BROKER_UNREACHABLE, hq_by = ''order_router'',
     hq_detail = o_client_id o1 @ '' failed in transport'', hq_unproven = [o_symbol o1]\<rparr>"

definition sent_result :: "risk_decision \<Rightarrow> bool \<times> order \<Rightarrow> submit_result" where
  "sent_result d r = \<lparr>sr_order = Some (snd r), sr_decision = d, sr_submitted = fst r, sr_inventory_held = False\<rparr>"

definition resolve_indeterminate :: "'v ports \<Rightarrow> order \<Rightarrow> risk_decision \<Rightarrow> ('v, submit_result) routed" where
  "resolve_indeterminate P o1 d =
     bind_a (attempt (outside (po_open P))) (\<lambda>r.
     case (case r of Inr os \<Rightarrow> Inr (find (\<lambda>w. o_client_id w = o_client_id o1) os)
           | Inl e \<Rightarrow> if is_connection_error e then Inr None else Inl e) of
       Inl e \<Rightarrow> raise_a e
     | Inr (Some found) \<Rightarrow> bind_a (adopt_ack P o1 found) (\<lambda>w. ret (sent_result d w))
     | Inr None \<Rightarrow>
         bind_a (case po_halt P of None \<Rightarrow> ret () | Some engage_halt \<Rightarrow> outside (engage_halt (indeterminate_halt o1))) (\<lambda>_.
         raise_a (BrokerConnectionError (Reason ''submit failed and its outcome could not be established''
           [o_client_id o1, o_symbol o1] [o_qty o1]))))"

definition dispatch :: "'v ports \<Rightarrow> order \<Rightarrow> risk_decision \<Rightarrow> ('v, submit_result) routed" where
  "dispatch P o1 d =
     bind_a (attempt (outside (po_submit P o1))) (\<lambda>r.
     case r of
       Inr ack \<Rightarrow> bind_a (adopt_ack P o1 ack) (\<lambda>w. ret (sent_result d w))
     | Inl e \<Rightarrow>
         if is_connection_error e then resolve_indeterminate P o1 d
         else if is_broker_error e then
           bind_a (lift_a (transition REJECTED None (Some (exn_reason e)) (Some (po_name P)) o1)) (\<lambda>(_, o2).
           ret \<lparr>sr_order = Some o2, sr_decision = d, sr_submitted = False, sr_inventory_held = is_inventory_held e\<rparr>)
         else raise_a e)"

definition route :: "'v ports \<Rightarrow> order \<Rightarrow> order list \<Rightarrow> ('v, submit_result) routed" where
  "route P o1 pending =
     (if o_status o1 \<noteq> PENDING_RISK
      then raise_a (ExecutionError (Reason ''the single submission path starts at pending_risk'' [o_id o1] []))
      else
        bind_a (lift_a (on_tick P o1)) (\<lambda>o2.
        bind_a (judge P o2 pending) (\<lambda>(d, o3).
        if \<not> rd_approved d then
          bind_a (lift_a (transition REJECTED_RISK None (Some (rd_reason d)) (Some (rd_rule d)) o3)) (\<lambda>(_, o4).
          ret \<lparr>sr_order = Some o4, sr_decision = d, sr_submitted = False, sr_inventory_held = False\<rparr>)
        else if o_qty o3 \<le> 0 then
          let why = Reason ''risk left nothing to trade'' [o_symbol o3] [o_qty o3] in
          bind_a (lift_a (transition REJECTED_RISK None (Some why) (Some ROUTING) o3)) (\<lambda>(_, o4).
          ret (refused ROUTING why (Some o4)))
        else
          bind_a (lift_a (transition PENDING_SUBMIT None None None o3)) (\<lambda>(_, o4). dispatch P o4 d))))"

section \<open>Requests and signals\<close>

text \<open>\<open>_size_notional\<close> and \<open>_size\<close>: \<open>Inl\<close> of a result refuses, \<open>Inr\<close> is a quantity.\<close>

definition size_notional :: "order_request \<Rightarrow> portfolio \<Rightarrow> exn + (submit_result + dec)" where
  "size_notional r pf =
     (case r_notional r of
        None \<Rightarrow> Inr (Inl (refused SIZING (Reason ''neither a quantity nor a notional'' [r_symbol r] []) None))
      | Some n \<Rightarrow>
          (case reference_price (r_symbol r) pf (r_limit r) of
             None \<Rightarrow> Inr (Inl (refused SIZING (Reason ''a notional request needs a price'' [r_symbol r] []) None))
           | Some price \<Rightarrow>
               if equity pf \<le> 0 then Inr (Inl (refused SIZING (Reason ''equity is'' [r_symbol r] [equity pf]) None))
               else bind_r (position_size ''fixed_notional'' (equity pf) price None n None) (\<lambda>q.
                 Inr (if q \<le> 0 then Inl (no_action (Reason ''rounds down to no shares'' [r_symbol r] [n, price])) else Inr q))))"

definition size_signal :: "signal \<Rightarrow> portfolio \<Rightarrow> size_spec \<Rightarrow> exn + (submit_result + dec)" where
  "size_signal sg pf spec =
     (case reference_price (sg_symbol sg) pf (sg_limit sg) of
        None \<Rightarrow> Inr (Inl (refused SIZING (Reason ''no price available'' [sg_symbol sg] []) None))
      | Some price \<Rightarrow>
          if equity pf \<le> 0 then Inr (Inl (refused SIZING (Reason ''cannot size against equity of'' [sg_symbol sg] [equity pf]) None))
          else (case position_size (ps_type spec) (equity pf) price (sg_stop_loss sg) (ps_value spec) None of
                  Inl (ValueError why) \<Rightarrow> Inr (Inl (refused SIZING why None))
                | Inl e \<Rightarrow> Inl e
                | Inr q \<Rightarrow> Inr (Inr q)))"

definition request_order :: "'v ports \<Rightarrow> string \<Rightarrow> order_request \<Rightarrow> dec \<Rightarrow> exn + order" where
  "request_order P oid r q =
     bind_r (client_order_id (po_hex P) True (r_symbol r) (r_side r) (r_decided_at r) (r_strategy r) (r_purpose r)) (\<lambda>cid.
     new_order ((order_defaults oid cid (r_symbol r) (r_side r) q)
       \<lparr>o_type := r_type r, o_tif := r_tif r, o_limit := r_limit r, o_strategy := r_strategy r,
        o_signal := r_signal r, o_purpose := r_purpose r, o_created_at := Some (r_decided_at r)\<rparr>))"

definition submit :: "'v ports \<Rightarrow> order_request \<Rightarrow> order list \<Rightarrow> ('v, submit_result) routed" where
  "submit P r pending =
     bind_a (gets_a rt_portfolio) (\<lambda>pf.
     bind_a (lift_a (case r_qty r of Some q \<Rightarrow> Inr (Inr q) | None \<Rightarrow> size_notional r pf)) (\<lambda>sized.
     case sized of
       Inl res \<Rightarrow> ret res
     | Inr q \<Rightarrow>
         bind_a (draw_id P) (\<lambda>oid.
         bind_a (lift_a (request_order P oid r q)) (\<lambda>o1.
         bind_a (modify_a (\<lambda>s. if r_stop_loss r \<noteq> None \<or> r_take_profit r \<noteq> None
              then s\<lparr>rt_requested := dict_set (o_id o1) (r_stop_loss r, r_take_profit r) (rt_requested s)\<rparr> else s)) (\<lambda>_.
         route P o1 pending)))))"

end
