(* ===== verification/Router.thy ===== *)
theory Router
  imports Submission
begin

text \<open>
  \<open>execution/router.py\<close>, everything around the submission path: protective stops against fills,
  cancelling, releasing and re-arming them, closes, and the entry points \<open>submit_signal\<close>,
  \<open>flatten\<close>, \<open>cancel_all\<close>.

  The lists of protective children hold \<open>Order\<close> objects the fill events also update; here they hold
  values, and \<open>child_changed\<close> is that update as the lists see it.
\<close>

record protection_result =
  pr_placed :: "order list"
  pr_refused :: "submit_result list"
  pr_covered :: dec
  pr_unprotected :: dec
  pr_engine_stop :: "dec option"
  pr_deferred :: bool

definition no_protection :: protection_result where
  "no_protection = \<lparr>pr_placed = [], pr_refused = [], pr_covered = 0, pr_unprotected = 0,
     pr_engine_stop = None, pr_deferred = False\<rparr>"

definition stop_order :: "protection_result \<Rightarrow> order option" where
  "stop_order r = find (\<lambda>c. o_type c = STOP) (pr_placed r)"

definition is_fully_protected :: "protection_result \<Rightarrow> bool" where
  "is_fully_protected r \<longleftrightarrow> pr_unprotected r = 0 \<and> pr_refused r = []"

definition closing_side :: "position \<Rightarrow> side" where
  "closing_side p = (if is_long p then SELL else BUY)"

definition children_of :: "string \<Rightarrow> 'v router \<Rightarrow> order list" where
  "children_of sm s = dict_get_or (rt_protective s) sm []"

definition put_children :: "string \<Rightarrow> order list \<Rightarrow> 'v router \<Rightarrow> 'v router" where
  "put_children sm cs s =
     s\<lparr>rt_protective := (if cs = [] then dict_pop sm (rt_protective s) else dict_set sm cs (rt_protective s))\<rparr>"

definition child_changed :: "order \<Rightarrow> 'v router \<Rightarrow> 'v router" where
  "child_changed c s =
     s\<lparr>rt_protective := map (\<lambda>(sm, cs). (sm, map (\<lambda>w. if o_id w = o_id c then c else w) cs)) (rt_protective s)\<rparr>"

definition protected_qty :: "string \<Rightarrow> side \<Rightarrow> 'v router \<Rightarrow> dec" where
  "protected_qty sm sd s =
     dsum (map remaining_qty (filter (\<lambda>c. \<not> is_complete c \<and> o_side c = sd) (children_of sm s)))"

definition broker_side_protected_qty :: "string \<Rightarrow> position \<Rightarrow> 'v router \<Rightarrow> dec" where
  "broker_side_protected_qty sm p s = protected_qty sm (closing_side p) s"

definition has_broker_side_protection :: "string \<Rightarrow> position \<Rightarrow> 'v router \<Rightarrow> bool" where
  "has_broker_side_protection sm p s \<longleftrightarrow> dabs (p_qty p) \<le> broker_side_protected_qty sm p s"

definition protects :: "position \<Rightarrow> dec \<Rightarrow> bool" where
  "protects p level =
     (case p_last p of None \<Rightarrow> True | Some m \<Rightarrow> if is_long p then level < m else m < level)"

definition tightest_stop :: "position \<Rightarrow> dec \<Rightarrow> dec" where
  "tightest_stop p candidate =
     (case p_stop_loss p of
        None \<Rightarrow> candidate
      | Some current \<Rightarrow>
          if \<not> protects p current then candidate
          else if is_long p then max current candidate else min current candidate)"

definition cancel_at_venue :: "'v ports \<Rightarrow> order \<Rightarrow> ('v, exn + unit) routed" where
  "cancel_at_venue P c = (case o_broker_id c of None \<Rightarrow> ret (Inr ()) | Some bid \<Rightarrow> attempt (outside (po_cancel P bid)))"

definition tracked_broker_ids :: "string \<Rightarrow> 'v router \<Rightarrow> string list" where
  "tracked_broker_ids sm s =
     map (\<lambda>c. the (o_broker_id c)) (filter (\<lambda>c. o_broker_id c \<noteq> None \<and> o_broker_id c \<noteq> Some []) (children_of sm s))"

definition inherited_protection :: "'v ports \<Rightarrow> string \<Rightarrow> side option \<Rightarrow> string list \<Rightarrow> ('v, order list) routed" where
  "inherited_protection P sm sd known =
     bind_a (attempt (outside (po_open P))) (\<lambda>r.
     case r of
       Inl e \<Rightarrow> if is_broker_error e then ret [] else raise_a e
     | Inr os \<Rightarrow> ret (filter (\<lambda>w. o_symbol w = str_upper sm \<and> (case sd of None \<Rightarrow> True | Some x \<Rightarrow> o_side w = x)
           \<and> \<not> is_complete w \<and> o_stop w \<noteq> None \<and> o_broker_id w \<noteq> None \<and> the (o_broker_id w) \<notin> set known) os))"

text \<open>A position that flipped side leaves stops that would add to it.\<close>

definition cancel_stale :: "'v ports \<Rightarrow> string \<Rightarrow> side \<Rightarrow> ('v, nat) routed" where
  "cancel_stale P sm closing =
     bind_a (gets_a (children_of sm)) (\<lambda>children.
     for_a (\<lambda>c n. bind_a (cancel_at_venue P c) (\<lambda>r. case r of
              Inl e \<Rightarrow> if is_broker_error e then ret n else raise_a e
            | Inr _ \<Rightarrow> bind_a (modify_a (\<lambda>s. s\<lparr>rt_protective := dict_set sm (remove1 c (children_of sm s)) (rt_protective s)\<rparr>))
                (\<lambda>_. ret (n + 1))))
       (filter (\<lambda>c. \<not> is_complete c \<and> o_side c \<noteq> closing \<and> o_broker_id c \<noteq> None) children) 0)"

definition stop_child :: "'v ports \<Rightarrow> string \<Rightarrow> order \<Rightarrow> position \<Rightarrow> dec \<Rightarrow> dec \<Rightarrow> dec \<Rightarrow> dec \<Rightarrow> nat \<Rightarrow> exn + order" where
  "stop_child P oid entry p q level covered_from covered_to tries =
     bind_r (protective_client_order_id (po_hex P) (o_client_id entry) PURPOSE_STOP_LOSS covered_from covered_to (int tries)) (\<lambda>cid.
     new_order ((order_defaults oid cid (o_symbol entry) (closing_side p) q)
       \<lparr>o_type := STOP, o_tif := GTC, o_stop := Some level, o_strategy := o_strategy entry, o_signal := o_signal entry,
        o_parent := Some (o_id entry), o_purpose := PURPOSE_STOP_LOSS,
        o_created_at := (case o_filled_at entry of Some t \<Rightarrow> Some t | None \<Rightarrow> o_created_at entry)\<rparr>))"

text \<open>The level to protect at: what was asked for, else what the configuration derives, on the tick.\<close>

definition protection_levels ::
  "'v ports \<Rightarrow> order \<Rightarrow> position \<Rightarrow> stop_config option \<Rightarrow> dec option \<Rightarrow> dec option \<times> dec option
     \<Rightarrow> exn + dec option \<times> dec option" where
  "protection_levels P entry p cfg atr asked =
     bind_r (case (cfg, o_avg entry) of
         (Some c, Some price) \<Rightarrow>
           bind_r (case fst asked of Some l \<Rightarrow> Inr (Some l)
                   | None \<Rightarrow> bind_r (initial_stop price (o_side entry) c atr) (\<lambda>l. Inr (Some l))) (\<lambda>st.
           bind_r (if snd asked = None \<and> sc_type c \<in> set FROM_ENTRY_TYPES
                   then bind_r (take_profit_level price (o_side entry) c) (\<lambda>t. Inr (Some t)) else Inr (snd asked)) (\<lambda>tp.
           Inr (st, tp)))
       | _ \<Rightarrow> Inr asked) (\<lambda>(st, tp).
     bind_r (case st of None \<Rightarrow> Inr None
             | Some l \<Rightarrow> bind_r (instrument_of P (o_symbol entry)) (\<lambda>i. round_opt (stop_rounding (closing_side p)) i (Some l))) (\<lambda>st1.
     Inr ((case st1 of Some l \<Rightarrow> if protects p l then Some l else None | None \<Rightarrow> None), tp)))"

definition arm_position :: "dec option \<Rightarrow> dec option \<Rightarrow> position \<Rightarrow> position" where
  "arm_position st tp p =
     (let p1 = (case st of None \<Rightarrow> p | Some l \<Rightarrow> p\<lparr>p_stop_loss := Some (tightest_stop p l)\<rparr>)
      in if tp \<noteq> None \<and> p_take_profit p1 = None then p1\<lparr>p_take_profit := tp\<rparr> else p1)"

text \<open>What a stop the venue took leaves behind: the cover and the entry's progress.\<close>

definition book_child :: "order \<Rightarrow> order \<Rightarrow> dec \<Rightarrow> dec \<Rightarrow> 'v router \<Rightarrow> 'v router" where
  "book_child entry child covered_from covered_to s =
     (let covered = dadd covered_from (o_qty child);
          s1 = s\<lparr>rt_covered := dict_set (o_id entry) covered (rt_covered s),
                 rt_protective := dict_set (o_symbol entry) (children_of (o_symbol entry) s @ [child]) (rt_protective s),
                 rt_cover := dict_set (o_id child) \<lparr>cv_parent = o_client_id entry, cv_from = covered_from,
                               cv_to = covered_to, cv_released = 0\<rparr> (rt_cover s)\<rparr>
      in if is_complete entry \<and> o_filled entry \<le> covered
         then s1\<lparr>rt_requested := dict_pop (o_id entry) (rt_requested s1)\<rparr> else s1)"

definition place_child ::
  "'v ports \<Rightarrow> order \<Rightarrow> position \<Rightarrow> dec \<Rightarrow> dec \<Rightarrow> dec \<Rightarrow> dec option \<Rightarrow> ('v, protection_result) routed" where
  "place_child P entry p increment level covered_from armed =
     bind_a (draw_id P) (\<lambda>oid.
     bind_a (lift_a (stop_child P oid entry p increment level covered_from (dadd covered_from increment) 0)) (\<lambda>child.
     bind_a (route P child []) (\<lambda>out.
     if \<not> sr_submitted out
     then ret (no_protection\<lparr>pr_refused := [out], pr_unprotected := increment, pr_engine_stop := armed\<rparr>)
     else (case sr_order out of None \<Rightarrow> ret no_protection | Some placed \<Rightarrow>
       bind_a (modify_a (book_child entry placed covered_from (dadd covered_from increment))) (\<lambda>_.
       ret (no_protection\<lparr>pr_placed := [placed], pr_covered := o_qty placed,
              pr_unprotected := dsub increment (o_qty placed), pr_engine_stop := armed\<rparr>))))))"

definition submit_protective_orders ::
  "'v ports \<Rightarrow> order \<Rightarrow> stop_config option \<Rightarrow> dec option \<Rightarrow> ('v, protection_result) routed" where
  "submit_protective_orders P entry cfg atr =
     (if o_parent entry \<noteq> None then ret no_protection
      else bind_a (gets_a (\<lambda>s. dict_get (pf_positions (rt_portfolio s)) (o_symbol entry))) (\<lambda>held.
        case held of None \<Rightarrow> ret no_protection | Some p \<Rightarrow>
        if is_flat p then ret no_protection
        else
          bind_a (cancel_stale P (o_symbol entry) (closing_side p)) (\<lambda>_.
          bind_a (gets_a (\<lambda>s. (dict_get_or (rt_covered s) (o_id entry) 0,
                               dsub (dabs (p_qty p)) (protected_qty (o_symbol entry) (closing_side p) s),
                               dict_get_or (rt_requested s) (o_id entry) (None, None)))) (\<lambda>(covered_from, room, asked).
          let increment = min (dsub (o_filled entry) covered_from) room in
          if increment \<le> 0 then ret no_protection
          else
            bind_a (lift_a (protection_levels P entry p cfg atr asked)) (\<lambda>(st, tp).
            let p1 = arm_position st tp p; armed = p_stop_loss p1 in
            bind_a (modify_a (\<lambda>s. s\<lparr>rt_portfolio := put_position (o_symbol entry) p1 (rt_portfolio s)\<rparr>)) (\<lambda>_.
            case st of
              None \<Rightarrow> ret (no_protection\<lparr>pr_unprotected := increment, pr_engine_stop := armed\<rparr>)
            | Some level \<Rightarrow>
                if \<not> is_complete entry
                then ret (no_protection\<lparr>pr_unprotected := increment, pr_engine_stop := armed, pr_deferred := True\<rparr>)
                else place_child P entry p1 increment level covered_from armed))))))"

section \<open>Adopting, cancelling, releasing\<close>

definition all_children :: "'v router \<Rightarrow> order list" where
  "all_children s = concat (dict_values (rt_protective s))"

text \<open>Carried: the ids seen, the venue ids seen, the orders adopted.\<close>

definition adopt_one ::
  "order \<Rightarrow> string list \<times> string list \<times> order list \<Rightarrow> ('v, string list \<times> string list \<times> order list) routed" where
  "adopt_one w acc =
     (case acc of (ids, venue_ids, adopted) \<Rightarrow>
      if is_complete w \<or> o_stop w = None \<or> o_broker_id w = None \<or> o_purpose w = PURPOSE_ENTRY
         \<or> o_id w \<in> set ids \<or> the (o_broker_id w) \<in> set venue_ids
      then ret acc
      else bind_a (modify_a (\<lambda>s. s\<lparr>rt_protective := dict_set (o_symbol w) (children_of (o_symbol w) s @ [w]) (rt_protective s)\<rparr>))
             (\<lambda>_. ret (o_id w # ids, the (o_broker_id w) # venue_ids, adopted @ [w])))"

definition adopt_protection :: "order list \<Rightarrow> ('v, order list) routed" where
  "adopt_protection os =
     bind_a (gets_a all_children) (\<lambda>cs.
     bind_a (for_a adopt_one os (map o_id cs,
               map (\<lambda>c. the (o_broker_id c)) (filter (\<lambda>c. o_broker_id c \<noteq> None) cs), []))
       (\<lambda>(_, _, adopted). ret adopted))"

definition cancel_protection :: "'v ports \<Rightarrow> string \<Rightarrow> ('v, nat) routed" where
  "cancel_protection P sm =
     bind_a (gets_a (children_of sm)) (\<lambda>children.
     bind_a (gets_a (tracked_broker_ids sm)) (\<lambda>known.
     bind_a (inherited_protection P sm None known) (\<lambda>inherited.
     bind_a (for_a (\<lambda>c (survivors, n).
               if is_complete c \<or> o_broker_id c = None then ret (survivors, n)
               else bind_a (cancel_at_venue P c) (\<lambda>r. case r of
                      Inl e \<Rightarrow> if is_broker_error e
                                then ret (if o_id c \<in> set (map o_id children) then survivors @ [c] else survivors, n)
                                else raise_a e
                    | Inr _ \<Rightarrow> ret (survivors, n + 1)))
             (children @ inherited) ([], 0)) (\<lambda>(survivors, n).
     bind_a (modify_a (put_children sm survivors)) (\<lambda>_. ret n)))))"

definition forget_protective :: "order \<Rightarrow> 'v router \<Rightarrow> 'v router" where
  "forget_protective c s =
     (if children_of (o_symbol c) s = [] then s
      else put_children (o_symbol c) (filter (\<lambda>w. o_broker_id w \<noteq> o_broker_id c) (children_of (o_symbol c) s)) s)"

definition cancel_all :: "'v ports \<Rightarrow> string option \<Rightarrow> ('v, nat) routed" where
  "cancel_all P sm =
     bind_a (outside (po_open P)) (\<lambda>os.
     let targets = filter (\<lambda>w. (case sm of None \<Rightarrow> True | Some x \<Rightarrow> o_symbol w = str_upper x) \<and> o_broker_id w \<noteq> None) os in
     bind_a (for_a (\<lambda>w (n, failures).
               bind_a (cancel_at_venue P w) (\<lambda>r. case r of
                   Inl e \<Rightarrow> if is_broker_error e then ret (n, failures @ [the (o_broker_id w)]) else raise_a e
                 | Inr _ \<Rightarrow> bind_a (modify_a (forget_protective w)) (\<lambda>_. ret (n + 1, failures))))
             targets (0, [])) (\<lambda>(n, failures).
     if failures \<noteq> [] then raise_a (ExecutionError (Reason ''cancel_all failed for'' failures [of_nat n, of_nat (length targets)]))
     else ret n))"

definition bump_released :: "order \<Rightarrow> 'v router \<Rightarrow> 'v router" where
  "bump_released c s =
     (case dict_get (rt_cover s) (o_id c) of None \<Rightarrow> s
      | Some cv \<Rightarrow> s\<lparr>rt_cover := dict_set (o_id c) (cv\<lparr>cv_released := cv_released cv + 1\<rparr>) (rt_cover s)\<rparr>)"

definition release_protection :: "'v ports \<Rightarrow> string \<Rightarrow> side \<Rightarrow> ('v, order list) routed" where
  "release_protection P sm closing =
     bind_a (gets_a (children_of sm)) (\<lambda>children.
     bind_a (gets_a (tracked_broker_ids sm)) (\<lambda>known.
     bind_a (inherited_protection P sm (Some closing) known) (\<lambda>inherited.
     let holding = filter (\<lambda>c. \<not> is_complete c \<and> o_side c = closing \<and> o_broker_id c \<noteq> None) children @ inherited in
     if holding = [] then ret []
     else
       bind_a (for_a (\<lambda>c released. bind_a (cancel_at_venue P c) (\<lambda>r. case r of
                   Inl e \<Rightarrow> if is_broker_error e then ret released else raise_a e
                 | Inr _ \<Rightarrow> bind_a (modify_a (bump_released c)) (\<lambda>_. ret (released @ [c]))))
               holding []) (\<lambda>released.
       bind_a (modify_a (put_children sm (filter (\<lambda>c. o_id c \<notin> set (map o_id released)) children))) (\<lambda>_.
       ret released)))))"

text \<open>\<open>settled\<close>: the venue has nothing more to say about this cancel.\<close>

definition settled :: "order option \<Rightarrow> bool" where
  "settled seen = (case seen of None \<Rightarrow> True | Some w \<Rightarrow> is_complete w \<or> 0 < o_filled w)"

fun poll_cancel :: "'v ports \<Rightarrow> string \<Rightarrow> nat \<Rightarrow> order option \<Rightarrow> ('v, order option) routed" where
  "poll_cancel P bid 0 seen = ret seen"
| "poll_cancel P bid (Suc n) seen =
     bind_a (attempt (outside (po_get P bid))) (\<lambda>r.
     case r of
       Inl e \<Rightarrow> if is_broker_error e then ret None else raise_a e
     | Inr now_seen \<Rightarrow>
         if settled now_seen \<or> n = 0 then ret now_seen
         else bind_a (modify_a (\<lambda>s. s\<lparr>rt_venue := po_sleep P (rt_venue s)\<rparr>)) (\<lambda>_. poll_cancel P bid n now_seen))"

definition await_cancelled :: "'v ports \<Rightarrow> order list \<Rightarrow> ('v, order list) routed" where
  "await_cancelled P released =
     for_a (\<lambda>c filled.
         case o_broker_id c of None \<Rightarrow> ret filled
         | Some bid \<Rightarrow> bind_a (poll_cancel P bid (po_polls P) None) (\<lambda>seen.
             ret (case seen of Some w \<Rightarrow> if 0 < o_filled w then filled @ [c] else filled | None \<Rightarrow> filled)))
       released []"

section \<open>Closing\<close>

definition replacement_stop :: "'v ports \<Rightarrow> string \<Rightarrow> string \<Rightarrow> side \<Rightarrow> dec \<Rightarrow> order \<Rightarrow> dec \<Rightarrow> cover \<Rightarrow> exn + order" where
  "replacement_stop P oid sm closing q c level cv =
     bind_r (protective_client_order_id (po_hex P) (cv_parent cv) PURPOSE_STOP_LOSS (cv_from cv) (cv_to cv) (int (cv_released cv))) (\<lambda>cid.
     new_order ((order_defaults oid cid sm closing q)
       \<lparr>o_type := STOP, o_tif := GTC, o_stop := Some level, o_strategy := o_strategy c, o_signal := o_signal c,
        o_parent := o_parent c, o_purpose := PURPOSE_STOP_LOSS, o_created_at := o_created_at c\<rparr>))"

definition rearm_one :: "'v ports \<Rightarrow> string \<Rightarrow> position \<Rightarrow> order \<Rightarrow> unit \<Rightarrow> ('v, unit) routed" where
  "rearm_one P sm p c u =
     (case o_stop c of None \<Rightarrow> ret ()
      | Some level \<Rightarrow>
          bind_a (gets_a (\<lambda>s. (dsub (dabs (p_qty p)) (protected_qty sm (closing_side p) s), dict_get (rt_cover s) (o_id c)))) (\<lambda>(room, known).
          let q = min (remaining_qty c) room in
          if q \<le> 0 then ret ()
          else
            let cv = (case known of Some cv \<Rightarrow> cv
                      | None \<Rightarrow> \<lparr>cv_parent = o_client_id c, cv_from = 0, cv_to = q, cv_released = 0\<rparr>) in
            bind_a (draw_id P) (\<lambda>oid.
            bind_a (lift_a (replacement_stop P oid sm (closing_side p) q c level cv)) (\<lambda>new.
            bind_a (route P new []) (\<lambda>out.
            if \<not> sr_submitted out then ret ()
            else (case sr_order out of None \<Rightarrow> ret () | Some placed \<Rightarrow>
              modify_a (\<lambda>s. s\<lparr>rt_protective := dict_set sm (children_of sm s @ [placed]) (rt_protective s),
                              rt_cover := dict_set (o_id placed) cv (rt_cover s)\<rparr>)))))))"

definition rearm :: "'v ports \<Rightarrow> string \<Rightarrow> order list \<Rightarrow> ('v, unit) routed" where
  "rearm P sm released =
     bind_a (gets_a (\<lambda>s. dict_get (pf_positions (rt_portfolio s)) sm)) (\<lambda>held.
     case held of None \<Rightarrow> ret () | Some p \<Rightarrow>
     if is_flat p then ret () else for_a (rearm_one P sm p) released ())"

definition close_out :: "'v ports \<Rightarrow> order_request \<Rightarrow> order list \<Rightarrow> ('v, submit_result) routed" where
  "close_out P r pending =
     bind_a (submit P r pending) (\<lambda>out.
     if sr_submitted out then bind_a (cancel_protection P (r_symbol r)) (\<lambda>_. ret out)
     else if \<not> sr_inventory_held out then ret out
     else
       bind_a (release_protection P (r_symbol r) (r_side r)) (\<lambda>released.
       if released = [] then ret out
       else
         bind_a (await_cancelled P released) (\<lambda>filled.
         if filled \<noteq> [] then ret out
         else
           bind_a (submit P r pending) (\<lambda>retried.
           if sr_submitted retried then ret retried
           else bind_a (rearm P (r_symbol r) released) (\<lambda>_. ret retried)))))"

definition close_request :: "string \<Rightarrow> position \<Rightarrow> ts \<Rightarrow> string \<Rightarrow> order_request" where
  "close_request sm p decided purpose =
     \<lparr>r_symbol = sm, r_side = closing_side p, r_decided_at = decided, r_type = MARKET, r_qty = Some (dabs (p_qty p)),
      r_notional = None, r_limit = None, r_stop_loss = None, r_take_profit = None, r_tif = GTC,
      r_strategy = None, r_signal = None, r_purpose = purpose\<rparr>"

definition flatten :: "'v ports \<Rightarrow> string \<Rightarrow> ts option \<Rightarrow> string \<Rightarrow> ('v, submit_result) routed" where
  "flatten P sm decided purpose =
     bind_a (gets_a (\<lambda>s. (dict_get (pf_positions (rt_portfolio s)) sm, env_now (po_env P (rt_venue s))))) (\<lambda>(held, now).
     case held of None \<Rightarrow> ret (no_action (Reason ''already flat'' [sm] []))
     | Some p \<Rightarrow>
         if is_flat p then ret (no_action (Reason ''already flat'' [sm] []))
         else
           bind_a (lift_a (new_order_request True
             (close_request sm p (case decided of Some t \<Rightarrow> t | None \<Rightarrow> now) purpose))) (\<lambda>r. close_out P r []))"

text \<open>What a signal asks for: side, quantity, purpose and whether it closes; or the answer at once.\<close>

definition signal_intent ::
  "signal \<Rightarrow> portfolio \<Rightarrow> size_spec \<Rightarrow> exn + (submit_result + side \<times> dec \<times> string \<times> bool)" where
  "signal_intent sg pf spec =
     (if sg_action sg = HOLD then Inr (Inl (no_action (Reason ''hold'' [sg_symbol sg] [])))
      else if sg_action sg = EXIT then
        (case dict_get (pf_positions pf) (sg_symbol sg) of
           None \<Rightarrow> Inr (Inl (no_action (Reason ''exit signal on a flat position'' [sg_symbol sg] [])))
         | Some p \<Rightarrow>
             if is_flat p then Inr (Inl (no_action (Reason ''exit signal on a flat position'' [sg_symbol sg] [])))
             else Inr (Inr (closing_side p, dabs (p_qty p), PURPOSE_EXIT, True)))
      else if is_entry sg then
        bind_r (size_signal sg pf spec) (\<lambda>sized. Inr (case sized of Inl res \<Rightarrow> Inl res
          | Inr q \<Rightarrow> Inr (if sg_action sg = ENTER_LONG then BUY else SELL, q, PURPOSE_ENTRY, False)))
      else Inr (Inl (refused ROUTING (Reason ''is not modelled'' [sg_symbol sg] []) None)))"

definition signal_request :: "signal \<Rightarrow> side \<Rightarrow> dec \<Rightarrow> string \<Rightarrow> bool \<Rightarrow> order_request" where
  "signal_request sg sd q purpose closing =
     \<lparr>r_symbol = sg_symbol sg, r_side = sd, r_decided_at = sg_ts sg,
      r_type = (if sg_limit sg \<noteq> None then LIMIT else MARKET), r_qty = Some q, r_notional = None,
      r_limit = sg_limit sg, r_stop_loss = sg_stop_loss sg, r_take_profit = sg_take_profit sg,
      r_tif = (if closing then GTC else DAY), r_strategy = Some (sg_strategy sg), r_signal = Some (sg_id sg),
      r_purpose = purpose\<rparr>"

definition submit_signal :: "'v ports \<Rightarrow> signal \<Rightarrow> size_spec \<Rightarrow> order list \<Rightarrow> ('v, submit_result) routed" where
  "submit_signal P sg spec pending =
     bind_a (gets_a rt_portfolio) (\<lambda>pf.
     bind_a (lift_a (signal_intent sg pf spec)) (\<lambda>intent.
     case intent of
       Inl res \<Rightarrow> ret res
     | Inr (sd, q, purpose, closing) \<Rightarrow>
         if q \<le> 0 then ret (no_action (Reason ''sized to'' [sg_symbol sg] [q]))
         else
           bind_a (lift_a (new_order_request True (signal_request sg sd q purpose closing))) (\<lambda>r.
           if closing then close_out P r pending else submit P r pending)))"

end
