(* ===== verification/RouterSafety.thy ===== *)
theory RouterSafety
  imports Router
begin

text \<open>
  What the router guarantees. \<open>logged\<close> is the same world with a ghost list of the orders handed to
  the venue; \<open>router_step\<close> is any call of the router, or anything the rest of the platform and the
  venue do between two calls.
\<close>

definition logged :: "'v ports \<Rightarrow> ('v \<times> order list) ports" where
  "logged P =
     \<lparr>po_name = po_name P,
      po_submit = (\<lambda>o1 (v, l). case po_submit P o1 v of (r, v1) \<Rightarrow> (r, v1, l @ [o1])),
      po_cancel = (\<lambda>b (v, l). case po_cancel P b v of (r, v1) \<Rightarrow> (r, v1, l)),
      po_get = (\<lambda>b (v, l). case po_get P b v of (r, v1) \<Rightarrow> (r, v1, l)),
      po_open = (\<lambda>(v, l). case po_open P v of (r, v1) \<Rightarrow> (r, v1, l)),
      po_sleep = (\<lambda>(v, l). (po_sleep P v, l)),
      po_env = (\<lambda>(v, l). po_env P v),
      po_halt = map_option (\<lambda>h q (v, l). case h q v of (r, v1) \<Rightarrow> (r, v1, l)) (po_halt P),
      po_instrument = po_instrument P, po_hex = po_hex P, po_new_id = po_new_id P, po_polls = po_polls P\<rparr>"

abbreviation sent :: "('v \<times> order list) router \<Rightarrow> order list" where
  "sent s \<equiv> snd (rt_venue s)"

inductive router_step :: "'v ports \<Rightarrow> ('v \<times> order list) router \<Rightarrow> ('v \<times> order list) router \<Rightarrow> bool" for P where
  Signal: "router_step P s (snd (submit_signal (logged P) sg spec ps s))"
| Request: "router_step P s (snd (submit (logged P) r ps s))"
| Protect: "router_step P s (snd (submit_protective_orders (logged P) entry cfg atr s))"
| Flatten: "router_step P s (snd (flatten (logged P) sm t purpose s))"
| CancelAll: "router_step P s (snd (cancel_all (logged P) target s))"
| Adopt: "router_step P s (snd (adopt_protection os s))"
| ChildEvent: "router_step P s (child_changed c s)"
| Meanwhile: "router_step P s (s\<lparr>rt_venue := (v, sent s), rt_portfolio := pf\<rparr>)"

definition router_run :: "'v ports \<Rightarrow> ('v \<times> order list) router \<Rightarrow> ('v \<times> order list) router \<Rightarrow> bool" where
  "router_run P = (router_step P)\<^sup>*\<^sup>*"

text \<open>An order as the risk chain approved it, on its way out: on the tick, some quantity left.\<close>

definition approved_send :: "'v ports \<Rightarrow> risk_limits \<Rightarrow> order \<Rightarrow> bool" where
  "approved_send P lims o1 \<longleftrightarrow>
     o_status o1 = PENDING_SUBMIT \<and> 0 < o_qty o1
     \<and> (\<exists>asked o0 v en pf ps d rest. on_tick P asked = Inr o0 \<and> o_status asked = PENDING_RISK
          \<and> platform_engine en \<and> en_limits en = lims
          \<and> validate (po_env P v) en o0 pf ps = (d, o0, rest) \<and> rd_approved d
          \<and> o1 = o0\<lparr>o_status := PENDING_SUBMIT\<rparr>)"

text \<open>Nothing sent and the chain as it was; what was sent was approved and the chain stays the platform's.\<close>

definition quiet :: "('v \<times> order list) router \<Rightarrow> ('v \<times> order list) router \<Rightarrow> bool" where
  "quiet s s' \<longleftrightarrow> sent s' = sent s \<and> rt_engine s' = rt_engine s"

definition sends :: "'v ports \<Rightarrow> ('v \<times> order list) router \<Rightarrow> ('v \<times> order list) router \<Rightarrow> bool" where
  "sends P s s' \<longleftrightarrow> (platform_engine (rt_engine s) \<longrightarrow>
     platform_engine (rt_engine s') \<and> en_limits (rt_engine s') = en_limits (rt_engine s)
     \<and> (\<exists>new. sent s' = sent s @ new \<and> (\<forall>o1 \<in> set new. approved_send P (en_limits (rt_engine s)) o1)))"

lemma platform_kept:
  assumes "platform_engine en" "validate env en o1 pf ps = (d, o2, en2, pf2)"
  shows "platform_engine en2" "en_limits en2 = en_limits en" "o2 = o1"
proof -
  note V = validate_builtin [OF platform_builtin [OF assms(1)] assms(2)]
  show "en_limits en2 = en_limits en" "o2 = o1" using V by simp_all
  have "list_all2 same_rule (en_rules en2) default_rules"
    using V(3) assms(1) unfolding platform_engine_def
    by (rule list_all2_trans [rotated]) (simp add: same_rule_def)
  then show "platform_engine en2" by (simp add: platform_engine_def)
qed

interpretation quietly: state_relation quiet
  by unfold_locales (auto simp: quiet_def)

interpretation sending: state_relation "sends P"
proof
  fix a b c assume ab: "sends P a b" and bc: "sends P b c"
  show "sends P a c"
    unfolding sends_def
  proof (intro impI conjI)
    assume p: "platform_engine (rt_engine a)"
    with ab bc show "platform_engine (rt_engine c)" "en_limits (rt_engine c) = en_limits (rt_engine a)"
      by (simp_all add: sends_def)
    from p ab bc obtain n1 n2 where "sent b = sent a @ n1" "sent c = sent b @ n2"
      "\<forall>o1 \<in> set n1 \<union> set n2. approved_send P (en_limits (rt_engine a)) o1"
      unfolding sends_def by (metis UnE)
    then show "\<exists>new. sent c = sent a @ new \<and> (\<forall>o1 \<in> set new. approved_send P (en_limits (rt_engine a)) o1)"
      by (intro exI [of _ "n1 @ n2"]) auto
  qed
qed (auto simp: sends_def)

lemma quiet_sends: "quiet s s' \<Longrightarrow> sends P s s'"
  by (simp add: quiet_def sends_def)

lemma follows_quiet: "follows quiet m \<Longrightarrow> follows (sends P) m"
  by (simp add: follows_def quiet_sends)

lemma quiet_modify:
  "(\<And>s. sent (h s) = sent s \<and> rt_engine (h s) = rt_engine s) \<Longrightarrow> follows quiet (modify_a h)"
  by (simp add: quietly.modify quiet_def)

lemma quiet_outside:
  assumes "\<And>v l. snd (snd (f (v, l))) = l"
  shows "follows quiet (outside f)"
  using assms by (auto simp: follows_def outside_def quiet_def split: prod.split)
     (metis prod.collapse snd_conv)

lemma quiet_ports [follows_intros]:
  "follows quiet (outside (po_cancel (logged P) b))" "follows quiet (outside (po_get (logged P) b))"
  "follows quiet (outside (po_open (logged P)))"
  by (auto simp: logged_def intro!: quiet_outside split: prod.split)

lemma quiet_halt:
  "follows quiet (case po_halt (logged P) of None \<Rightarrow> ret () | Some h \<Rightarrow> outside (h q))"
  by (auto simp: logged_def intro!: quiet_outside follows_intros split: option.split prod.split)

lemma quiet_draw [follows_intros]: "follows quiet (draw_id P)"
  by (simp add: follows_def draw_id_def quiet_def)

lemma quiet_adopt [follows_intros]: "follows quiet (adopt_ack P o1 ack)"
  by (simp add: follows_def adopt_ack_def quiet_def)

lemma quiet_resolve [follows_intros]: "follows quiet (resolve_indeterminate (logged P) o1 d)"
  unfolding resolve_indeterminate_def by ((rule quiet_halt | rule follows_intros)+)

lemma dispatch_sends:
  assumes "dispatch (logged P) o1 d s = (r, s')"
  shows "sent s' = sent s @ [o1] \<and> rt_engine s' = rt_engine s"
proof -
  obtain v l where v: "rt_venue s = (v, l)" by (cases "rt_venue s")
  obtain r1 v1 where o: "po_submit P o1 v = (r1, v1)" by (cases "po_submit P o1 v")
  let ?s = "s\<lparr>rt_venue := (v1, l @ [o1])\<rparr>"
  define cont where "cont = (\<lambda>r. case r of
       Inr ack \<Rightarrow> bind_a (adopt_ack (logged P) o1 ack) (\<lambda>w. ret (sent_result d w))
     | Inl e \<Rightarrow>
         if is_connection_error e then resolve_indeterminate (logged P) o1 d
         else if is_broker_error e then
           bind_a (lift_a (transition REJECTED None (Some (exn_reason e)) (Some (po_name (logged P))) o1)) (\<lambda>(_, o2).
           ret \<lparr>sr_order = Some o2, sr_decision = d, sr_submitted = False, sr_inventory_held = is_inventory_held e\<rparr>)
         else raise_a e)"
  have "(r, s') = cont r1 ?s"
    using assms unfolding dispatch_def cont_def bind_attempt
    by (simp add: outside_def logged_def v o)
  moreover have "follows quiet (cont r1)"
    unfolding cont_def
    by (intro follows_intros)
  ultimately have "quiet ?s s'" by (metis followsD snd_conv)
  then show ?thesis by (simp add: quiet_def v)
qed

lemma judge_sends:
  assumes "judge P o1 ps s = (Inr (d, o2), s')" "platform_engine (rt_engine s)"
  shows "o2 = o1" "platform_engine (rt_engine s')" "en_limits (rt_engine s') = en_limits (rt_engine s)"
    "rt_venue s' = rt_venue s"
    "\<exists>rest. validate (po_env P (rt_venue s)) (rt_engine s) o1 (rt_portfolio s) ps = (d, o1, rest)"
proof -
  obtain d' o' en pf where v: "validate (po_env P (rt_venue s)) (rt_engine s) o1 (rt_portfolio s) ps = (d', o', en, pf)"
    by (cases "validate (po_env P (rt_venue s)) (rt_engine s) o1 (rt_portfolio s) ps")
  note K = platform_kept [OF assms(2) v]
  from assms(1) v have "d' = d" "o' = o2" "s' = s\<lparr>rt_engine := en, rt_portfolio := pf\<rparr>" by (auto simp: judge_def)
  with K v show "o2 = o1" "platform_engine (rt_engine s')" "en_limits (rt_engine s') = en_limits (rt_engine s)"
    "rt_venue s' = rt_venue s"
    "\<exists>rest. validate (po_env P (rt_venue s)) (rt_engine s) o1 (rt_portfolio s) ps = (d, o1, rest)"
    by auto
qed

lemma judge_total: "\<exists>d o2 s1. judge P o1 ps s = (Inr (d, o2), s1)"
  by (cases "validate (po_env P (rt_venue s)) (rt_engine s) o1 (rt_portfolio s) ps") (simp add: judge_def)

text \<open>An acknowledgement leaves the order working, or terminal when the venue says so.\<close>

lemma adopt_pending:
  assumes "o_status o1 = PENDING_SUBMIT"
  obtains b o2 where "adopt_ack P o1 ack s = (Inr (b, o2), s)" "b \<longleftrightarrow> o_status o2 = SUBMITTED"
    "b \<or> is_terminal (o_status o2)"
    "o_client_id o2 = o_client_id o1" "o_symbol o2 = o_symbol o1" "o_side o2 = o_side o1" "o_qty o2 = o_qty o1"
    "o_filled o2 = o_filled o1" "o_id o2 = o_id o1" "o_stop o2 = o_stop o1" "o_type o2 = o_type o1"
    "o_parent o2 = o_parent o1" "o_purpose o2 = o_purpose o1"
proof -
  let ?now = "Some (env_now (po_env P (rt_venue s)))"
  let ?o = "(o1\<lparr>o_broker_id := o_broker_id ack\<rparr>)\<lparr>o_status := SUBMITTED, o_submitted_at := ?now\<rparr>"
  have up: "transition SUBMITTED ?now None None (o1\<lparr>o_broker_id := o_broker_id ack\<rparr>) = Inr (True, ?o)"
    using assms by (simp add: transition_def is_stale_event_def assert_transition_def can_transition_def record_move_def guard_r_def)
  show thesis
  proof (cases "o_status ack \<in> {REJECTED, CANCELLED, EXPIRED}")
    case False
    show ?thesis
      by (rule that [of True ?o]) (use False in \<open>auto simp: adopt_ack_def up\<close>)
  next
    case True
    let ?t = "record_move (o_status ack) None (o_reject_reason ack) (Some (po_name P)) ?o"
    have "transition (o_status ack) None (o_reject_reason ack) (Some (po_name P)) ?o = Inr (True, ?t)"
      using True by (auto simp: transition_def is_stale_event_def assert_transition_def can_transition_def guard_r_def)
    then show ?thesis
      by (intro that [of False ?t]) (use True in \<open>auto simp: adopt_ack_def up record_move_def Let_def\<close>)
  qed
qed

lemma on_tick_frame:
  "on_tick P o1 = Inr o2 \<Longrightarrow> \<exists>st lp. o2 = o1\<lparr>o_stop := st, o_limit := lp\<rparr>"
  by (auto simp: on_tick_def bind_r_eq_Inr)

lemma to_pending_submit:
  "o_status o1 = PENDING_RISK \<Longrightarrow> transition PENDING_SUBMIT None None None o1 = Inr (True, o1\<lparr>o_status := PENDING_SUBMIT\<rparr>)"
  by (simp add: transition_def is_stale_event_def assert_transition_def can_transition_def record_move_def guard_r_def)

lemma route_approved:
  assumes "o_status o1 = PENDING_RISK" "on_tick P o1 = Inr o2" "judge P o2 ps s = (Inr (d, o2), s1)"
    "rd_approved d" "0 < o_qty o2"
  shows "route P o1 ps s = dispatch P (o2\<lparr>o_status := PENDING_SUBMIT\<rparr>) d s1"
proof -
  have "o_status o2 = PENDING_RISK" using on_tick_frame [OF assms(2)] assms(1) by auto
  then show ?thesis using assms by (simp add: route_def bind_a_run to_pending_submit)
qed

lemma route_sends [follows_intros]: "follows (sends P) (route (logged P) o1 ps)"
  unfolding follows_def
proof
  fix s
  define rest where "rest = (\<lambda>(d, o3).
        if \<not> rd_approved d then
          bind_a (lift_a (transition REJECTED_RISK None (Some (rd_reason d)) (Some (rd_rule d)) o3)) (\<lambda>(_, o4).
          ret \<lparr>sr_order = Some o4, sr_decision = d, sr_submitted = False, sr_inventory_held = False\<rparr>)
        else if o_qty o3 \<le> 0 then
          let why = Reason ''risk left nothing to trade'' [o_symbol o3] [o_qty o3] in
          bind_a (lift_a (transition REJECTED_RISK None (Some why) (Some ROUTING) o3)) (\<lambda>(_, o4).
          ret (refused ROUTING why (Some o4)))
        else
          bind_a (lift_a (transition PENDING_SUBMIT None None None o3)) (\<lambda>(_, o4). dispatch (logged P) o4 d))"
  show "sends P s (snd (route (logged P) o1 ps s))"
  proof (cases "o_status o1 = PENDING_RISK \<and> platform_engine (rt_engine s) \<and> (\<exists>o2. on_tick (logged P) o1 = Inr o2)")
    case False
    then show ?thesis
    proof (cases "platform_engine (rt_engine s)")
      case True
      with False show ?thesis
        by (cases "on_tick (logged P) o1") (auto simp: route_def sending.refl)
    qed (simp add: sends_def)
  next
    case True
    then obtain o2 where plat: "platform_engine (rt_engine s)" and tick: "on_tick (logged P) o1 = Inr o2"
      and st: "o_status o1 = PENDING_RISK" by blast
    obtain d o3 s1 where j: "judge (logged P) o2 ps s = (Inr (d, o3), s1)"
      using judge_total by blast
    note J = judge_sends [OF j plat]
    have run: "route (logged P) o1 ps s = rest (d, o2) s1"
      using st tick j J(1) by (simp add: route_def rest_def bind_a_run)
    have s1: "sends P s s1" using J by (simp add: sends_def)
    have st2: "o_status o2 = PENDING_RISK" using on_tick_frame [OF tick] st by auto
    show ?thesis
    proof (cases "rd_approved d \<and> 0 < o_qty o2")
      case False
      have "follows quiet (rest (d, o2))" if "\<not> rd_approved d \<or> o_qty o2 \<le> 0"
        unfolding rest_def prod.case by (intro follows_intros) (use that in auto)
      moreover have "\<not> rd_approved d \<or> o_qty o2 \<le> 0" using False by auto
      ultimately have "quiet s1 (snd (rest (d, o2) s1))" unfolding follows_def by blast
      then show ?thesis using s1 by (simp add: run) (metis quiet_sends sending.trans)
    next
      case True
      let ?o = "o2\<lparr>o_status := PENDING_SUBMIT\<rparr>"
      have go: "route (logged P) o1 ps s = dispatch (logged P) ?o d s1"
        using True by (intro route_approved [OF st tick]) (simp_all add: j J(1))
      obtain r s2 where disp: "dispatch (logged P) ?o d s1 = (r, s2)" by (cases "dispatch (logged P) ?o d s1")
      from dispatch_sends [OF disp] J have s2: "sent s2 = sent s @ [?o]" "rt_engine s2 = rt_engine s1" by simp_all
      have tick': "on_tick P o1 = Inr o2" using tick by (simp add: on_tick_def instrument_of_def logged_def)
      have "approved_send P (en_limits (rt_engine s)) ?o"
        unfolding approved_send_def
        using True J(5) st plat tick' by (cases "rt_venue s") (force simp: logged_def)
      then show ?thesis using J s2 by (simp add: sends_def go disp)
    qed
  qed
qed

lemma sends_outside [follows_intros]:
  "follows (sends P) (outside (po_cancel (logged P) b))" "follows (sends P) (outside (po_get (logged P) b))"
  "follows (sends P) (outside (po_open (logged P)))" "follows (sends P) (draw_id (logged P))"
  by (intro follows_quiet follows_intros)+

lemma sends_modify:
  "(\<And>s. sent (h s) = sent s \<and> rt_engine (h s) = rt_engine s) \<Longrightarrow> follows (sends P) (modify_a h)"
  by (intro follows_quiet quiet_modify)

lemma frame_simps [simp]:
  "rt_venue (put_children sm cs s) = rt_venue s" "rt_engine (put_children sm cs s) = rt_engine s"
  "rt_venue (forget_protective c s) = rt_venue s" "rt_engine (forget_protective c s) = rt_engine s"
  "rt_venue (bump_released c s) = rt_venue s" "rt_engine (bump_released c s) = rt_engine s"
  "rt_venue (book_child en c x y s) = rt_venue s" "rt_engine (book_child en c x y s) = rt_engine s"
  "rt_venue (child_changed c s) = rt_venue s" "rt_engine (child_changed c s) = rt_engine s"
  by (simp_all add: put_children_def forget_protective_def bump_released_def book_child_def child_changed_def Let_def
      split: option.split)

lemma sends_cancel [follows_intros]: "follows (sends P) (cancel_at_venue (logged P) c)"
  unfolding cancel_at_venue_def by (intro follows_intros)

lemma sends_inherited [follows_intros]: "follows (sends P) (inherited_protection (logged P) sm sd known)"
  unfolding inherited_protection_def by (intro follows_intros)

lemma sends_submit [follows_intros]: "follows (sends P) (submit (logged P) r ps)"
  unfolding submit_def by (intro follows_intros sends_modify) simp

lemma sends_cancel_protection [follows_intros]: "follows (sends P) (cancel_protection (logged P) sm)"
  unfolding cancel_protection_def by (intro follows_intros sends_modify) simp

lemma sends_release [follows_intros]: "follows (sends P) (release_protection (logged P) sm sd)"
  unfolding release_protection_def by (intro follows_intros sends_modify) simp_all

lemma sends_poll [follows_intros]: "follows (sends P) (poll_cancel (logged P) b n seen)"
proof (induction n arbitrary: seen)
  case (Suc n)
  show ?case unfolding poll_cancel.simps by (intro follows_intros sends_modify Suc.IH) (simp add: logged_def split: prod.split)
qed (simp add: follows_intros)

lemma sends_await [follows_intros]: "follows (sends P) (await_cancelled (logged P) cs)"
  unfolding await_cancelled_def by (intro follows_intros)

lemma sends_rearm [follows_intros]: "follows (sends P) (rearm (logged P) sm cs)"
  unfolding rearm_def rearm_one_def by (intro follows_intros sends_modify) simp_all

lemma sends_close [follows_intros]: "follows (sends P) (close_out (logged P) r ps)"
  unfolding close_out_def by (intro follows_intros)

lemma sends_protect [follows_intros]: "follows (sends P) (submit_protective_orders (logged P) en cfg atr)"
  unfolding submit_protective_orders_def cancel_stale_def place_child_def by (intro follows_intros sends_modify) simp_all

lemma sends_entry_points:
  "follows (sends P) (submit_signal (logged P) sg spec ps)" "follows (sends P) (flatten (logged P) sm t purpose)"
  "follows (sends P) (cancel_all (logged P) target)" "follows (sends P) (adopt_protection os)"
proof -
  show "follows (sends P) (submit_signal (logged P) sg spec ps)"
    unfolding submit_signal_def by (intro follows_intros)
  show "follows (sends P) (flatten (logged P) sm t purpose)"
    unfolding flatten_def by (intro follows_intros)
  show "follows (sends P) (cancel_all (logged P) target)"
    unfolding cancel_all_def by (intro follows_intros sends_modify) simp
  show "follows (sends P) (adopt_protection os)"
    unfolding adopt_protection_def adopt_one_def by (intro follows_intros sends_modify) simp
qed

lemma router_step_sends: "router_step P s s' \<Longrightarrow> sends P s s'"
proof (induction rule: router_step.induct)
  case (Request s r ps)
  show ?case using sends_submit unfolding follows_def by blast
next
  case (Protect s en cfg atr)
  show ?case using sends_protect unfolding follows_def by blast
qed (use sends_entry_points in \<open>unfold follows_def, blast\<close> | simp add: sends_def)+

text \<open>
  C2. The router is the one path to the venue, and the risk chain is on it. Whatever sequence of
  signals, requests, protective stops, flattens, cancels, adoptions and outside events a router
  goes through, every order it hands to the venue was approved by the chain of the platform's own
  rules under the limits it started with, has some quantity, was put on the venue's tick first, and
  leaves in PENDING_SUBMIT. Nothing in the router changes the limits or the chain's composition.
\<close>

theorem every_order_sent_was_approved:
  assumes "router_run P s s'" "platform_engine (rt_engine s)"
  shows "\<exists>new. sent s' = sent s @ new \<and> (\<forall>o1 \<in> set new. approved_send P (en_limits (rt_engine s)) o1)
    \<and> platform_engine (rt_engine s') \<and> en_limits (rt_engine s') = en_limits (rt_engine s)"
proof -
  have "sends P s s'"
    using assms(1) unfolding router_run_def
  proof (induction rule: rtranclp_induct)
    case base
    show ?case by (rule sending.refl)
  next
    case (step b c)
    then show ?case using router_step_sends sending.trans by blast
  qed
  then show ?thesis using assms(2) unfolding sends_def by blast
qed

text \<open>A venue that acknowledges what it is sent, and a router in front of it.\<close>

definition sample_ports :: "unit ports" where
  "sample_ports =
     \<lparr>po_name = ''venue'', po_submit = (\<lambda>o1 v. (Inr (o1\<lparr>o_broker_id := Some ''v1'', o_status := SUBMITTED\<rparr>), v)),
      po_cancel = (\<lambda>b v. (Inr (), v)), po_get = (\<lambda>b v. (Inr None, v)), po_open = (\<lambda>v. (Inr [], v)),
      po_sleep = (\<lambda>v. v), po_env = (\<lambda>v. sample_env []), po_halt = Some (\<lambda>q v. (Inr (), v)),
      po_instrument = (\<lambda>_. None), po_hex = (\<lambda>s. s), po_new_id = (\<lambda>n. ''id-'' @ nat_digits n), po_polls = 50\<rparr>"

definition sample_router :: "'v \<Rightarrow> 'v router" where
  "sample_router v = \<lparr>rt_venue = v, rt_engine = sample_engine, rt_portfolio = sample_portfolio, rt_requested = [],
     rt_covered = [], rt_protective = [], rt_cover = [], rt_drawn = 0\<rparr>"

definition sample_request :: order_request where
  "sample_request = \<lparr>r_symbol = ''MSFT'', r_side = BUY, r_decided_at = 0, r_type = LIMIT, r_qty = Some 10,
     r_notional = None, r_limit = Some 300, r_stop_loss = None, r_take_profit = None, r_tif = DAY,
     r_strategy = None, r_signal = None, r_purpose = ''entry''\<rparr>"

lemma sample_approved:
  "rd_approved (fst (validate (sample_env []) sample_engine
     (order_defaults i c ''MSFT'' BUY 10\<lparr>o_type := LIMIT, o_limit := Some 300, o_created_at := Some 0\<rparr>) sample_portfolio []))"
  by (simp add: sample_defs risk_eval dec_ops Let_def)

lemma submit_routes:
  assumes "r_qty r = Some q" "request_order P (po_new_id P (rt_drawn s)) r q = Inr o1"
    "r_stop_loss r = None" "r_take_profit r = None"
  shows "submit P r ps s = route P o1 ps (s\<lparr>rt_drawn := rt_drawn s + 1\<rparr>)"
  using assms by (simp add: submit_def bind_a_run draw_id_def)

lemma sample_tick:
  "on_tick sample_ports (order_defaults i c ''MSFT'' BUY 10\<lparr>o_type := LIMIT, o_limit := Some 300, o_created_at := Some 0\<rparr>)
     = Inr (order_defaults i c ''MSFT'' BUY 10\<lparr>o_type := LIMIT, o_limit := Some 300, o_created_at := Some 0\<rparr>)"
proof -
  have "str_upper ''MSFT'' = ''MSFT''" by code_simp
  then show ?thesis
    by (simp add: on_tick_def instrument_of_def sample_ports_def new_instrument_def default_instrument_def
        round_opt_def round_price_def limit_rounding_def quantize_def ddiv_r_def dec_ops Let_def order_defaults_def)
qed

theorem every_order_sent_was_approved_witness:
  "\<exists>s' o1. router_run sample_ports (sample_router ((), [])) s' \<and> sent s' = [o1] \<and> o_qty o1 = 10
     \<and> approved_send sample_ports (en_limits sample_engine) o1"
proof -
  let ?s = "sample_router ((), [] :: order list)" and ?P = "logged sample_ports"
  let ?s' = "snd (submit ?P sample_request [] ?s)"
  let ?c = "digest (\<lambda>s. s) (client_key_parts ''MSFT'' BUY 0 None ''entry'')"
  let ?o = "order_defaults (''id-'' @ nat_digits 0) ?c ''MSFT'' BUY 10\<lparr>o_type := LIMIT, o_limit := Some 300, o_created_at := Some 0\<rparr>"
  let ?s1 = "?s\<lparr>rt_drawn := 1\<rparr>"
  have plat: "platform_engine (rt_engine ?s)"
    by (simp add: sample_router_def platform_engine_def sample_engine_def anchor_session_def default_rules_def same_rule_def)
  have tick: "on_tick ?P ?o = Inr ?o"
    using sample_tick by (simp add: on_tick_def instrument_of_def logged_def)
  obtain d o2 s2 where j: "judge ?P ?o [] ?s1 = (Inr (d, o2), s2)"
    using judge_total by blast
  have plat1: "platform_engine (rt_engine ?s1)" using plat by simp
  note J = judge_sends [OF j plat1]
  have ok: "rd_approved d"
    using j sample_approved [of "''id-'' @ nat_digits 0" ?c]
    by (auto simp: judge_def sample_router_def logged_def sample_ports_def split: prod.splits)
  have ro: "request_order ?P (''id-'' @ nat_digits 0) sample_request 10 = Inr ?o"
    by (simp add: request_order_def sample_request_def client_order_id_def logged_def sample_ports_def new_order_def
        order_defaults_def)
  have "submit ?P sample_request [] ?s = route ?P ?o [] (?s\<lparr>rt_drawn := rt_drawn ?s + 1\<rparr>)"
  proof (rule submit_routes [where q = 10])
    show "request_order ?P (po_new_id ?P (rt_drawn ?s)) sample_request 10 = Inr ?o"
      using ro by (simp add: sample_router_def) (simp add: logged_def sample_ports_def)
  qed (simp_all add: sample_request_def)
  also have "?s\<lparr>rt_drawn := rt_drawn ?s + 1\<rparr> = ?s1" by (simp add: sample_router_def)
  also have "route ?P ?o [] ?s1 = dispatch ?P (?o\<lparr>o_status := PENDING_SUBMIT\<rparr>) d s2"
    using j J(1) ok by (intro route_approved [OF _ tick]) (simp_all add: order_defaults_def)
  finally have "sent ?s' = sent ?s @ [?o\<lparr>o_status := PENDING_SUBMIT\<rparr>]"
    using dispatch_sends [OF surjective_pairing, of sample_ports "?o\<lparr>o_status := PENDING_SUBMIT\<rparr>" d s2] J(4) by simp
  moreover have run: "router_run sample_ports ?s ?s'"
    unfolding router_run_def by (rule r_into_rtranclp) (rule router_step.Request)
  ultimately show ?thesis
    using every_order_sent_was_approved [OF run plat]
    by (auto simp: sample_router_def order_defaults_def intro!: exI [of _ ?s'])
qed

text \<open>What asking for that halt, and raising, looks like from outside.\<close>

definition halts_and_raises ::
  "(halt_request \<Rightarrow> 'v \<Rightarrow> (exn + unit) \<times> 'v) \<Rightarrow> order \<Rightarrow> 'v \<Rightarrow> (exn + submit_result) \<times> 'v \<Rightarrow> bool" where
  "halts_and_raises h o1 v out \<longleftrightarrow>
     snd out = snd (h (indeterminate_halt o1) v)
     \<and> (case fst (h (indeterminate_halt o1) v) of
          Inl e \<Rightarrow> fst out = Inl e
        | Inr _ \<Rightarrow> (\<exists>why. fst out = Inl (BrokerConnectionError why)))"

text \<open>
  C19. A submit that dies in transport is looked for once and never sent again. If the venue lists an
  order under the same key it is adopted. If it lists none, or still cannot be reached, the kill
  switch is asked once for a global halt that impugns this symbol, and the call raises. The third
  case is the gap: a lookup that fails with any other error raises it, and no halt is asked for.
\<close>

theorem indeterminate_submit_halts:
  assumes "po_submit P o1 (rt_venue s) = (Inl (BrokerConnectionError w), v1)" "po_open P v1 = (lookup, v2)"
    and "po_halt P = Some h" "o_status o1 = PENDING_SUBMIT" "dispatch P o1 d s = (r, s')"
  shows "case lookup of
      Inr os \<Rightarrow> if o_client_id o1 \<in> o_client_id ` set os
               then rt_venue s' = v2 \<and> (\<exists>res o2. r = Inr res \<and> sr_order res = Some o2 \<and> o_client_id o2 = o_client_id o1
                      \<and> (sr_submitted res \<longleftrightarrow> o_status o2 = SUBMITTED))
               else halts_and_raises h o1 v2 (r, rt_venue s')
    | Inl e \<Rightarrow> if is_connection_error e then halts_and_raises h o1 v2 (r, rt_venue s')
               else r = Inl e \<and> rt_venue s' = v2"
proof -
  let ?s2 = "s\<lparr>rt_venue := v2\<rparr>"
  define halted where "halted = bind_a (outside (h (indeterminate_halt o1))) (\<lambda>_.
         raise_a (BrokerConnectionError (Reason ''submit failed and its outcome could not be established''
           [o_client_id o1, o_symbol o1] [o_qty o1])) :: ('a, submit_result) routed)"
  have "dispatch P o1 d s = (case (case lookup of Inr os \<Rightarrow> Inr (find (\<lambda>w. o_client_id w = o_client_id o1) os)
           | Inl e \<Rightarrow> if is_connection_error e then Inr None else Inl e) of
       Inl e \<Rightarrow> raise_a e
     | Inr (Some found) \<Rightarrow> bind_a (adopt_ack P o1 found) (\<lambda>w. ret (sent_result d w))
     | Inr None \<Rightarrow> halted) ?s2"
    using assms(1-3) by (simp add: dispatch_def resolve_indeterminate_def halted_def bind_attempt outside_def
        split: sum.split option.split)
  note run = trans [OF assms(5) [symmetric] this]
  have halts: "halts_and_raises h o1 v2 (r, rt_venue s')" if "(r, s') = halted ?s2"
    using that unfolding halted_def halts_and_raises_def
    by (auto simp: bind_a_run outside_def split: prod.splits sum.splits)
  show ?thesis
  proof (cases lookup)
    case (Inl e)
    with run halts show ?thesis by (cases "is_connection_error e") auto
  next
    case (Inr os)
    show ?thesis
    proof (cases "find (\<lambda>w. o_client_id w = o_client_id o1) os")
      case None
      then have "o_client_id o1 \<notin> o_client_id ` set os" by (auto simp: find_None_iff)
      with Inr None run halts show ?thesis by simp
    next
      case (Some found)
      then have "o_client_id o1 \<in> o_client_id ` set os" by (metis (mono_tags) find_Some_iff imageI nth_mem)
      moreover obtain b o2 where ack: "adopt_ack P o1 found ?s2 = (Inr (b, o2), ?s2)"
        "b \<longleftrightarrow> o_status o2 = SUBMITTED" "o_client_id o2 = o_client_id o1"
        using adopt_pending [OF assms(4)] by metis
      moreover have "(r, s') = (Inr (sent_result d (b, o2)), ?s2)"
        using run Inr Some ack(1) by (simp add: bind_a_run)
      ultimately show ?thesis using Inr by (simp add: sent_result_def)
    qed
  qed
qed

theorem indeterminate_submit_halts_witness:
  "\<exists>r s'. dispatch (sample_ports\<lparr>po_submit := (\<lambda>o1 v. (Inl (BrokerConnectionError no_reason), v))\<rparr>)
        (sample_order\<lparr>o_status := PENDING_SUBMIT\<rparr>) allow (sample_router ()) = (r, s')
     \<and> (\<exists>why. r = Inl (BrokerConnectionError why))"
proof -
  let ?P = "sample_ports\<lparr>po_submit := (\<lambda>o1 v. (Inl (BrokerConnectionError no_reason), v))\<rparr>"
  let ?o = "sample_order\<lparr>o_status := PENDING_SUBMIT\<rparr>"
  obtain r s' where d: "dispatch ?P ?o allow (sample_router ()) = (r, s')" by (cases "dispatch ?P ?o allow (sample_router ())")
  have "halts_and_raises (\<lambda>q v. (Inr (), v)) ?o () (r, rt_venue s')"
    using indeterminate_submit_halts [OF _ _ _ _ d, of no_reason "()" "Inr []" "()" "\<lambda>q v. (Inr (), v)"]
    by (simp add: sample_ports_def)
  then show ?thesis using d by (auto simp: halts_and_raises_def)
qed

end
