(* ===== verification/Protection.thy ===== *)
theory Protection
  imports RouterSafety
begin

text \<open>
  Protective stops against the position they protect: how much the venue is asked to hold, on which
  side, and what happens to the level armed on the position.
\<close>

text \<open>What routing an order leaves alone: the router's own books, and every position that was there.\<close>

definition same_books :: "'v router \<Rightarrow> 'v router \<Rightarrow> bool" where
  "same_books s s' \<longleftrightarrow> rt_protective s' = rt_protective s \<and> rt_cover s' = rt_cover s \<and> rt_covered s' = rt_covered s
     \<and> rt_requested s' = rt_requested s
     \<and> (\<forall>k p. dict_get (pf_positions (rt_portfolio s)) k = Some p
            \<longrightarrow> dict_get (pf_positions (rt_portfolio s')) k = Some p)"

interpretation booked: state_relation same_books
  by unfold_locales (auto simp: same_books_def)

text \<open>The working stops on one side of a symbol, the rule chain and the portfolio stay.\<close>

definition same_side_stops :: "string \<Rightarrow> side \<Rightarrow> 'v router \<Rightarrow> 'v router \<Rightarrow> bool" where
  "same_side_stops sm sd s s' \<longleftrightarrow>
     filter (\<lambda>c. \<not> is_complete c \<and> o_side c = sd) (children_of sm s')
       = filter (\<lambda>c. \<not> is_complete c \<and> o_side c = sd) (children_of sm s)
     \<and> rt_engine s' = rt_engine s \<and> rt_portfolio s' = rt_portfolio s"

interpretation sided: state_relation "same_side_stops sm sd"
  by unfold_locales (auto simp: same_side_stops_def)

lemma same_outside [follows_intros]:
  "follows same_books (outside f)" "follows (same_side_stops sm sd) (outside f)"
  by (auto simp: follows_def outside_def same_books_def same_side_stops_def children_of_def split: prod.split)

lemma same_draw [follows_intros]: "follows same_books (draw_id P)"
  by (simp add: follows_def draw_id_def same_books_def)

lemma filter_remove1: "\<not> Q x \<Longrightarrow> filter Q (remove1 x xs) = filter Q xs"
  by (induction xs) auto

lemma cancel_stale_sided: "follows (same_side_stops sm sd) (cancel_stale P sm sd)"
proof -
  have "follows (same_side_stops sm sd)
      (modify_a (\<lambda>s. s\<lparr>rt_protective := dict_set sm (remove1 c (children_of sm s)) (rt_protective s)\<rparr>))"
    if "o_side c \<noteq> sd" for c
    using that by (intro sided.modify) (simp add: same_side_stops_def children_of_def dict_get_or_def filter_remove1)
  then show ?thesis
    unfolding cancel_stale_def cancel_at_venue_def
    by (intro follows_intros sided.for_members) (auto intro!: follows_intros)
qed

text \<open>The book a platform chain judges against keeps every position it had.\<close>

lemma touch_keeps:
  "dict_get (pf_positions (rb_settled b)) k = Some p \<Longrightarrow>
     dict_get (pf_positions (rb_settled (touch_committed x b))) k = Some p"
  by (auto simp: touch_committed_def touch_position_def Let_def dict_get_or_def)

lemma touches_keep:
  "dict_get (pf_positions (rb_settled b)) k = Some p \<Longrightarrow>
     dict_get (pf_positions (rb_settled (fold touch_committed ss b))) k = Some p"
proof (induction ss arbitrary: b)
  case (Cons a ss)
  show ?case using Cons.IH [OF touch_keeps [OF Cons.prems, of a]] by simp
qed simp

lemma validate_keeps_positions:
  assumes "platform_engine en" "validate env en o1 pf ps = (d, o2, en2, pf2)" "dict_get (pf_positions pf) k = Some p"
  shows "dict_get (pf_positions pf2) k = Some p"
proof -
  obtain rs2 b2 where r: "run_chain env (en_limits en) (en_rules en) o1 (books_of pf ps) None = (d, o2, rs2, b2)"
    and "pf2 = rb_settled b2"
    using assms(2) by (auto simp: validate_def split: prod.splits)
  moreover obtain ss where "b2 = fold touch_committed ss (books_of pf ps)"
    using run_chain_builtin [OF platform_builtin [OF assms(1)] r] by blast
  ultimately show ?thesis using assms(3) touches_keep [of "books_of pf ps" k p ss] by (simp add: books_of_def)
qed

text \<open>With the platform's own chain, routing leaves the books alone whatever comes of it.\<close>

definition keeps_books :: "'v router \<Rightarrow> 'v router \<Rightarrow> bool" where
  "keeps_books s s' \<longleftrightarrow> (platform_engine (rt_engine s) \<longrightarrow> platform_engine (rt_engine s') \<and> same_books s s')"

interpretation keeping: state_relation keeps_books
  by unfold_locales (auto simp: keeps_books_def booked.refl intro: booked.trans)

lemma keeps_judge [follows_intros]: "follows keeps_books (judge P o1 ps)"
  unfolding follows_def keeps_books_def
proof (intro allI impI)
  fix s :: "'a router"
  assume plat: "platform_engine (rt_engine s)"
  obtain d o2 s1 where j: "judge P o1 ps s = (Inr (d, o2), s1)" using judge_total by blast
  have "same_books s s1"
    using j validate_keeps_positions [OF plat] by (auto simp: judge_def same_books_def split: prod.splits)
  then show "platform_engine (rt_engine (snd (judge P o1 ps s))) \<and> same_books s (snd (judge P o1 ps s))"
    using judge_sends [OF j plat] j by simp
qed

lemma keeps_outside [follows_intros]:
  "follows keeps_books (outside f)" "follows keeps_books (draw_id P)" "follows keeps_books (adopt_ack P o1 ack)"
  by (auto simp: follows_def keeps_books_def outside_def draw_id_def adopt_ack_def same_books_def split: prod.split)

lemma route_keeps_books: "follows keeps_books (route P o1 ps)"
  unfolding route_def dispatch_def resolve_indeterminate_def by (intro follows_intros)

text \<open>A routed order that the venue took is the order that was routed, working.\<close>

lemma dispatch_submitted:
  assumes run: "dispatch P o1 d s = (Inr r, s')" and st: "o_status o1 = PENDING_SUBMIT" and sub: "sr_submitted r"
  shows "\<exists>w ack s1. adopt_ack P o1 ack s1 = (Inr (True, w), s1) \<and> sr_order r = Some w"
proof -
  have found: ?thesis if "bind_a (adopt_ack P o1 ack) (\<lambda>w. ret (sent_result d w)) s1 = (Inr r, s')" for ack s1
  proof -
    obtain b w where a: "adopt_ack P o1 ack s1 = (Inr (b, w), s1)" by (rule adopt_pending [OF st])
    with that have "r = sent_result d (b, w)" by (simp add: bind_a_run)
    with sub a show ?thesis by (intro exI [of _ w] exI [of _ ack] exI [of _ s1]) (simp add: sent_result_def)
  qed
  obtain r1 v1 where o: "po_submit P o1 (rt_venue s) = (r1, v1)" by (cases "po_submit P o1 (rt_venue s)")
  show ?thesis
  proof (cases r1)
    case (Inr ack)
    with run o show ?thesis by (intro found) (simp add: dispatch_def bind_attempt outside_def)
  next
    case (Inl e)
    define no where "no = (bind_a (lift_a (transition REJECTED None (Some (exn_reason e)) (Some (po_name P)) o1)) (\<lambda>(_, o2).
           ret \<lparr>sr_order = Some o2, sr_decision = d, sr_submitted = False, sr_inventory_held = is_inventory_held e\<rparr>)
           :: ('a, submit_result) routed)"
    have "dispatch P o1 d s = (if is_connection_error e then resolve_indeterminate P o1 d
         else if is_broker_error e then no else raise_a e) (s\<lparr>rt_venue := v1\<rparr>)"
      using o Inl by (simp add: dispatch_def bind_attempt outside_def no_def)
    moreover have "no s1 = (Inr r, s') \<Longrightarrow> \<not> sr_submitted r" for s1
      by (auto simp: no_def bind_a_run split: sum.splits)
    ultimately have conn: "resolve_indeterminate P o1 d (s\<lparr>rt_venue := v1\<rparr>) = (Inr r, s')"
      using run sub by (auto split: if_splits)
    obtain lookup v2 where l: "po_open P v1 = (lookup, v2)" by (cases "po_open P v1")
    let ?pick = "case lookup of Inr os \<Rightarrow> Inr (find (\<lambda>w. o_client_id w = o_client_id o1) os)
           | Inl e \<Rightarrow> if is_connection_error e then Inr None else Inl e"
    define tell where "tell = bind_a (case po_halt P of None \<Rightarrow> ret () | Some engage_halt \<Rightarrow> outside (engage_halt (indeterminate_halt o1))) (\<lambda>_.
         raise_a (BrokerConnectionError (Reason ''submit failed and its outcome could not be established''
           [o_client_id o1, o_symbol o1] [o_qty o1])) :: ('a, submit_result) routed)"
    have pick: "resolve_indeterminate P o1 d (s\<lparr>rt_venue := v1\<rparr>) = (case ?pick of
       Inl e \<Rightarrow> raise_a e
     | Inr (Some found) \<Rightarrow> bind_a (adopt_ack P o1 found) (\<lambda>w. ret (sent_result d w))
     | Inr None \<Rightarrow> tell) (s\<lparr>rt_venue := v2\<rparr>)"
      unfolding tell_def resolve_indeterminate_def by (subst bind_attempt) (simp add: outside_def [of "po_open P"] l)
    moreover have "fst (tell s1) \<noteq> Inr r" for s1
      by (auto simp: tell_def bind_a_run split: sum.splits)
    ultimately obtain ack where "?pick = Inr (Some ack)"
      using conn by (cases ?pick) (auto split: option.splits simp: prod_eq_iff)
    with conn pick show ?thesis
      by (intro found [of ack "s\<lparr>rt_venue := v2\<rparr>"]) simp
  qed
qed

lemma dispatch_acked:
  assumes "po_submit P o1 (rt_venue s) = (Inr ack, v1)" "adopt_ack P o1 ack (s\<lparr>rt_venue := v1\<rparr>) = (Inr bw, s2)"
  shows "dispatch P o1 d s = (Inr (sent_result d bw), s2)"
  using assms by (simp add: dispatch_def attempt_run outside_def bind_a_run)

lemma route_submitted:
  assumes run: "route P o1 ps s = (Inr r, s')" and plat: "platform_engine (rt_engine s)" and sub: "sr_submitted r"
  obtains w where "sr_order r = Some w" "o_status w = SUBMITTED" "o_symbol w = o_symbol o1" "o_side w = o_side o1"
    "o_qty w = o_qty o1" "0 < o_qty w" "o_filled w = o_filled o1" "o_id w = o_id o1" "o_type w = o_type o1" "o_parent w = o_parent o1"
    "same_books s s'"
proof -
  obtain o2 where tick: "on_tick P o1 = Inr o2" and st: "o_status o1 = PENDING_RISK"
    using run by (cases "on_tick P o1") (auto simp: route_def split: if_splits)
  obtain d o3 s1 where j: "judge P o2 ps s = (Inr (d, o3), s1)" using judge_total by blast
  note J = judge_sends [OF j plat]
  have st2: "o_status o2 = PENDING_RISK" using on_tick_frame [OF tick] st by auto
  have go: "rd_approved d \<and> 0 < o_qty o2"
  proof (rule ccontr)
    assume "\<not> (rd_approved d \<and> 0 < o_qty o2)"
    then show False
      using run sub st tick j J(1)
      by (auto simp: route_def bind_a_run refused_def Let_def split: if_splits sum.splits prod.splits)
  qed
  let ?o = "o2\<lparr>o_status := PENDING_SUBMIT\<rparr>"
  have disp: "dispatch P ?o d s1 = (Inr r, s')"
    using run route_approved [OF st tick, of ps s d s1] j J(1) go by simp
  from dispatch_submitted [OF this _ sub] obtain w ack s2 where
    w: "adopt_ack P ?o ack s2 = (Inr (True, w), s2)" "sr_order r = Some w" by auto
  have sb: "same_books s s'"
    using followsD [OF route_keeps_books, of s P o1 ps] run plat by (simp add: keeps_books_def)
  obtain st' lp where o2: "o2 = o1\<lparr>o_stop := st', o_limit := lp\<rparr>" using on_tick_frame [OF tick] by blast
  obtain b w' where "adopt_ack P ?o ack s2 = (Inr (b, w'), s2)" "b \<longleftrightarrow> o_status w' = SUBMITTED"
    "o_symbol w' = o_symbol ?o" "o_side w' = o_side ?o" "o_qty w' = o_qty ?o" "o_filled w' = o_filled ?o"
    "o_id w' = o_id ?o" "o_type w' = o_type ?o" "o_parent w' = o_parent ?o"
    by (rule adopt_pending [of ?o]) auto
  with w sb go show ?thesis by (intro that [of w]) (auto simp: o2)
qed

lemma stop_child_fields:
  assumes "stop_child P oid entry p q level x y n = Inr c"
  shows "o_symbol c = o_symbol entry" "o_side c = closing_side p" "o_qty c = q" "o_type c = STOP" "o_filled c = 0"
    "o_parent c = Some (o_id entry)" "o_stop c = Some level"
  using assms by (auto simp: stop_child_def bind_r_eq_Inr new_order_def order_defaults_def split: if_splits)

lemma place_child_cases:
  assumes run: "place_child P entry p inc level x armed s = (Inr r, s')" and plat: "platform_engine (rt_engine s)"
  obtains (none) "pr_placed r = []" "same_books s s'"
  | (one) w s1 where "pr_placed r = [w]" "same_books s s1" "s' = book_child entry w x (dadd x inc) s1"
      "o_status w = SUBMITTED" "o_symbol w = o_symbol entry" "o_side w = closing_side p" "o_qty w = inc" "0 < inc"
      "o_filled w = 0" "o_type w = STOP" "o_parent w = Some (o_id entry)"
proof -
  let ?oid = "po_new_id P (rt_drawn s)" and ?s0 = "s\<lparr>rt_drawn := rt_drawn s + 1\<rparr>"
  obtain c where c: "stop_child P ?oid entry p inc level x (dadd x inc) 0 = Inr c"
    using run by (cases "stop_child P ?oid entry p inc level x (dadd x inc) 0") (auto simp: place_child_def draw_id_def bind_a_run)
  obtain out s1 where rt: "route P c [] ?s0 = (Inr out, s1)"
    using run c by (cases "route P c [] ?s0"; cases "fst (route P c [] ?s0)") (auto simp: place_child_def draw_id_def bind_a_run)
  have plat0: "platform_engine (rt_engine ?s0)" using plat by simp
  have s0: "same_books s ?s0" by (simp add: same_books_def)
  note F = stop_child_fields [OF c]
  show thesis
  proof (cases "sr_submitted out")
    case False
    have "pr_placed r = []" "s' = s1"
      using run c rt False by (auto simp: place_child_def draw_id_def bind_a_run no_protection_def)
    moreover have "same_books ?s0 s1"
      using followsD [OF route_keeps_books, of ?s0 P c "[]"] rt plat0 by (simp add: keeps_books_def)
    ultimately show ?thesis using none s0 booked.trans by blast
  next
    case True
    obtain w where w: "sr_order out = Some w" "o_status w = SUBMITTED" "o_symbol w = o_symbol c" "o_side w = o_side c"
      "o_qty w = o_qty c" "0 < o_qty w" "o_filled w = o_filled c" "o_id w = o_id c" "o_type w = o_type c"
      "o_parent w = o_parent c" "same_books ?s0 s1"
      by (rule route_submitted [OF rt plat0 True])
    have "pr_placed r = [w]" "s' = book_child entry w x (dadd x inc) s1"
      using run c rt True w(1) by (auto simp: place_child_def draw_id_def bind_a_run no_protection_def)
    then show ?thesis using w F booked.trans [OF s0 w(11)] by (intro one [of w s1]) simp_all
  qed
qed

lemma arm_tightens:
  "p_qty (arm_position st tp p) = p_qty p"
  "p_stop_loss p = Some l \<Longrightarrow> protects p l \<Longrightarrow>
     \<exists>l'. p_stop_loss (arm_position st tp p) = Some l' \<and> (if is_long p then l \<le> l' else l' \<le> l)"
  by (cases "is_long p"; auto simp: arm_position_def Let_def tightest_stop_def split: option.split)+

text \<open>One more working stop on the side.\<close>

lemma protected_after_booking:
  assumes "o_status w = SUBMITTED" "o_side w = sd" "o_symbol w = o_symbol entry" "o_filled w = 0" "exact28 (o_qty w)"
  shows "protected_qty (o_symbol entry) sd (book_child entry w x y s) = dadd (protected_qty (o_symbol entry) sd s) (o_qty w)"
    "w \<in> set (children_of (o_symbol entry) (book_child entry w x y s))"
proof -
  have "children_of (o_symbol entry) (book_child entry w x y s) = children_of (o_symbol entry) s @ [w]"
    by (simp add: book_child_def children_of_def Let_def dict_get_or_def)
  moreover have "remaining_qty w = o_qty w" using assms(4,5) by (simp add: remaining_qty_def dsub_def rnd_exact)
  ultimately show "protected_qty (o_symbol entry) sd (book_child entry w x y s) = dadd (protected_qty (o_symbol entry) sd s) (o_qty w)"
    "w \<in> set (children_of (o_symbol entry) (book_child entry w x y s))"
    using assms(1,2) by (simp_all add: protected_qty_def is_complete_def dsum_snoc)
qed

definition protects_soundly :: "order \<Rightarrow> position \<Rightarrow> 'v router \<Rightarrow> protection_result \<Rightarrow> 'v router \<Rightarrow> bool" where
  "protects_soundly entry p s r s' \<longleftrightarrow>
     (let sm = o_symbol entry; sd = closing_side p in
      protected_qty sm sd s' \<le> max (protected_qty sm sd s) \<bar>p_qty p\<bar>
      \<and> (\<forall>c \<in> set (pr_placed r). o_side c = sd \<and> o_type c = STOP \<and> o_parent c = Some (o_id entry)
            \<and> 0 < o_qty c \<and> o_qty c \<le> \<bar>p_qty p\<bar> - protected_qty sm sd s \<and> c \<in> set (children_of sm s'))
      \<and> (\<exists>p'. dict_get (pf_positions (rt_portfolio s')) sm = Some p' \<and> p_qty p' = p_qty p
            \<and> (\<forall>l. p_stop_loss p = Some l \<longrightarrow> protects p l
                 \<longrightarrow> (\<exists>l'. p_stop_loss p' = Some l' \<and> (if is_long p then l \<le> l' else l' \<le> l)))))"

lemma soundly_same:
  assumes "same_side_stops (o_symbol entry) (closing_side p) s s'" "pr_placed r = []"
    "dict_get (pf_positions (rt_portfolio s)) (o_symbol entry) = Some p"
  shows "protects_soundly entry p s r s'"
  using assms by (auto simp: protects_soundly_def Let_def same_side_stops_def protected_qty_def)

lemma protecting_is_sound:
  assumes run: "submit_protective_orders P entry cfg atr s = (Inr r, s')" and plat: "platform_engine (rt_engine s)"
    and p: "dict_get (pf_positions (rt_portfolio s)) (o_symbol entry) = Some p"
    and amounts: "amount9 (p_qty p)" "amount9 (protected_qty (o_symbol entry) (closing_side p) s)"
  shows "protects_soundly entry p s r s'"
proof (cases "o_parent entry \<noteq> None \<or> is_flat p")
  case True
  then have "r = no_protection" "s' = s" using run p by (auto simp: submit_protective_orders_def bind_a_run split: if_splits)
  then show ?thesis using p by (intro soundly_same) (simp_all add: no_protection_def sided.refl)
next
  case False
  let ?sm = "o_symbol entry" and ?sd = "closing_side p"
  obtain n s1 where stale: "cancel_stale P ?sm ?sd s = (Inr n, s1)"
    using run p False by (cases "cancel_stale P ?sm ?sd s"; cases "fst (cancel_stale P ?sm ?sd s)")
      (auto simp: submit_protective_orders_def bind_a_run)
  have sided: "same_side_stops ?sm ?sd s s1"
    using followsD [OF cancel_stale_sided, of ?sm ?sd s P] stale by simp
  then have q1: "protected_qty ?sm ?sd s1 = protected_qty ?sm ?sd s" and pf1: "rt_portfolio s1 = rt_portfolio s"
    and en1: "rt_engine s1 = rt_engine s"
    by (simp_all add: same_side_stops_def protected_qty_def)
  define covered where "covered = dict_get_or (rt_covered s1) (o_id entry) 0"
  define room where "room = dsub (dabs (p_qty p)) (protected_qty ?sm ?sd s1)"
  define inc where "inc = min (dsub (o_filled entry) covered) room"
  show ?thesis
  proof (cases "inc \<le> 0")
    case True
    then have "r = no_protection" "s' = s1"
      using run p False stale by (auto simp: submit_protective_orders_def bind_a_run Let_def inc_def room_def covered_def)
    then show ?thesis using sided p by (intro soundly_same) (simp_all add: no_protection_def)
  next
    case inc: False
    obtain st tp where lv: "protection_levels P entry p cfg atr (dict_get_or (rt_requested s1) (o_id entry) (None, None)) = Inr (st, tp)"
      using run p False stale inc
      by (cases "protection_levels P entry p cfg atr (dict_get_or (rt_requested s1) (o_id entry) (None, None))")
         (auto simp: submit_protective_orders_def bind_a_run Let_def inc_def room_def covered_def)
    define p1 where "p1 = arm_position st tp p"
    define s2 where "s2 = s1\<lparr>rt_portfolio := put_position ?sm p1 (rt_portfolio s1)\<rparr>"
    have rest: "(case st of None \<Rightarrow> ret (no_protection\<lparr>pr_unprotected := inc, pr_engine_stop := p_stop_loss p1\<rparr>)
            | Some level \<Rightarrow>
                if \<not> is_complete entry
                then ret (no_protection\<lparr>pr_unprotected := inc, pr_engine_stop := p_stop_loss p1, pr_deferred := True\<rparr>)
                else place_child P entry p1 inc level covered (p_stop_loss p1)) s2 = (Inr r, s')"
      using run p False stale inc lv
      unfolding s2_def p1_def inc_def room_def covered_def
      by (simp add: submit_protective_orders_def bind_a_run Let_def)
    have got: "dict_get (pf_positions (rt_portfolio s2)) ?sm = Some p1" by (simp add: s2_def put_position_def)
    have q2: "protected_qty ?sm ?sd s2 = protected_qty ?sm ?sd s" using q1 by (simp add: s2_def protected_qty_def children_of_def)
    note arm = arm_tightens [where st = st and tp = tp and p = p, folded p1_def]
    have quiet: ?thesis if "same_books s2 s'" "pr_placed r = []"
    proof -
      have "dict_get (pf_positions (rt_portfolio s')) ?sm = Some p1" using got that(1) by (simp add: same_books_def)
      moreover have "protected_qty ?sm ?sd s' = protected_qty ?sm ?sd s"
        using that(1) q2 by (simp add: same_books_def protected_qty_def children_of_def)
      ultimately show ?thesis using that(2) arm by (auto simp: protects_soundly_def Let_def)
    qed
    show ?thesis
    proof (cases "st = None \<or> \<not> is_complete entry")
      case True
      with rest show ?thesis
        by (intro quiet) (auto simp: booked.refl no_protection_def split: option.splits)
    next
      case False
      then obtain level where "st = Some level" by (cases st) auto
      with False rest have place: "place_child P entry p1 inc level covered (p_stop_loss p1) s2 = (Inr r, s')" by simp
      have plat2: "platform_engine (rt_engine s2)" using plat en1 by (simp add: s2_def)
      have sd1: "closing_side p1 = ?sd" using arm(1) by (simp add: closing_side_def is_long_def)
      from place plat2 show ?thesis
      proof (cases rule: place_child_cases)
        case none
        then show ?thesis by (intro quiet)
      next
        case (one w s3)
        have ex: "exact28 inc" by (auto simp: inc_def room_def min_def)
        have "room = \<bar>p_qty p\<bar> - protected_qty ?sm ?sd s"
          using amounts by (simp add: room_def q1 dabs_exact amount9_exact dsub_amount9 abs_if)
        then have le: "inc \<le> \<bar>p_qty p\<bar> - protected_qty ?sm ?sd s" by (simp add: inc_def)
        have q3: "protected_qty ?sm ?sd s3 = protected_qty ?sm ?sd s"
          using one(2) q2 by (simp add: same_books_def protected_qty_def children_of_def)
        have "protected_qty ?sm ?sd s' = dadd (protected_qty ?sm ?sd s) inc" "w \<in> set (children_of ?sm s')"
          using protected_after_booking [of w ?sd entry covered "dadd covered inc" s3] one ex sd1 q3 by simp_all
        moreover have "dadd (protected_qty ?sm ?sd s) inc \<le> \<bar>p_qty p\<bar>"
        proof -
          have "dadd (protected_qty ?sm ?sd s) inc \<le> rnd \<bar>p_qty p\<bar>" unfolding dadd_def by (rule rnd_mono) (use le in simp)
          then show ?thesis using amounts(1) by (simp add: rnd_exact amount9_exact abs_if)
        qed
        moreover have "dict_get (pf_positions (rt_portfolio s')) ?sm = Some p1"
          using one(2,3) got by (simp add: same_books_def book_child_def Let_def)
        ultimately show ?thesis
          using one sd1 le arm by (auto simp: protects_soundly_def Let_def le_max_iff_disj)
      qed
    qed
  qed
qed

text \<open>
  C11. Protecting never over-protects. Handling a fill of an entry, whatever the venue answers, never
  raises what the venue is asked to hold against a position above the position itself, unless it was
  above already. A stop it reports placed closes the position, is for no more than the part that was
  bare, belongs to the entry and is booked as working. And the level armed on the position never
  loosens, unless the market had already gone through it.
\<close>

theorem protection_never_exceeds_position:
  assumes run: "submit_protective_orders P entry cfg atr s = (Inr r, s')" and plat: "platform_engine (rt_engine s)"
    and p: "dict_get (pf_positions (rt_portfolio s)) (o_symbol entry) = Some p"
    and amounts: "amount9 (p_qty p)" "amount9 (protected_qty (o_symbol entry) (closing_side p) s)"
  shows "protected_qty (o_symbol entry) (closing_side p) s'
           \<le> max (protected_qty (o_symbol entry) (closing_side p) s) \<bar>p_qty p\<bar>
    \<and> (\<forall>c \<in> set (pr_placed r). o_side c = closing_side p \<and> o_type c = STOP \<and> o_parent c = Some (o_id entry)
           \<and> 0 < o_qty c \<and> o_qty c \<le> \<bar>p_qty p\<bar> - protected_qty (o_symbol entry) (closing_side p) s
           \<and> c \<in> set (children_of (o_symbol entry) s'))
    \<and> (\<exists>p'. dict_get (pf_positions (rt_portfolio s')) (o_symbol entry) = Some p' \<and> p_qty p' = p_qty p
           \<and> (\<forall>l. p_stop_loss p = Some l \<longrightarrow> protects p l
                \<longrightarrow> (\<exists>l'. p_stop_loss p' = Some l' \<and> (if is_long p then l \<le> l' else l' \<le> l))))"
  using protecting_is_sound [OF assms] unfolding protects_soundly_def Let_def .

text \<open>A filled entry for the sample position, protected at 147.\<close>

definition sample_entry :: order where
  "sample_entry = (order_defaults ''e'' ''atp-e'' ''AAPL'' BUY 100)\<lparr>o_status := FILLED, o_filled := 100, o_avg := Some 150\<rparr>"

definition sample_protected :: "unit router" where
  "sample_protected = (sample_router ())\<lparr>rt_requested := [(''e'', (Some 147, None))]\<rparr>"

lemma sample_stop_approved:
  "rd_approved (fst (validate (sample_env []) sample_engine
     (order_defaults i c ''AAPL'' SELL 100\<lparr>o_type := STOP, o_tif := GTC, o_stop := Some 147, o_parent := Some ''e'',
        o_purpose := PURPOSE_STOP_LOSS\<rparr>)
     (put_position ''AAPL'' (sample_position\<lparr>p_stop_loss := Some 147\<rparr>) sample_portfolio) []))"
  by (simp add: sample_defs risk_eval dec_ops Let_def put_position_def dict_set_def)

lemma sample_levels:
  "protection_levels sample_ports sample_entry sample_position None None (Some 147, None) = Inr (Some 147, None)"
proof -
  have up: "str_upper ''AAPL'' = ''AAPL''" by code_simp
  show ?thesis
    by (simp add: protection_levels_def instrument_of_def sample_ports_def new_instrument_def default_instrument_def up
        round_opt_def round_price_def stop_rounding_def quantize_def ddiv_r_def dec_ops Let_def
        closing_side_def is_long_def protects_def sample_entry_def sample_position_def order_defaults_def new_position_def)
qed

theorem protection_never_exceeds_position_witness:
  "\<exists>r s' c. submit_protective_orders sample_ports sample_entry None None sample_protected = (Inr r, s')
     \<and> pr_placed r = [c] \<and> o_qty c = 100 \<and> protected_qty ''AAPL'' SELL s' \<le> 100"
proof -
  let ?P = sample_ports and ?p1 = "sample_position\<lparr>p_stop_loss := Some 147\<rparr>"
  let ?s2 = "sample_protected\<lparr>rt_portfolio := put_position ''AAPL'' ?p1 sample_portfolio\<rparr>"
  let ?s3 = "?s2\<lparr>rt_drawn := 1\<rparr>" and ?oid = "''id-'' @ nat_digits 0"
  let ?cid = "digest (\<lambda>s. s) (protective_key_parts ''atp-e'' PURPOSE_STOP_LOSS 0 100 0)"
  let ?c = "order_defaults ?oid ?cid ''AAPL'' SELL 100\<lparr>o_type := STOP, o_tif := GTC, o_stop := Some 147,
              o_parent := Some ''e'', o_purpose := PURPOSE_STOP_LOSS\<rparr>"
  have held: "dict_get (pf_positions (rt_portfolio sample_protected)) ''AAPL'' = Some sample_position"
    by (simp add: sample_protected_def sample_router_def sample_portfolio_def dict_get_Cons)
  have plat: "platform_engine sample_engine"
    by (simp add: platform_engine_def sample_engine_def anchor_session_def default_rules_def same_rule_def)
  have fields: "p_qty sample_position = 100" "p_last sample_position = Some 150" "p_stop_loss sample_position = None"
    "p_take_profit sample_position = None"
    by (simp_all add: sample_position_def new_position_def)
  have entry: "o_symbol sample_entry = ''AAPL''" "o_parent sample_entry = None" "o_filled sample_entry = 100"
    "o_id sample_entry = ''e''" "is_complete sample_entry"
    by (simp_all add: sample_entry_def order_defaults_def is_complete_def)
  have side: "closing_side sample_position = SELL" "\<not> is_flat sample_position" "closing_side ?p1 = SELL"
    by (simp_all add: closing_side_def is_long_def is_flat_def fields)
  have empty: "children_of sm sample_protected = []" for sm
    by (simp add: sample_protected_def sample_router_def children_of_def dict_get_or_def)
  have arm: "arm_position (Some 147) None sample_position = ?p1"
    by (simp add: arm_position_def tightest_stop_def fields)
  have "submit_protective_orders ?P sample_entry None None sample_protected
      = place_child ?P sample_entry ?p1 100 147 0 (Some 147) ?s2"
  proof -
    have "cancel_stale ?P ''AAPL'' SELL sample_protected = (Inr 0, sample_protected)"
      by (simp add: cancel_stale_def empty bind_a_run)
    moreover have "protected_qty ''AAPL'' SELL sample_protected = 0" by (simp add: protected_qty_def empty)
    moreover have "dict_get_or (rt_covered sample_protected) ''e'' 0 = 0"
      "dict_get_or (rt_requested sample_protected) ''e'' (None, None) = (Some 147, None)"
      "rt_portfolio sample_protected = sample_portfolio"
      by (simp_all add: sample_protected_def sample_router_def dict_get_or_def dict_get_Cons)
    ultimately show ?thesis
      using held by (simp add: submit_protective_orders_def bind_a_run entry side fields sample_levels arm dec_ops Let_def)
  qed
  moreover have "\<exists>out t w. route ?P ?c [] ?s3 = (Inr out, t) \<and> sr_submitted out \<and> sr_order out = Some w \<and> o_qty w = 100"
  proof -
    have up: "str_upper ''AAPL'' = ''AAPL''" by code_simp
    have tick: "on_tick ?P ?c = Inr ?c"
      by (simp add: on_tick_def instrument_of_def sample_ports_def new_instrument_def default_instrument_def up
          round_opt_def round_price_def stop_rounding_def quantize_def ddiv_r_def dec_ops Let_def order_defaults_def)
    obtain d o2 s4 where j: "judge ?P ?c [] ?s3 = (Inr (d, o2), s4)" using judge_total by blast
    have plat3: "platform_engine (rt_engine ?s3)" using plat by (simp add: sample_protected_def sample_router_def)
    note J = judge_sends [OF j plat3]
    have ok: "rd_approved d"
      using j sample_stop_approved [of ?oid ?cid]
      by (auto simp: judge_def sample_protected_def sample_router_def sample_ports_def split: prod.splits)
    have go: "route ?P ?c [] ?s3 = dispatch ?P (?c\<lparr>o_status := PENDING_SUBMIT\<rparr>) d s4"
      using j J(1) ok by (intro route_approved [OF _ tick]) (simp_all add: order_defaults_def)
    let ?o = "?c\<lparr>o_status := PENDING_SUBMIT\<rparr>" and ?ack = "?c\<lparr>o_broker_id := Some ''v1'', o_status := SUBMITTED\<rparr>"
    let ?s5 = "s4\<lparr>rt_venue := ()\<rparr>"
    obtain b w where ack: "adopt_ack ?P ?o ?ack ?s5 = (Inr (b, w), ?s5)" "b \<longleftrightarrow> o_status w = SUBMITTED" "o_qty w = 100"
      by (rule adopt_pending [of ?o ?P ?ack ?s5]) (auto simp: order_defaults_def)
    have "b" using ack(1) by (auto simp: adopt_ack_def bind_r_eq_Inr order_defaults_def)
    moreover have "dispatch ?P ?o d s4 = (Inr (sent_result d (b, w)), ?s5)"
      by (rule dispatch_acked [OF _ ack(1)]) (simp add: sample_ports_def)
    ultimately show ?thesis using go ack(3) by (simp add: sent_result_def)
  qed
  then obtain out t w where rt: "route ?P ?c [] ?s3 = (Inr out, t)" "sr_submitted out" "sr_order out = Some w" "o_qty w = 100"
    by blast
  have "stop_child ?P ?oid sample_entry ?p1 100 147 0 100 0 = Inr ?c"
    by (simp add: stop_child_def protective_client_order_id_def sample_ports_def new_order_def side entry)
       (simp add: sample_entry_def order_defaults_def PURPOSE_STOP_LOSS_def)
  moreover have "po_new_id ?P (rt_drawn ?s2) = ?oid" "rt_drawn ?s2 = 0"
    by (simp_all add: sample_ports_def sample_protected_def sample_router_def)
  ultimately have run: "\<exists>r s'. submit_protective_orders ?P sample_entry None None sample_protected = (Inr r, s') \<and> pr_placed r = [w]"
    using rt by (simp add: place_child_def bind_a_run draw_id_def dec_ops)
  then obtain r s' where run: "submit_protective_orders ?P sample_entry None None sample_protected = (Inr r, s')" "pr_placed r = [w]"
    by blast
  have "platform_engine (rt_engine sample_protected)" using plat by (simp add: sample_protected_def sample_router_def)
  from protection_never_exceeds_position [OF run(1) this, of sample_position] held
  have "protected_qty ''AAPL'' SELL s' \<le> max (protected_qty ''AAPL'' SELL sample_protected) 100"
    by (simp add: entry side fields protected_qty_def empty amount9_def)
  then show ?thesis using run rt(4) by (auto simp: protected_qty_def empty)
qed

end
