(* ===== verification/Clock.thy ===== *)
theory Clock
  imports Enums Datetimes
begin

text \<open>
  \<open>clock.py\<close>: the simulated clock and the trading calendar. The exchange schedule comes from a
  library and the time zone from the zone database: both are in the record \<open>calendar_source\<close>, as
  what a year's schedule lists, which dates instants fall on locally, and the instant of a local
  midnight. The cache of built years is the function it caches.
\<close>

definition sim_clock_set :: "ts \<Rightarrow> ts \<Rightarrow> exn + ts" where
  "sim_clock_set t now = (if t < now then Inl (value_error ''clock cannot go backwards'') else Inr t)"

record session =
  ss_day :: date
  ss_open :: ts
  ss_close :: ts
  ss_early :: bool

record calendar_source =
  cs_schedule :: "int \<Rightarrow> (date \<times> ts \<times> ts) list"
  cs_covered :: "(int \<times> int) option"
  cs_local_date :: "ts \<Rightarrow> date"
  cs_local_time :: "ts \<Rightarrow> int"
  cs_midnight :: "date \<Rightarrow> ts"
  cs_regular_close :: "int option"

definition MAX_LOOKAHEAD_DAYS :: nat where "MAX_LOOKAHEAD_DAYS = 400"

definition year_of :: "date \<Rightarrow> int" where
  "year_of d = fst (ord2ymd d)"

definition session_row :: "calendar_source \<Rightarrow> date \<times> ts \<times> ts \<Rightarrow> session" where
  "session_row cs row =
     (case row of (d, op, cl) \<Rightarrow> \<lparr>ss_day = d, ss_open = op, ss_close = cl,
        ss_early = (case cs_regular_close cs of None \<Rightarrow> False | Some rc \<Rightarrow> cs_local_time cs cl < rc)\<rparr>)"

definition year_sessions :: "calendar_source \<Rightarrow> int \<Rightarrow> exn + (date \<times> session) list" where
  "year_sessions cs y =
     (case cs_covered cs of
        Some (lo, hi) \<Rightarrow>
          if lo \<le> y \<and> y \<le> hi
          then Inr (fold (\<lambda>row m. AList.update (fst row) (session_row cs row) m) (cs_schedule cs y) [])
          else Inl (value_error ''holiday rules only cover'')
      | None \<Rightarrow> Inr (fold (\<lambda>row m. AList.update (fst row) (session_row cs row) m) (cs_schedule cs y) []))"

definition session_on :: "calendar_source \<Rightarrow> date \<Rightarrow> exn + session option" where
  "session_on cs d = bind_r (year_sessions cs (year_of d)) (\<lambda>m. Inr (map_of m d))"

definition is_trading_day :: "calendar_source \<Rightarrow> date \<Rightarrow> exn + bool" where
  "is_trading_day cs d = bind_r (session_on cs d) (\<lambda>s. Inr (s \<noteq> None))"

definition session_bounds :: "calendar_source \<Rightarrow> date \<Rightarrow> exn + (ts \<times> ts) option" where
  "session_bounds cs d = bind_r (session_on cs d) (\<lambda>s. Inr (map_option (\<lambda>s. (ss_open s, ss_close s)) s))"

definition sessions :: "calendar_source \<Rightarrow> date \<Rightarrow> date \<Rightarrow> exn + session list" where
  "sessions cs a b =
     (if b < a then Inl (value_error ''first must be on or before last'')
      else bind_r (map_r (year_sessions cs) [year_of a .. year_of b]) (\<lambda>ys.
        Inr (map snd (filter (\<lambda>(d, _). a \<le> d \<and> d \<le> b) (concat ys)))))"

definition day_bounds :: "calendar_source \<Rightarrow> date \<Rightarrow> ts \<times> ts" where
  "day_bounds cs d = (cs_midnight cs d, cs_midnight cs (d + 1))"

definition in_session :: "session option \<Rightarrow> ts \<Rightarrow> bool" where
  "in_session s t = (case s of None \<Rightarrow> False | Some s \<Rightarrow> ss_open s \<le> t \<and> t < ss_close s)"

definition is_open_at :: "calendar_source \<Rightarrow> ts \<Rightarrow> exn + bool" where
  "is_open_at cs t = bind_r (session_on cs (cs_local_date cs t)) (\<lambda>s. Inr (in_session s t))"

fun open_from :: "calendar_source \<Rightarrow> ts \<Rightarrow> nat \<Rightarrow> date \<Rightarrow> exn + ts" where
  "open_from cs after 0 d = Inl (value_error ''no session opens within the lookahead'')"
| "open_from cs after (Suc n) d =
     bind_r (session_on cs d) (\<lambda>s. case s of
         Some s \<Rightarrow> if after < ss_open s then Inr (ss_open s) else open_from cs after n (d + 1)
       | None \<Rightarrow> open_from cs after n (d + 1))"

definition next_open :: "calendar_source \<Rightarrow> ts \<Rightarrow> exn + ts" where
  "next_open cs after = open_from cs after MAX_LOOKAHEAD_DAYS (cs_local_date cs after)"

fun closed_before :: "calendar_source \<Rightarrow> ts \<Rightarrow> nat \<Rightarrow> date \<Rightarrow> exn + session option" where
  "closed_before cs before 0 d = Inr None"
| "closed_before cs before (Suc n) d =
     bind_r (session_on cs d) (\<lambda>s. case s of
         Some s \<Rightarrow> if ss_close s \<le> before then Inr (Some s) else closed_before cs before n (d - 1)
       | None \<Rightarrow> closed_before cs before n (d - 1))"

definition previous_session :: "calendar_source \<Rightarrow> ts \<Rightarrow> exn + session option" where
  "previous_session cs before = closed_before cs before MAX_LOOKAHEAD_DAYS (cs_local_date cs before)"

definition minutes_to_close :: "calendar_source \<Rightarrow> ts \<Rightarrow> exn + int option" where
  "minutes_to_close cs t =
     bind_r (session_on cs (cs_local_date cs t)) (\<lambda>s.
       Inr (case s of None \<Rightarrow> None
            | Some x \<Rightarrow> if in_session s t then Some ((ss_close x - t) div (60 * 10 ^ 6)) else None))"

text \<open>
  What the schedule and the zone database are: every session is listed under its own local date and
  does not leave it, and later instants fall on later dates.
\<close>

definition calendar_ok :: "calendar_source \<Rightarrow> bool" where
  "calendar_ok cs \<longleftrightarrow>
     (\<forall>d s. session_on cs d = Inr (Some s) \<longrightarrow> ss_day s = d \<and> cs_local_date cs (ss_open s) = d
        \<and> cs_local_date cs (ss_close s) = d \<and> ss_open s < ss_close s)
     \<and> (\<forall>t t'. t \<le> t' \<longrightarrow> cs_local_date cs t \<le> cs_local_date cs t')"

lemma open_from_Inr:
  "open_from cs after n d = Inr t \<Longrightarrow>
     \<exists>d' s. d \<le> d' \<and> session_on cs d' = Inr (Some s) \<and> ss_open s = t \<and> after < t
       \<and> (\<forall>e s'. d \<le> e \<and> e < d' \<and> session_on cs e = Inr (Some s') \<longrightarrow> ss_open s' \<le> after)"
proof (induction n arbitrary: d)
  case (Suc n)
  obtain so where so: "session_on cs d = Inr so" using Suc.prems by (cases "session_on cs d") auto
  show ?case
  proof (cases "\<exists>s. so = Some s \<and> after < ss_open s")
    case True
    with Suc.prems so show ?thesis by (intro exI [of _ d]) auto
  next
    case False
    with Suc.prems so have "open_from cs after n (d + 1) = Inr t" by (auto split: option.splits if_splits)
    from Suc.IH [OF this] obtain d' s where h: "d + 1 \<le> d'" "session_on cs d' = Inr (Some s)" "ss_open s = t" "after < t"
      and before: "\<forall>e s'. d + 1 \<le> e \<and> e < d' \<and> session_on cs e = Inr (Some s') \<longrightarrow> ss_open s' \<le> after" by blast
    have "ss_open s' \<le> after" if "d \<le> e" "e < d'" "session_on cs e = Inr (Some s')" for e s'
      using that before [rule_format, of e s'] False so by (cases "e = d") auto
    with h show ?thesis by (intro exI [of _ d']) auto
  qed
qed simp

lemma open_from_finds:
  assumes "session_on cs d' = Inr (Some s)" "after < ss_open s" "d \<le> d'" "d' < d + int n"
    and "\<forall>e. d \<le> e \<and> e \<le> d' \<longrightarrow> is_ok (session_on cs e)"
  shows "\<exists>t. open_from cs after n d = Inr t"
  using assms(3-5)
proof (induction n arbitrary: d)
  case (Suc n)
  obtain so where so: "session_on cs d = Inr so"
    using Suc.prems(1,3) by (cases "session_on cs d") auto
  show ?case
  proof (cases "d = d'")
    case True
    with assms(1,2) show ?thesis by simp
  next
    case False
    with Suc.prems have "\<exists>t. open_from cs after n (d + 1) = Inr t" by (intro Suc.IH) auto
    with so show ?thesis by (auto split: option.split)
  qed
qed simp

text \<open>
  C27. \<open>next_open\<close> answers with the earliest opening strictly after the instant: no session of the
  calendar opens in between. And it does answer whenever some session opens after the instant
  within 400 days and the schedule covers the days up to it.
\<close>

theorem next_open_is_the_next_open:
  assumes "calendar_ok cs"
  shows "(\<forall>t. next_open cs after = Inr t \<longrightarrow> after < t
            \<and> (\<exists>d s. session_on cs d = Inr (Some s) \<and> ss_open s = t)
            \<and> (\<forall>d s. session_on cs d = Inr (Some s) \<longrightarrow> after < ss_open s \<longrightarrow> t \<le> ss_open s))
    \<and> (\<forall>d s. session_on cs d = Inr (Some s) \<longrightarrow> after < ss_open s
            \<longrightarrow> d < cs_local_date cs after + 400
            \<longrightarrow> (\<forall>e. cs_local_date cs after \<le> e \<and> e \<le> d \<longrightarrow> is_ok (session_on cs e))
            \<longrightarrow> (\<exists>t. next_open cs after = Inr t))"
proof (intro conjI allI impI)
  fix t assume "next_open cs after = Inr t"
  then obtain d' s where h: "cs_local_date cs after \<le> d'" "session_on cs d' = Inr (Some s)" "ss_open s = t" "after < t"
    and before: "\<forall>e s'. cs_local_date cs after \<le> e \<and> e < d' \<and> session_on cs e = Inr (Some s') \<longrightarrow> ss_open s' \<le> after"
    unfolding next_open_def using open_from_Inr by blast
  show "after < t" "\<exists>d s. session_on cs d = Inr (Some s) \<and> ss_open s = t" using h by auto
  fix e s' assume e: "session_on cs e = Inr (Some s')" "after < ss_open s'"
  have "cs_local_date cs after \<le> e" using assms e unfolding calendar_ok_def by (metis less_imp_le)
  with before e have "d' \<le> e" by (metis not_le)
  show "t \<le> ss_open s'"
  proof (rule ccontr)
    assume "\<not> t \<le> ss_open s'"
    then have "cs_local_date cs (ss_open s') \<le> cs_local_date cs t" using assms by (simp add: calendar_ok_def)
    then have "e \<le> d'" using assms e(1) h(2,3) by (auto simp: calendar_ok_def)
    with \<open>d' \<le> e\<close> e(1) h \<open>\<not> t \<le> ss_open s'\<close> show False by auto
  qed
next
  fix d s
  assume a: "session_on cs d = Inr (Some s)" "after < ss_open s" "d < cs_local_date cs after + 400"
    "\<forall>e. cs_local_date cs after \<le> e \<and> e \<le> d \<longrightarrow> is_ok (session_on cs e)"
  have "cs_local_date cs after \<le> d" using assms a(1,2) unfolding calendar_ok_def by (metis less_imp_le)
  then show "\<exists>t. next_open cs after = Inr t"
    unfolding next_open_def using a by (intro open_from_finds) (simp_all add: MAX_LOOKAHEAD_DAYS_def)
qed

text \<open>A calendar in UTC with a single session, the second of January 1970 from 14:30 to 21:00.\<close>

definition sample_calendar :: calendar_source where
  "sample_calendar = \<lparr>cs_schedule = (\<lambda>y. if y = 1970 then [(719164, 138600000000, 162000000000)] else []), cs_covered = None,
     cs_local_date = utc_date, cs_local_time = (\<lambda>t. t mod DAY_US), cs_midnight = (\<lambda>d. (d - EPOCH_ORD) * DAY_US),
     cs_regular_close = None\<rparr>"

lemma sample_session_on:
  "session_on sample_calendar d = Inr (if d = 719164
     then Some \<lparr>ss_day = 719164, ss_open = 138600000000, ss_close = 162000000000, ss_early = False\<rparr> else None)"
proof -
  have "year_of 719164 = 1970" by code_simp
  then show ?thesis by (simp add: session_on_def year_sessions_def sample_calendar_def session_row_def)
qed

lemma sample_calendar_ok: "calendar_ok sample_calendar"
  unfolding calendar_ok_def sample_session_on
  by (auto simp: sample_calendar_def utc_date_def DAY_US_def EPOCH_ORD_def zdiv_mono1 split: if_splits)

theorem next_open_is_the_next_open_witness: "\<exists>t. next_open sample_calendar 0 = Inr t \<and> 0 < t"
proof -
  have l: "cs_local_date sample_calendar 0 = 719163"
    by (simp add: sample_calendar_def utc_date_def DAY_US_def EPOCH_ORD_def)
  have on: "session_on sample_calendar 719164 = Inr (Some \<lparr>ss_day = 719164, ss_open = 138600000000, ss_close = 162000000000, ss_early = False\<rparr>)"
    by (simp add: sample_session_on)
  from next_open_is_the_next_open [OF sample_calendar_ok, of 0, THEN conjunct2, rule_format, OF on]
  obtain t where "next_open sample_calendar 0 = Inr t" by (auto simp: sample_session_on l)
  then show ?thesis using next_open_is_the_next_open [OF sample_calendar_ok, of 0] by auto
qed

end
