(* ===== verification/Gaps.thy ===== *)
theory Gaps
  imports Clock
begin

text \<open>
  \<open>data/gaps.py\<close>: which bars a calendar says should exist, and a streaming merge of those windows
  against the timestamps that are stored. The merge is compared with a definition that looks at the
  whole list of windows and the whole set of timestamps.
\<close>

definition SUPPORTED_TIMEFRAMES :: "timeframe list" where
  "SUPPORTED_TIMEFRAMES = [M1, M5, M15, M30, D1]"

definition require_supported :: "timeframe \<Rightarrow> exn + unit" where
  "require_supported tf = guard_r (tf \<in> set SUPPORTED_TIMEFRAMES) (value_error ''gap detection does not support'')"

type_synonym window = "ts \<times> ts"

record gap_scan =
  gs_windows :: "window list"
  gs_expected :: int
  gs_missing :: int
  gs_matched :: int
  gs_unmatched :: int

text \<open>The slots of a session, from its opening, each a whole step long.\<close>

function slots :: "int \<Rightarrow> ts \<Rightarrow> ts \<Rightarrow> window list" where
  "slots step slot cl =
     (if step \<le> 0 \<or> cl < slot + step then [] else (slot, slot + step) # slots step (slot + step) cl)"
  by auto
termination by (relation "measure (\<lambda>(step, slot, cl). nat (cl - slot))") auto

declare slots.simps [simp del]

definition step_us :: "timeframe \<Rightarrow> int" where
  "step_us tf = timeframe_seconds tf * 10 ^ 6"

definition session_windows :: "calendar_source \<Rightarrow> timeframe \<Rightarrow> ts \<Rightarrow> ts \<Rightarrow> session \<Rightarrow> window list" where
  "session_windows cs tf start stop s =
     (if tf = D1
      then (let (a, b) = day_bounds cs (ss_day s) in if start \<le> a \<and> ss_close s \<le> stop then [(a, b)] else [])
      else filter (\<lambda>(a, b). start \<le> a \<and> b \<le> stop) (slots (step_us tf) (ss_open s) (ss_close s)))"

definition expected_windows :: "calendar_source \<Rightarrow> timeframe \<Rightarrow> ts \<Rightarrow> ts \<Rightarrow> exn + window list" where
  "expected_windows cs tf start stop =
     bind_r (require_supported tf) (\<lambda>_.
     if stop \<le> start then Inl (value_error ''start must be before end'')
     else bind_r (sessions cs (cs_local_date cs start - 1) (cs_local_date cs stop + 1)) (\<lambda>ss.
       Inr (concat (map (session_windows cs tf start stop) ss))))"

text \<open>What the loop carries: the scan so far, the open run of missing windows, the timestamps left.\<close>

record scan_state =
  sc_scan :: gap_scan
  sc_run :: "window option"
  sc_rest :: "ts list"

definition scan_window :: "window \<Rightarrow> scan_state \<Rightarrow> scan_state" where
  "scan_window w st =
     (let (a, b) = w; g = sc_scan st;
          early = takeWhile (\<lambda>t. t < a) (sc_rest st); rest = dropWhile (\<lambda>t. t < a) (sc_rest st);
          inside = takeWhile (\<lambda>t. t < b) rest; rest' = dropWhile (\<lambda>t. t < b) rest;
          g1 = g\<lparr>gs_expected := gs_expected g + 1, gs_unmatched := gs_unmatched g + int (length early),
                 gs_matched := gs_matched g + int (length inside)\<rparr>
      in if inside \<noteq> []
         then (case sc_run st of
                 None \<Rightarrow> \<lparr>sc_scan = g1, sc_run = None, sc_rest = rest'\<rparr>
               | Some r \<Rightarrow> \<lparr>sc_scan = g1\<lparr>gs_windows := gs_windows g1 @ [r]\<rparr>, sc_run = None, sc_rest = rest'\<rparr>)
         else \<lparr>sc_scan = g1\<lparr>gs_missing := gs_missing g1 + 1\<rparr>,
               sc_run = (case sc_run st of None \<Rightarrow> Some (a, b) | Some r \<Rightarrow> Some (fst r, b)), sc_rest = rest'\<rparr>)"

definition scan_gaps :: "window list \<Rightarrow> ts list \<Rightarrow> gap_scan" where
  "scan_gaps expected present =
     (let st = fold scan_window expected
            \<lparr>sc_scan = \<lparr>gs_windows = [], gs_expected = 0, gs_missing = 0, gs_matched = 0, gs_unmatched = 0\<rparr>,
             sc_run = None, sc_rest = present\<rparr>
      in (sc_scan st)\<lparr>gs_windows := gs_windows (sc_scan st) @ (case sc_run st of None \<Rightarrow> [] | Some r \<Rightarrow> [r])\<rparr>)"

definition query_bounds :: "timeframe \<Rightarrow> ts \<Rightarrow> ts \<Rightarrow> ts \<times> ts" where
  "query_bounds tf start stop = (if tf = D1 then (start, stop + DAY_US) else (start, stop))"

section \<open>The same, without streaming\<close>

text \<open>A window is covered when some timestamp falls in it.\<close>

definition covered :: "ts list \<Rightarrow> window \<Rightarrow> bool" where
  "covered present w \<longleftrightarrow> (\<exists>t \<in> set present. fst w \<le> t \<and> t < snd w)"

text \<open>The maximal runs of windows that fail \<open>P\<close>.\<close>

function missing_runs :: "('a \<Rightarrow> bool) \<Rightarrow> 'a list \<Rightarrow> 'a list list" where
  "missing_runs P ws =
     (case dropWhile P ws of [] \<Rightarrow> []
      | w # rest \<Rightarrow> (w # takeWhile (\<lambda>v. \<not> P v) rest) # missing_runs P (dropWhile (\<lambda>v. \<not> P v) rest))"
  by auto
termination
proof (relation "measure (length \<circ> snd)")
  fix P :: "'a \<Rightarrow> bool" and ws w rest
  assume "dropWhile P ws = w # rest"
  then have "length (w # rest) \<le> length ws" by (metis length_dropWhile_le)
  moreover have "length (dropWhile (\<lambda>v. \<not> P v) rest) \<le> length rest" by (rule length_dropWhile_le)
  ultimately show "((P, dropWhile (\<lambda>v. \<not> P v) rest), (P, ws)) \<in> measure (length \<circ> snd)" by simp
qed simp

declare missing_runs.simps [simp del]

definition span :: "window list \<Rightarrow> window" where
  "span ws = (fst (hd ws), snd (last ws))"

definition reference_scan :: "window list \<Rightarrow> ts list \<Rightarrow> gap_scan" where
  "reference_scan expected present =
     \<lparr>gs_windows = map span (missing_runs (covered present) expected),
      gs_expected = int (length expected),
      gs_missing = int (length (filter (\<lambda>w. \<not> covered present w) expected)),
      gs_matched = int (length (filter (\<lambda>t. \<exists>w \<in> set expected. fst w \<le> t \<and> t < snd w) present)),
      gs_unmatched = int (length (filter (\<lambda>t. (\<exists>w \<in> set expected. t < snd w)
                            \<and> (\<forall>w \<in> set expected. \<not> (fst w \<le> t \<and> t < snd w))) present))\<rparr>"

text \<open>Ascending windows that do not overlap.\<close>

definition windows_ok :: "window list \<Rightarrow> bool" where
  "windows_ok ws \<longleftrightarrow> sorted_wrt (\<lambda>v w. snd v \<le> fst w) ws \<and> (\<forall>w \<in> set ws. fst w < snd w)"

lemma sorted_take_drop:
  fixes a :: int
  shows "sorted xs \<Longrightarrow> takeWhile (\<lambda>t. t < a) xs = filter (\<lambda>t. t < a) xs"
    and "sorted xs \<Longrightarrow> dropWhile (\<lambda>t. t < a) xs = filter (\<lambda>t. a \<le> t) xs"
proof (induction xs)
  case (Cons x xs)
  {
    case 1
    then have "\<not> x < a \<Longrightarrow> filter (\<lambda>t. t < a) xs = []" by (auto simp: filter_empty_conv)
    with 1 show ?case using Cons.IH(1) by (cases "x < a") simp_all
  next
    case 2
    then have "\<not> x < a \<Longrightarrow> filter (\<lambda>t. a \<le> t) xs = xs" by (auto simp: filter_id_conv)
    with 2 show ?case using Cons.IH(2) by (cases "x < a") simp_all
  }
qed simp_all

text \<open>The windows still to come from a scan with an open run.\<close>

fun open_runs :: "(window \<Rightarrow> bool) \<Rightarrow> window option \<Rightarrow> window list \<Rightarrow> window list" where
  "open_runs P run [] = (case run of None \<Rightarrow> [] | Some r \<Rightarrow> [r])"
| "open_runs P run (w # ws) =
     (if P w then (case run of None \<Rightarrow> [] | Some r \<Rightarrow> [r]) @ open_runs P None ws
      else open_runs P (Some (case run of None \<Rightarrow> w | Some r \<Rightarrow> (fst r, snd w))) ws)"

lemma open_runs_cong: "(\<And>w. w \<in> set ws \<Longrightarrow> P w = Q w) \<Longrightarrow> open_runs P run ws = open_runs Q run ws"
  by (induction ws arbitrary: run) auto

lemma open_runs_skip: "open_runs P None (dropWhile P ws) = open_runs P None ws"
  by (induction ws) auto

lemma open_runs_some:
  "open_runs P (Some r) ws =
     (fst r, snd (last (r # takeWhile (\<lambda>w. \<not> P w) ws))) # open_runs P None (dropWhile (\<lambda>w. \<not> P w) ws)"
proof (induction ws arbitrary: r)
  case (Cons w ws)
  show ?case
  proof (cases "P w")
    case False
    have "snd (last ((fst r, snd w) # takeWhile (\<lambda>w. \<not> P w) ws)) = snd (last (w # takeWhile (\<lambda>w. \<not> P w) ws))" by simp
    with Cons.IH [of "(fst r, snd w)"] False show ?thesis by simp
  qed simp
qed simp

lemma open_runs_reference: "open_runs P None ws = map span (missing_runs P ws)"
proof (induction P ws rule: missing_runs.induct)
  case (1 P ws)
  show ?case
  proof (cases "dropWhile P ws")
    case Nil
    then show ?thesis using open_runs_skip [of P ws] unfolding missing_runs.simps [of P ws] Nil by simp
  next
    case (Cons w rest)
    then have "\<not> P w" by (metis dropWhile_eq_Cons_conv)
    then have "open_runs P None (w # rest) = span (w # takeWhile (\<lambda>v. \<not> P v) rest) # open_runs P None (dropWhile (\<lambda>v. \<not> P v) rest)"
      by (simp add: open_runs_some span_def)
    with 1 [OF Cons] Cons open_runs_skip [of P ws] show ?thesis by (simp add: missing_runs.simps [of P ws])
  qed
qed

text \<open>The timestamps at or after a boundary decide the later windows.\<close>

lemma covered_later: "b \<le> fst w \<Longrightarrow> covered (filter (\<lambda>t. b \<le> t) xs) w = covered xs w"
  by (auto simp: covered_def)

definition run_list :: "window option \<Rightarrow> window list" where
  "run_list run = (case run of None \<Rightarrow> [] | Some r \<Rightarrow> [r])"

definition in_any :: "window list \<Rightarrow> ts \<Rightarrow> bool" where
  "in_any ws t \<longleftrightarrow> (\<exists>w \<in> set ws. fst w \<le> t \<and> t < snd w)"

definition stray :: "window list \<Rightarrow> ts \<Rightarrow> bool" where
  "stray ws t \<longleftrightarrow> (\<exists>w \<in> set ws. t < snd w) \<and> \<not> in_any ws t"

lemma scan_window_sorted:
  assumes "sorted (sc_rest st)" "a < b"
  shows "scan_window (a, b) st =
     (let g = sc_scan st; c = covered (sc_rest st) (a, b);
          g1 = g\<lparr>gs_expected := gs_expected g + 1,
                 gs_unmatched := gs_unmatched g + int (length (filter (\<lambda>t. t < a) (sc_rest st))),
                 gs_matched := gs_matched g + int (length (filter (in_any [(a, b)]) (sc_rest st)))\<rparr>
      in if c then \<lparr>sc_scan = g1\<lparr>gs_windows := gs_windows g @ run_list (sc_run st)\<rparr>, sc_run = None,
                    sc_rest = filter (\<lambda>t. b \<le> t) (sc_rest st)\<rparr>
         else \<lparr>sc_scan = g1\<lparr>gs_missing := gs_missing g + 1\<rparr>,
               sc_run = (case sc_run st of None \<Rightarrow> Some (a, b) | Some r \<Rightarrow> Some (fst r, b)),
               sc_rest = filter (\<lambda>t. b \<le> t) (sc_rest st)\<rparr>)"
proof -
  let ?xs = "sc_rest st"
  have srt: "sorted (filter (\<lambda>t. a \<le> t) ?xs)" using assms(1) by (rule sorted_wrt_filter)
  have "filter (\<lambda>t. t < b) (filter (\<lambda>t. a \<le> t) ?xs) = filter (in_any [(a, b)]) ?xs"
    by (auto simp: in_any_def intro: filter_cong)
  moreover have "filter (\<lambda>t. b \<le> t) (filter (\<lambda>t. a \<le> t) ?xs) = filter (\<lambda>t. b \<le> t) ?xs"
    using assms(2) by (auto intro: filter_cong)
  moreover have "filter (in_any [(a, b)]) ?xs \<noteq> [] \<longleftrightarrow> covered ?xs (a, b)"
    by (auto simp: covered_def in_any_def filter_empty_conv)
  ultimately show ?thesis
    unfolding scan_window_def Let_def prod.case sorted_take_drop [OF assms(1)] sorted_take_drop [OF srt]
    by (simp add: run_list_def split: option.split)
qed

lemma length_filter_split:
  "(\<And>t. t \<in> set xs \<Longrightarrow> P t \<longleftrightarrow> Q t \<or> R t) \<Longrightarrow> (\<And>t. t \<in> set xs \<Longrightarrow> \<not> (Q t \<and> R t))
     \<Longrightarrow> length (filter P xs) = length (filter Q xs) + length (filter R xs)"
  by (induction xs) auto

definition scans :: "window list \<Rightarrow> scan_state \<Rightarrow> scan_state \<Rightarrow> bool" where
  "scans ws st st' \<longleftrightarrow>
     gs_windows (sc_scan st') @ run_list (sc_run st')
       = gs_windows (sc_scan st) @ open_runs (covered (sc_rest st)) (sc_run st) ws
     \<and> gs_expected (sc_scan st') = gs_expected (sc_scan st) + int (length ws)
     \<and> gs_missing (sc_scan st') = gs_missing (sc_scan st) + int (length (filter (\<lambda>w. \<not> covered (sc_rest st) w) ws))
     \<and> gs_matched (sc_scan st') = gs_matched (sc_scan st) + int (length (filter (in_any ws) (sc_rest st)))
     \<and> gs_unmatched (sc_scan st') = gs_unmatched (sc_scan st) + int (length (filter (stray ws) (sc_rest st)))"

lemma scan_fold:
  "sorted (sc_rest st) \<Longrightarrow> windows_ok ws \<Longrightarrow> scans ws st (fold scan_window ws st)"
proof (induction ws arbitrary: st)
  case Nil
  show ?case by (simp add: scans_def run_list_def in_any_def stray_def split: option.split)
next
  case (Cons w ws)
  obtain a b where w: "w = (a, b)" by (cases w)
  define xs where "xs = sc_rest st"
  define st1 where "st1 = scan_window (a, b) st"
  have srt: "sorted xs" using Cons.prems(1) by (simp add: xs_def)
  have ab: "a < b" and later: "\<And>v. v \<in> set ws \<Longrightarrow> b \<le> fst v" and ok: "windows_ok ws"
    using Cons.prems(2) by (auto simp: windows_ok_def w)
  note step = scan_window_sorted [OF Cons.prems(1) ab, folded xs_def st1_def]
  have rest: "sc_rest st1 = filter (\<lambda>t. b \<le> t) xs" by (simp add: step Let_def)
  have srt1: "sorted (sc_rest st1)" unfolding rest using srt by (rule sorted_wrt_filter)
  have cov: "covered (sc_rest st1) v = covered xs v" if "v \<in> set ws" for v
    using covered_later later [OF that] rest by simp
  have m: "length (filter (in_any (w # ws)) xs) = length (filter (in_any [(a, b)]) xs) + length (filter (in_any ws) (sc_rest st1))"
    unfolding rest filter_filter
    by (rule length_filter_split) (fastforce simp: in_any_def w dest: later)+
  have u: "length (filter (stray (w # ws)) xs) = length (filter (\<lambda>t. t < a) xs) + length (filter (stray ws) (sc_rest st1))"
    unfolding rest filter_filter
    using ab by (intro length_filter_split) (fastforce simp: stray_def in_any_def w dest: later)+
  have runs: "open_runs (covered (sc_rest st1)) run ws = open_runs (covered xs) run ws" for run
    by (rule open_runs_cong) (rule cov)
  have miss: "filter (\<lambda>v. \<not> covered (sc_rest st1) v) ws = filter (\<lambda>v. \<not> covered xs v) ws"
    by (rule filter_cong) (simp_all add: cov)
  have "scans ws st1 (fold scan_window ws st1)" by (rule Cons.IH [OF srt1 ok])
  then show ?case
    unfolding scans_def runs miss m u xs_def [symmetric]
    by (cases "covered xs (a, b)") (simp_all add: w step Let_def run_list_def m [unfolded w] u [unfolded w] st1_def [symmetric]
        split: option.splits)
qed

lemma in_any_fun: "in_any ws = (\<lambda>t. \<exists>w \<in> set ws. fst w \<le> t \<and> t < snd w)"
  by (rule ext) (rule in_any_def)

lemma stray_fun: "stray ws = (\<lambda>t. (\<exists>w \<in> set ws. t < snd w) \<and> (\<forall>w \<in> set ws. \<not> (fst w \<le> t \<and> t < snd w)))"
  by (rule ext) (auto simp: stray_def in_any_def)

lemma scan_gaps_reference:
  assumes "sorted present" "windows_ok ws"
  shows "scan_gaps ws present = reference_scan ws present"
proof -
  let ?st = "\<lparr>sc_scan = \<lparr>gs_windows = [], gs_expected = 0, gs_missing = 0, gs_matched = 0, gs_unmatched = 0\<rparr>,
             sc_run = None, sc_rest = present\<rparr> :: scan_state"
  have "scans ws ?st (fold scan_window ws ?st)" using assms by (intro scan_fold) simp_all
  then show ?thesis
    unfolding scans_def scan_gaps_def Let_def run_list_def reference_scan_def in_any_fun [symmetric] stray_fun [symmetric]
    by (intro gap_scan.equality) (simp_all add: open_runs_reference)
qed

section \<open>The windows of a calendar\<close>

text \<open>
  What a schedule and a zone are: the dates of a year ascend and lie before those of later years,
  every session stays inside its own local day, later instants fall on later dates, and a local day
  ends where the next begins.
\<close>

definition schedule_ok :: "calendar_source \<Rightarrow> bool" where
  "schedule_ok cs \<longleftrightarrow>
     (\<forall>y. sorted_wrt (<) (map fst (cs_schedule cs y)))
     \<and> (\<forall>y y'. y < y' \<longrightarrow> (\<forall>r \<in> set (cs_schedule cs y). \<forall>r' \<in> set (cs_schedule cs y'). fst r < fst r'))
     \<and> (\<forall>y. \<forall>(d, op, cl) \<in> set (cs_schedule cs y). op < cl \<and> cs_local_date cs op = d \<and> cs_local_date cs cl = d)
     \<and> (\<forall>t t'. t \<le> t' \<longrightarrow> cs_local_date cs t \<le> cs_local_date cs t')
     \<and> (\<forall>d d'. d < d' \<longrightarrow> cs_midnight cs d < cs_midnight cs d')"

lemma fold_update_fresh:
  "distinct (map fst m @ map fst rows) \<Longrightarrow>
     fold (\<lambda>row m. AList.update (fst row) (f row) m) rows m = m @ map (\<lambda>row. (fst row, f row)) rows"
proof (induction rows arbitrary: m)
  case (Cons r rows)
  have "AList.update (fst r) (f r) m = m @ [(fst r, f r)]"
    using Cons.prems by (induction m) auto
  with Cons show ?case by simp
qed simp

lemma year_sessions_rows:
  assumes "schedule_ok cs" "year_sessions cs y = Inr m"
  shows "m = map (\<lambda>row. (fst row, session_row cs row)) (cs_schedule cs y)"
proof -
  have "sorted_wrt (<) (map fst (cs_schedule cs y))" using assms(1) by (simp add: schedule_ok_def)
  then have "distinct (map fst (cs_schedule cs y))" by (simp add: strict_sorted_iff)
  then show ?thesis
    using assms(2) fold_update_fresh [of "[]" "cs_schedule cs y" "session_row cs"]
    by (auto simp: year_sessions_def split: option.splits if_splits)
qed

definition day_order :: "session \<Rightarrow> session \<Rightarrow> bool" where
  "day_order s s' \<longleftrightarrow> ss_day s < ss_day s'"

definition session_ok :: "calendar_source \<Rightarrow> session \<Rightarrow> bool" where
  "session_ok cs s \<longleftrightarrow> ss_open s < ss_close s \<and> cs_local_date cs (ss_open s) = ss_day s \<and> cs_local_date cs (ss_close s) = ss_day s"

lemma map_r_map: "map_r f xs = Inr ys \<Longrightarrow> (\<And>x y. x \<in> set xs \<Longrightarrow> f x = Inr y \<Longrightarrow> y = g x) \<Longrightarrow> ys = map g xs"
proof (induction xs arbitrary: ys)
  case (Cons x xs)
  then obtain y zs where h: "f x = Inr y" "map_r f xs = Inr zs" "ys = y # zs"
    by (cases "f x"; cases "map_r f xs") auto
  then show ?case using Cons.IH [OF h(2)] Cons.prems(2) by auto
qed simp

lemma sorted_wrt_concat:
  assumes "sorted_wrt S xs" "\<And>x. x \<in> set xs \<Longrightarrow> sorted_wrt R (f x)"
    and "\<And>x y a b. x \<in> set xs \<Longrightarrow> y \<in> set xs \<Longrightarrow> S x y \<Longrightarrow> a \<in> set (f x) \<Longrightarrow> b \<in> set (f y) \<Longrightarrow> R a b"
  shows "sorted_wrt R (concat (map f xs))"
  using assms
proof (induction xs)
  case (Cons x xs)
  have "sorted_wrt R (concat (map f xs))" by (rule Cons.IH) (use Cons.prems(1,2) in \<open>auto intro: Cons.prems(3)\<close>)
  moreover have "R a b" if "a \<in> set (f x)" "y \<in> set xs" "b \<in> set (f y)" for a b y
    using that Cons.prems(1) by (intro Cons.prems(3) [of x y]) auto
  ultimately show ?case using Cons.prems(2) [of x] by (auto simp: sorted_wrt_append)
qed simp

lemma session_row_day [simp]: "ss_day (session_row cs row) = fst row"
  by (simp add: session_row_def split: prod.split)

lemma session_row_ok:
  "schedule_ok cs \<Longrightarrow> row \<in> set (cs_schedule cs y) \<Longrightarrow> session_ok cs (session_row cs row)"
  unfolding schedule_ok_def session_ok_def session_row_def by (cases row) fastforce

lemma sessions_ascend:
  assumes ok: "schedule_ok cs" and run: "sessions cs a b = Inr ss"
  shows "sorted_wrt day_order ss" "\<forall>s \<in> set ss. session_ok cs s"
proof -
  define f where "f = (\<lambda>y. map (\<lambda>row. (fst row, session_row cs row)) (cs_schedule cs y))"
  obtain ys where ys: "map_r (year_sessions cs) [year_of a .. year_of b] = Inr ys"
    and ss: "ss = map snd (filter (\<lambda>(d, _). a \<le> d \<and> d \<le> b) (concat ys))"
    using run by (auto simp: sessions_def bind_r_eq_Inr split: if_splits)
  have "ys = map f [year_of a .. year_of b]"
    by (rule map_r_map [OF ys]) (simp add: f_def year_sessions_rows [OF ok])
  then have ss': "ss = map snd (filter (\<lambda>(d, _). a \<le> d \<and> d \<le> b) (concat (map f [year_of a .. year_of b])))" using ss by simp
  have "sorted_wrt (\<lambda>p q. day_order (snd p) (snd q)) (concat (map f [year_of a .. year_of b]))"
  proof (rule sorted_wrt_concat [where S = "(<)"])
    show "sorted_wrt (\<lambda>p q. day_order (snd p) (snd q)) (f y)" for y
      using ok by (simp add: f_def schedule_ok_def sorted_wrt_map day_order_def)
    show "day_order (snd p) (snd q)" if "y < y'" "p \<in> set (f y)" "q \<in> set (f y')" for y y' p q
      using that ok unfolding f_def day_order_def schedule_ok_def by fastforce
  qed simp
  then show "sorted_wrt day_order ss" unfolding ss' sorted_wrt_map by (rule sorted_wrt_filter)
  show "\<forall>s \<in> set ss. session_ok cs s" unfolding ss' f_def using session_row_ok [OF ok] by fastforce
qed

lemma slots_within:
  "w \<in> set (slots step op cl) \<Longrightarrow> op \<le> fst w \<and> snd w \<le> cl \<and> fst w < snd w"
proof (induction step op cl rule: slots.induct)
  case (1 step slot cl)
  show ?case using 1 by (subst (asm) slots.simps) (fastforce split: if_splits)
qed

lemma slots_sorted: "sorted_wrt (\<lambda>v w. snd v \<le> fst w) (slots step op cl)"
proof (induction step op cl rule: slots.induct)
  case (1 step slot cl)
  then show ?case using slots_within [of _ step "slot + step" cl] by (subst slots.simps) auto
qed

lemma session_windows_within:
  assumes "schedule_ok cs" "session_ok cs s" "w \<in> set (session_windows cs tf start stop s)"
  shows "fst w < snd w" "start \<le> fst w"
    and "tf = D1 \<Longrightarrow> w = (cs_midnight cs (ss_day s), cs_midnight cs (ss_day s + 1))"
    and "tf \<noteq> D1 \<Longrightarrow> ss_open s \<le> fst w \<and> snd w \<le> ss_close s"
  using assms slots_within [of w "step_us tf" "ss_open s" "ss_close s"]
  by (auto simp: session_windows_def day_bounds_def schedule_ok_def Let_def split: if_splits)

lemma windows_of_later_days:
  assumes ok: "schedule_ok cs" and s: "session_ok cs s" "session_ok cs s'" "ss_day s < ss_day s'"
    and w: "v \<in> set (session_windows cs tf start stop s)" "w \<in> set (session_windows cs tf start stop s')"
  shows "snd v \<le> fst w"
proof (cases "tf = D1")
  case True
  have "cs_midnight cs (ss_day s + 1) \<le> cs_midnight cs (ss_day s')"
    using ok s(3) by (cases "ss_day s + 1 = ss_day s'") (auto simp: schedule_ok_def intro: less_imp_le)
  then show ?thesis using session_windows_within(3) [OF ok s(1) w(1) True] session_windows_within(3) [OF ok s(2) w(2) True] by simp
next
  case False
  have "ss_close s < ss_open s'"
  proof (rule ccontr)
    assume "\<not> ss_close s < ss_open s'"
    then have "cs_local_date cs (ss_open s') \<le> cs_local_date cs (ss_close s)" using ok by (simp add: schedule_ok_def)
    then show False using s by (simp add: session_ok_def)
  qed
  then show ?thesis
    using session_windows_within(4) [OF ok s(1) w(1) False] session_windows_within(4) [OF ok s(2) w(2) False] by simp
qed

lemma expected_windows_ok:
  assumes ok: "schedule_ok cs" and run: "expected_windows cs tf start stop = Inr ws"
  shows "windows_ok ws" "\<forall>w \<in> set ws. start \<le> fst w"
proof -
  obtain ss where ss: "sessions cs (cs_local_date cs start - 1) (cs_local_date cs stop + 1) = Inr ss"
    and ws: "ws = concat (map (session_windows cs tf start stop) ss)"
    using run by (auto simp: expected_windows_def bind_r_eq_Inr split: if_splits)
  note asc = sessions_ascend [OF ok ss]
  have "sorted_wrt (\<lambda>v w. snd v \<le> fst w) ws"
    unfolding ws
  proof (rule sorted_wrt_concat [OF asc(1)])
    show "sorted_wrt (\<lambda>v w. snd v \<le> fst w) (session_windows cs tf start stop s)" for s
      by (auto simp: session_windows_def Let_def day_bounds_def intro: sorted_wrt_filter slots_sorted)
    show "snd v \<le> fst w" if "s \<in> set ss" "s' \<in> set ss" "day_order s s'"
      "v \<in> set (session_windows cs tf start stop s)" "w \<in> set (session_windows cs tf start stop s')" for s s' v w
      using that asc(2) by (intro windows_of_later_days [OF ok]) (auto simp: day_order_def)
  qed
  moreover have "\<forall>w \<in> set ws. fst w < snd w \<and> start \<le> fst w"
    unfolding ws using asc(2) session_windows_within(1,2) [OF ok] by fastforce
  ultimately show "windows_ok ws" "\<forall>w \<in> set ws. start \<le> fst w" by (auto simp: windows_ok_def)
qed

text \<open>
  C28. On any calendar, the windows a gap scan expects are disjoint, ascend and start inside the
  range; and the single streaming pass over them and the stored timestamps, sorted as the query
  returns them, answers what inspecting every window against every timestamp does: the maximal runs
  of windows holding no timestamp, each reported from the first one's start to the last one's end,
  the numbers of expected and missing windows, and the numbers of timestamps inside a window and
  before the last window's end but inside none.
\<close>

theorem gap_scan_is_exact:
  assumes "schedule_ok cs" "expected_windows cs tf start stop = Inr ws" "sorted present"
  shows "windows_ok ws \<and> (\<forall>w \<in> set ws. start \<le> fst w) \<and> scan_gaps ws present = reference_scan ws present"
  using expected_windows_ok [OF assms(1,2)] scan_gaps_reference [OF assms(3)] by blast

lemma sample_schedule_ok: "schedule_ok sample_calendar"
  unfolding schedule_ok_def
  by (auto simp: sample_calendar_def utc_date_def DAY_US_def EPOCH_ORD_def zdiv_mono1 split: if_splits)

theorem gap_scan_is_exact_witness:
  "\<exists>ws. expected_windows sample_calendar D1 0 864000000000 = Inr ws
     \<and> scan_gaps ws [5, 86400000000] = reference_scan ws [5, 86400000000]"
proof -
  have y: "year_of 719162 = 1969" "year_of 719174 = 1970" by code_simp+
  have "is_ok (expected_windows sample_calendar D1 0 864000000000)"
    by (simp add: expected_windows_def require_supported_def SUPPORTED_TIMEFRAMES_def sessions_def guard_r_def
        y sample_calendar_def utc_date_def DAY_US_def EPOCH_ORD_def year_sessions_def upto.simps)
  then obtain ws where "expected_windows sample_calendar D1 0 864000000000 = Inr ws"
    by (cases "expected_windows sample_calendar D1 0 864000000000") auto
  with gap_scan_is_exact [OF sample_schedule_ok this, of "[5, 86400000000]"] show ?thesis by auto
qed

end
