(* ===== verification/Backtest.thy ===== *)
theory Backtest
  imports Idempotency RiskEngine Submission Matching Costs Clock
begin

text \<open>
  \<open>backtest/engine.py\<close>: the replay of stored bars through a strategy. The strategy is a function of
  what the context shows it, with a state of its own; the ATR the stops use is a function of the
  visible bars (it is computed in floating point), and ids are drawn from a supply. An order the
  result lists may also be pending, and a fill must be seen through both: the pending list holds
  the positions of its orders in the result's list. A raise ends the run, and the state it leaves is
  not kept. Logging, progress reports and the float metrics are left out.
\<close>

datatype position_sizer =
  FixedQtySizer dec
| RiskBasedSizer string dec
| CustomSizer "signal \<Rightarrow> portfolio \<Rightarrow> dec \<Rightarrow> exn + dec"

fun size_of :: "position_sizer \<Rightarrow> signal \<Rightarrow> portfolio \<Rightarrow> dec \<Rightarrow> exn + dec" where
  "size_of (FixedQtySizer q) sg pf price = Inr q"
| "size_of (RiskBasedSizer method v) sg pf price = position_size method (equity pf) price (sg_stop_loss sg) v None"
| "size_of (CustomSizer f) sg pf price = f sg pf price"

record backtest_config =
  bc_symbols :: "string list"
  bc_start :: ts
  bc_end :: ts
  bc_timeframe :: timeframe
  bc_starting_cash :: dec
  bc_max_participation :: dec
  bc_warmup_bars :: "int option"
  bc_max_gap_days :: int

section \<open>What the strategy sees\<close>

record backtest_context =
  cx_bars :: "bar list dict"
  cx_cursor :: "int dict"
  cx_now :: ts
  cx_symbols :: "string list"

definition new_context :: "bar list dict \<Rightarrow> ts \<Rightarrow> string list \<Rightarrow> backtest_context" where
  "new_context bars now syms =
     \<lparr>cx_bars = bars, cx_cursor = map (\<lambda>(s, _). (s, - 1)) bars, cx_now = now, cx_symbols = syms\<rparr>"

definition advance :: "string \<Rightarrow> int \<Rightarrow> backtest_context \<Rightarrow> exn + backtest_context" where
  "advance s i cx =
     (if i < dict_get_or (cx_cursor cx) s (- 1) then Inl (LookaheadError (Reason ''cursor cannot go backwards'' [s] []))
      else Inr (cx\<lparr>cx_cursor := dict_set s i (cx_cursor cx)\<rparr>))"

definition visible :: "backtest_context \<Rightarrow> string \<Rightarrow> bar list" where
  "visible cx s =
     (let i = dict_get_or (cx_cursor cx) s (- 1)
      in if i < 0 then [] else take (nat (i + 1)) (dict_get_or (cx_bars cx) s []))"

text \<open>\<open>xs[-k:]\<close>\<close>

definition py_last :: "int \<Rightarrow> 'a list \<Rightarrow> 'a list" where
  "py_last k xs = (if k > 0 then drop (length xs - nat k) xs else drop (nat (- k)) xs)"

definition history :: "backtest_context \<Rightarrow> string \<Rightarrow> int \<Rightarrow> exn + bar list" where
  "history cx s lookback =
     (if int (length (visible cx s)) < lookback then Inl (DataGapError (Reason ''needs more bars'' [s] []))
      else Inr (py_last lookback (visible cx s)))"

definition closes :: "backtest_context \<Rightarrow> string \<Rightarrow> int \<Rightarrow> dec list" where
  "closes cx s lookback = map b_close (if lookback > 0 then py_last lookback (visible cx s) else [])"

definition last_price :: "backtest_context \<Rightarrow> string \<Rightarrow> dec option" where
  "last_price cx s = (if visible cx s = [] then None else Some (b_close (last (visible cx s))))"

text \<open>
  The context as the strategy can read it: no bar but the visible ones. Asking for a position creates
  it, so a strategy's answer also says which positions it asked for.
\<close>

record view =
  vw_visible :: "string \<Rightarrow> bar list"
  vw_now :: ts
  vw_symbols :: "string list"
  vw_portfolio :: portfolio

definition view_of :: "backtest_context \<Rightarrow> portfolio \<Rightarrow> view" where
  "view_of cx pf = \<lparr>vw_visible = visible cx, vw_now = cx_now cx, vw_symbols = cx_symbols cx, vw_portfolio = pf\<rparr>"

record 's backtest_engine =
  be_name :: string
  be_warmup :: int
  be_on_start :: "'s \<Rightarrow> exn + 's"
  be_on_bar :: "view \<Rightarrow> bar \<Rightarrow> 's \<Rightarrow> exn + (signal list \<times> string list \<times> 's)"
  be_on_stop :: "'s \<Rightarrow> exn + 's"
  be_config :: backtest_config
  be_costs :: cost_model
  be_sizer :: "position_sizer option"
  be_stop :: "stop_config option"
  be_atr :: "bar list \<Rightarrow> int \<Rightarrow> exn + dec option"
  be_env :: "ts \<Rightarrow> risk_env"
  be_new_id :: "nat \<Rightarrow> string"

datatype warning =
  VolumeCapped ts string dec dec
| Refused ts string string reason
| Coverage string ts "string list" ts ts

record bt =
  bt_portfolio :: portfolio
  bt_engine :: risk_engine
  bt_orders :: "order list"
  bt_pending :: "nat list"
  bt_signals :: "signal list"
  bt_curve :: "(ts \<times> dec) list"
  bt_warnings :: "warning list"
  bt_protection :: "(dec option \<times> dec option) dict"
  bt_held :: "int dict"
  bt_pnls :: "dec list"
  bt_held_us :: "int list"
  bt_base :: "dec dict"
  bt_notional :: dec
  bt_in_market :: int
  bt_drawn :: nat

section \<open>Stops from the configuration\<close>

text \<open>\<open>with suppress(ValueError, ATPError)\<close>, and what is kept when it suppressed.\<close>

definition suppress :: "'a \<Rightarrow> exn + 'a \<Rightarrow> exn + 'a" where
  "suppress kept r = (case r of Inr x \<Rightarrow> Inr x | Inl e \<Rightarrow> if is_value_or_atp_error e then Inr kept else Inl e)"

definition atr_now :: "'s backtest_engine \<Rightarrow> stop_config \<Rightarrow> (string \<Rightarrow> bar list) \<Rightarrow> string \<Rightarrow> exn + dec option" where
  "atr_now E cfg vis s = be_atr E (vis s) (sc_period cfg)"

definition with_derived_stop :: "'s backtest_engine \<Rightarrow> (string \<Rightarrow> bar list) \<Rightarrow> bar \<Rightarrow> signal \<Rightarrow> exn + signal" where
  "with_derived_stop E vis b sg =
     (case be_stop E of
        None \<Rightarrow> Inr sg
      | Some cfg \<Rightarrow>
          if sg_stop_loss sg \<noteq> None \<or> sc_type cfg = TIME then Inr sg
          else
            let sd = (if sg_action sg = ENTER_LONG then BUY else SELL) in
            suppress sg
              (bind_r (bind_r (atr_now E cfg vis (sg_symbol sg)) (initial_stop (b_close b) sd cfg)) (\<lambda>level.
               Inr (sg\<lparr>sg_stop_loss := Some level\<rparr>))))"

definition arm_from_config :: "'s backtest_engine \<Rightarrow> (string \<Rightarrow> bar list) \<Rightarrow> string \<Rightarrow> position \<Rightarrow> exn + position" where
  "arm_from_config E vis s p =
     (case be_stop E of
        None \<Rightarrow> Inr p
      | Some cfg \<Rightarrow>
          if is_flat p \<or> sc_type cfg = TIME then Inr p
          else
            let sd = (if is_long p then BUY else SELL); entry = p_avg_entry p in
            bind_r (if p_stop_loss p = None
                    then suppress p (bind_r (bind_r (atr_now E cfg vis s) (initial_stop entry sd cfg)) (\<lambda>level.
                           Inr (p\<lparr>p_stop_loss := Some level\<rparr>)))
                    else Inr p) (\<lambda>p1.
            if p_take_profit p1 = None \<and> sc_type cfg \<in> set FROM_ENTRY_TYPES
            then suppress p1 (bind_r (take_profit_level entry sd cfg) (\<lambda>level. Inr (p1\<lparr>p_take_profit := Some level\<rparr>)))
            else Inr p1))"

definition maintain_trailing :: "'s backtest_engine \<Rightarrow> (string \<Rightarrow> bar list) \<Rightarrow> bar \<Rightarrow> portfolio \<Rightarrow> exn + portfolio" where
  "maintain_trailing E vis b pf =
     (case be_stop E of
        None \<Rightarrow> Inr pf
      | Some cfg \<Rightarrow>
          if sc_type cfg \<notin> set TRAILING_TYPES then Inr pf
          else
            let p = position_of (b_symbol b) pf in
            if is_flat p then Inr (touch_position (b_symbol b) pf)
            else suppress pf (bind_r (atr_now E cfg vis (b_symbol b)) (\<lambda>atr.
                   case update_trailing p b cfg atr of
                     (r, p1) \<Rightarrow> suppress (put_position (b_symbol b) p1 pf)
                                  (bind_r r (\<lambda>_. Inr (put_position (b_symbol b) p1 pf))))))"

definition time_exit_now :: "'s backtest_engine \<Rightarrow> bar \<Rightarrow> bt \<Rightarrow> exn + bool" where
  "time_exit_now E b st =
     (case be_stop E of
        None \<Rightarrow> Inr False
      | Some cfg \<Rightarrow>
          if sc_type cfg \<noteq> TIME then Inr False
          else case dict_get (bt_held st) (b_symbol b) of None \<Rightarrow> Inr False | Some held \<Rightarrow> time_exit_due held cfg)"

section \<open>Fills\<close>

definition settle_fill :: "'s backtest_engine \<Rightarrow> (string \<Rightarrow> bar list) \<Rightarrow> order \<Rightarrow> fill \<Rightarrow> bt \<Rightarrow> exn + bt" where
  "settle_fill E vis o1 f st =
     (let s = o_symbol o1; pf = bt_portfolio st; p = position_of s pf; sign = side_sign (o_side o1);
          pnl_before = dsub (p_realized p) (p_fees p) in
      bind_r (position_apply_fill f (dmul (f_qty f) sign) p) (\<lambda>(_, p1).
        let cash = dsub (pf_cash pf) (dadd (dmul (dmul (f_qty f) (f_price f)) sign) (f_fee f));
            base1 = (if is_flat p then dict_set s pnl_before (bt_base st) else bt_base st);
            closed = is_flat p1;
            levels = dict_get (bt_protection st) (o_id o1);
            p2 = (case levels of Some (stop, target) \<Rightarrow>
                    if closed then p1 else p1\<lparr>p_stop_loss := stop, p_take_profit := target\<rparr> | None \<Rightarrow> p1)
        in bind_r (if closed then Inr p2 else arm_from_config E vis s p2) (\<lambda>p3.
             Inr (st\<lparr>bt_portfolio := (put_position s p3 pf)\<lparr>pf_cash := cash\<rparr>,
                     bt_notional := dadd (bt_notional st) (dmul (f_qty f) (f_price f)),
                     bt_base := (if closed then dict_pop s base1 else base1),
                     bt_pnls := bt_pnls st @ (if closed
                        then [dsub (dsub (p_realized p1) (p_fees p1)) (dict_get_or base1 s pnl_before)] else []),
                     bt_held_us := bt_held_us st @ (case p_opened_at p of
                        Some t \<Rightarrow> if closed then [f_ts f - t] else [] | None \<Rightarrow> []),
                     bt_protection := dict_pop (o_id o1) (bt_protection st),
                     bt_held := (if closed then dict_pop s (bt_held st) else dict_setdefault s 0 (bt_held st))\<rparr>))))"

definition execute ::
  "'s backtest_engine \<Rightarrow> (string \<Rightarrow> bar list) \<Rightarrow> order \<Rightarrow> bar \<Rightarrow> dec \<Rightarrow> bt \<Rightarrow> exn + (order \<times> bt)" where
  "execute E vis o1 b intended st =
     bind_r (slippage (be_costs E) o1 b intended) (\<lambda>slip.
       let price = dadd intended slip in
       if price \<le> 0 then Inl (BacktestError (Reason ''slippage produced a non-positive fill price'' [] [price]))
       else
         let wanted = remaining_qty o1;
             cap = dmul (bc_max_participation (be_config E)) (b_volume b);
             qty = (if cap < wanted then cap else wanted);
             st1 = (if cap < wanted
                    then st\<lparr>bt_warnings := bt_warnings st @ [VolumeCapped (b_ts b) (o_symbol o1) wanted cap]\<rparr> else st)
         in if qty \<le> 0 then Inr (o1, st1)
            else bind_r (commission (be_costs E) o1 price qty) (\<lambda>fee.
              let f = \<lparr>f_order_id = o_id o1, f_ts = b_ts b, f_qty = qty, f_price = price, f_fee = fee, f_venue_id = None\<rparr>
              in bind_r (order_apply_fill f o1) (\<lambda>o2. bind_r (settle_fill E vis o2 f st1) (\<lambda>st2. Inr (o2, st2)))))"

text \<open>The pending loop: what still rests, what filled, and the state.\<close>

fun fill_pending_for ::
  "'s backtest_engine \<Rightarrow> (string \<Rightarrow> bar list) \<Rightarrow> bar \<Rightarrow> nat list \<Rightarrow> bt \<Rightarrow> exn + (nat list \<times> nat list \<times> bt)" where
  "fill_pending_for E vis b [] st = Inr ([], [], st)"
| "fill_pending_for E vis b (i # is) st =
     (let o1 = bt_orders st ! i;
          rest = (\<lambda>rests fills st. bind_r (fill_pending_for E vis b is st) (\<lambda>(rs, fs, st1).
                    Inr (if rests then i # rs else rs, if fills then i # fs else fs, st1)));
          put = (\<lambda>o2 st. st\<lparr>bt_orders := (bt_orders st)[i := o2]\<rparr>)
      in if o_symbol o1 \<noteq> b_symbol b then rest True False st
         else bind_r (intended_price o1 b False) (\<lambda>price. case price of
             None \<Rightarrow> if o_tif o1 = DAY then rest False False (put (o1\<lparr>o_status := EXPIRED\<rparr>) st) else rest True False st
           | Some x \<Rightarrow> bind_r (execute E vis o1 b x st) (\<lambda>(o2, st1).
               if 0 < remaining_qty o2 \<and> o_tif o1 = DAY then rest False True (put (o2\<lparr>o_status := EXPIRED\<rparr>) st1)
               else rest (0 < remaining_qty o2) True (put o2 st1))))"

definition fill_pending :: "'s backtest_engine \<Rightarrow> (string \<Rightarrow> bar list) \<Rightarrow> bar \<Rightarrow> bt \<Rightarrow> exn + (nat list \<times> bt)" where
  "fill_pending E vis b st =
     bind_r (fill_pending_for E vis b (bt_pending st) st) (\<lambda>(rests, fills, st1). Inr (fills, st1\<lparr>bt_pending := rests\<rparr>))"

section \<open>Stops\<close>

text \<open>An order with fresh identifiers: both are drawn when it is built.\<close>

definition drawn_order :: "'s backtest_engine \<Rightarrow> string \<Rightarrow> side \<Rightarrow> dec \<Rightarrow> bt \<Rightarrow> order \<times> bt" where
  "drawn_order E s sd qty st =
     (order_defaults (be_new_id E (bt_drawn st)) (be_new_id E (bt_drawn st + 1)) s sd qty,
      st\<lparr>bt_drawn := bt_drawn st + 2\<rparr>)"

text \<open>Build a closing order, execute it at once, and list it.\<close>

definition execute_exit ::
  "'s backtest_engine \<Rightarrow> (string \<Rightarrow> bar list) \<Rightarrow> bar \<Rightarrow> (order \<Rightarrow> order) \<Rightarrow> position \<Rightarrow> dec \<Rightarrow> string \<Rightarrow> bt \<Rightarrow> exn + bt" where
  "execute_exit E vis b shape p price purpose st =
     (case drawn_order E (b_symbol b) (if is_long p then SELL else BUY) (dabs (p_qty p)) st of
        (o0, st0) \<Rightarrow>
          bind_r (new_order (shape (o0\<lparr>o_strategy := Some (be_name E), o_created_at := Some (b_ts b),
                                       o_status := SUBMITTED, o_purpose := purpose\<rparr>))) (\<lambda>o1.
          bind_r (execute E vis o1 b price st0) (\<lambda>(o2, st1).
          Inr (st1\<lparr>bt_orders := bt_orders st1 @ [o2]\<rparr>))))"

definition exit_at_market ::
  "'s backtest_engine \<Rightarrow> (string \<Rightarrow> bar list) \<Rightarrow> bar \<Rightarrow> position \<Rightarrow> string \<Rightarrow> bt \<Rightarrow> exn + bt" where
  "exit_at_market E vis b p purpose st = execute_exit E vis b id p (b_close b) purpose st"

definition check_stops :: "'s backtest_engine \<Rightarrow> (string \<Rightarrow> bar list) \<Rightarrow> bar \<Rightarrow> bt \<Rightarrow> exn + bt" where
  "check_stops E vis b st0 =
     (let st = st0\<lparr>bt_portfolio := touch_position (b_symbol b) (bt_portfolio st0)\<rparr> in
      if is_flat (position_of (b_symbol b) (bt_portfolio st)) then Inr st
      else bind_r (maintain_trailing E vis b (bt_portfolio st)) (\<lambda>pf.
        let st1 = st\<lparr>bt_portfolio := pf\<rparr>; p = position_of (b_symbol b) pf; long = is_long p in
        if should_trigger p b
        then (case p_stop_loss p of
                None \<Rightarrow> Inl (RuntimeError (Reason ''assertion failed'' [] []))
              | Some stop \<Rightarrow> execute_exit E vis b (\<lambda>o1. o1\<lparr>o_type := STOP, o_stop := Some stop\<rparr>) p
                  (if long then min (b_open b) stop else max (b_open b) stop) PURPOSE_STOP_LOSS st1)
        else if target_hit p b
        then (case p_take_profit p of
                None \<Rightarrow> Inl (RuntimeError (Reason ''assertion failed'' [] []))
              | Some target \<Rightarrow> execute_exit E vis b (\<lambda>o1. o1\<lparr>o_type := LIMIT, o_limit := Some target\<rparr>) p
                  (if long then max (b_open b) target else min (b_open b) target) PURPOSE_TAKE_PROFIT st1)
        else bind_r (time_exit_now E b st1) (\<lambda>due.
          if due then exit_at_market E vis b p PURPOSE_TIME_EXIT st1 else Inr st1)))"

section \<open>Signals\<close>

definition book_refusal :: "order \<Rightarrow> bar \<Rightarrow> string \<Rightarrow> reason \<Rightarrow> bt \<Rightarrow> bt" where
  "book_refusal o1 b rule why st =
     st\<lparr>bt_warnings := bt_warnings st @ [Refused (b_ts b) (o_symbol o1) rule why],
        bt_orders := bt_orders st @ [o1\<lparr>o_status := REJECTED_RISK, o_reject_reason := Some why, o_rejected_by := Some rule\<rparr>]\<rparr>"

definition value_reason :: "exn \<Rightarrow> reason" where
  "value_reason e = (case e of ValueError why \<Rightarrow> why | _ \<Rightarrow> no_reason)"

definition signal_order :: "signal \<Rightarrow> bar \<Rightarrow> string \<Rightarrow> order \<Rightarrow> order" where
  "signal_order sg b purpose o1 =
     o1\<lparr>o_strategy := Some (sg_strategy sg), o_signal := Some (sg_id sg), o_created_at := Some (b_ts b), o_purpose := purpose\<rparr>"

definition queue_order ::
  "'s backtest_engine \<Rightarrow> ts \<Rightarrow> signal \<Rightarrow> bar \<Rightarrow> side \<Rightarrow> dec \<Rightarrow> string \<Rightarrow> bt \<Rightarrow> exn + bt" where
  "queue_order E now sg b sd qty purpose st =
     (if qty \<le> 0 then Inr st
      else case drawn_order E (sg_symbol sg) sd qty st of (o0, st1) \<Rightarrow>
        bind_r (new_order ((signal_order sg b purpose o0)\<lparr>
            o_type := (case sg_limit sg of None \<Rightarrow> MARKET | Some l \<Rightarrow> if l = 0 then MARKET else LIMIT),
            o_limit := sg_limit sg\<rparr>)) (\<lambda>o1.
        case validate (be_env E now) (bt_engine st1) o1 (bt_portfolio st1) (map ((!) (bt_orders st1)) (bt_pending st1)) of
          (d, o2, en, pf) \<Rightarrow>
            let st2 = st1\<lparr>bt_engine := en, bt_portfolio := pf\<rparr> in
            if \<not> rd_approved d then Inr (book_refusal o2 b (rd_rule d) (rd_reason d) st2)
            else if (case rd_adjusted d of None \<Rightarrow> False | Some q \<Rightarrow> q \<le> 0) then Inr st2
            else
              let o3 = o2\<lparr>o_qty := (case rd_adjusted d of None \<Rightarrow> o_qty o2 | Some q \<Rightarrow> q),
                          o_status := SUBMITTED, o_submitted_at := Some (b_ts b)\<rparr>;
                  levels = (sg_stop_loss sg, sg_take_profit sg)
              in Inr (st2\<lparr>bt_pending := bt_pending st2 @ [length (bt_orders st2)],
                          bt_orders := bt_orders st2 @ [o3],
                          bt_protection := (if levels = (None, None) then bt_protection st2
                                            else dict_set (o_id o3) levels (bt_protection st2))\<rparr>)))"

definition handle_signal ::
  "'s backtest_engine \<Rightarrow> (string \<Rightarrow> bar list) \<Rightarrow> ts \<Rightarrow> bar \<Rightarrow> signal \<Rightarrow> bt \<Rightarrow> exn + bt" where
  "handle_signal E vis now b sg st0 =
     (if sg_action sg = HOLD then Inr st0
      else
        let st = st0\<lparr>bt_portfolio := touch_position (sg_symbol sg) (bt_portfolio st0)\<rparr>;
            p = position_of (sg_symbol sg) (bt_portfolio st)
        in case sg_action sg of
             EXIT \<Rightarrow> if is_flat p then Inr st
                     else queue_order E now sg b (if is_long p then SELL else BUY) (dabs (p_qty p)) PURPOSE_EXIT st
           | SCALE_OUT \<Rightarrow> if is_flat p then Inr st else Inl (BacktestError (Reason ''SCALE_OUT is not modelled yet'' [] []))
           | SCALE_IN \<Rightarrow> Inl (BacktestError (Reason ''is not modelled by the backtest engine'' [] []))
           | _ \<Rightarrow>
               bind_r (with_derived_stop E vis b sg) (\<lambda>sg1.
               case be_sizer E of
                 None \<Rightarrow> Inl (BacktestError (Reason ''an entry signal needs a position_sizer'' [] []))
               | Some sizer \<Rightarrow>
                   let sd = (if sg_action sg1 = ENTER_LONG then BUY else SELL) in
                   (case size_of sizer sg1 (bt_portfolio st) (b_close b) of
                      Inr qty \<Rightarrow> queue_order E now sg1 b sd qty PURPOSE_ENTRY st
                    | Inl e \<Rightarrow>
                        if is_value_error e
                        then (case drawn_order E (sg_symbol sg1) sd 1 st of (o0, st1) \<Rightarrow>
                                bind_r (new_order (signal_order sg1 b PURPOSE_ENTRY o0)) (\<lambda>o1.
                                  Inr (book_refusal o1 b SIZING (value_reason e) st1)))
                        else Inl e)))"

section \<open>The replay\<close>

record 's replay =
  rp_cx :: backtest_context
  rp_bt :: bt
  rp_seen :: "int dict"
  rp_strategy :: 's
  rp_session :: "date option"

text \<open>\<open>index_of\<close>: the place and the bar of a timestamp in a series, the last one if there are several.\<close>

definition bar_at :: "bar list dict \<Rightarrow> string \<Rightarrow> ts \<Rightarrow> (nat \<times> bar) option" where
  "bar_at bars s t =
     (case dict_get bars s of None \<Rightarrow> None
      | Some series \<Rightarrow> map_of (rev (map (\<lambda>(i, b). (b_ts b, (i, b))) (enumerate 0 series))) t)"

definition timeline :: "bar list dict \<Rightarrow> ts list" where
  "timeline bars = sort (remdups (map b_ts (concat (map snd bars))))"

definition printed :: "bar list dict \<Rightarrow> string list \<Rightarrow> ts \<Rightarrow> (string \<times> nat \<times> bar) list" where
  "printed bars syms t = List.map_filter (\<lambda>s. map_option (\<lambda>(i, b). (s, i, b)) (bar_at bars s t)) syms"

definition mark_last :: "string \<Rightarrow> dec \<Rightarrow> bt \<Rightarrow> bt" where
  "mark_last s x st =
     st\<lparr>bt_portfolio := put_position s ((position_of s (bt_portfolio st))\<lparr>p_last := Some x\<rparr>) (bt_portfolio st)\<rparr>"

definition age_holding :: "string \<Rightarrow> bt \<Rightarrow> bt" where
  "age_holding s st = (case dict_get (bt_held st) s of None \<Rightarrow> st | Some n \<Rightarrow> st\<lparr>bt_held := dict_set s (n + 1) (bt_held st)\<rparr>)"

definition print_bar :: "'s backtest_engine \<Rightarrow> string \<times> nat \<times> bar \<Rightarrow> 's replay \<Rightarrow> exn + 's replay" where
  "print_bar E x r =
     (case x of (s, i, b) \<Rightarrow>
        bind_r (advance s (int i) (rp_cx r)) (\<lambda>cx.
        bind_r (check_stops E (visible cx) b (age_holding s (mark_last s (b_close b) (rp_bt r)))) (\<lambda>st1.
        bind_r (fill_pending E (visible cx) b st1) (\<lambda>(_, st2).
        Inr (r\<lparr>rp_cx := cx, rp_seen := dict_set s (dict_get_or (rp_seen r) s 0 + 1) (rp_seen r), rp_bt := st2\<rparr>)))))"

definition warmup_of :: "'s backtest_engine \<Rightarrow> int" where
  "warmup_of E = (case bc_warmup_bars (be_config E) of None \<Rightarrow> be_warmup E | Some n \<Rightarrow> n)"

definition ask_strategy :: "'s backtest_engine \<Rightarrow> string \<times> nat \<times> bar \<Rightarrow> 's replay \<Rightarrow> exn + 's replay" where
  "ask_strategy E x r =
     (case x of (s, i, b) \<Rightarrow>
        bind_r (be_on_bar E (view_of (rp_cx r) (bt_portfolio (rp_bt r))) b (rp_strategy r)) (\<lambda>(sigs, asked, strat).
        let st = (rp_bt r)\<lparr>bt_portfolio := fold touch_position asked (bt_portfolio (rp_bt r))\<rparr> in
        if dict_get_or (rp_seen r) s 0 \<le> warmup_of E then Inr (r\<lparr>rp_bt := st, rp_strategy := strat\<rparr>)
        else bind_r (for_r (handle_signal E (visible (rp_cx r)) (cx_now (rp_cx r)) b) sigs
                       (st\<lparr>bt_signals := bt_signals st @ sigs\<rparr>)) (\<lambda>st1.
             Inr (r\<lparr>rp_bt := st1, rp_strategy := strat\<rparr>))))"

definition open_session :: "ts \<Rightarrow> 's replay \<Rightarrow> 's replay" where
  "open_session t r =
     (if rp_session r \<noteq> Some (utc_date t)
      then r\<lparr>rp_session := Some (utc_date t),
             rp_bt := (rp_bt r)\<lparr>bt_engine := snd (anchor_session (equity (bt_portfolio (rp_bt r))) (bt_engine (rp_bt r)))\<rparr>\<rparr>
      else r)"

definition snapshot_equity :: "ts \<Rightarrow> bt \<Rightarrow> bt" where
  "snapshot_equity t st =
     (let e = equity (bt_portfolio st) in
      st\<lparr>bt_portfolio := (bt_portfolio st)\<lparr>pf_equity_curve := pf_equity_curve (bt_portfolio st) @ [(t, e)]\<rparr>,
         bt_curve := bt_curve st @ [(t, e)],
         bt_in_market := (if open_positions (bt_portfolio st) = [] then bt_in_market st else bt_in_market st + 1)\<rparr>)"

definition step_replay :: "'s backtest_engine \<Rightarrow> ts \<Rightarrow> 's replay \<Rightarrow> exn + 's replay" where
  "step_replay E t r0 =
     bind_r (sim_clock_set (t + timeframe_seconds (bc_timeframe (be_config E)) * 10 ^ 6) (cx_now (rp_cx r0))) (\<lambda>now.
     let r1 = open_session t (r0\<lparr>rp_cx := (rp_cx r0)\<lparr>cx_now := now\<rparr>\<rparr>);
         bars = printed (cx_bars (rp_cx r1)) (cx_symbols (rp_cx r1)) t in
     bind_r (for_r (print_bar E) bars r1) (\<lambda>r2.
     let r3 = r2\<lparr>rp_bt := snapshot_equity t (fold (\<lambda>(s, i, b). mark_last s (b_close b)) bars (rp_bt r2))\<rparr> in
     for_r (ask_strategy E) bars r3))"

section \<open>A run\<close>

definition new_backtest :: "'s backtest_engine \<Rightarrow> risk_engine \<Rightarrow> bt" where
  "new_backtest E en =
     \<lparr>bt_portfolio = \<lparr>pf_cash = bc_starting_cash (be_config E), pf_starting_equity = bc_starting_cash (be_config E),
                      pf_fees_settled = 0, pf_positions = [], pf_equity_curve = []\<rparr>,
      bt_engine = en, bt_orders = [], bt_pending = [], bt_signals = [], bt_curve = [], bt_warnings = [],
      bt_protection = [], bt_held = [], bt_pnls = [], bt_held_us = [], bt_base = [], bt_notional = 0,
      bt_in_market = 0, bt_drawn = 0\<rparr>"

definition gap_limit :: "backtest_config \<Rightarrow> int" where
  "gap_limit c = bc_max_gap_days c * DAY_US"

definition refuse_holes :: "backtest_config \<Rightarrow> string \<Rightarrow> ts list \<Rightarrow> exn + unit" where
  "refuse_holes c s tss =
     guard_r (list_all (\<lambda>(a, b). b - a \<le> gap_limit c) (zip tss (tl tss)))
       (DataGapError (Reason ''holes in its stored history'' [s] []))"

type_synonym coverage = "(string \<times> ts) list \<times> (string \<times> ts) list"

definition check_series :: "backtest_config \<Rightarrow> string \<times> bar list \<Rightarrow> coverage \<Rightarrow> exn + coverage" where
  "check_series c x cov =
     (case (x, cov) of ((s, series), (late, early)) \<Rightarrow>
        let tss = map b_ts series in
        if tss = [] then Inr cov
        else if \<not> sorted tss then Inl (DataGapError (Reason ''bars are not in chronological order'' [s] []))
        else if \<not> distinct tss then Inl (DataGapError (Reason ''has duplicate bar timestamps'' [s] []))
        else if \<not> list_all (\<lambda>b. b_timeframe b = bc_timeframe c) series
          then Inl (DataGapError (Reason ''has bars of another timeframe'' [s] []))
        else bind_r (refuse_holes c s tss) (\<lambda>_. Inr
          (if gap_limit c < hd tss - bc_start c then late @ [(s, hd tss)] else late,
           if gap_limit c < bc_end c - last tss then early @ [(s, last tss)] else early)))"

definition coverage_warning :: "string \<Rightarrow> ts \<Rightarrow> (string \<times> ts) list \<Rightarrow> warning list" where
  "coverage_warning complaint boundary found =
     (case map snd found of [] \<Rightarrow> []
      | t # tss \<Rightarrow> [Coverage complaint boundary (str_sort (map fst found)) (fold min tss t) (fold max tss t)])"

definition validate_bars :: "backtest_config \<Rightarrow> bar list dict \<Rightarrow> exn + warning list" where
  "validate_bars c bars =
     (let missing = filter (\<lambda>s. dict_get_or bars s [] = []) (bc_symbols c) in
      if missing \<noteq> [] then Inl (DataGapError (Reason ''no bars supplied'' missing []))
      else bind_r (for_r (check_series c) bars ([], [])) (\<lambda>(late, early).
        Inr (coverage_warning ''have no bars until after'' (bc_start c) late
             @ coverage_warning ''stop supplying bars before'' (bc_end c) early)))"

definition to_adjusted :: "bar list dict \<Rightarrow> exn + bar list dict" where
  "to_adjusted bars =
     (let unadjusted = str_sort (map fst (filter (\<lambda>(s, series). list_ex (\<lambda>b. b_adj_close b = None) series) bars)) in
      if unadjusted \<noteq> [] then Inl (UnadjustedDataError (Reason ''have bars with no adj_close'' unadjusted []))
      else map_r (\<lambda>(s, series). bind_r (map_r adjusted series) (\<lambda>out. Inr (s, out))) bars)"

definition start_replay :: "'s backtest_engine \<Rightarrow> bar list dict \<Rightarrow> ts \<Rightarrow> warning list \<Rightarrow> bt \<Rightarrow> 's \<Rightarrow> 's replay" where
  "start_replay E bars first_ts coverage st strat =
     \<lparr>rp_cx = new_context bars first_ts (bc_symbols (be_config E)),
      rp_bt = st\<lparr>bt_orders := [], bt_pending := [], bt_signals := [], bt_curve := [], bt_warnings := coverage,
                 bt_protection := [], bt_held := [], bt_pnls := [], bt_held_us := [], bt_base := [],
                 bt_notional := 0, bt_in_market := 0\<rparr>,
      rp_seen = map (\<lambda>(s, _). (s, 0)) bars, rp_strategy = strat, rp_session = None\<rparr>"

definition run_backtest :: "'s backtest_engine \<Rightarrow> bar list dict \<Rightarrow> bt \<Rightarrow> 's \<Rightarrow> exn + 's replay" where
  "run_backtest E raw st strat =
     bind_r (validate_bars (be_config E) raw) (\<lambda>coverage.
     bind_r (to_adjusted raw) (\<lambda>bars.
     case map (\<lambda>(s, series). b_ts (hd series)) (filter (\<lambda>(s, series). series \<noteq> []) bars) of
       [] \<Rightarrow> Inl (value_error ''min() arg is an empty sequence'')
     | t # tss \<Rightarrow>
         bind_r (be_on_start E strat) (\<lambda>strat1.
         bind_r (for_r (step_replay E) (timeline bars) (start_replay E bars (fold min tss t) coverage st strat1)) (\<lambda>r.
         bind_r (be_on_stop E (rp_strategy r)) (\<lambda>strat2.
         Inr (r\<lparr>rp_strategy := strat2\<rparr>))))))"

definition total_return :: "bt \<Rightarrow> dec" where
  "total_return st =
     (let start = pf_starting_equity (bt_portfolio st)
      in if start = 0 then 0 else ddiv (dsub (equity (bt_portfolio st)) start) start)"

definition result_unrealized_pnl :: "bt \<Rightarrow> dec" where
  "result_unrealized_pnl st = dsum (map unrealized_pnl (open_positions (bt_portfolio st)))"

definition result_realized_pnl :: "bt \<Rightarrow> dec" where
  "result_realized_pnl st =
     dsub (dsub (equity (bt_portfolio st)) (pf_starting_equity (bt_portfolio st))) (result_unrealized_pnl st)"

definition result_fees :: "bt \<Rightarrow> dec" where
  "result_fees st = dsum (map total_fees (bt_orders st))"

end
