(* ===== verification/Lookahead.thy ===== *)
theory Lookahead
  imports Backtest
begin

text \<open>
  What a replay cannot do: decide on a bar it has not reached, or fill an order on the bar that
  decided it. The first is stated as an invariance: replaying over series that agree up to an instant
  gives the same state at that instant, whatever comes after it.
\<close>

definition bars_upto :: "ts \<Rightarrow> bar list dict \<Rightarrow> bar list dict" where
  "bars_upto T bars = map (\<lambda>(s, series). (s, filter (\<lambda>b. b_ts b \<le> T) series)) bars"

definition series_ok :: "bar list dict \<Rightarrow> bool" where
  "series_ok bars \<longleftrightarrow> (\<forall>(s, series) \<in> set bars. sorted (map b_ts series))"

text \<open>A replay that has forgotten every bar after \<open>T\<close>.\<close>

definition forget_context :: "ts \<Rightarrow> backtest_context \<Rightarrow> backtest_context" where
  "forget_context T cx = cx\<lparr>cx_bars := bars_upto T (cx_bars cx)\<rparr>"

definition forget_after :: "ts \<Rightarrow> 's replay \<Rightarrow> 's replay" where
  "forget_after T r = r\<lparr>rp_cx := forget_context T (rp_cx r)\<rparr>"

text \<open>The cursors stand on bars up to \<open>T\<close>.\<close>

definition cursors_within :: "ts \<Rightarrow> backtest_context \<Rightarrow> bool" where
  "cursors_within T cx \<longleftrightarrow>
     (\<forall>s. dict_get_or (cx_cursor cx) s (- 1) < int (length (dict_get_or (bars_upto T (cx_bars cx)) s [])))"

lemma split_at:
  fixes T :: int
  shows "sorted (map f xs) \<Longrightarrow> xs = filter (\<lambda>x. f x \<le> T) xs @ filter (\<lambda>x. T < f x) xs"
proof (induction xs)
  case (Cons x xs)
  show ?case
  proof (cases "f x \<le> T")
    case False
    with Cons.prems have "\<forall>y \<in> set xs. T < f y" by auto
    then have "filter (\<lambda>x. f x \<le> T) xs = []" "filter (\<lambda>x. T < f x) xs = xs" by (auto simp: filter_empty_conv filter_id_conv)
    with False show ?thesis by simp
  qed (use Cons in auto)
qed simp

lemma dict_get_upto: "dict_get (bars_upto T bars) s = map_option (filter (\<lambda>b. b_ts b \<le> T)) (dict_get bars s)"
  by (induction bars) (auto simp: bars_upto_def dict_get_Cons)

lemma dict_get_or_upto: "dict_get_or (bars_upto T bars) s [] = filter (\<lambda>b. b_ts b \<le> T) (dict_get_or bars s [])"
  by (simp add: dict_get_or_def dict_get_upto split: option.split)

lemma series_split:
  assumes "series_ok bars" "dict_get bars s = Some series"
  shows "series = filter (\<lambda>b. b_ts b \<le> T) series @ filter (\<lambda>b. T < b_ts b) series"
  using dict_get_mem [OF assms(2)] assms(1) by (intro split_at) (auto simp: series_ok_def)

lemma bar_at_upto:
  assumes "series_ok bars" "t \<le> T"
  shows "bar_at (bars_upto T bars) s t = bar_at bars s t"
proof (cases "dict_get bars s")
  case (Some series)
  define xs ys where xy: "xs = filter (\<lambda>b. b_ts b \<le> T) series" "ys = filter (\<lambda>b. T < b_ts b) series"
  have sp: "series = xs @ ys" unfolding xy by (rule series_split [OF assms(1) Some])
  let ?f = "\<lambda>(i :: nat, b). (b_ts b, (i, b))"
  have "b_ts b \<noteq> t" if "(i, b) \<in> set (enumerate (length xs) ys)" for i b
  proof -
    have "b \<in> set ys" using that by (metis map_snd_enumerate in_set_conv_decomp list.set_map image_eqI snd_conv)
    then show ?thesis using assms(2) by (auto simp: xy)
  qed
  then have none: "map_of (rev (map ?f (enumerate (length xs) ys))) t = None"
    by (fastforce simp: map_of_eq_None_iff)
  have "bar_at bars s t = map_of (rev (map ?f (enumerate 0 (xs @ ys)))) t"
    unfolding bar_at_def Some sp [symmetric] by simp
  also have "\<dots> = map_of (rev (map ?f (enumerate 0 xs))) t"
    using none by (simp add: enumerate_append_eq map_add_def)
  finally show ?thesis by (simp add: bar_at_def dict_get_upto Some xy)
qed (simp add: bar_at_def dict_get_upto)

lemma bar_at_Some:
  assumes "bar_at bars s t = Some (i, b)"
  obtains series where "dict_get bars s = Some series" "i < length series" "series ! i = b" "b_ts b = t"
  using assms by (auto simp: bar_at_def in_set_enumerate_eq split: option.splits dest!: map_of_SomeD)

lemma printed_mem:
  assumes "(s, i, b) \<in> set (printed bars syms t)"
  shows "bar_at bars s t = Some (i, b)"
  using assms by (auto simp: printed_def List.map_filter_def)

lemma printed_upto: "series_ok bars \<Longrightarrow> t \<le> T \<Longrightarrow> printed (bars_upto T bars) syms t = printed bars syms t"
  by (simp add: printed_def bar_at_upto)

lemma visible_forget:
  assumes "series_ok (cx_bars cx)" "cursors_within T cx"
  shows "visible (forget_context T cx) = visible cx"
proof
  fix s
  define i where "i = dict_get_or (cx_cursor cx) s (- 1)"
  have "i < int (length (dict_get_or (bars_upto T (cx_bars cx)) s []))" using assms(2) by (simp add: cursors_within_def i_def)
  moreover have "take (nat (i + 1)) (dict_get_or (bars_upto T (cx_bars cx)) s []) = take (nat (i + 1)) (dict_get_or (cx_bars cx) s [])"
    if "0 \<le> i" "i < int (length (dict_get_or (bars_upto T (cx_bars cx)) s []))"
  proof (cases "dict_get (cx_bars cx) s")
    case (Some series)
    define xs ys where xy: "xs = filter (\<lambda>b. b_ts b \<le> T) series" "ys = filter (\<lambda>b. T < b_ts b) series"
    have sp: "series = xs @ ys" unfolding xy by (rule series_split [OF assms(1) Some])
    have get: "dict_get_or (cx_bars cx) s [] = series" "dict_get_or (bars_upto T (cx_bars cx)) s [] = xs"
      using Some by (simp_all add: dict_get_or_def dict_get_upto xy)
    have "nat (i + 1) \<le> length xs" using that get by simp
    then show ?thesis unfolding get by (simp add: sp)
  qed (simp add: dict_get_or_def dict_get_upto)
  ultimately show "visible (forget_context T cx) s = visible cx s"
    by (simp add: visible_def forget_context_def i_def [symmetric])
qed

text \<open>What the replay does up to \<open>T\<close> commutes with forgetting the bars after \<open>T\<close>.\<close>

definition commutes :: "('a \<Rightarrow> 'b) \<Rightarrow> ('a \<Rightarrow> bool) \<Rightarrow> ('a \<Rightarrow> exn + 'a) \<Rightarrow> ('b \<Rightarrow> exn + 'b) \<Rightarrow> bool" where
  "commutes h I f g \<longleftrightarrow> (\<forall>s. I s \<longrightarrow> g (h s) = map_sum id h (f s) \<and> (\<forall>s'. f s = Inr s' \<longrightarrow> I s'))"

lemma commutesD:
  assumes "commutes h I f g" "I s"
  shows "g (h s) = map_sum id h (f s)" "f s = Inr s' \<Longrightarrow> I s'"
  using assms by (auto simp: commutes_def)

lemma commutes_bind:
  assumes "commutes h I f g" "commutes h I f' g'"
  shows "commutes h I (\<lambda>s. bind_r (f s) f') (\<lambda>s. bind_r (g s) g')"
  unfolding commutes_def
proof (intro allI impI)
  fix s assume s: "I s"
  show "bind_r (g (h s)) g' = map_sum id h (bind_r (f s) f') \<and> (\<forall>s'. bind_r (f s) f' = Inr s' \<longrightarrow> I s')"
  proof (cases "f s")
    case (Inl e)
    then show ?thesis using commutesD(1) [OF assms(1) s] by simp
  next
    case (Inr a)
    then show ?thesis
      using commutesD(1) [OF assms(1) s] commutesD [OF assms(2) commutesD(2) [OF assms(1) s Inr]] by simp
  qed
qed

lemma commutes_for:
  assumes "\<And>x. x \<in> set xs \<Longrightarrow> commutes h I (f x) (g x)"
  shows "commutes h I (for_r f xs) (for_r g xs)"
  using assms
proof (induction xs)
  case (Cons x xs)
  have "commutes h I (\<lambda>s. bind_r (f x s) (for_r f xs)) (\<lambda>s. bind_r (g x s) (for_r g xs))"
    using Cons by (intro commutes_bind) auto
  then show ?case by (simp add: commutes_def)
qed (simp add: commutes_def)

definition within_T :: "ts \<Rightarrow> 's replay \<Rightarrow> bool" where
  "within_T T r \<longleftrightarrow> series_ok (cx_bars (rp_cx r)) \<and> cursors_within T (rp_cx r)"

lemma forget_simps [simp]:
  "cx_cursor (forget_context T cx) = cx_cursor cx" "cx_now (forget_context T cx) = cx_now cx"
  "cx_symbols (forget_context T cx) = cx_symbols cx" "cx_bars (forget_context T cx) = bars_upto T (cx_bars cx)"
  "rp_bt (forget_after T r) = rp_bt r" "rp_seen (forget_after T r) = rp_seen r"
  "rp_strategy (forget_after T r) = rp_strategy r" "rp_session (forget_after T r) = rp_session r"
  "rp_cx (forget_after T r) = forget_context T (rp_cx r)"
  by (simp_all add: forget_context_def forget_after_def)

lemma forget_updates [simp]:
  "(forget_context T cx)\<lparr>cx_cursor := c\<rparr> = forget_context T (cx\<lparr>cx_cursor := c\<rparr>)"
  "(forget_context T cx)\<lparr>cx_now := n\<rparr> = forget_context T (cx\<lparr>cx_now := n\<rparr>)"
  "(forget_after T r)\<lparr>rp_cx := forget_context T cx\<rparr> = forget_after T (r\<lparr>rp_cx := cx\<rparr>)"
  "(forget_after T r)\<lparr>rp_seen := sn\<rparr> = forget_after T (r\<lparr>rp_seen := sn\<rparr>)"
  "(forget_after T r)\<lparr>rp_bt := st\<rparr> = forget_after T (r\<lparr>rp_bt := st\<rparr>)"
  "(forget_after T r)\<lparr>rp_strategy := sy\<rparr> = forget_after T (r\<lparr>rp_strategy := sy\<rparr>)"
  "(forget_after T r)\<lparr>rp_session := se\<rparr> = forget_after T (r\<lparr>rp_session := se\<rparr>)"
  by (simp_all add: forget_context_def forget_after_def)

lemma cursors_within_advance:
  assumes "cursors_within T cx" "advance s (int i) cx = Inr cx'"
    and "i < length (dict_get_or (bars_upto T (cx_bars cx)) s [])"
  shows "cursors_within T cx'" "cx_bars cx' = cx_bars cx"
  using assms by (auto simp: cursors_within_def advance_def dict_get_or_def split: if_splits)

lemma printed_within:
  assumes "series_ok bars" "t \<le> T" "(s, i, b) \<in> set (printed bars syms t)"
  shows "i < length (dict_get_or (bars_upto T bars) s [])"
proof -
  have "bar_at (bars_upto T bars) s t = Some (i, b)" using assms printed_mem bar_at_upto by simp
  then show ?thesis by (elim bar_at_Some) (simp add: dict_get_or_def)
qed

lemma map_sum_bind: "map_sum id h (bind_r r f) = bind_r r (\<lambda>x. map_sum id h (f x))"
  by (cases r) simp_all

lemma bind_map_sum: "bind_r (map_sum id h r) f = bind_r r (\<lambda>x. f (h x))"
  by (cases r) simp_all

lemma bind_r_cong: "(\<And>x. r = Inr x \<Longrightarrow> f x = g x) \<Longrightarrow> bind_r r f = bind_r r g"
  by (cases r) simp_all

text \<open>The replay's bars never change.\<close>

definition holds_bars :: "bar list dict \<Rightarrow> ts \<Rightarrow> 's replay \<Rightarrow> bool" where
  "holds_bars bars T r \<longleftrightarrow> cx_bars (rp_cx r) = bars \<and> cursors_within T (rp_cx r)"

lemma advance_forget: "advance s i (forget_context T cx) = map_sum id (forget_context T) (advance s i cx)"
  by (simp add: advance_def)

lemma print_bar_commutes:
  assumes ok: "series_ok bars" and x: "x \<in> set (printed bars syms t)" "t \<le> T"
  shows "commutes (forget_after T) (holds_bars bars T) (print_bar E x) (print_bar E x)"
  unfolding commutes_def
proof (intro allI impI)
  fix r :: "'a replay"
  assume r: "holds_bars bars T r"
  obtain s i b where xs: "x = (s, i, b)" by (cases x)
  have i: "i < length (dict_get_or (bars_upto T bars) s [])" using printed_within [OF ok x(2)] x(1) xs by blast
  have adv: "cursors_within T cx \<and> cx_bars cx = bars" if "advance s (int i) (rp_cx r) = Inr cx" for cx
    using cursors_within_advance [OF _ that, of T] r i by (simp add: holds_bars_def)
  have vis: "visible (forget_context T cx) = visible cx" if "advance s (int i) (rp_cx r) = Inr cx" for cx
    using adv [OF that] ok by (intro visible_forget) simp_all
  have "print_bar E x (forget_after T r) = map_sum id (forget_after T) (print_bar E x r)"
    unfolding print_bar_def xs prod.case map_sum_bind forget_simps advance_forget bind_map_sum
    by (intro bind_r_cong) (simp add: vis map_sum_bind case_prod_unfold)
  moreover have "holds_bars bars T r'" if "print_bar E x r = Inr r'" for r'
    using that adv by (auto simp: print_bar_def xs bind_r_eq_Inr holds_bars_def)
  ultimately show "print_bar E x (forget_after T r) = map_sum id (forget_after T) (print_bar E x r)
      \<and> (\<forall>r'. print_bar E x r = Inr r' \<longrightarrow> holds_bars bars T r')" by blast
qed

lemma ask_strategy_commutes:
  assumes ok: "series_ok bars"
  shows "commutes (forget_after T) (holds_bars bars T) (ask_strategy E x) (ask_strategy E x)"
  unfolding commutes_def
proof (intro allI impI)
  fix r :: "'a replay"
  assume r: "holds_bars bars T r"
  obtain s i b where xs: "x = (s, i, b)" by (cases x)
  have vis: "visible (forget_context T (rp_cx r)) = visible (rp_cx r)"
    using r ok by (intro visible_forget) (simp_all add: holds_bars_def)
  have "ask_strategy E x (forget_after T r) = map_sum id (forget_after T) (ask_strategy E x r)"
    unfolding ask_strategy_def xs prod.case map_sum_bind forget_simps view_of_def vis
    by (intro bind_r_cong) (simp add: Let_def map_sum_bind split: prod.split)
  moreover have "holds_bars bars T r'" if "ask_strategy E x r = Inr r'" for r'
    using that r by (auto simp: ask_strategy_def xs bind_r_eq_Inr holds_bars_def Let_def split: if_splits)
  ultimately show "ask_strategy E x (forget_after T r) = map_sum id (forget_after T) (ask_strategy E x r)
      \<and> (\<forall>r'. ask_strategy E x r = Inr r' \<longrightarrow> holds_bars bars T r')" by blast
qed

lemma open_session_forget: "open_session t (forget_after T r) = forget_after T (open_session t r)"
  by (simp add: open_session_def)

lemma open_session_cx [simp]: "rp_cx (open_session t r) = rp_cx r"
  by (simp add: open_session_def)

definition replay_body :: "'s backtest_engine \<Rightarrow> ts \<Rightarrow> (string \<times> nat \<times> bar) list \<Rightarrow> 's replay \<Rightarrow> exn + 's replay" where
  "replay_body E t xs r =
     bind_r (bind_r (for_r (print_bar E) xs r) (\<lambda>r.
       Inr (r\<lparr>rp_bt := snapshot_equity t (fold (\<lambda>(s, i, b). mark_last s (b_close b)) xs (rp_bt r))\<rparr>)))
     (for_r (ask_strategy E) xs)"

lemma step_replay_body:
  "step_replay E t r =
     bind_r (sim_clock_set (t + timeframe_seconds (bc_timeframe (be_config E)) * 10 ^ 6) (cx_now (rp_cx r))) (\<lambda>now.
       replay_body E t (printed (cx_bars (rp_cx r)) (cx_symbols (rp_cx r)) t)
         (open_session t (r\<lparr>rp_cx := (rp_cx r)\<lparr>cx_now := now\<rparr>\<rparr>)))"
  unfolding step_replay_def replay_body_def Let_def open_session_cx
  by (intro bind_r_cong) (simp add: bind_r_def split: sum.split)

lemma replay_body_commutes:
  assumes ok: "series_ok bars" and t: "t \<le> T" and xs: "set xs \<subseteq> set (printed bars syms t)"
  shows "commutes (forget_after T) (holds_bars bars T) (replay_body E t xs) (replay_body E t xs)"
  unfolding replay_body_def [abs_def]
proof (intro commutes_bind commutes_for)
  fix x assume "x \<in> set xs"
  then show "commutes (forget_after T) (holds_bars bars T) (print_bar E x) (print_bar E x)"
    using xs by (intro print_bar_commutes [OF ok _ t]) blast
next
  show "commutes (forget_after T) (holds_bars bars T) (ask_strategy E x) (ask_strategy E x)" for x
    by (rule ask_strategy_commutes [OF ok])
qed (simp add: commutes_def holds_bars_def)

lemma step_replay_commutes:
  assumes ok: "series_ok bars" and t: "t \<le> T"
  shows "commutes (forget_after T) (holds_bars bars T) (step_replay E t) (step_replay E t)"
  unfolding commutes_def
proof (intro allI impI)
  fix r :: "'a replay"
  assume r: "holds_bars bars T r"
  define xs where "xs = printed bars (cx_symbols (rp_cx r)) t"
  have xs': "printed (cx_bars (rp_cx r)) (cx_symbols (rp_cx r)) t = xs"
    "printed (bars_upto T (cx_bars (rp_cx r))) (cx_symbols (rp_cx r)) t = xs"
    using r printed_upto [OF ok t] by (simp_all add: holds_bars_def xs_def)
  have body: "commutes (forget_after T) (holds_bars bars T) (replay_body E t xs) (replay_body E t xs)"
    by (rule replay_body_commutes [OF ok t, of xs "cx_symbols (rp_cx r)"]) (simp add: xs_def)
  have start: "holds_bars bars T (open_session t (r\<lparr>rp_cx := (rp_cx r)\<lparr>cx_now := now\<rparr>\<rparr>))" for now
    using r by (auto simp: holds_bars_def cursors_within_def)
  have now: "(forget_after T r)\<lparr>rp_cx := (forget_context T (rp_cx r))\<lparr>cx_now := now\<rparr>\<rparr>
      = forget_after T (r\<lparr>rp_cx := (rp_cx r)\<lparr>cx_now := now\<rparr>\<rparr>)" for now by simp
  note step = step_replay_body [of E t r, unfolded xs']
    step_replay_body [of E t "forget_after T r", unfolded forget_simps xs' now open_session_forget]
  have "step_replay E t (forget_after T r) = map_sum id (forget_after T) (step_replay E t r)"
    unfolding step map_sum_bind
    by (intro bind_r_cong) (rule commutesD(1) [OF body start])
  moreover have "holds_bars bars T r'" if "step_replay E t r = Inr r'" for r'
    using that commutesD(2) [OF body start] by (auto simp: step bind_r_eq_Inr)
  ultimately show "step_replay E t (forget_after T r) = map_sum id (forget_after T) (step_replay E t r)
      \<and> (\<forall>r'. step_replay E t r = Inr r' \<longrightarrow> holds_bars bars T r')" by blast
qed

lemma cursors_start: "dict_get_or (map (\<lambda>(s, _). (s, - 1)) bars) s (- 1) = (- 1 :: int)"
  by (induction bars) (auto simp: dict_get_or_def dict_get_Cons)

lemma replay_forgets:
  assumes "series_ok bars"
  shows "for_r (step_replay E) (filter (\<lambda>t. t \<le> T) tss) (start_replay E (bars_upto T bars) t0 cov st strat)
    = map_sum id (forget_after T) (for_r (step_replay E) (filter (\<lambda>t. t \<le> T) tss) (start_replay E bars t0 cov st strat))"
proof -
  have "commutes (forget_after T) (holds_bars bars T) (for_r (step_replay E) (filter (\<lambda>t. t \<le> T) tss))
      (for_r (step_replay E) (filter (\<lambda>t. t \<le> T) tss))"
    by (intro commutes_for step_replay_commutes [OF assms]) simp
  moreover have "start_replay E (bars_upto T bars) t0 cov st strat = forget_after T (start_replay E bars t0 cov st strat)"
    by (simp add: start_replay_def forget_after_def forget_context_def new_context_def bars_upto_def comp_def case_prod_beta)
  moreover have "holds_bars bars T (start_replay E bars t0 cov st strat)"
    by (simp add: holds_bars_def cursors_within_def start_replay_def new_context_def cursors_start)
  ultimately show ?thesis by (simp add: commutes_def)
qed

lemma timeline_upto: "timeline (bars_upto T bars) = filter (\<lambda>t. t \<le> T) (timeline bars)"
proof -
  have "filter (\<lambda>t. t \<le> T) (map b_ts (concat (map snd bars))) = map b_ts (concat (map snd (bars_upto T bars)))"
    by (induction bars) (auto simp: bars_upto_def filter_map comp_def)
  then show ?thesis unfolding timeline_def filter_sort remdups_filter [symmetric] by simp
qed

text \<open>
  C8. No lookahead. Take two sets of series in chronological order that agree on every bar up to an
  instant. Replayed over the bars up to it, the first steps of either run, they reach the same
  outcome: the same orders, fills, cash, signals and equity curve, the same strategy state, or the
  same error. Nothing a strategy, a stop or a fill does depends on a bar that has not printed.
\<close>

theorem backtest_has_no_lookahead:
  assumes "series_ok bars" "series_ok bars'" "bars_upto T bars = bars_upto T bars'"
  shows "map_sum id (forget_after T) (for_r (step_replay E) (filter (\<lambda>t. t \<le> T) (timeline bars)) (start_replay E bars t0 cov st strat))
      = map_sum id (forget_after T) (for_r (step_replay E) (filter (\<lambda>t. t \<le> T) (timeline bars')) (start_replay E bars' t0 cov st strat))
    \<and> timeline bars = filter (\<lambda>t. t \<le> T) (timeline bars) @ filter (\<lambda>t. T < t) (timeline bars)"
proof -
  have "filter (\<lambda>t. t \<le> T) (timeline bars) = filter (\<lambda>t. t \<le> T) (timeline bars')"
    using assms(3) by (metis timeline_upto)
  then show ?thesis
    using replay_forgets [OF assms(1), of E T _ t0 cov st strat] replay_forgets [OF assms(2), of E T _ t0 cov st strat] assms(3)
      split_at [of id "timeline bars" T] by (simp add: timeline_def)
qed

section \<open>A run to evaluate\<close>

text \<open>A strategy that buys two shares once, and two daily bars of one symbol.\<close>

definition buy_first :: "view \<Rightarrow> bar \<Rightarrow> nat \<Rightarrow> exn + (signal list \<times> string list \<times> nat)" where
  "buy_first vw b n = Inr (if n = 0
     then [\<lparr>sg_strategy = ''s'', sg_symbol = b_symbol b, sg_action = ENTER_LONG, sg_ts = vw_now vw, sg_id = ''i'',
            sg_strength = 1, sg_limit = None, sg_stop_loss = None, sg_take_profit = None\<rparr>] else [], [], n + 1)"

definition sample_backtest :: "nat backtest_engine" where
  "sample_backtest = \<lparr>be_name = ''s'', be_warmup = 0, be_on_start = Inr, be_on_bar = buy_first, be_on_stop = Inr,
     be_config = \<lparr>bc_symbols = [''AAPL''], bc_start = 0, bc_end = DAY_US, bc_timeframe = D1, bc_starting_cash = 1000,
                  bc_max_participation = 1, bc_warmup_bars = None, bc_max_gap_days = 10\<rparr>,
     be_costs = ZeroCostModel, be_sizer = Some (FixedQtySizer 2), be_stop = None, be_atr = (\<lambda>_ _. Inr None),
     be_env = (\<lambda>_. sample_env []), be_new_id = (\<lambda>n. replicate n CHR ''x'')\<rparr>"

definition sample_day :: "ts \<Rightarrow> dec \<Rightarrow> bar" where
  "sample_day t x = \<lparr>b_symbol = ''AAPL'', b_ts = t, b_timeframe = D1, b_open = x, b_high = x, b_low = x,
     b_close = x, b_volume = 5, b_adj_close = Some x, b_vwap = None, b_trade_count = None\<rparr>"

definition sample_series :: "dec \<Rightarrow> bar list dict" where
  "sample_series x = [(''AAPL'', [sample_day 0 10, sample_day DAY_US x])]"

definition sample_run :: "dec \<Rightarrow> exn + nat replay" where
  "sample_run x = run_backtest sample_backtest (sample_series x) (new_backtest sample_backtest \<lparr>en_limits = sample_limits, en_rules = []\<rparr>) 0"

lemma day_us: "DAY_US = 86400000000" by (simp add: DAY_US_def)

lemmas run_eval = start_replay_def new_context_def new_backtest_def step_replay_def sim_clock_set_def open_session_def utc_date_def EPOCH_ORD_def
  anchor_session_def printed_def List.map_filter_def bar_at_def print_bar_def advance_def check_stops_def age_holding_def mark_last_def
  fill_pending_def put_position_def touch_position_def position_of_def snapshot_equity_def open_positions_def ask_strategy_def warmup_of_def
  handle_signal_def queue_order_def with_derived_stop_def drawn_order_def signal_order_def new_order_def validate_def books_of_def project_pending_def
  committed_orders_def in_flight_by_symbol_def visible_def view_of_def buy_first_def order_defaults_def equity_def total_market_value_def
  dict_get_or_def dict_setdefault_def dict_set_def dict_pop_def dict_values_def new_position_def is_flat_def is_long_def market_value_def dsum_def
  intended_price_def execute_def settle_fill_def order_apply_fill_def position_apply_fill_def fill_basis_def clear_if_flat_def arm_from_config_def
  remaining_qty_def fill_notional_def ddiv_r_def dec_ops PURPOSE_ENTRY_def allow_def

lemmas sample_run_eval = sample_backtest_def sample_series_def sample_day_def sample_limits_def sample_env_def day_us dict_get_Cons Let_def

lemma sample_validated: "validate_bars (be_config sample_backtest) (sample_series x) = Inr []"
  by (simp add: validate_bars_def check_series_def refuse_holes_def gap_limit_def coverage_warning_def sample_run_eval dict_get_or_def guard_r_def)

lemma sample_adjusted: "0 < x \<Longrightarrow> to_adjusted (sample_series x) = Inr (sample_series x)"
  by (simp add: to_adjusted_def adjusted_def is_adjusted_def str_sort_def sample_run_eval)

lemma sample_timeline: "timeline (sample_series x) = [0, DAY_US]"
  by (simp add: timeline_def sample_run_eval)

lemma sample_first: "map (\<lambda>(s, series). b_ts (hd series)) (filter (\<lambda>(s, series). series \<noteq> []) (sample_series x)) = [0]"
  by (simp add: sample_series_def sample_day_def)

lemma sample_run_fills:
  "\<exists>r o1 f. sample_run 11 = Inr r \<and> bt_orders (rp_bt r) = [o1] \<and> o_fills o1 = [f] \<and> o_purpose o1 = PURPOSE_ENTRY"
proof -
  have "sample_run 11 = bind_r (for_r (step_replay sample_backtest) [0, DAY_US]
     (start_replay sample_backtest (sample_series 11) 0 [] (new_backtest sample_backtest \<lparr>en_limits = sample_limits, en_rules = []\<rparr>) 0)) Inr"
   unfolding sample_run_def run_backtest_def sample_validated
   by (simp add: sample_adjusted sample_timeline sample_first) (simp add: sample_backtest_def)
  then show ?thesis by (simp add: run_eval sample_run_eval)
qed

theorem backtest_has_no_lookahead_witness:
  "map_sum id (forget_after 0) (for_r (step_replay sample_backtest) [0] (start_replay sample_backtest (sample_series 11) 0 [] (new_backtest sample_backtest sample_engine) 0))
    = map_sum id (forget_after 0) (for_r (step_replay sample_backtest) [0] (start_replay sample_backtest (sample_series 99) 0 [] (new_backtest sample_backtest sample_engine) 0))
   \<and> timeline (sample_series 11) = [0] @ [DAY_US]"
proof -
  have t: "filter (\<lambda>t. t \<le> 0) (timeline (sample_series x)) = [0]" "filter (\<lambda>t. 0 < t) (timeline (sample_series x)) = [DAY_US]" for x
    by (simp_all add: sample_timeline day_us)
  have "series_ok (sample_series 11)" "series_ok (sample_series 99)" "bars_upto 0 (sample_series 11) = bars_upto 0 (sample_series 99)"
    by (simp_all add: series_ok_def bars_upto_def sample_run_eval)
  from backtest_has_no_lookahead [OF this, of sample_backtest 0 "[]" "new_backtest sample_backtest sample_engine" 0]
  show ?thesis unfolding t .
qed

section \<open>Decisions fill on later bars\<close>

definition decided :: "order \<Rightarrow> bool" where
  "decided o1 \<longleftrightarrow> o_purpose o1 \<in> {PURPOSE_ENTRY, PURPOSE_EXIT}"

definition sound_fill :: "'s backtest_engine \<Rightarrow> bar list dict \<Rightarrow> order \<Rightarrow> ts \<Rightarrow> fill \<Rightarrow> bool" where
  "sound_fill E bars o1 made f \<longleftrightarrow>
     (if decided o1 then made < f_ts f else made = f_ts f) \<and> 0 < f_qty f
     \<and> (\<exists>i b. bar_at bars (o_symbol o1) (f_ts f) = Some (i, b)
            \<and> f_qty f \<le> dmul (bc_max_participation (be_config E)) (b_volume b))"

definition sound_order :: "'s backtest_engine \<Rightarrow> bar list dict \<Rightarrow> order \<Rightarrow> bool" where
  "sound_order E bars o1 \<longleftrightarrow> (\<exists>made. o_created_at o1 = Some made \<and> (\<forall>f \<in> set (o_fills o1). sound_fill E bars o1 made f))"

text \<open>What is pending was decided before \<open>t\<close>.\<close>

definition decided_before :: "ts \<Rightarrow> order \<Rightarrow> bool" where
  "decided_before t o1 \<longleftrightarrow> decided o1 \<and> (\<exists>made. o_created_at o1 = Some made \<and> made < t)"

definition upheld :: "'s backtest_engine \<Rightarrow> bar list dict \<Rightarrow> ts \<Rightarrow> bt \<Rightarrow> bool" where
  "upheld E bars t st \<longleftrightarrow> (\<forall>o1 \<in> set (bt_orders st). sound_order E bars o1)
     \<and> (\<forall>i \<in> set (bt_pending st). i < length (bt_orders st) \<and> decided_before t (bt_orders st ! i))"

lemma upheld_frame:
  "bt_orders st' = bt_orders st \<Longrightarrow> bt_pending st' = bt_pending st \<Longrightarrow> upheld E bars t st' = upheld E bars t st"
  by (simp add: upheld_def)

lemma decided_before_mono: "decided_before t o1 \<Longrightarrow> t \<le> t' \<Longrightarrow> decided_before t' o1"
  by (auto simp: decided_before_def)

lemma upheld_mono: "upheld E bars t st \<Longrightarrow> t \<le> t' \<Longrightarrow> upheld E bars t' st"
  by (auto simp: upheld_def intro: decided_before_mono)

text \<open>What a fill keeps of an order.\<close>

definition same_decision :: "order \<Rightarrow> order \<Rightarrow> bool" where
  "same_decision o1 o2 \<longleftrightarrow> o_purpose o2 = o_purpose o1 \<and> o_created_at o2 = o_created_at o1 \<and> o_symbol o2 = o_symbol o1"

lemma order_apply_fill_decision: "order_apply_fill f o1 = Inr o2 \<Longrightarrow> same_decision o1 o2"
  by (elim order_apply_fill_Inr) (simp add: Let_def same_decision_def)

lemma settle_fill_frame:
  "settle_fill E vis o1 f st = Inr st' \<Longrightarrow> bt_orders st' = bt_orders st \<and> bt_pending st' = bt_pending st"
  by (auto simp: settle_fill_def Let_def bind_r_eq_Inr)

lemma execute_frame:
  assumes "execute E vis o1 b x st = Inr (o2, st')"
  shows "bt_orders st' = bt_orders st" "bt_pending st' = bt_pending st" "same_decision o1 o2"
    and "o2 = o1 \<or> (\<exists>f. o_fills o2 = o_fills o1 @ [f] \<and> f_ts f = b_ts b \<and> 0 < f_qty f
           \<and> f_qty f \<le> dmul (bc_max_participation (be_config E)) (b_volume b))"
proof -
  define cap where "cap = dmul (bc_max_participation (be_config E)) (b_volume b)"
  define qty where "qty = (if cap < remaining_qty o1 then cap else remaining_qty o1)"
  define st1 where "st1 = (if cap < remaining_qty o1
    then st\<lparr>bt_warnings := bt_warnings st @ [VolumeCapped (b_ts b) (o_symbol o1) (remaining_qty o1) cap]\<rparr> else st)"
  have st1: "bt_orders st1 = bt_orders st" "bt_pending st1 = bt_pending st" by (simp_all add: st1_def)
  have qty: "qty \<le> cap" by (simp add: qty_def)
  define mk where "mk = (\<lambda>price fee. \<lparr>f_order_id = o_id o1, f_ts = b_ts b, f_qty = qty, f_price = price, f_fee = fee, f_venue_id = None\<rparr> :: fill)"
  have mk: "f_ts (mk p fee) = b_ts b" "f_qty (mk p fee) = qty" for p fee by (simp_all add: mk_def)
  from assms obtain slip where out: "(if dadd x slip \<le> 0 then Inl (BacktestError (Reason ''slippage produced a non-positive fill price'' [] [dadd x slip]))
      else if qty \<le> 0 then Inr (o1, st1)
      else bind_r (commission (be_costs E) o1 (dadd x slip) qty) (\<lambda>fee.
        bind_r (order_apply_fill (mk (dadd x slip) fee) o1) (\<lambda>o2.
        bind_r (settle_fill E vis o2 (mk (dadd x slip) fee) st1) (\<lambda>st2. Inr (o2, st2))))) = Inr (o2, st')"
    unfolding execute_def Let_def bind_r_eq_Inr cap_def [symmetric] qty_def [symmetric] st1_def [symmetric] mk_def by blast
  have "(o2 = o1 \<and> st' = st1) \<or> (\<exists>f. f_ts f = b_ts b \<and> f_qty f = qty \<and> 0 < qty \<and> order_apply_fill f o1 = Inr o2
      \<and> settle_fill E vis o2 f st1 = Inr st')"
    using out mk by (auto simp: bind_r_eq_Inr not_le split: if_splits)
  then show "bt_orders st' = bt_orders st" "bt_pending st' = bt_pending st" "same_decision o1 o2"
    "o2 = o1 \<or> (\<exists>f. o_fills o2 = o_fills o1 @ [f] \<and> f_ts f = b_ts b \<and> 0 < f_qty f
           \<and> f_qty f \<le> dmul (bc_max_participation (be_config E)) (b_volume b))"
    using st1 qty by (auto simp: cap_def [symmetric] same_decision_def
      dest: settle_fill_frame order_apply_fill_decision [unfolded same_decision_def] order_apply_fill_cases(2))
qed

lemma execute_sound:
  assumes run: "execute E vis o1 b x st = Inr (o2, st')" and o1: "sound_order E bars o1"
    and made: "o_created_at o1 = Some made" "if decided o1 then made < b_ts b else made = b_ts b"
    and b: "bar_at bars (o_symbol o1) (b_ts b) = Some (i, b)"
  shows "sound_order E bars o2"
  using execute_frame(3,4) [OF run] o1 made b
  by (auto simp: sound_order_def sound_fill_def same_decision_def decided_def)

text \<open>The pending loop: the orders keep their places and their decisions.\<close>

definition keeps_places :: "bt \<Rightarrow> bt \<Rightarrow> bool" where
  "keeps_places st st' \<longleftrightarrow> length (bt_orders st') = length (bt_orders st)
     \<and> (\<forall>j < length (bt_orders st). same_decision (bt_orders st ! j) (bt_orders st' ! j))"

lemma keeps_places_refl: "keeps_places st st"
  by (simp add: keeps_places_def same_decision_def)

lemma keeps_places_trans: "keeps_places a b \<Longrightarrow> keeps_places b c \<Longrightarrow> keeps_places a c"
  by (auto simp: keeps_places_def same_decision_def)

lemma keeps_places_put:
  assumes "bt_orders st1 = bt_orders st" "same_decision (bt_orders st ! i) o2"
  shows "keeps_places st (st1\<lparr>bt_orders := (bt_orders st1)[i := o2]\<rparr>)"
  unfolding keeps_places_def
proof (intro conjI allI impI)
  fix j assume "j < length (bt_orders st)"
  then show "same_decision (bt_orders st ! j) (bt_orders (st1\<lparr>bt_orders := (bt_orders st1)[i := o2]\<rparr>) ! j)"
    using assms by (cases "j = i") (simp_all add: same_decision_def)
qed (simp add: assms)

text \<open>A pass over pending orders at \<open>t\<close>, from a state whose listed orders are sound.\<close>

definition ready :: "'s backtest_engine \<Rightarrow> bar list dict \<Rightarrow> ts \<Rightarrow> nat list \<Rightarrow> bt \<Rightarrow> bool" where
  "ready E bars t is st \<longleftrightarrow> (\<forall>o1 \<in> set (bt_orders st). sound_order E bars o1)
     \<and> (\<forall>i \<in> set is. i < length (bt_orders st) \<and> decided_before t (bt_orders st ! i))"

lemma ready_put:
  assumes "ready E bars t (i # is) st" "bt_orders st1 = bt_orders st" "same_decision (bt_orders st ! i) o2" "sound_order E bars o2"
  shows "ready E bars t is (st1\<lparr>bt_orders := (bt_orders st1)[i := o2]\<rparr>)"
  using assms unfolding ready_def
  by (auto simp: nth_list_update same_decision_def decided_before_def decided_def dest!: set_update_subset_insert [THEN subsetD])

lemma ready_skip: "ready E bars t (i # is) st \<Longrightarrow> ready E bars t is st"
  by (simp add: ready_def)

lemma sound_status: "sound_order E bars (o1\<lparr>o_status := x\<rparr>) = sound_order E bars o1"
  by (simp add: sound_order_def sound_fill_def decided_def)

lemma same_decision_status: "same_decision o1 (o2\<lparr>o_status := x\<rparr>) = same_decision o1 o2"
  by (simp add: same_decision_def)

lemma fill_pending_step:
  assumes run: "fill_pending_for E vis b (i # is) st = Inr (rs, fs, st')" and ready: "ready E bars (b_ts b) (i # is) st"
    and b: "bar_at bars (b_symbol b) (b_ts b) = Some (k, b)"
  obtains st1 rs1 fs1 where "fill_pending_for E vis b is st1 = Inr (rs1, fs1, st')" "set rs \<subseteq> insert i (set rs1)"
    "ready E bars (b_ts b) is st1" "keeps_places st st1" "bt_pending st1 = bt_pending st"
proof -
  note goal = that
  define o1 where "o1 = bt_orders st ! i"
  define rest where "rest = (\<lambda>rests fills st. bind_r (fill_pending_for E vis b is st) (\<lambda>(rs, fs, st1).
                    Inr (if rests then i # rs else rs, if fills then i # fs else fs, st1)) :: exn + _)"
  define put where "put = (\<lambda>o2 st. st\<lparr>bt_orders := (bt_orders st)[i := o2]\<rparr> :: bt)"
  have o1: "sound_order E bars o1" "decided_before (b_ts b) o1" using ready by (auto simp: ready_def o1_def)
  have fin: thesis if "rest r f st1 = Inr (rs, fs, st')" "ready E bars (b_ts b) is st1" "keeps_places st st1"
    "bt_pending st1 = bt_pending st" for r f st1
  proof -
    note hyp = that
    obtain rs1 fs1 where "fill_pending_for E vis b is st1 = Inr (rs1, fs1, st')" "rs = (if r then i # rs1 else rs1)"
      using hyp(1) by (auto simp: rest_def bind_r_eq_Inr)
    then show thesis using hyp(2-4) by (intro goal [of st1 rs1 fs1]) auto
  qed
  have put: thesis if "rest r f (put o2 st1) = Inr (rs, fs, st')" "bt_orders st1 = bt_orders st" "bt_pending st1 = bt_pending st"
    "same_decision o1 o2" "sound_order E bars o2" for r f o2 st1
  proof (rule fin [OF that(1)])
    show "ready E bars (b_ts b) is (put o2 st1)"
      using ready_put [OF ready that(2)] that(4,5) by (simp add: put_def o1_def)
    show "keeps_places st (put o2 st1)" using keeps_places_put [OF that(2), of i o2] that(4) by (simp add: put_def o1_def)
  qed (simp add: put_def that(3))
  have run': "(if o_symbol o1 \<noteq> b_symbol b then rest True False st
         else bind_r (intended_price o1 b False) (\<lambda>price. case price of
             None \<Rightarrow> if o_tif o1 = DAY then rest False False (put (o1\<lparr>o_status := EXPIRED\<rparr>) st) else rest True False st
           | Some x \<Rightarrow> bind_r (execute E vis o1 b x st) (\<lambda>(o2, st1).
               if 0 < remaining_qty o2 \<and> o_tif o1 = DAY then rest False True (put (o2\<lparr>o_status := EXPIRED\<rparr>) st1)
               else rest (0 < remaining_qty o2) True (put o2 st1)))) = Inr (rs, fs, st')"
    using run unfolding fill_pending_for.simps Let_def rest_def put_def o1_def .
  have stay: thesis if "rest r f st = Inr (rs, fs, st')" for r f
    using fin [OF that ready_skip [OF ready] keeps_places_refl] by simp
  show thesis
  proof (cases "o_symbol o1 = b_symbol b")
    case False
    with run' show thesis by (auto intro: stay)
  next
    case True
    with run' obtain price where p: "(case price of
             None \<Rightarrow> if o_tif o1 = DAY then rest False False (put (o1\<lparr>o_status := EXPIRED\<rparr>) st) else rest True False st
           | Some x \<Rightarrow> bind_r (execute E vis o1 b x st) (\<lambda>(o2, st1).
               if 0 < remaining_qty o2 \<and> o_tif o1 = DAY then rest False True (put (o2\<lparr>o_status := EXPIRED\<rparr>) st1)
               else rest (0 < remaining_qty o2) True (put o2 st1))) = Inr (rs, fs, st')"
      by (auto simp: bind_r_eq_Inr)
    show thesis
    proof (cases price)
      case None
      with p o1(1) show thesis
        by (auto simp: sound_status same_decision_def split: if_splits intro: stay put [of _ _ "o1\<lparr>o_status := EXPIRED\<rparr>" st])
    next
      case (Some x)
      with p obtain o2 st1 where ex: "execute E vis o1 b x st = Inr (o2, st1)"
        and r: "(if 0 < remaining_qty o2 \<and> o_tif o1 = DAY then rest False True (put (o2\<lparr>o_status := EXPIRED\<rparr>) st1)
               else rest (0 < remaining_qty o2) True (put o2 st1)) = Inr (rs, fs, st')" by (auto simp: bind_r_eq_Inr)
      obtain made where made: "decided o1" "o_created_at o1 = Some made" "made < b_ts b" using o1(2) by (auto simp: decided_before_def)
      have s2: "sound_order E bars o2"
        by (rule execute_sound [OF ex o1(1) made(2)]) (use made True b in simp_all)
      note fr = execute_frame [OF ex]
      show thesis
        using r put [OF _ fr(1,2), of _ _ o2] put [OF _ fr(1,2), of _ _ "o2\<lparr>o_status := EXPIRED\<rparr>"] s2 fr(3)
        by (auto simp: sound_status same_decision_status split: if_splits)
    qed
  qed
qed

lemma fill_pending_for_sound:
  assumes "fill_pending_for E vis b is st = Inr (rs, fs, st')" "ready E bars (b_ts b) is st"
    and "bar_at bars (b_symbol b) (b_ts b) = Some (k, b)"
  shows "set rs \<subseteq> set is \<and> ready E bars (b_ts b) [] st' \<and> keeps_places st st' \<and> bt_pending st' = bt_pending st"
  using assms
proof (induction "is" arbitrary: st rs fs)
  case Nil
  then show ?case by (simp add: keeps_places_refl)
next
  case (Cons i "is")
  obtain st1 rs1 fs1 where h: "fill_pending_for E vis b is st1 = Inr (rs1, fs1, st')" "set rs \<subseteq> insert i (set rs1)"
    "ready E bars (b_ts b) is st1" "keeps_places st st1" "bt_pending st1 = bt_pending st"
    by (rule fill_pending_step [OF Cons.prems])
  with Cons.IH [OF h(1,3) Cons.prems(3)] show ?case by (auto intro: keeps_places_trans)
qed

lemma decided_before_same: "decided_before t o1 \<Longrightarrow> same_decision o1 o2 \<Longrightarrow> decided_before t o2"
  by (simp add: same_decision_def decided_before_def decided_def)

lemma fill_pending_upheld:
  assumes "fill_pending E vis b st = Inr (fs, st')" "upheld E bars (b_ts b) st"
    and b: "bar_at bars (b_symbol b) (b_ts b) = Some (k, b)"
  shows "upheld E bars (b_ts b) st'"
proof -
  obtain rs st1 where r: "fill_pending_for E vis b (bt_pending st) st = Inr (rs, fs, st1)" "st' = st1\<lparr>bt_pending := rs\<rparr>"
    using assms(1) by (auto simp: fill_pending_def bind_r_eq_Inr)
  have "ready E bars (b_ts b) (bt_pending st) st" using assms(2) by (simp add: ready_def upheld_def)
  note h = fill_pending_for_sound [OF r(1) this b]
  have "i < length (bt_orders st1) \<and> decided_before (b_ts b) (bt_orders st1 ! i)" if "i \<in> set rs" for i
  proof -
    have "i < length (bt_orders st)" "decided_before (b_ts b) (bt_orders st ! i)" using that h assms(2) by (auto simp: upheld_def)
    then show ?thesis using h by (auto simp: keeps_places_def intro: decided_before_same)
  qed
  with h show ?thesis by (simp add: r(2) upheld_def ready_def)
qed

lemma purposes_differ:
  "PURPOSE_STOP_LOSS \<notin> {PURPOSE_ENTRY, PURPOSE_EXIT}" "PURPOSE_TAKE_PROFIT \<notin> {PURPOSE_ENTRY, PURPOSE_EXIT}"
  "PURPOSE_TIME_EXIT \<notin> {PURPOSE_ENTRY, PURPOSE_EXIT}"
  by (simp_all add: PURPOSE_STOP_LOSS_def PURPOSE_TAKE_PROFIT_def PURPOSE_TIME_EXIT_def PURPOSE_ENTRY_def PURPOSE_EXIT_def)

lemma upheld_append:
  "upheld E bars t st \<Longrightarrow> sound_order E bars o2 \<Longrightarrow> bt_orders st' = bt_orders st @ [o2] \<Longrightarrow> bt_pending st' = bt_pending st
     \<Longrightarrow> upheld E bars t st'"
  by (auto simp: upheld_def nth_append)

lemma upheld_queue:
  "upheld E bars t st \<Longrightarrow> sound_order E bars o2 \<Longrightarrow> decided_before t o2 \<Longrightarrow> bt_orders st' = bt_orders st @ [o2]
     \<Longrightarrow> bt_pending st' = bt_pending st @ [length (bt_orders st)] \<Longrightarrow> upheld E bars t st'"
  by (auto simp: upheld_def nth_append)

lemma execute_exit_upheld:
  assumes run: "execute_exit E vis b shape p x purpose st = Inr st'" and st: "upheld E bars t st"
    and b: "bar_at bars (b_symbol b) (b_ts b) = Some (k, b)" and purpose: "purpose \<notin> {PURPOSE_ENTRY, PURPOSE_EXIT}"
    and shape: "\<And>o1. o_purpose (shape o1) = o_purpose o1 \<and> o_created_at (shape o1) = o_created_at o1
      \<and> o_symbol (shape o1) = o_symbol o1 \<and> o_fills (shape o1) = o_fills o1"
  shows "upheld E bars t st'"
proof -
  obtain o0 st0 where d: "drawn_order E (b_symbol b) (if is_long p then SELL else BUY) (dabs (p_qty p)) st = (o0, st0)"
    by (rule prod.exhaust)
  then have st0: "bt_orders st0 = bt_orders st" "bt_pending st0 = bt_pending st" and o0: "o_symbol o0 = b_symbol b" "o_fills o0 = []"
    by (auto simp: drawn_order_def order_defaults_def)
  from run d obtain o1 o2 st1 where n: "new_order (shape (o0\<lparr>o_strategy := Some (be_name E), o_created_at := Some (b_ts b),
        o_status := SUBMITTED, o_purpose := purpose\<rparr>)) = Inr o1"
    and ex: "execute E vis o1 b x st0 = Inr (o2, st1)" and st': "st' = st1\<lparr>bt_orders := bt_orders st1 @ [o2]\<rparr>"
    by (auto simp: execute_exit_def bind_r_eq_Inr)
  have o1: "o_purpose o1 = purpose" "o_created_at o1 = Some (b_ts b)" "o_symbol o1 = b_symbol b" "o_fills o1 = []"
    using new_order_Inr [OF n] shape o0 by auto
  have "sound_order E bars o2"
    by (rule execute_sound [OF ex _ o1(2)]) (use o1 purpose b in \<open>auto simp: sound_order_def decided_def\<close>)
  then show ?thesis
    using upheld_append [OF st, of o2 st'] st0 execute_frame(1,2) [OF ex] by (simp add: st')
qed

lemma maintain_trailing_frame: "upheld E bars t (st\<lparr>bt_portfolio := pf\<rparr>) = upheld E bars t st"
  by (rule upheld_frame) simp_all

lemma check_stops_upheld:
  assumes run: "check_stops E vis b st = Inr st'" and st: "upheld E bars t st"
    and b: "bar_at bars (b_symbol b) (b_ts b) = Some (k, b)"
  shows "upheld E bars t st'"
proof -
  have up: "upheld E bars t (st\<lparr>bt_portfolio := pf\<rparr>)" for pf using st by (simp add: maintain_trailing_frame)
  note rule = execute_exit_upheld [OF _ up b]
  have stop: "upheld E bars t st'" if "execute_exit E vis b (\<lambda>o1. o1\<lparr>o_type := STOP, o_stop := Some s\<rparr>) p x PURPOSE_STOP_LOSS (st\<lparr>bt_portfolio := pf\<rparr>) = Inr st'" for s p x pf
    by (rule rule [OF that]) (use purposes_differ in auto)
  have target: "upheld E bars t st'" if "execute_exit E vis b (\<lambda>o1. o1\<lparr>o_type := LIMIT, o_limit := Some s\<rparr>) p x PURPOSE_TAKE_PROFIT (st\<lparr>bt_portfolio := pf\<rparr>) = Inr st'" for s p x pf
    by (rule rule [OF that]) (use purposes_differ in auto)
  have time: "upheld E bars t st'" if "execute_exit E vis b id p x PURPOSE_TIME_EXIT (st\<lparr>bt_portfolio := pf\<rparr>) = Inr st'" for p x pf
    by (rule rule [OF that]) (use purposes_differ in auto)
  show ?thesis
    using run up
    by (auto simp: check_stops_def Let_def exit_at_market_def bind_r_eq_Inr split: if_splits option.splits dest: stop target time)
qed

lemma run_chain_resizes: "run_chain env lims rs o1 bks adj = (d, o2, rs2, b2) \<Longrightarrow> \<exists>q. o2 = o1\<lparr>o_qty := q\<rparr>"
proof (induction rs arbitrary: o1 bks adj d o2 rs2 b2)
  case Nil
  then show ?case by (auto intro: exI [of _ "o_qty o1"])
next
  case (Cons r rs)
  obtain d1 r1 b1 where c: "check_rule env lims o1 bks r = (d1, r1, b1)" by (metis prod_cases3)
  show ?case
  proof (cases "rd_approved d1")
    case False
    with Cons.prems c show ?thesis by (auto intro: exI [of _ "o_qty o1"])
  next
    case True
    obtain o3 adj3 where a: "(case rd_adjusted d1 of Some q \<Rightarrow> (o1\<lparr>o_qty := q\<rparr>, Some q) | None \<Rightarrow> (o1, adj)) = (o3, adj3)"
      by (rule prod.exhaust)
    then have o3: "\<exists>q. o3 = o1\<lparr>o_qty := q\<rparr>" by (auto split: option.splits intro: exI [of _ "o_qty o1"])
    obtain d4 o4 rs4 b4 where r: "run_chain env lims rs o3 b1 adj3 = (d4, o4, rs4, b4)" by (metis prod_cases4)
    with Cons.prems c a True have "o2 = o4" by simp
    with Cons.IH [OF r] o3 show ?thesis by auto
  qed
qed

lemma validate_resizes: "validate env en o1 pf ps = (d, o2, en2, pf2) \<Longrightarrow> \<exists>q. o2 = o1\<lparr>o_qty := q\<rparr>"
  by (auto simp: validate_def dest: run_chain_resizes split: prod.splits)

lemma queue_order_upheld:
  assumes run: "queue_order E now sg b sd qty purpose st = Inr st'" and st: "upheld E bars t st"
    and purpose: "purpose \<in> {PURPOSE_ENTRY, PURPOSE_EXIT}" and t: "b_ts b < t"
  shows "upheld E bars t st'"
proof (cases "qty \<le> 0")
  case True
  with run st show ?thesis by (simp add: queue_order_def)
next
  case False
  obtain o0 st1 where d: "drawn_order E (sg_symbol sg) sd qty st = (o0, st1)" by (rule prod.exhaust)
  then have st1: "bt_orders st1 = bt_orders st" "bt_pending st1 = bt_pending st" and o0: "o_fills o0 = []"
    by (auto simp: drawn_order_def order_defaults_def)
  from run d False obtain o1 where n: "new_order ((signal_order sg b purpose o0)\<lparr>
            o_type := (case sg_limit sg of None \<Rightarrow> MARKET | Some l \<Rightarrow> if l = 0 then MARKET else LIMIT),
            o_limit := sg_limit sg\<rparr>) = Inr o1"
    by (auto simp: queue_order_def bind_r_eq_Inr)
  have o1: "o_fills o1 = []" "o_created_at o1 = Some (b_ts b)" "o_purpose o1 = purpose"
    using new_order_Inr [OF n] o0 by (auto simp: signal_order_def)
  obtain d2 o2 en pf where v: "validate (be_env E now) (bt_engine st1) o1 (bt_portfolio st1) (map ((!) (bt_orders st1)) (bt_pending st1)) = (d2, o2, en, pf)"
    by (metis prod_cases4)
  have "o_fills o2 = []" "o_created_at o2 = Some (b_ts b)" "o_purpose o2 = purpose"
    using validate_resizes [OF v] o1 by auto
  then have sound: "sound_order E bars (o2\<lparr>o_qty := q, o_status := s, o_submitted_at := u\<rparr>)"
      "sound_order E bars (o2\<lparr>o_status := s, o_reject_reason := w, o_rejected_by := rb\<rparr>)"
      "decided_before t (o2\<lparr>o_qty := q, o_status := s, o_submitted_at := u\<rparr>)" for q s u w rb
    using purpose t by (auto simp: sound_order_def decided_before_def decided_def)
  note run' = run [unfolded queue_order_def if_not_P [OF False] d prod.case n bind_r_Inr v Let_def]
  consider "st' = book_refusal o2 b (rd_rule d2) (rd_reason d2) (st1\<lparr>bt_engine := en, bt_portfolio := pf\<rparr>)"
    | "bt_orders st' = bt_orders st" "bt_pending st' = bt_pending st"
    | q where "bt_orders st' = bt_orders st @ [o2\<lparr>o_qty := q, o_status := SUBMITTED, o_submitted_at := Some (b_ts b)\<rparr>]"
      "bt_pending st' = bt_pending st @ [length (bt_orders st)]"
  proof (cases "rd_approved d2")
    case ok: True
    show ?thesis
    proof (cases "case rd_adjusted d2 of None \<Rightarrow> False | Some q \<Rightarrow> q \<le> 0")
      case True
      with run' ok st1 show ?thesis by (intro that(2)) auto
    next
      case False
      with run' ok st1 show ?thesis by (intro that(3)) auto
    qed
  next
    case False
    with run' show ?thesis by (intro that(1)) auto
  qed
  then show ?thesis
  proof cases
    case 1
    then show ?thesis by (intro upheld_append [OF st sound(2)]) (simp_all add: book_refusal_def st1)
  next
    case 2
    then show ?thesis using upheld_frame st by blast
  next
    case 3
    then show ?thesis by (intro upheld_queue [OF st sound(1,3)])
  qed
qed

lemma handle_signal_upheld:
  assumes run: "handle_signal E vis now b sg st = Inr st'" and st: "upheld E bars t st" and t: "b_ts b < t"
  shows "upheld E bars t st'"
proof -
  have up: "upheld E bars t (st\<lparr>bt_portfolio := pf\<rparr>)" for pf using st by (simp add: maintain_trailing_frame)
  have refused: "upheld E bars t (book_refusal o1 b rule why (st\<lparr>bt_portfolio := pf, bt_drawn := n\<rparr>))"
    if "new_order (signal_order sg1 b PURPOSE_ENTRY (order_defaults i c s sd q)) = Inr o1" for o1 rule why pf n sg1 i c s sd q
  proof -
    have "sound_order E bars (o1\<lparr>o_status := REJECTED_RISK, o_reject_reason := Some why, o_rejected_by := Some rule\<rparr>)"
      using new_order_Inr [OF that] by (auto simp: signal_order_def sound_order_def order_defaults_def)
    then show ?thesis by (intro upheld_append [OF st]) (simp_all add: book_refusal_def)
  qed
  show ?thesis
    using run st
    by (auto simp: handle_signal_def Let_def bind_r_eq_Inr drawn_order_def
        split: if_splits signal_action.splits option.splits sum.splits
        intro: up refused dest: queue_order_upheld [OF _ up _ t])
qed

text \<open>Every series holds the bars of its own symbol.\<close>

definition keyed :: "bar list dict \<Rightarrow> bool" where
  "keyed bars \<longleftrightarrow> (\<forall>(s, series) \<in> set bars. \<forall>b \<in> set series. b_symbol b = s)"

lemma printed_bar:
  assumes "keyed bars" "(s, i, b) \<in> set (printed bars syms t)"
  shows "b_ts b = t" "bar_at bars (b_symbol b) (b_ts b) = Some (i, b)"
proof -
  have at: "bar_at bars s t = Some (i, b)" by (rule printed_mem [OF assms(2)])
  then obtain series where h: "dict_get bars s = Some series" "i < length series" "series ! i = b" "b_ts b = t"
    by (rule bar_at_Some)
  then have "b_symbol b = s" using assms(1) dict_get_mem [OF h(1)] by (auto simp: keyed_def)
  with at h(4) show "b_ts b = t" "bar_at bars (b_symbol b) (b_ts b) = Some (i, b)" by simp_all
qed

definition holds_sound :: "'s backtest_engine \<Rightarrow> bar list dict \<Rightarrow> ts \<Rightarrow> 's replay \<Rightarrow> bool" where
  "holds_sound E bars t r \<longleftrightarrow> cx_bars (rp_cx r) = bars \<and> upheld E bars t (rp_bt r)"

lemma marking_frame [simp]:
  "bt_orders (mark_last s x st) = bt_orders st" "bt_pending (mark_last s x st) = bt_pending st"
  "bt_orders (age_holding s st) = bt_orders st" "bt_pending (age_holding s st) = bt_pending st"
  by (simp_all add: mark_last_def age_holding_def split: option.split)

lemma print_bar_sound:
  assumes "keyed bars" "x \<in> set (printed bars syms t)" "print_bar E x r = Inr r'" "holds_sound E bars t r"
  shows "holds_sound E bars t r'"
proof -
  obtain s i b where x: "x = (s, i, b)" by (cases x)
  note b = printed_bar [OF assms(1) assms(2) [unfolded x]]
  define st where "st = age_holding s (mark_last s (b_close b) (rp_bt r))"
  have st: "upheld E bars t st"
    using assms(4) upheld_frame [of st "rp_bt r" E bars t] by (simp add: holds_sound_def st_def)
  from assms(3) obtain cx st1 fs st2 where h: "advance s (int i) (rp_cx r) = Inr cx" "check_stops E (visible cx) b st = Inr st1"
    "fill_pending E (visible cx) b st1 = Inr (fs, st2)" "rp_cx r' = cx" "rp_bt r' = st2"
    by (auto simp: print_bar_def x bind_r_eq_Inr st_def)
  have "upheld E bars (b_ts b) st2"
    using check_stops_upheld [OF h(2) _ b(2), of t] fill_pending_upheld [OF h(3) _ b(2)] st b(1) by simp
  moreover have "cx_bars cx = cx_bars (rp_cx r)" using h(1) by (auto simp: advance_def split: if_splits)
  ultimately show ?thesis using h(4,5) assms(4) b(1) by (simp add: holds_sound_def)
qed

lemma ask_strategy_sound:
  assumes "keyed bars" "x \<in> set (printed bars syms t)" "ask_strategy E x r = Inr r'" "holds_sound E bars (t + 1) r"
  shows "holds_sound E bars (t + 1) r'"
proof -
  obtain s i b where x: "x = (s, i, b)" by (cases x)
  have t: "b_ts b < t + 1" using printed_bar [OF assms(1) assms(2) [unfolded x]] by simp
  from assms(3) obtain sigs asked strat where "be_on_bar E (view_of (rp_cx r) (bt_portfolio (rp_bt r))) b (rp_strategy r) = Inr (sigs, asked, strat)"
    and r': "(let st = (rp_bt r)\<lparr>bt_portfolio := fold touch_position asked (bt_portfolio (rp_bt r))\<rparr> in
        if dict_get_or (rp_seen r) s 0 \<le> warmup_of E then Inr (r\<lparr>rp_bt := st, rp_strategy := strat\<rparr>)
        else bind_r (for_r (handle_signal E (visible (rp_cx r)) (cx_now (rp_cx r)) b) sigs
                       (st\<lparr>bt_signals := bt_signals st @ sigs\<rparr>)) (\<lambda>st1.
             Inr (r\<lparr>rp_bt := st1, rp_strategy := strat\<rparr>))) = Inr r'"
    by (auto simp: ask_strategy_def x bind_r_eq_Inr)
  define st where "st = (rp_bt r)\<lparr>bt_portfolio := fold touch_position asked (bt_portfolio (rp_bt r))\<rparr>"
  have st: "upheld E bars (t + 1) st" "upheld E bars (t + 1) (st\<lparr>bt_signals := w\<rparr>)" for w
    using assms(4) upheld_frame [of st "rp_bt r" E bars "t + 1"]
      upheld_frame [of "st\<lparr>bt_signals := w\<rparr>" "rp_bt r" E bars "t + 1"]
    by (simp_all add: holds_sound_def st_def)
  have run: "upheld E bars (t + 1) st1" if "for_r (handle_signal E vis now b) sigs (st\<lparr>bt_signals := w\<rparr>) = Inr st1" for vis now w st1
    using handle_signal_upheld [OF _ _ t] by (intro for_r_invariant [OF that, of "upheld E bars (t + 1)"] st(2)) blast
  show ?thesis
    using r' run st assms(4) unfolding Let_def st_def [symmetric]
    by (auto simp: holds_sound_def bind_r_eq_Inr split: if_splits)
qed

lemma step_replay_sound:
  assumes keyed: "keyed bars" and run: "step_replay E t r = Inr r'" and r: "holds_sound E bars t r"
  shows "holds_sound E bars (t + 1) r'"
proof -
  define xs where "xs = printed bars (cx_symbols (rp_cx r)) t"
  have bars: "cx_bars (rp_cx r) = bars" using r by (simp add: holds_sound_def)
  from run obtain now r2 where r2: "for_r (print_bar E) xs (open_session t (r\<lparr>rp_cx := (rp_cx r)\<lparr>cx_now := now\<rparr>\<rparr>)) = Inr r2"
    and r': "for_r (ask_strategy E) xs (r2\<lparr>rp_bt := snapshot_equity t (fold (\<lambda>(s, i, b). mark_last s (b_close b)) xs (rp_bt r2))\<rparr>) = Inr r'"
    unfolding step_replay_body replay_body_def bars xs_def [symmetric] by (auto simp: bind_r_eq_Inr)
  have "holds_sound E bars t (open_session t (r\<lparr>rp_cx := (rp_cx r)\<lparr>cx_now := now\<rparr>\<rparr>))"
    using r upheld_frame [of "rp_bt (open_session t (r\<lparr>rp_cx := (rp_cx r)\<lparr>cx_now := now\<rparr>\<rparr>))" "rp_bt r" E bars t]
    by (simp add: holds_sound_def) (simp add: open_session_def)
  then have "holds_sound E bars t r2"
    by (rule for_r_invariant [OF r2, of "holds_sound E bars t"]) (use print_bar_sound [OF keyed] xs_def in blast)
  moreover have "bt_orders (fold (\<lambda>(s, i, b). mark_last s (b_close b)) xs st) = bt_orders st
      \<and> bt_pending (fold (\<lambda>(s, i, b). mark_last s (b_close b)) xs st) = bt_pending st" for st
    by (induction xs arbitrary: st) (auto simp: mark_last_def)
  ultimately have "holds_sound E bars (t + 1) (r2\<lparr>rp_bt := snapshot_equity t (fold (\<lambda>(s, i, b). mark_last s (b_close b)) xs (rp_bt r2))\<rparr>)"
    using upheld_mono [of E bars t "rp_bt r2" "t + 1"]
      upheld_frame [of "snapshot_equity t (fold (\<lambda>(s, i, b). mark_last s (b_close b)) xs (rp_bt r2))" "rp_bt r2" E bars "t + 1"]
    by (simp add: holds_sound_def snapshot_equity_def Let_def)
  then show ?thesis
    by (rule for_r_invariant [OF r', of "holds_sound E bars (t + 1)"]) (use ask_strategy_sound [OF keyed] xs_def in blast)
qed

lemma replay_sound:
  assumes "keyed bars"
  shows "for_r (step_replay E) tss r = Inr r' \<Longrightarrow> sorted_wrt (<) tss \<Longrightarrow> (\<forall>t \<in> set tss. l \<le> t) \<Longrightarrow> holds_sound E bars l r
    \<Longrightarrow> \<exists>l'. holds_sound E bars l' r'"
proof (induction tss arbitrary: r l)
  case (Cons t tss)
  then obtain r1 where h: "step_replay E t r = Inr r1" "for_r (step_replay E) tss r1 = Inr r'" by (auto simp: bind_r_eq_Inr)
  have "holds_sound E bars t r" using Cons.prems(3,4) upheld_mono by (auto simp: holds_sound_def)
  from step_replay_sound [OF assms h(1) this] Cons.prems(2) show ?case
    by (intro Cons.IH [OF h(2), of "t + 1"]) auto
qed auto

lemma adjusted_symbol: "adjusted b = Inr b' \<Longrightarrow> b_symbol b' = b_symbol b"
  by (auto simp: adjusted_def Let_def bind_r_eq_Inr new_bar_Inr split: option.splits if_splits)

lemma map_r_mem: "map_r f xs = Inr ys \<Longrightarrow> y \<in> set ys \<Longrightarrow> \<exists>x \<in> set xs. f x = Inr y"
  by (induction xs arbitrary: ys) (auto simp: bind_r_eq_Inr)

lemma to_adjusted_keyed:
  assumes "to_adjusted raw = Inr bars" "keyed raw"
  shows "keyed bars"
  unfolding keyed_def
proof clarify
  fix s series b assume "(s, series) \<in> set bars" "b \<in> set series"
  moreover have "map_r (\<lambda>(s, series). bind_r (map_r adjusted series) (\<lambda>out. Inr (s, out))) raw = Inr bars"
    using assms(1) by (simp add: to_adjusted_def Let_def split: if_splits)
  ultimately obtain series' where "(s, series') \<in> set raw" "map_r adjusted series' = Inr series"
    by (fastforce dest: map_r_mem simp: bind_r_eq_Inr)
  with \<open>b \<in> set series\<close> assms(2) show "b_symbol b = s"
    by (auto simp: keyed_def dest!: map_r_mem adjusted_symbol)
qed

lemma run_backtest_Inr:
  assumes "run_backtest E raw st strat = Inr r"
  obtains bars t0 cov strat1 r1 where "to_adjusted raw = Inr bars"
    "for_r (step_replay E) (timeline bars) (start_replay E bars t0 cov st strat1) = Inr r1"
    "rp_bt r = rp_bt r1" "rp_cx r = rp_cx r1"
proof -
  from assms obtain cov bars where bars: "to_adjusted raw = Inr bars"
    and rest: "(case map (\<lambda>(s, series). b_ts (hd series)) (filter (\<lambda>(s, series). series \<noteq> []) bars) of
       [] \<Rightarrow> Inl (value_error ''min() arg is an empty sequence'')
     | t # tss \<Rightarrow>
         bind_r (be_on_start E strat) (\<lambda>strat1.
         bind_r (for_r (step_replay E) (timeline bars) (start_replay E bars (fold min tss t) cov st strat1)) (\<lambda>r.
         bind_r (be_on_stop E (rp_strategy r)) (\<lambda>strat2.
         Inr (r\<lparr>rp_strategy := strat2\<rparr>))))) = Inr r"
    unfolding run_backtest_def bind_r_eq_Inr by blast
  show thesis
  proof (cases "map (\<lambda>(s, series). b_ts (hd series)) (filter (\<lambda>(s, series). series \<noteq> []) bars)")
    case Nil
    with rest show thesis by simp
  next
    case (Cons t tss)
    with rest bars show thesis by (auto simp: bind_r_eq_Inr intro: that)
  qed
qed

text \<open>
  C9. In a finished run, every fill of every order the result lists happens on a bar its symbol printed,
  for no more than the participation cap of that bar's volume. An order decided by a signal (an entry or
  an exit) fills strictly after the bar it was decided on; only protective exits, which rest at a level
  or at the close, fill on the bar that created them.
\<close>

theorem decisions_fill_on_later_bars:
  assumes "run_backtest E raw st strat = Inr r" "keyed raw" "o1 \<in> set (bt_orders (rp_bt r))"
  shows "\<exists>made. o_created_at o1 = Some made \<and> (\<forall>f \<in> set (o_fills o1).
      (if o_purpose o1 \<in> {PURPOSE_ENTRY, PURPOSE_EXIT} then made < f_ts f else made = f_ts f) \<and> 0 < f_qty f
      \<and> (\<exists>i b. bar_at (cx_bars (rp_cx r)) (o_symbol o1) (f_ts f) = Some (i, b)
           \<and> f_qty f \<le> dmul (bc_max_participation (be_config E)) (b_volume b)))"
proof -
  obtain bars t0 cov strat1 r1 where bars: "to_adjusted raw = Inr bars"
    and run: "for_r (step_replay E) (timeline bars) (start_replay E bars t0 cov st strat1) = Inr r1"
    and r: "rp_bt r = rp_bt r1" "rp_cx r = rp_cx r1"
    using assms(1) by (rule run_backtest_Inr)
  have keyed: "keyed bars" by (rule to_adjusted_keyed [OF bars assms(2)])
  have sorted: "sorted_wrt (<) (timeline bars)" by (simp add: timeline_def strict_sorted_iff)
  have "\<exists>l. \<forall>t \<in> set (timeline bars). l \<le> t"
    by (rule exI [of _ "Min (insert 0 (set (timeline bars)))"]) simp
  then obtain l where l: "\<forall>t \<in> set (timeline bars). l \<le> t" by blast
  have "holds_sound E bars l (start_replay E bars t0 cov st strat1)"
    by (simp add: holds_sound_def start_replay_def new_context_def upheld_def)
  from replay_sound [OF keyed run sorted l this] assms(3) show ?thesis
    by (auto simp: r holds_sound_def upheld_def sound_order_def sound_fill_def decided_def)
qed

theorem decisions_fill_on_later_bars_witness:
  "\<exists>r o1 f. sample_run 11 = Inr r \<and> bt_orders (rp_bt r) = [o1] \<and> o_fills o1 = [f] \<and> (\<exists>made. o_created_at o1 = Some made \<and> made < f_ts f)"
proof -
  obtain r o1 f where h: "sample_run 11 = Inr r" "bt_orders (rp_bt r) = [o1]" "o_fills o1 = [f]" "o_purpose o1 = PURPOSE_ENTRY"
    using sample_run_fills by blast
  have "keyed (sample_series 11)" by (simp add: keyed_def sample_series_def sample_day_def)
  from decisions_fill_on_later_bars [OF h(1) [unfolded sample_run_def] this, of o1] h show ?thesis by auto
qed

end
