(* ===== verification/Runner.thy ===== *)
theory Runner
  imports Router Reconcile Backtest
begin

text \<open>
  \<open>worker/runner.py\<close>, the state of the live strategy runner and what a venue event does to it. The
  portfolio is the router's. Everything outside is in \<open>runner_ports\<close>, as functions on the same
  world \<open>'v\<close> the router's ports act on. The runner holds a lock around an evaluation, an event and a
  checkpoint, so each is one action here.

  An \<open>Order\<close> of the code is one object in several places: the working orders, the entries whose
  stop is missing, the fills waiting for the strategy, the router's children. Here each place has a
  copy with its id, and \<open>order_changed\<close> is the mutation as all of them see it. A warm-up reads the
  working orders from the database again, as new objects: what the other places hold of them is from
  then on another object, which trade updates no longer reach. \<open>rn_detached\<close> lists the router's children
  this happened to, and an entry or a waiting fill says itself whether it is still the working object.
\<close>

datatype severity = INFO | WARNING | CRITICAL

record alert =
  al_severity :: severity
  al_key :: string
  al_says :: reason

record signal_outcome =
  so_acted :: bool
  so_reason :: "reason option"
  so_rule :: "string option"

record 'v runner_ports =
  rp_router :: "'v ports"
  rp_engage :: "halt_request \<Rightarrow> string option \<Rightarrow> 'v \<Rightarrow> (exn + unit) \<times> 'v"
  rp_last_bars :: "string \<Rightarrow> int \<Rightarrow> ts option \<Rightarrow> 'v \<Rightarrow> (exn + bar list) \<times> 'v"
  rp_quotes :: "string list \<Rightarrow> 'v \<Rightarrow> (exn + quote dict) \<times> 'v"
  rp_open_orders :: "'v \<Rightarrow> (exn + order list) \<times> 'v"
  rp_save_order :: "order \<Rightarrow> 'v \<Rightarrow> (exn + unit) \<times> 'v"
  rp_save_book :: "portfolio \<Rightarrow> ts \<Rightarrow> 'v \<Rightarrow> (exn + unit) \<times> 'v"
  rp_save_signal :: "signal \<Rightarrow> signal_outcome \<Rightarrow> 'v \<Rightarrow> (exn + unit) \<times> 'v"
  rp_ensure_strategy :: "'v \<Rightarrow> (exn + unit) \<times> 'v"
  rp_put_snapshot :: "(portfolio \<Rightarrow> order list \<Rightarrow> quote dict \<Rightarrow> 'v \<Rightarrow> (exn + unit) \<times> 'v) option"
  rp_publish :: "(string \<Rightarrow> string \<Rightarrow> 'v \<Rightarrow> (exn + unit) \<times> 'v) option"
  rp_alert :: "(alert \<Rightarrow> 'v \<Rightarrow> 'v) option"
  rp_anchor :: "((date \<Rightarrow> 'v \<Rightarrow> (exn + dec option) \<times> 'v) \<times> (date \<Rightarrow> dec \<Rightarrow> 'v \<Rightarrow> (exn + unit) \<times> 'v)) option"
  rp_venue :: "'v \<Rightarrow> (exn + venue_view) \<times> 'v"
  rp_fees :: "(portfolio \<Rightarrow> 'v \<Rightarrow> (exn + portfolio) \<times> 'v) option"
  rp_tolerance :: dec
  rp_settles :: bool
  rp_wait :: "int \<Rightarrow> 'v \<Rightarrow> 'v"
  rp_settle_us :: int
  rp_fill_key :: "string option \<Rightarrow> dec \<Rightarrow> string"

record 's runner_setup =
  rs_name :: string
  rs_symbols :: "string list"
  rs_timeframe :: timeframe
  rs_sizing :: size_spec
  rs_stop :: stop_config
  rs_calendar :: calendar_source
  rs_warmup :: int
  rs_cooldown_us :: int
  rs_signal_limit :: nat
  rs_tick_us :: int
  rs_on_start :: "'s \<Rightarrow> (exn + unit) \<times> 's"
  rs_on_stop :: "'s \<Rightarrow> (exn + unit) \<times> 's"
  rs_on_bar :: "view \<Rightarrow> bar \<Rightarrow> 's \<Rightarrow> (exn + signal list) \<times> string list \<times> 's"
  rs_on_fill :: "view \<Rightarrow> order \<Rightarrow> fill \<Rightarrow> 's \<Rightarrow> (exn + signal list) \<times> string list \<times> 's"
  rs_atr :: "bar list \<Rightarrow> int \<Rightarrow> exn + dec option"

record runner_stats =
  st_started_at :: "ts option"
  st_evaluations :: int
  st_signals :: int
  st_submitted :: int
  st_refused_by_risk :: int
  st_rejected_by_venue :: int
  st_last_evaluation :: "ts option"
  st_errors :: int
  st_consecutive :: int
  st_fills :: int
  st_stops :: int
  st_discarded_cold :: int
  st_minutes :: "ts list"

record ('v, 's) runner =
  rn_router :: "'v router"
  rn_strategy :: 's
  rn_rate_refusals :: int
  rn_anchor_pending :: bool
  rn_alerted :: "string list"
  rn_alerted_at :: "ts option"
  rn_since :: "ts dict"
  rn_bars :: "bar list dict"
  rn_decision :: "session option"
  rn_quotes :: "quote dict"
  rn_book_bound :: bool
  rn_open :: "order dict"
  rn_unprotected :: "dec dict"
  rn_entries :: "(order \<times> bool) dict"
  rn_fills :: "(order \<times> fill \<times> bool) list"
  rn_detached :: "string list"
  rn_recent :: "(signal \<times> signal_outcome) list"
  rn_running :: bool
  rn_stats :: runner_stats

type_synonym ('v, 's, 'a) ran = "(('v, 's) runner, 'a) act"

definition in_router :: "('v, 'a) routed \<Rightarrow> ('v, 's, 'a) ran" where
  "in_router m = (\<lambda>s. case m (rn_router s) of (r, rt) \<Rightarrow> (r, s\<lparr>rn_router := rt\<rparr>))"

definition out :: "('v \<Rightarrow> (exn + 'a) \<times> 'v) \<Rightarrow> ('v, 's, 'a) ran" where
  "out f = in_router (outside f)"

definition tell :: "('v \<Rightarrow> 'v) \<Rightarrow> ('v, 's, unit) ran" where
  "tell f = out (\<lambda>v. (Inr (), f v))"

definition clock_now :: "'v runner_ports \<Rightarrow> ('v, 's, ts) ran" where
  "clock_now P = gets_a (\<lambda>s. env_now (po_env (rp_router P) (rt_venue (rn_router s))))"

text \<open>A computation on the state that may raise and changes nothing.\<close>

definition checked :: "(('v, 's) runner \<Rightarrow> exn + 'a) \<Rightarrow> ('v, 's, 'a) ran" where
  "checked g = (\<lambda>s. (g s, s))"

definition rn_portfolio :: "('v, 's) runner \<Rightarrow> portfolio" where
  "rn_portfolio s = rt_portfolio (rn_router s)"

definition on_portfolio :: "(portfolio \<Rightarrow> portfolio) \<Rightarrow> ('v, 's) runner \<Rightarrow> ('v, 's) runner" where
  "on_portfolio f s = s\<lparr>rn_router := (rn_router s)\<lparr>rt_portfolio := f (rt_portfolio (rn_router s))\<rparr>\<rparr>"

definition count :: "(runner_stats \<Rightarrow> runner_stats) \<Rightarrow> ('v, 's) runner \<Rightarrow> ('v, 's) runner" where
  "count f s = s\<lparr>rn_stats := f (rn_stats s)\<rparr>"

definition open_orders :: "('v, 's) runner \<Rightarrow> order list" where
  "open_orders s = dict_values (rn_open s)"

definition order_changed :: "order \<Rightarrow> ('v, 's) runner \<Rightarrow> ('v, 's) runner" where
  "order_changed o1 s =
     (let same = (\<lambda>w. if o_id w = o_id o1 then o1 else w) in
      s\<lparr>rn_open := map (\<lambda>(k, w). (k, same w)) (rn_open s),
        rn_entries := map (\<lambda>(k, w, live). (k, if live then same w else w, live)) (rn_entries s),
        rn_fills := map (\<lambda>(w, f, live). (if live then same w else w, f, live)) (rn_fills s),
        rn_router := (if o_id o1 \<in> set (rn_detached s) then rn_router s else child_changed o1 (rn_router s))\<rparr>)"

definition track :: "order \<Rightarrow> ('v, 's) runner \<Rightarrow> ('v, 's) runner" where
  "track o1 s =
     (if is_complete o1 then s\<lparr>rn_open := dict_pop (o_client_id o1) (rn_open s)\<rparr>
      else s\<lparr>rn_open := dict_set (o_client_id o1) o1 (rn_open s)\<rparr>)"

text \<open>The live context, as the strategy reads it.\<close>

definition live_history :: "bar list dict \<Rightarrow> string \<Rightarrow> int \<Rightarrow> exn + bar list" where
  "live_history bars s lookback =
     (let available = dict_get_or bars s [] in
      if int (length available) < lookback then Inl (DataGapError (Reason ''needs more bars'' [s] []))
      else Inr (py_last lookback available))"

definition live_closes :: "bar list dict \<Rightarrow> string \<Rightarrow> int \<Rightarrow> dec list" where
  "live_closes bars s lookback = map b_close (if lookback > 0 then py_last lookback (dict_get_or bars s []) else [])"

definition live_last_price :: "('v, 's) runner \<Rightarrow> string \<Rightarrow> dec option" where
  "live_last_price s sm =
     (let available = dict_get_or (rn_bars s) sm [] in if available = [] then None else Some (b_close (last available)))"

definition live_view :: "'s runner_setup \<Rightarrow> ts \<Rightarrow> ('v, 's) runner \<Rightarrow> view" where
  "live_view C now s = \<lparr>vw_visible = (\<lambda>sm. dict_get_or (rn_bars s) sm []), vw_now = now, vw_symbols = rs_symbols C,
     vw_portfolio = rn_portfolio s\<rparr>"

definition live_atr :: "'s runner_setup \<Rightarrow> string \<Rightarrow> ('v, 's) runner \<Rightarrow> exn + dec option" where
  "live_atr C sm s = rs_atr C (dict_get_or (rn_bars s) sm []) (sc_period (rs_stop C))"

section \<open>Protection\<close>

definition record_refusal :: "'v runner_ports \<Rightarrow> submit_result \<Rightarrow> ('v, 's, unit) ran" where
  "record_refusal P r =
     (case sr_order r of
        None \<Rightarrow> ret ()
      | Some o1 \<Rightarrow> if sr_submitted r then ret () else bind_a (attempt (out (rp_save_order P o1))) (\<lambda>_. ret ()))"

definition forget_gap :: "string \<Rightarrow> ('v, 's) runner \<Rightarrow> ('v, 's) runner" where
  "forget_gap sm s = s\<lparr>rn_unprotected := dict_pop sm (rn_unprotected s), rn_entries := dict_pop sm (rn_entries s)\<rparr>"

definition note_gap :: "string \<Rightarrow> dec \<Rightarrow> order \<times> bool \<Rightarrow> ('v, 's) runner \<Rightarrow> ('v, 's) runner" where
  "note_gap sm q entry s = s\<lparr>rn_unprotected := dict_set sm q (rn_unprotected s), rn_entries := dict_set sm entry (rn_entries s)\<rparr>"

text \<open>\<open>live\<close>: whether the entry is the working object, which it is except in a retry.\<close>

definition protect :: "'v runner_ports \<Rightarrow> 's runner_setup \<Rightarrow> order \<Rightarrow> bool \<Rightarrow> bool \<Rightarrow> ('v, 's, unit) ran" where
  "protect P C entry live retry =
     (let sm = o_symbol entry in
      bind_a (modify_a (on_portfolio (touch_position sm))) (\<lambda>_.
      bind_a (gets_a (\<lambda>s. position_of sm (rn_portfolio s))) (\<lambda>p.
      if is_flat p \<or> (0 < p_qty p) \<noteq> (o_side entry = BUY) then ret ()
      else
        bind_a (attempt (bind_a (checked (live_atr C sm)) (\<lambda>atr.
                  in_router (submit_protective_orders (rp_router P) entry (Some (rs_stop C)) atr)))) (\<lambda>r.
        case r of
          Inl e \<Rightarrow> bind_a (modify_a (\<lambda>s. note_gap sm (dabs (p_qty (position_of sm (rn_portfolio s)))) (entry, live) s)) (\<lambda>_. raise_a e)
        | Inr res \<Rightarrow>
            bind_a (modify_a (fold track (pr_placed res))) (\<lambda>_.
            if pr_deferred res then modify_a (note_gap sm (pr_unprotected res) (entry, live))
            else if is_fully_protected res then modify_a (forget_gap sm)
            else
              bind_a (modify_a (note_gap sm (pr_unprotected res) (entry, live))) (\<lambda>_.
              if retry then ret () else for_a (\<lambda>x _. record_refusal P x) (pr_refused res) ()))))))"

definition note_protection_gap :: "string \<Rightarrow> ('v, 's) runner \<Rightarrow> ('v, 's) runner" where
  "note_protection_gap sm s =
     (case dict_get (pf_positions (rn_portfolio s)) sm of
        None \<Rightarrow> s
      | Some p \<Rightarrow>
          if is_flat p then s
          else
            let missing = dsub (dabs (p_qty p)) (broker_side_protected_qty sm p (rn_router s)) in
            if missing \<le> 0 then s else s\<lparr>rn_unprotected := dict_set sm missing (rn_unprotected s)\<rparr>)"

text \<open>One symbol of the retry pass: a retry that raises is left for the next one.\<close>

definition retry_one :: "'v runner_ports \<Rightarrow> 's runner_setup \<Rightarrow> string \<times> order \<times> bool \<Rightarrow> ('v, 's, unit) ran" where
  "retry_one P C x =
     (case x of (sm, entry, live) \<Rightarrow>
        bind_a (gets_a (\<lambda>s. dict_get (pf_positions (rn_portfolio s)) sm)) (\<lambda>held.
        if (case held of None \<Rightarrow> True | Some p \<Rightarrow> is_flat p) then modify_a (forget_gap sm)
        else if \<not> is_complete entry then ret ()
        else bind_a (attempt (protect P C entry live True)) (\<lambda>_. ret ())))"

definition retry_protection :: "'v runner_ports \<Rightarrow> 's runner_setup \<Rightarrow> ('v, 's, unit) ran" where
  "retry_protection P C = bind_a (gets_a rn_entries) (\<lambda>xs. for_a (\<lambda>x _. retry_one P C x) xs ())"

definition stop_is_missing :: "position \<Rightarrow> ('v, 's) runner \<Rightarrow> bool" where
  "stop_is_missing p s \<longleftrightarrow> dict_get (rn_unprotected s) (p_symbol p) \<noteq> None
     \<and> broker_side_protected_qty (p_symbol p) p (rn_router s) < dabs (p_qty p)"

section \<open>Venue events\<close>

definition apply_to_portfolio :: "order \<Rightarrow> fill \<Rightarrow> portfolio \<Rightarrow> exn + portfolio" where
  "apply_to_portfolio o1 f pf =
     (let sm = o_symbol o1; sign = side_sign (o_side o1) in
      bind_r (position_apply_fill f (dmul (f_qty f) sign) (position_of sm pf)) (\<lambda>(_, p1).
      Inr ((put_position sm p1 pf)\<lparr>pf_cash := dsub (pf_cash pf) (dadd (dmul (dmul (f_qty f) (f_price f)) sign) (f_fee f))\<rparr>)))"

definition book_on_runner :: "order \<Rightarrow> fill \<Rightarrow> ('v, 's, unit) ran" where
  "book_on_runner o1 f = (\<lambda>s.
     case apply_to_portfolio o1 f (rn_portfolio s) of
       Inl e \<Rightarrow> (Inl e, on_portfolio (touch_position (o_symbol o1)) s)
     | Inr pf \<Rightarrow>
         let s1 = on_portfolio (\<lambda>_. pf) s
         in (Inr (), if is_flat (position_of (o_symbol o1) pf) then forget_gap (o_symbol o1) s1 else s1))"

definition disarm_if_flat :: "'v runner_ports \<Rightarrow> order \<Rightarrow> ('v, 's, unit) ran" where
  "disarm_if_flat P o1 =
     bind_a (gets_a (\<lambda>s. is_flat (position_of (o_symbol o1) (rn_portfolio s)))) (\<lambda>flat.
     if flat then bind_a (in_router (cancel_protection (rp_router P) (o_symbol o1))) (\<lambda>_. ret ()) else ret ())"

definition announce :: "'v runner_ports \<Rightarrow> string \<Rightarrow> string \<Rightarrow> ('v, 's, unit) ran" where
  "announce P channel what =
     (case rp_publish P of None \<Rightarrow> ret () | Some send \<Rightarrow> bind_a (attempt (out (send channel what))) (\<lambda>_. ret ()))"

definition save_book :: "'v runner_ports \<Rightarrow> ('v, 's, ts) ran" where
  "save_book P =
     bind_a (gets_a open_orders) (\<lambda>os.
     bind_a (for_a (\<lambda>o1 _. out (rp_save_order P o1)) os ()) (\<lambda>_.
     bind_a (clock_now P) (\<lambda>now.
     bind_a (gets_a rn_portfolio) (\<lambda>pf.
     bind_a (out (rp_save_book P pf now)) (\<lambda>_. ret now)))))"

definition checkpoint :: "'v runner_ports \<Rightarrow> ('v, 's, unit) ran" where
  "checkpoint P =
     bind_a (gets_a rn_book_bound) (\<lambda>bound.
     if \<not> bound then ret () else bind_a (attempt (save_book P)) (\<lambda>_. ret ()))"

definition applied_update :: "trade_update \<Rightarrow> order \<Rightarrow> ('v, 's, bool \<times> order) ran" where
  "applied_update u o1 = (\<lambda>s. case apply_trade_update u o1 of (r, o2) \<Rightarrow> (bind_r r (\<lambda>b. Inr (b, o2)), order_changed o2 s))"

definition on_fill_event :: "'v runner_ports \<Rightarrow> 's runner_setup \<Rightarrow> trade_update \<Rightarrow> ('v, 's, unit) ran" where
  "on_fill_event P C u =
     bind_a (gets_a (\<lambda>s. dict_get (rn_open s) (u_client_id u))) (\<lambda>known.
     case known of
       None \<Rightarrow> ret ()
     | Some o1 \<Rightarrow>
         bind_a (applied_update u o1) (\<lambda>(moved, o2).
         if \<not> moved then ret ()
         else
           let booked = o_fills o2 \<noteq> [] \<and> o_filled o1 < o_filled o2; f = last (o_fills o2) in
           bind_a (if booked then
                     bind_a (book_on_runner o2 f) (\<lambda>_.
                     bind_a (modify_a (\<lambda>s. count (\<lambda>st. st\<lparr>st_fills := st_fills st + 1\<rparr>) (s\<lparr>rn_fills := rn_fills s @ [(o2, f, True)]\<rparr>))) (\<lambda>_.
                     bind_a (disarm_if_flat P o2) (\<lambda>_.
                     bind_a (protect P C o2 True False) (\<lambda>_.
                     announce P ''orders'' (o_id o2)))))
                   else if is_complete o2 \<and> \<not> is_complete o1 \<and> 0 < o_filled o2 then protect P C o2 True False
                   else ret ()) (\<lambda>_.
           bind_a (if is_complete o2
                   then bind_a (out (rp_save_order P o2)) (\<lambda>_. modify_a (\<lambda>s. s\<lparr>rn_open := dict_pop (o_client_id o2) (rn_open s)\<rparr>))
                   else ret ()) (\<lambda>_.
           if booked then checkpoint P else ret ()))))"

end
