(* ===== verification/RunnerLoop.thy ===== *)
theory RunnerLoop
  imports Runner
begin

text \<open>
  \<open>worker/runner.py\<close>, what the live strategy runner does: the six steps of an evaluation and what is
  made of their failures, the warm-up with its catch-up and its reconciliation, quarantine, the loop
  around the trading day and the shutdown. \<open>execution/recovery.py\<close>'s reading of the venue and
  \<open>execution/reconciliation.py\<close>'s two readings are here as the actions the runner calls.

  The loop's body is \<open>loop_turn\<close>; \<open>run_for\<close> repeats it as often as the fuel allows, and says how it
  stood then. Venue events, checkpoints and a shutdown
  arrive between the actions (\<open>runner_step\<close>, in \<open>RunnerSafety\<close>).
  Log lines and metrics are not modelled; what an alert says is a \<open>reason\<close>.
\<close>

definition MAX_CONSECUTIVE_ERRORS :: int where "MAX_CONSECUTIVE_ERRORS = 3"
definition RATE_LIMIT_STORM_REFUSALS :: int where "RATE_LIMIT_STORM_REFUSALS = 5"
definition CLOSED_MARKET_FALLBACK_US :: int where "CLOSED_MARKET_FALLBACK_US = 300 * 10 ^ 6"
definition EVALUATED_MINUTES_KEPT :: int where "EVALUATED_MINUTES_KEPT = 4 * 86400 * 10 ^ 6"
definition IN_PROGRESS_BARS :: int where "IN_PROGRESS_BARS = 1"
definition QUARANTINE_ACTOR :: string where "QUARANTINE_ACTOR = ''strategy_runner''"

definition send_alert :: "'v runner_ports \<Rightarrow> severity \<Rightarrow> string \<Rightarrow> reason \<Rightarrow> ('v, 's, unit) ran" where
  "send_alert P sev key says =
     (case rp_alert P of None \<Rightarrow> ret ()
      | Some send \<Rightarrow> tell (send \<lparr>al_severity = sev, al_key = key, al_says = says\<rparr>))"

definition engage_halt ::
  "'v runner_ports \<Rightarrow> halt_scope \<Rightarrow> halt_reason \<Rightarrow> string \<Rightarrow> string \<Rightarrow> string option \<Rightarrow> ('v, 's, unit) ran" where
  "engage_halt P scope why who detail target =
     out (rp_engage P \<lparr>hq_scope = scope, hq_reason = why, hq_by = who, hq_detail = detail, hq_unproven = []\<rparr> target)"

definition is_session_series :: "'s runner_setup \<Rightarrow> bool" where
  "is_session_series C \<longleftrightarrow> 86400 \<le> timeframe_seconds (rs_timeframe C)"

definition bars_to_load :: "'s runner_setup \<Rightarrow> int" where
  "bars_to_load C = max (rs_warmup C) 1"

section \<open>Evaluating: bars and marks\<close>

text \<open>Carried: the bars that closed.\<close>

definition refresh_one :: "'v runner_ports \<Rightarrow> 's runner_setup \<Rightarrow> string \<Rightarrow> bar list \<Rightarrow> ('v, 's, bar list) ran" where
  "refresh_one P C sm fresh =
     bind_a (gets_a rn_decision) (\<lambda>decision.
     bind_a (out (rp_last_bars P sm (if decision = None then 1 else IN_PROGRESS_BARS + 1) None)) (\<lambda>fetched.
     let latest = (case decision of None \<Rightarrow> fetched
                   | Some d \<Rightarrow> filter (\<lambda>b. cs_local_date (rs_calendar C) (b_ts b) \<le> ss_day d) fetched) in
     if latest = [] then ret fresh
     else
       let b = last latest in
       bind_a (gets_a (\<lambda>s. dict_get_or (rn_bars s) sm [])) (\<lambda>held.
       if held \<noteq> [] \<and> b_ts b \<le> b_ts (last held) then ret fresh
       else bind_a (modify_a (\<lambda>s. s\<lparr>rn_bars := dict_set sm (held @ [b]) (rn_bars s)\<rparr>)) (\<lambda>_. ret (fresh @ [b])))))"

definition refresh_bars :: "'v runner_ports \<Rightarrow> 's runner_setup \<Rightarrow> ('v, 's, bar list) ran" where
  "refresh_bars P C = for_a (refresh_one P C) (rs_symbols C) []"

definition set_mark :: "string \<Rightarrow> dec \<Rightarrow> ('v, 's) runner \<Rightarrow> ('v, 's) runner" where
  "set_mark sm x = on_portfolio (\<lambda>pf. put_position sm ((position_of sm pf)\<lparr>p_last := Some x\<rparr>) pf)"

definition mark_one :: "quote dict \<Rightarrow> string \<Rightarrow> ('v, 's) runner \<Rightarrow> ('v, 's) runner" where
  "mark_one quotes sm s =
     (case dict_get quotes sm of
        Some q \<Rightarrow> set_mark sm (mid q) (s\<lparr>rn_quotes := dict_set sm q (rn_quotes s)\<rparr>)
      | None \<Rightarrow> (case live_last_price s sm of Some x \<Rightarrow> set_mark sm x s | None \<Rightarrow> s))"

definition symbols_to_mark :: "'s runner_setup \<Rightarrow> portfolio \<Rightarrow> string list" where
  "symbols_to_mark C pf =
     rs_symbols C @ str_sort (remdups (filter (\<lambda>sm. sm \<notin> set (rs_symbols C)) (map p_symbol (open_positions pf))))"

definition mark_book :: "'v runner_ports \<Rightarrow> 's runner_setup \<Rightarrow> ('v, 's, unit) ran" where
  "mark_book P C =
     bind_a (gets_a (\<lambda>s. symbols_to_mark C (rn_portfolio s))) (\<lambda>wanted.
     if wanted = [] then ret ()
     else bind_a (out (rp_quotes P wanted)) (\<lambda>quotes. modify_a (fold (mark_one quotes) wanted)))"

section \<open>Evaluating: the session's starting equity\<close>

definition session_around :: "'s runner_setup \<Rightarrow> ts \<Rightarrow> exn + session option" where
  "session_around C now =
     bind_r (sessions (rs_calendar C) (utc_date now - 1) (utc_date now + 1)) (\<lambda>xs.
     Inr (find (\<lambda>x. ss_open x \<le> now \<and> now < ss_close x) xs))"

definition session_day :: "'s runner_setup \<Rightarrow> ts \<Rightarrow> exn + date" where
  "session_day C now =
     bind_r (session_around C now) (\<lambda>here. case here of
         Some x \<Rightarrow> Inr (ss_day x)
       | None \<Rightarrow> bind_r (next_open (rs_calendar C) now) (\<lambda>t. Inr (cs_local_date (rs_calendar C) t)))"

definition set_anchor :: "dec \<Rightarrow> ('v, 's) runner \<Rightarrow> ('v, 's) runner" where
  "set_anchor eq s =
     s\<lparr>rn_anchor_pending := False,
       rn_router := (rn_router s)\<lparr>rt_engine := snd (anchor_session eq (rt_engine (rn_router s)))\<rparr>\<rparr>"

definition anchor_if_pending :: "'v runner_ports \<Rightarrow> 's runner_setup \<Rightarrow> ('v, 's, unit) ran" where
  "anchor_if_pending P C =
     bind_a (gets_a (\<lambda>s. (rn_anchor_pending s, unmarked_symbols (rn_portfolio s)))) (\<lambda>(pending, unpriced).
     if \<not> pending \<or> unpriced \<noteq> [] then ret ()
     else
       bind_a (clock_now P) (\<lambda>now.
       bind_a (lift_a (session_day C now)) (\<lambda>day.
       bind_a (case rp_anchor P of None \<Rightarrow> ret (Inr None) | Some (get, _) \<Rightarrow> attempt (out (get day))) (\<lambda>stored.
       case stored of
         Inl _ \<Rightarrow> bind_a (modify_a (\<lambda>s. s\<lparr>rn_anchor_pending := False\<rparr>)) (\<lambda>_.
                   send_alert P CRITICAL ''risk.session_anchor_unreadable'' (Reason ''could not be anchored'' [] [of_int day]))
       | Inr (Some eq) \<Rightarrow> modify_a (set_anchor eq)
       | Inr None \<Rightarrow>
           bind_a (gets_a (\<lambda>s. equity (rn_portfolio s))) (\<lambda>eq.
           bind_a (modify_a (set_anchor eq)) (\<lambda>_.
           case rp_anchor P of None \<Rightarrow> ret ()
           | Some (_, put) \<Rightarrow> bind_a (attempt (out (put day eq))) (\<lambda>_. ret ())))))))"

section \<open>Evaluating: stops\<close>

definition bars_held :: "position \<Rightarrow> ('v, 's) runner \<Rightarrow> int option" where
  "bars_held p s =
     (case p_opened_at p of None \<Rightarrow> None
      | Some t \<Rightarrow> Some (int (length (filter (\<lambda>b. t \<le> b_ts b) (dict_get_or (rn_bars s) (p_symbol p) [])))))"

definition exit_reason :: "'s runner_setup \<Rightarrow> position \<Rightarrow> bar \<Rightarrow> ('v, 's) runner \<Rightarrow> exn + string option" where
  "exit_reason C p b s =
     (if sc_type (rs_stop C) = TIME then
        (case bars_held p s of None \<Rightarrow> Inr None
         | Some n \<Rightarrow> bind_r (time_exit_due n (rs_stop C)) (\<lambda>due. Inr (if due then Some PURPOSE_TIME_EXIT else None)))
      else if sc_broker_side (rs_stop C) \<and> \<not> stop_is_missing p s
      then Inr (if target_hit p b then Some PURPOSE_TAKE_PROFIT else None)
      else if should_trigger p b then Inr (Some PURPOSE_STOP_LOSS)
      else Inr (if target_hit p b then Some PURPOSE_TAKE_PROFIT else None))"

definition trail :: "'s runner_setup \<Rightarrow> string \<Rightarrow> bar \<Rightarrow> ('v, 's, unit) ran" where
  "trail C sm b =
     (if sc_type (rs_stop C) \<notin> set TRAILING_TYPES then ret ()
      else
        bind_a (checked (live_atr C sm)) (\<lambda>atr s.
        case update_trailing (position_of sm (rn_portfolio s)) b (rs_stop C) atr of
          (r, p1) \<Rightarrow> (map_sum id (\<lambda>_. ()) r, on_portfolio (put_position sm p1) s)))"

definition check_stop :: "'v runner_ports \<Rightarrow> 's runner_setup \<Rightarrow> bar list \<Rightarrow> string \<Rightarrow> ('v, 's, unit) ran" where
  "check_stop P C fresh sm =
     (case find (\<lambda>b. b_symbol b = sm) (rev fresh) of
        None \<Rightarrow> ret ()
      | Some b \<Rightarrow>
          bind_a (trail C sm b) (\<lambda>_.
          bind_a (checked (\<lambda>s. exit_reason C (position_of sm (rn_portfolio s)) b s)) (\<lambda>why.
          case why of
            None \<Rightarrow> ret ()
          | Some purpose \<Rightarrow>
              bind_a (modify_a (count (\<lambda>st. st\<lparr>st_stops := st_stops st + 1\<rparr>))) (\<lambda>_.
              bind_a (in_router (flatten (rp_router P) sm None purpose)) (\<lambda>res.
              if \<not> sr_submitted res
              then bind_a (record_refusal P res) (\<lambda>_. modify_a (note_protection_gap sm))
              else (case sr_order res of None \<Rightarrow> ret () | Some o1 \<Rightarrow> modify_a (track o1)))))))"

definition check_all_stops :: "'v runner_ports \<Rightarrow> 's runner_setup \<Rightarrow> bar list \<Rightarrow> ('v, 's, unit) ran" where
  "check_all_stops P C fresh =
     bind_a (gets_a (\<lambda>s. map p_symbol (open_positions (rn_portfolio s)))) (\<lambda>syms.
     for_a (\<lambda>sm _. check_stop P C fresh sm) syms ())"

section \<open>Evaluating: the strategy\<close>

definition asked ::
  "(view \<Rightarrow> 's \<Rightarrow> (exn + signal list) \<times> string list \<times> 's) \<Rightarrow> 'v runner_ports \<Rightarrow> 's runner_setup
     \<Rightarrow> ('v, 's, signal list) ran" where
  "asked f P C =
     bind_a (clock_now P) (\<lambda>now s.
     case f (live_view C now s) (rn_strategy s) of
       (r, touched, st) \<Rightarrow> (r, on_portfolio (fold touch_position touched) (s\<lparr>rn_strategy := st\<rparr>)))"

definition drain_fills :: "'v runner_ports \<Rightarrow> 's runner_setup \<Rightarrow> ('v, 's, signal list) ran" where
  "drain_fills P C =
     bind_a (gets_a rn_fills) (\<lambda>pending.
     bind_a (modify_a (\<lambda>s. s\<lparr>rn_fills := []\<rparr>)) (\<lambda>_.
     for_a (\<lambda>(o1, f, _) sigs. bind_a (asked (\<lambda>v. rs_on_fill C v o1 f) P C) (\<lambda>xs. ret (sigs @ xs))) pending []))"

definition stamp :: "'s runner_setup \<Rightarrow> session option \<Rightarrow> bar \<Rightarrow> signal \<Rightarrow> signal" where
  "stamp C decision b sg =
     (if decision = None then sg else sg\<lparr>sg_ts := b_ts b + timeframe_seconds (rs_timeframe C) * 10 ^ 6\<rparr>)"

definition holds :: "('v, 's) runner \<Rightarrow> string \<Rightarrow> bool" where
  "holds s sm \<longleftrightarrow> (case dict_get (pf_positions (rn_portfolio s)) sm of None \<Rightarrow> False | Some p \<Rightarrow> \<not> is_flat p)"

definition admitted_cold :: "('v, 's) runner \<Rightarrow> signal \<Rightarrow> bool" where
  "admitted_cold s sg \<longleftrightarrow> sg_action sg = EXIT \<and> holds s (sg_symbol sg)"

definition poll_one :: "'v runner_ports \<Rightarrow> 's runner_setup \<Rightarrow> bar \<Rightarrow> signal list \<Rightarrow> ('v, 's, signal list) ran" where
  "poll_one P C b sigs =
     bind_a (asked (\<lambda>v. rs_on_bar C v b) P C) (\<lambda>xs.
     bind_a (gets_a (\<lambda>s. map (stamp C (rn_decision s) b) xs)) (\<lambda>produced s.
     if int (length (dict_get_or (rn_bars s) (b_symbol b) [])) > rs_warmup C then (Inr (sigs @ produced), s)
     else
       let said = filter (\<lambda>sg. sg_action sg \<noteq> HOLD) produced in
       (Inr (sigs @ filter (admitted_cold s) said),
        count (\<lambda>st. st\<lparr>st_discarded_cold := st_discarded_cold st + int (length (filter (\<lambda>sg. \<not> admitted_cold s sg) said))\<rparr>) s)))"

definition poll_strategy :: "'v runner_ports \<Rightarrow> 's runner_setup \<Rightarrow> bar list \<Rightarrow> ('v, 's, signal list) ran" where
  "poll_strategy P C fresh = for_a (poll_one P C) fresh []"

section \<open>Evaluating: submitting what was asked for\<close>

definition with_stop :: "'s runner_setup \<Rightarrow> signal \<Rightarrow> ('v, 's) runner \<Rightarrow> exn + signal" where
  "with_stop C sg s =
     (if sg_stop_loss sg \<noteq> None \<or> sg_action sg \<notin> {ENTER_LONG, ENTER_SHORT} \<or> sc_type (rs_stop C) = TIME then Inr sg
      else case live_last_price s (sg_symbol sg) of
          None \<Rightarrow> Inr sg
        | Some price \<Rightarrow>
            let sd = (if sg_action sg = ENTER_LONG then BUY else SELL) in
            suppress sg
              (bind_r (bind_r (live_atr C (sg_symbol sg) s) (initial_stop price sd (rs_stop C))) (\<lambda>level.
               Inr (sg\<lparr>sg_stop_loss := Some level\<rparr>))))"

definition outcome_of :: "submit_result \<Rightarrow> signal_outcome" where
  "outcome_of r =
     (let d = sr_decision r in
      \<lparr>so_acted = sr_submitted r,
       so_reason = (if sr_submitted r \<or> rd_reason d = no_reason then None else Some (rd_reason d)),
       so_rule = (if sr_submitted r \<or> rd_rule d = [] then None else Some (rd_rule d))\<rparr>)"

definition remember_signal :: "'s runner_setup \<Rightarrow> signal \<times> signal_outcome \<Rightarrow> ('v, 's) runner \<Rightarrow> ('v, 's) runner" where
  "remember_signal C x s =
     (let xs = rn_recent s @ [x] in s\<lparr>rn_recent := drop (length xs - rs_signal_limit C) xs\<rparr>)"

definition record_signal :: "'v runner_ports \<Rightarrow> 's runner_setup \<Rightarrow> signal \<Rightarrow> submit_result \<Rightarrow> ('v, 's, unit) ran" where
  "record_signal P C sg r =
     bind_a (out (rp_save_signal P sg (outcome_of r))) (\<lambda>_.
     bind_a (modify_a (remember_signal C (sg, outcome_of r))) (\<lambda>_. announce P ''signals'' (sg_id sg)))"

definition reason_key :: "reason \<Rightarrow> string" where
  "reason_key w = (case w of Reason k _ _ \<Rightarrow> k)"

definition escalate :: "'v runner_ports \<Rightarrow> risk_decision \<Rightarrow> ('v, 's, unit) ran" where
  "escalate P d =
     (if rd_rule d = DAILY_LOSS_RULE then
        bind_a (engage_halt P GLOBAL DAILY_LOSS_LIMIT DAILY_LOSS_RULE (reason_key (rd_reason d)) None) (\<lambda>_.
        modify_a (\<lambda>s. s\<lparr>rn_rate_refusals := 0\<rparr>))
      else if rd_rule d = RATE_LIMIT_RULE then
        bind_a (modify_a (\<lambda>s. s\<lparr>rn_rate_refusals := rn_rate_refusals s + 1\<rparr>)) (\<lambda>_.
        bind_a (gets_a rn_rate_refusals) (\<lambda>n.
        if RATE_LIMIT_STORM_REFUSALS \<le> n
        then engage_halt P GLOBAL RATE_LIMIT_STORM RATE_LIMIT_RULE (reason_key (rd_reason d)) None else ret ()))
      else modify_a (\<lambda>s. s\<lparr>rn_rate_refusals := 0\<rparr>))"

definition note_refusal :: "'v runner_ports \<Rightarrow> risk_decision \<Rightarrow> ('v, 's, unit) ran" where
  "note_refusal P d =
     (if rd_rule d = NO_ACTION then ret ()
      else if rd_approved d then modify_a (count (\<lambda>st. st\<lparr>st_rejected_by_venue := st_rejected_by_venue st + 1\<rparr>))
      else bind_a (modify_a (count (\<lambda>st. st\<lparr>st_refused_by_risk := st_refused_by_risk st + 1\<rparr>))) (\<lambda>_. escalate P d))"

definition submit_one :: "'v runner_ports \<Rightarrow> 's runner_setup \<Rightarrow> signal \<Rightarrow> ('v, 's, unit) ran" where
  "submit_one P C sg =
     (if sg_action sg = HOLD then ret ()
      else
        bind_a (modify_a (count (\<lambda>st. st\<lparr>st_signals := st_signals st + 1\<rparr>))) (\<lambda>_.
        bind_a (checked (with_stop C sg)) (\<lambda>sg1.
        bind_a (gets_a open_orders) (\<lambda>pending.
        bind_a (in_router (submit_signal (rp_router P) sg1 (rs_sizing C) pending)) (\<lambda>res.
        bind_a (record_signal P C sg res) (\<lambda>_.
        if \<not> sr_submitted res
        then bind_a (note_refusal P (sr_decision res)) (\<lambda>_.
             bind_a (record_refusal P res) (\<lambda>_.
             if sg_action sg = EXIT then modify_a (note_protection_gap (sg_symbol sg)) else ret ()))
        else bind_a (modify_a (count (\<lambda>st. st\<lparr>st_submitted := st_submitted st + 1\<rparr>))) (\<lambda>_.
             case sr_order res of None \<Rightarrow> ret () | Some o1 \<Rightarrow> modify_a (track o1))))))))"

definition submit_all :: "'v runner_ports \<Rightarrow> 's runner_setup \<Rightarrow> signal list \<Rightarrow> ('v, 's, unit) ran" where
  "submit_all P C sigs = for_a (\<lambda>sg _. submit_one P C sg) sigs ()"

section \<open>Evaluating: what is written and announced\<close>

text \<open>The positions with their cover at the broker, and the naked quantities.\<close>

definition cover_position :: "string \<Rightarrow> dec dict \<Rightarrow> ('v, 's) runner \<Rightarrow> dec dict \<times> ('v, 's) runner" where
  "cover_position sm naked s =
     (let p = position_of sm (rn_portfolio s);
          p1 = p\<lparr>p_broker_protected := broker_side_protected_qty (p_symbol p) p (rn_router s)\<rparr>
      in (if 0 < unprotected_qty p1 then dict_set (p_symbol p1) (unprotected_qty p1) naked else naked,
          on_portfolio (put_position sm p1) s))"

definition announce_unprotected :: "'v runner_ports \<Rightarrow> 's runner_setup \<Rightarrow> dec dict \<Rightarrow> ('v, 's, unit) ran" where
  "announce_unprotected P C naked =
     (if rp_alert P = None then ret ()
      else
        bind_a (clock_now P) (\<lambda>now.
        bind_a (modify_a (\<lambda>s. s\<lparr>rn_since := map (\<lambda>sm. (sm, dict_get_or (rn_since s) sm now)) (dict_keys naked)\<rparr>)) (\<lambda>_.
        bind_a (gets_a rn_alerted) (\<lambda>alerted.
        if naked = [] then
          bind_a (if alerted \<noteq> [] then send_alert P INFO ''protection.restored'' (Reason ''protection restored'' [] [of_nat (length alerted)])
                  else ret ()) (\<lambda>_. modify_a (\<lambda>s. s\<lparr>rn_alerted := [], rn_alerted_at := None\<rparr>))
        else
          let newly = filter (\<lambda>sm. sm \<notin> set alerted) (dict_keys naked) in
          bind_a (gets_a (\<lambda>s. (rn_alerted_at s, Min (set (dict_values (rn_since s)))))) (\<lambda>(last_at, oldest).
          if newly = [] \<and> (case last_at of None \<Rightarrow> False | Some t \<Rightarrow> now - t < rs_cooldown_us C) then ret ()
          else
            bind_a (send_alert P CRITICAL ''protection.unprotected''
              (Reason (if newly = [] then ''still no stop at the broker'' else ''no stop at the broker'')
                 (str_sort (dict_keys naked)) [of_int ((now - oldest) div (60 * 10 ^ 6))])) (\<lambda>_.
            modify_a (\<lambda>s. s\<lparr>rn_alerted := dict_keys naked, rn_alerted_at := Some now\<rparr>)))))))"

definition mark_broker_protection :: "'v runner_ports \<Rightarrow> 's runner_setup \<Rightarrow> ('v, 's, unit) ran" where
  "mark_broker_protection P C =
     bind_a (gets_a (\<lambda>s. map p_symbol (open_positions (rn_portfolio s)))) (\<lambda>syms.
     bind_a (for_a (\<lambda>sm naked s. case cover_position sm naked s of (n, s1) \<Rightarrow> (Inr n, s1)) syms []) (\<lambda>naked.
     announce_unprotected P C naked))"

definition publish_snapshot :: "'v runner_ports \<Rightarrow> 's runner_setup \<Rightarrow> ('v, 's, unit) ran" where
  "publish_snapshot P C =
     (case rp_put_snapshot P of None \<Rightarrow> ret ()
      | Some put \<Rightarrow>
          bind_a (attempt (bind_a (out (rp_quotes P (rs_symbols C))) (\<lambda>quotes.
                  bind_a (gets_a (\<lambda>s. (rn_portfolio s, open_orders s))) (\<lambda>(pf, ws). out (put pf ws quotes))))) (\<lambda>_. ret ()))"

definition persist :: "'v runner_ports \<Rightarrow> 's runner_setup \<Rightarrow> ('v, 's, unit) ran" where
  "persist P C = bind_a (mark_broker_protection P C) (\<lambda>_. bind_a (save_book P) (\<lambda>_. publish_snapshot P C))"

definition evaluate_once :: "'v runner_ports \<Rightarrow> 's runner_setup \<Rightarrow> ('v, 's, unit) ran" where
  "evaluate_once P C =
     bind_a (refresh_bars P C) (\<lambda>fresh.
     bind_a (mark_book P C) (\<lambda>_.
     bind_a (anchor_if_pending P C) (\<lambda>_.
     bind_a (retry_protection P C) (\<lambda>_.
     bind_a (check_all_stops P C fresh) (\<lambda>_.
     bind_a (drain_fills P C) (\<lambda>first.
     bind_a (poll_strategy P C fresh) (\<lambda>more.
     bind_a (submit_all P C (first @ more)) (\<lambda>_.
     bind_a (persist P C) (\<lambda>_.
     bind_a (clock_now P) (\<lambda>now.
     modify_a (count (\<lambda>st. st\<lparr>st_evaluations := st_evaluations st + 1, st_last_evaluation := Some now\<rparr>))))))))))))"

definition note_evaluated_minute :: "ts \<Rightarrow> ('v, 's) runner \<Rightarrow> ('v, 's) runner" where
  "note_evaluated_minute now =
     count (\<lambda>st. st\<lparr>st_minutes := filter (\<lambda>m. \<not> m < now - EVALUATED_MINUTES_KEPT)
       (List.insert (now - now mod (60 * 10 ^ 6)) (st_minutes st))\<rparr>)"

definition evaluate :: "'v runner_ports \<Rightarrow> 's runner_setup \<Rightarrow> ('v, 's, unit) ran" where
  "evaluate P C =
     bind_a (attempt (evaluate_once P C)) (\<lambda>r.
     case r of
       Inr _ \<Rightarrow>
         bind_a (modify_a (count (\<lambda>st. st\<lparr>st_consecutive := 0\<rparr>))) (\<lambda>_.
         bind_a (clock_now P) (\<lambda>now. modify_a (note_evaluated_minute now)))
     | Inl e \<Rightarrow>
         bind_a (modify_a (count (\<lambda>st. st\<lparr>st_errors := st_errors st + 1, st_consecutive := st_consecutive st + 1\<rparr>))) (\<lambda>_.
         bind_a (gets_a (\<lambda>s. st_consecutive (rn_stats s))) (\<lambda>n.
         if MAX_CONSECUTIVE_ERRORS \<le> n
         then engage_halt P STRATEGY UNHANDLED_EXCEPTION ''strategy_runner'' (rs_name C @ '' failed evaluations in a row'') (Some (rs_name C))
         else ret ())))"

section \<open>Recovery and reconciliation\<close>

text \<open>Carried: what the venue did to our orders while nobody listened.\<close>

definition read_one ::
  "'v runner_ports \<Rightarrow> ts \<Rightarrow> order \<Rightarrow> trade_update list \<Rightarrow> ('v, 's, trade_update list) ran" where
  "read_one P now ours us =
     (case o_broker_id ours of
        None \<Rightarrow> ret us
      | Some bid \<Rightarrow>
          bind_a (attempt (out (po_get (rp_router P) bid))) (\<lambda>r.
          case r of
            Inl e \<Rightarrow> if is_broker_error e then ret us else raise_a e
          | Inr None \<Rightarrow> ret us
          | Inr (Some theirs) \<Rightarrow>
              if o_client_id theirs \<noteq> o_client_id ours then ret us
              else ret (us @ missed_updates (rp_fill_key P) ours theirs now (Some (po_name (rp_router P))))))"

definition read_missed_updates :: "'v runner_ports \<Rightarrow> order list \<Rightarrow> ('v, 's, trade_update list) ran" where
  "read_missed_updates P os = bind_a (clock_now P) (\<lambda>now. for_a (read_one P now) os [])"

definition catch_up_one :: "'v runner_ports \<Rightarrow> 's runner_setup \<Rightarrow> trade_update \<Rightarrow> int \<Rightarrow> ('v, 's, int) ran" where
  "catch_up_one P C u n =
     bind_a (attempt (on_fill_event P C u)) (\<lambda>r.
     case r of
       Inr _ \<Rightarrow> ret (n + 1)
     | Inl e \<Rightarrow>
         if is_booking_refused e then ret n
         else raise_a (WarmupBlockedError (Reason ''booked a fill and could not complete it'' [u_client_id u, u_symbol u] [])))"

definition catch_up_on_orders :: "'v runner_ports \<Rightarrow> 's runner_setup \<Rightarrow> ('v, 's, int) ran" where
  "catch_up_on_orders P C =
     bind_a (gets_a open_orders) (\<lambda>os.
     if os = [] then ret 0
     else bind_a (read_missed_updates P os) (\<lambda>us. for_a (catch_up_one P C) us 0))"

definition settle_fees :: "'v runner_ports \<Rightarrow> ('v, 's, unit) ran" where
  "settle_fees P =
     (case rp_fees P of None \<Rightarrow> ret ()
      | Some settle \<Rightarrow>
          bind_a (gets_a rn_portfolio) (\<lambda>pf0. bind_a (out (settle pf0)) (\<lambda>pf. modify_a (on_portfolio (\<lambda>_. pf)))))"

definition compare_now :: "'v runner_ports \<Rightarrow> ('v, 's, reconciliation_report) ran" where
  "compare_now P =
     bind_a (gets_a (\<lambda>s. (rn_portfolio s, open_orders s))) (\<lambda>(book, known).
     bind_a (attempt (out (rp_venue P))) (\<lambda>answer.
     bind_a (clock_now P) (\<lambda>now.
     case compare_books now (rp_tolerance P) True \<lparr>rd_book = book, rd_known = known, rd_venue = answer\<rparr> of
       (r, halts) \<Rightarrow> bind_a (for_a (\<lambda>h _. out (rp_engage P h None)) halts ()) (\<lambda>_. lift_a r))))"

definition reconcile_now :: "'v runner_ports \<Rightarrow> ('v, 's, reconciliation_report) ran" where
  "reconcile_now P =
     bind_a (settle_fees P) (\<lambda>_.
     bind_a (compare_now P) (\<lambda>rep1.
     if is_clean rep1 then ret rep1
     else
       bind_a (if rp_settles P then bind_a (tell (rp_wait P (rp_settle_us P))) (\<lambda>_. compare_now P) else ret rep1) (\<lambda>rep.
       if is_clean rep then ret rep
       else bind_a (out (rp_engage P (mismatch_halt rep) None)) (\<lambda>_. ret rep))))"

section \<open>Warm-up\<close>

definition warmup_floor :: "'s runner_setup \<Rightarrow> ts \<Rightarrow> exn + ts option" where
  "warmup_floor C now =
     (if is_session_series C then Inr None
      else bind_r (session_around C now) (\<lambda>here. case here of
          Some x \<Rightarrow> Inr (Some (ss_open x))
        | None \<Rightarrow> bind_r (next_open (rs_calendar C) now) (\<lambda>t. Inr (Some t))))"

text \<open>The bars to hold, and whether the bar the session decides on was found and held back.\<close>

definition hold_back :: "'s runner_setup \<Rightarrow> session option \<Rightarrow> bar list \<Rightarrow> bar list \<times> bool" where
  "hold_back C decision bars =
     (case decision of
        None \<Rightarrow> (bars, False)
      | Some d \<Rightarrow>
          let upto = filter (\<lambda>b. cs_local_date (rs_calendar C) (b_ts b) \<le> ss_day d) bars in
          if upto \<noteq> [] \<and> cs_local_date (rs_calendar C) (b_ts (last upto)) = ss_day d then (butlast upto, True)
          else (upto, False))"

text \<open>Carried: the symbols without a bar to decide on.\<close>

definition load_bars ::
  "'v runner_ports \<Rightarrow> 's runner_setup \<Rightarrow> ts option \<Rightarrow> session option \<Rightarrow> string \<Rightarrow> string list \<Rightarrow> ('v, 's, string list) ran" where
  "load_bars P C floor_at decision sm missing =
     bind_a (out (rp_last_bars P sm (bars_to_load C + (if decision = None then 0 else 1)) floor_at)) (\<lambda>bars.
     case hold_back C decision bars of
       (kept, found) \<Rightarrow>
         bind_a (modify_a (\<lambda>s. s\<lparr>rn_bars := dict_set sm kept (rn_bars s)\<rparr>)) (\<lambda>_.
         ret (if decision \<noteq> None \<and> \<not> found then missing @ [sm] else missing)))"

text \<open>The working orders as the database has them replace the objects held so far.\<close>

definition restore_orders :: "order list \<Rightarrow> ('v, 's) runner \<Rightarrow> ('v, 's) runner" where
  "restore_orders os s =
     (let anew = (\<lambda>i. i \<in> set (map o_id os)) in
      s\<lparr>rn_open := fold (\<lambda>w d. dict_set (o_client_id w) w d) os (rn_open s),
        rn_entries := map (\<lambda>(k, w, live). (k, w, live \<and> \<not> anew (o_id w))) (rn_entries s),
        rn_fills := map (\<lambda>(w, f, live). (w, f, live \<and> \<not> anew (o_id w))) (rn_fills s),
        rn_detached := filter (\<lambda>i. anew i \<or> i \<in> set (rn_detached s)) (map o_id (all_children (rn_router s)))\<rparr>)"

definition announce_decision_bar :: "'v runner_ports \<Rightarrow> session \<Rightarrow> string list \<Rightarrow> ('v, 's, unit) ran" where
  "announce_decision_bar P d missing =
     (if missing = [] then ret ()
      else send_alert P WARNING ''runner.decision_bar_missing'' (Reason ''have no bar to decide on today'' (str_sort missing) [of_int (ss_day d)]))"

definition start_strategy :: "'s runner_setup \<Rightarrow> ('v, 's, unit) ran" where
  "start_strategy C = (\<lambda>s. case rs_on_start C (rn_strategy s) of (r, st) \<Rightarrow> (r, s\<lparr>rn_strategy := st\<rparr>))"

definition recover_book :: "'v runner_ports \<Rightarrow> 's runner_setup \<Rightarrow> ('v, 's, unit) ran" where
  "recover_book P C =
     bind_a (out (rp_open_orders P)) (\<lambda>restored.
     bind_a (modify_a (restore_orders restored)) (\<lambda>_.
     bind_a (bind_a (gets_a open_orders) (\<lambda>os. in_router (adopt_protection os))) (\<lambda>_.
     bind_a (catch_up_on_orders P C) (\<lambda>_.
     bind_a (reconcile_now P) (\<lambda>rep.
     if is_clean rep then ret ()
     else raise_a (ReconciliationDivergedError (Reason ''the book does not match the broker's'' [summary rep] [])))))))"

definition begin_session :: "'v runner_ports \<Rightarrow> 's runner_setup \<Rightarrow> session option \<Rightarrow> string list \<Rightarrow> ('v, 's, unit) ran" where
  "begin_session P C decision missing =
     bind_a (modify_a (\<lambda>s. s\<lparr>rn_anchor_pending := True\<rparr>)) (\<lambda>_.
     bind_a (case decision of None \<Rightarrow> ret () | Some d \<Rightarrow> announce_decision_bar P d missing) (\<lambda>_.
     bind_a (start_strategy C) (\<lambda>_.
     bind_a (clock_now P) (\<lambda>now.
     modify_a (count (\<lambda>st. st\<lparr>st_started_at := Some now\<rparr>))))))"

definition warmup :: "'v runner_ports \<Rightarrow> 's runner_setup \<Rightarrow> bool \<Rightarrow> ('v, 's, unit) ran" where
  "warmup P C at_session_open =
     bind_a (modify_a (\<lambda>s. s\<lparr>rn_book_bound := True\<rparr>)) (\<lambda>_.
     bind_a (out (rp_ensure_strategy P)) (\<lambda>_.
     bind_a (clock_now P) (\<lambda>now.
     bind_a (lift_a (warmup_floor C now)) (\<lambda>floor_at.
     bind_a (clock_now P) (\<lambda>now.
     bind_a (lift_a (if at_session_open \<and> is_session_series C then previous_session (rs_calendar C) now else Inr None)) (\<lambda>decision.
     bind_a (modify_a (\<lambda>s. s\<lparr>rn_decision := decision\<rparr>)) (\<lambda>_.
     bind_a (for_a (load_bars P C floor_at decision) (rs_symbols C) []) (\<lambda>missing.
     bind_a (recover_book P C) (\<lambda>_. begin_session P C decision missing)))))))))"

section \<open>The loop\<close>

text \<open>\<open>_quarantine\<close> up to the wait that nothing ends.\<close>

definition quarantine :: "'v runner_ports \<Rightarrow> exn \<Rightarrow> ('v, 's, unit) ran" where
  "quarantine P e =
     (let diverged = (case e of ReconciliationDivergedError _ \<Rightarrow> True | _ \<Rightarrow> False) in
      bind_a (engage_halt P GLOBAL (if diverged then RECONCILIATION_MISMATCH else UNHANDLED_EXCEPTION)
                QUARANTINE_ACTOR ''refusing to start'' None) (\<lambda>_.
      send_alert P CRITICAL (if diverged then ''runner.reconciliation_diverged'' else ''runner.warmup_blocked'')
        (Reason (if diverged then ''the book does not match the broker's'' else ''the worker cannot start'') [] [])))"

definition sleep_until_open :: "'v runner_ports \<Rightarrow> 's runner_setup \<Rightarrow> ts \<Rightarrow> ('v, 's, unit) ran" where
  "sleep_until_open P C now =
     (case next_open (rs_calendar C) now of
        Inr opens_at \<Rightarrow> tell (rp_wait P (max (opens_at - now) 0))
      | Inl e \<Rightarrow> if is_value_error e then tell (rp_wait P CLOSED_MARKET_FALLBACK_US) else raise_a e)"

text \<open>One turn of the loop: whether to go on.\<close>

definition loop_turn :: "'v runner_ports \<Rightarrow> 's runner_setup \<Rightarrow> ('v, 's, bool) ran" where
  "loop_turn P C =
     bind_a (clock_now P) (\<lambda>now.
     bind_a (lift_a (is_open_at (rs_calendar C) now)) (\<lambda>is_open.
     if \<not> is_open then
       bind_a (sleep_until_open P C now) (\<lambda>_.
       bind_a (gets_a rn_running) (\<lambda>running.
       if \<not> running then ret False else bind_a (warmup P C True) (\<lambda>_. ret True)))
     else bind_a (evaluate P C) (\<lambda>_. bind_a (tell (rp_wait P (rs_tick_us C))) (\<lambda>_. ret True))))"

datatype run_end = Stopped | Parked | StillRunning

fun run_loop :: "'v runner_ports \<Rightarrow> 's runner_setup \<Rightarrow> nat \<Rightarrow> ('v, 's, run_end) ran" where
  "run_loop P C 0 = ret StillRunning"
| "run_loop P C (Suc n) =
     bind_a (gets_a rn_running) (\<lambda>running.
     if \<not> running then ret Stopped
     else bind_a (loop_turn P C) (\<lambda>again. if again then run_loop P C n else ret Stopped))"

definition run_for :: "'v runner_ports \<Rightarrow> 's runner_setup \<Rightarrow> nat \<Rightarrow> ('v, 's, run_end) ran" where
  "run_for P C n =
     bind_a (modify_a (\<lambda>s. s\<lparr>rn_running := True\<rparr>)) (\<lambda>_.
     bind_a (attempt (bind_a (warmup P C True) (\<lambda>_. run_loop P C n))) (\<lambda>r.
     case r of
       Inr x \<Rightarrow> ret x
     | Inl e \<Rightarrow> if is_warmup_blocked e then bind_a (quarantine P e) (\<lambda>_. ret Parked) else raise_a e))"

definition close_one :: "'v runner_ports \<Rightarrow> string \<Rightarrow> ('v, 's, unit) ran" where
  "close_one P sm =
     bind_a (in_router (flatten (rp_router P) sm None PURPOSE_FLATTEN)) (\<lambda>res.
     if sr_submitted res then ret () else record_refusal P res)"

definition shutdown :: "'v runner_ports \<Rightarrow> 's runner_setup \<Rightarrow> bool \<Rightarrow> ('v, 's, unit) ran" where
  "shutdown P C close_positions =
     bind_a (modify_a (\<lambda>s. s\<lparr>rn_running := False\<rparr>)) (\<lambda>_.
     bind_a (\<lambda>s. case rs_on_stop C (rn_strategy s) of (r, st) \<Rightarrow> (r, s\<lparr>rn_strategy := st\<rparr>)) (\<lambda>_.
     bind_a (if \<not> close_positions then ret ()
             else bind_a (gets_a (\<lambda>s. if rn_book_bound s then map p_symbol (open_positions (rn_portfolio s)) else [])) (\<lambda>syms.
               for_a (\<lambda>sm _. close_one P sm) syms ())) (\<lambda>_.
     checkpoint P)))"

end
