(* ===== verification/RunnerSafety.thy ===== *)
theory RunnerSafety
  imports RunnerLoop RouterSafety
begin

text \<open>
  What holds across whole runs of the live runner. The locale \<open>runner_relation\<close> states what a relation
  between the states before and after needs so that every action of the runner moves along it: the
  ports move the world along \<open>W\<close>, the five entry points of the router move along it, and nothing else
  the runner does matters unless it touches the world, the risk engine or the count of consecutive
  failures (\<open>same_core\<close>).
\<close>

definition core_of :: "('v, 's) runner \<Rightarrow> 'v \<times> risk_engine \<times> int" where
  "core_of s = (rt_venue (rn_router s), rt_engine (rn_router s), st_consecutive (rn_stats s))"

definition same_core :: "('v, 's) runner \<Rightarrow> ('v, 's) runner \<Rightarrow> bool" where
  "same_core s s' \<longleftrightarrow> core_of s' = core_of s"

definition with_world :: "'v \<Rightarrow> ('v, 's) runner \<Rightarrow> ('v, 's) runner" where
  "with_world v s = s\<lparr>rn_router := (rn_router s)\<lparr>rt_venue := v\<rparr>\<rparr>"

definition ports_follow :: "('v \<Rightarrow> 'v \<Rightarrow> bool) \<Rightarrow> 'v runner_ports \<Rightarrow> bool" where
  "ports_follow W P \<longleftrightarrow>
     (\<forall>v. (\<forall>h t. W v (snd (rp_engage P h t v))) \<and> (\<forall>sm n t. W v (snd (rp_last_bars P sm n t v)))
      \<and> (\<forall>xs. W v (snd (rp_quotes P xs v))) \<and> W v (snd (rp_open_orders P v)) \<and> (\<forall>w. W v (snd (rp_save_order P w v)))
      \<and> (\<forall>pf t. W v (snd (rp_save_book P pf t v))) \<and> (\<forall>sg r. W v (snd (rp_save_signal P sg r v)))
      \<and> W v (snd (rp_ensure_strategy P v)) \<and> W v (snd (rp_venue P v)) \<and> (\<forall>n. W v (rp_wait P n v))
      \<and> (\<forall>f pf ws q. rp_put_snapshot P = Some f \<longrightarrow> W v (snd (f pf ws q v)))
      \<and> (\<forall>f c m. rp_publish P = Some f \<longrightarrow> W v (snd (f c m v)))
      \<and> (\<forall>f a. rp_alert P = Some f \<longrightarrow> W v (f a v))
      \<and> (\<forall>g p d e. rp_anchor P = Some (g, p) \<longrightarrow> W v (snd (g d v)) \<and> W v (snd (p d e v)))
      \<and> (\<forall>f pf. rp_fees P = Some f \<longrightarrow> W v (snd (f pf v)))
      \<and> (\<forall>b. W v (snd (po_get (rp_router P) b v))))"

lemma in_router_snd: "snd (in_router m s) = s\<lparr>rn_router := snd (m (rn_router s))\<rparr>"
  by (simp add: in_router_def split: prod.split)

lemma out_snd: "snd (out f s) = with_world (snd (f (rt_venue (rn_router s)))) s"
  by (simp add: out_def in_router_snd outside_def with_world_def split: prod.split)

lemma tell_snd: "snd (tell f s) = with_world (f (rt_venue (rn_router s))) s"
  by (simp add: tell_def out_snd)

lemma core_frames [simp]:
  "core_of (on_portfolio g s) = core_of s" "core_of (track w s) = core_of s" "core_of (order_changed w s) = core_of s"
  "core_of (forget_gap sm s) = core_of s" "core_of (note_gap sm q e s) = core_of s"
  "core_of (note_protection_gap sm s) = core_of s" "core_of (set_mark sm x s) = core_of s"
  "core_of (mark_one qs sm s) = core_of s" "core_of (remember_signal C y s) = core_of s"
  "core_of (snd (cover_position sm naked s)) = core_of s" "core_of (restore_orders os s) = core_of s"
  by (simp_all add: core_of_def on_portfolio_def track_def order_changed_def forget_gap_def note_gap_def Let_def
      note_protection_gap_def set_mark_def mark_one_def remember_signal_def cover_position_def restore_orders_def
      child_changed_def split: option.split)

lemma core_fields [simp]:
  "core_of (s\<lparr>rn_bars := a\<rparr>) = core_of s" "core_of (s\<lparr>rn_fills := b\<rparr>) = core_of s" "core_of (s\<lparr>rn_quotes := c\<rparr>) = core_of s"
  "core_of (s\<lparr>rn_open := d\<rparr>) = core_of s" "core_of (s\<lparr>rn_anchor_pending := e\<rparr>) = core_of s"
  "core_of (s\<lparr>rn_rate_refusals := f\<rparr>) = core_of s" "core_of (s\<lparr>rn_alerted := g, rn_alerted_at := h\<rparr>) = core_of s"
  "core_of (s\<lparr>rn_since := i\<rparr>) = core_of s" "core_of (s\<lparr>rn_strategy := j\<rparr>) = core_of s" "core_of (s\<lparr>rn_decision := k\<rparr>) = core_of s"
  "core_of (s\<lparr>rn_book_bound := l\<rparr>) = core_of s" "core_of (s\<lparr>rn_running := l\<rparr>) = core_of s"
  by (simp_all add: core_of_def)

lemma core_count [simp]:
  "st_consecutive (f (rn_stats s)) = st_consecutive (rn_stats s) \<Longrightarrow> core_of (count f s) = core_of s"
  by (simp add: core_of_def count_def)

lemma core_fold [simp]: "(\<And>x s. core_of (f x s) = core_of s) \<Longrightarrow> core_of (fold f xs s) = core_of s"
  by (induction xs arbitrary: s) simp_all

locale runner_relation = state_relation R
  for R :: "('v, 's) runner \<Rightarrow> ('v, 's) runner \<Rightarrow> bool" +
  fixes W :: "'v \<Rightarrow> 'v \<Rightarrow> bool" and P :: "'v runner_ports"
  assumes core: "same_core s s' \<Longrightarrow> R s s'"
    and world: "W (rt_venue (rn_router s)) v \<Longrightarrow> R s (with_world v s)"
    and ports: "ports_follow W P"
    and anchored: "R s (set_anchor eq s)"
    and protecting [follows_intros]: "follows R (in_router (submit_protective_orders (rp_router P) entry cfg atr))"
    and cancelling [follows_intros]: "follows R (in_router (cancel_protection (rp_router P) sm))"
    and flattening [follows_intros]: "follows R (in_router (flatten (rp_router P) sm at_time purpose))"
    and signalling [follows_intros]: "follows R (in_router (submit_signal (rp_router P) sg spec pending))"
    and adopting [follows_intros]: "follows R (in_router (adopt_protection os))"
begin

lemma core_modify: "(\<And>s. core_of (h s) = core_of s) \<Longrightarrow> follows R (modify_a h)"
  by (rule modify) (simp add: core same_core_def)

lemma core_act: "(\<And>s. core_of (snd (m s)) = core_of s) \<Longrightarrow> follows R m"
  by (simp add: follows_def core same_core_def)

lemma world_out: "(\<And>v. W v (snd (f v))) \<Longrightarrow> follows R (out f)"
  by (simp add: follows_def out_snd world)

lemma world_tell: "(\<And>v. W v (f v)) \<Longrightarrow> follows R (tell f)"
  by (simp add: follows_def tell_snd world)

lemma moves:
  "W v (snd (rp_engage P h t v))" "W v (snd (rp_last_bars P sm n u v))" "W v (snd (rp_quotes P xs v))"
  "W v (snd (rp_open_orders P v))" "W v (snd (rp_save_order P w v))" "W v (snd (rp_save_book P pf n' v))"
  "W v (snd (rp_save_signal P sg r v))" "W v (snd (rp_ensure_strategy P v))" "W v (snd (rp_venue P v))"
  "W v (rp_wait P k v)" "W v (snd (po_get (rp_router P) b v))"
  using ports unfolding ports_follow_def by simp_all

lemma optional_moves:
  "rp_put_snapshot P = Some f \<Longrightarrow> W v (snd (f pf ws q v))" "rp_publish P = Some g \<Longrightarrow> W v (snd (g c m v))"
  "rp_alert P = Some h' \<Longrightarrow> W v (h' a v)" "rp_fees P = Some k' \<Longrightarrow> W v (snd (k' pf v))"
  "rp_anchor P = Some x \<Longrightarrow> W v (snd (fst x d v))" "rp_anchor P = Some x \<Longrightarrow> W v (snd (snd x d e v))"
  using ports unfolding ports_follow_def by (cases x; simp)+

lemma outs [follows_intros]:
  "follows R (out (rp_engage P h t))" "follows R (out (rp_last_bars P sm n u))" "follows R (out (rp_quotes P xs))"
  "follows R (out (rp_open_orders P))" "follows R (out (rp_save_order P w))" "follows R (out (rp_save_book P pf n'))"
  "follows R (out (rp_save_signal P sg r))" "follows R (out (rp_ensure_strategy P))" "follows R (out (rp_venue P))"
  "follows R (tell (rp_wait P k))" "follows R (out (po_get (rp_router P) b))"
  by (rule world_out world_tell, rule moves)+

lemma reading [follows_intros]: "follows R (checked g)"
  by (simp add: follows_def checked_def refl)

lemma now [follows_intros]: "follows R (clock_now P)"
  by (simp add: clock_now_def gets)

lemma alerting [follows_intros]: "follows R (send_alert P sev key says)"
  unfolding send_alert_def by (auto intro!: ret world_tell optional_moves split: option.split)

lemma engaging [follows_intros]: "follows R (engage_halt P scope why who detail target)"
  unfolding engage_halt_def by (intro follows_intros)

lemma announcing [follows_intros]: "follows R (announce P channel what)"
proof (cases "rp_publish P")
  case (Some f)
  then have "follows R (out (f channel what))" by (intro world_out optional_moves)
  then show ?thesis unfolding announce_def Some option.case by (intro follows_intros)
qed (simp add: announce_def ret)

lemma protect_moves [follows_intros]: "follows R (protect P C entry live retry)"
  unfolding protect_def record_refusal_def by (intro follows_intros core_modify) simp_all

lemma retrying [follows_intros]: "follows R (retry_protection P C)"
  unfolding retry_protection_def retry_one_def by (intro follows_intros core_modify) simp_all

lemma applying [follows_intros]: "follows R (applied_update u o1)"
  by (rule core_act) (simp add: applied_update_def split: prod.split)

lemma booking [follows_intros]: "follows R (book_on_runner o1 f)"
  by (rule core_act) (simp add: book_on_runner_def Let_def split: sum.split)

lemma saving [follows_intros]: "follows R (save_book P)" "follows R (checkpoint P)"
  unfolding checkpoint_def save_book_def by (intro follows_intros)+

lemma recording [follows_intros]: "follows R (record_refusal P r)" "follows R (disarm_if_flat P o1)"
  unfolding record_refusal_def disarm_if_flat_def by (intro follows_intros)+

lemma handling [follows_intros]: "follows R (on_fill_event P C u)"
  unfolding on_fill_event_def
  by (intro follows_intros core_modify) simp_all

lemma refreshing [follows_intros]: "follows R (refresh_bars P C)" "follows R (mark_book P C)"
  unfolding refresh_bars_def refresh_one_def mark_book_def
  by (intro follows_intros core_modify; simp)+

lemma setting_anchor: "follows R (modify_a (set_anchor eq))"
  by (rule modify) (rule anchored)

lemma anchoring [follows_intros]: "follows R (anchor_if_pending P C)"
proof (cases "rp_anchor P")
  case None
  show ?thesis unfolding anchor_if_pending_def None option.case
    by (intro follows_intros setting_anchor core_modify) simp
next
  case (Some x)
  have put: "follows R (out (snd x d e))" and get: "follows R (out (fst x d))" for d e
    by (intro world_out optional_moves(5,6) [OF Some])+
  show ?thesis unfolding anchor_if_pending_def Some option.case case_prod_unfold
    by (intro follows_intros put get setting_anchor core_modify) simp
qed

lemma stopping [follows_intros]: "follows R (trail C sm b)" "follows R (check_stop P C fresh sm)" "follows R (check_all_stops P C fresh)"
proof -
  show t: "follows R (trail C sm b)" for sm b
    unfolding trail_def by (intro follows_intros core_act) (simp split: prod.split)
  show c: "follows R (check_stop P C fresh sm)" for sm
    unfolding check_stop_def by (intro follows_intros t core_modify) simp_all
  show "follows R (check_all_stops P C fresh)"
    unfolding check_all_stops_def by (intro follows_intros c)
qed

lemma asking [follows_intros]: "follows R (asked f P C)"
  unfolding asked_def by (intro follows_intros core_act) (simp split: prod.split)

lemma polling [follows_intros]: "follows R (drain_fills P C)" "follows R (poll_strategy P C fresh)"
proof -
  show "follows R (drain_fills P C)"
    unfolding drain_fills_def case_prod_unfold by (intro follows_intros core_modify) simp
  show "follows R (poll_strategy P C fresh)"
    unfolding poll_strategy_def poll_one_def by (intro follows_intros core_act) (simp add: Let_def)
qed

lemma escalating [follows_intros]: "follows R (escalate P d)" "follows R (note_refusal P d)"
proof -
  show e: "follows R (escalate P d)"
    unfolding escalate_def by (intro follows_intros core_modify) simp_all
  show "follows R (note_refusal P d)"
    unfolding note_refusal_def by (intro follows_intros e core_modify) simp_all
qed

lemma submitting [follows_intros]: "follows R (submit_all P C sigs)"
  unfolding submit_all_def submit_one_def record_signal_def
  by (intro follows_intros core_modify) simp_all

lemma persisting [follows_intros]: "follows R (mark_broker_protection P C)" "follows R (publish_snapshot P C)" "follows R (persist P C)"
proof -
  have a: "follows R (announce_unprotected P C naked)" for naked
    unfolding announce_unprotected_def by (intro follows_intros core_modify) simp_all
  show m: "follows R (mark_broker_protection P C)"
    unfolding mark_broker_protection_def
    by (intro follows_intros a core_act) (simp add: case_prod_unfold)
  show s: "follows R (publish_snapshot P C)"
  proof (cases "rp_put_snapshot P")
    case (Some f)
    then show ?thesis unfolding publish_snapshot_def Some option.case by (intro follows_intros world_out optional_moves(1) [OF Some])
  qed (simp add: publish_snapshot_def ret)
  show "follows R (persist P C)"
    unfolding persist_def by (intro follows_intros m s)
qed

lemma evaluating [follows_intros]: "follows R (evaluate_once P C)"
  unfolding evaluate_once_def by (intro follows_intros core_modify) simp

lemma catching_up [follows_intros]: "follows R (catch_up_on_orders P C)"
  unfolding catch_up_on_orders_def catch_up_one_def read_missed_updates_def read_one_def by (intro follows_intros)

lemma reconciling [follows_intros]: "follows R (reconcile_now P)"
proof -
  have c: "follows R (compare_now P)" unfolding compare_now_def by (intro follows_intros)
  have f: "follows R (settle_fees P)"
  proof (cases "rp_fees P")
    case (Some k)
    show ?thesis unfolding settle_fees_def Some option.case
      by (intro follows_intros world_out optional_moves(4) [OF Some] core_modify) simp
  qed (simp add: settle_fees_def ret)
  show ?thesis unfolding reconcile_now_def by (intro follows_intros c f)
qed

lemma recovering [follows_intros]: "follows R (recover_book P C)"
  unfolding recover_book_def by (intro follows_intros core_modify) simp

lemma warming [follows_intros]: "follows R (warmup P C at_open)"
  unfolding warmup_def begin_session_def load_bars_def announce_decision_bar_def start_strategy_def
  by (intro follows_intros core_modify core_act) (simp_all split: prod.split)

lemma parking [follows_intros]: "follows R (quarantine P e)" "follows R (sleep_until_open P C t)"
  unfolding quarantine_def sleep_until_open_def
  using ports by (intro follows_intros world_tell; simp add: ports_follow_def)+

lemma closing [follows_intros]: "follows R (shutdown P C b)"
  unfolding shutdown_def close_one_def by (intro follows_intros core_modify core_act) (simp_all split: prod.split)

end

text \<open>A relation that the count of failures does not matter to holds of the whole loop.\<close>

locale counting_relation = runner_relation R W P
  for R :: "('v, 's) runner \<Rightarrow> ('v, 's) runner \<Rightarrow> bool" and W and P +
  assumes counted: "R s (count f s)"
begin

lemma counting: "follows R (modify_a (count f))"
  by (rule modify) (rule counted)

lemma turning [follows_intros]: "follows R (evaluate P C)" "follows R (loop_turn P C)"
proof -
  show e: "follows R (evaluate P C)"
    unfolding evaluate_def note_evaluated_minute_def by (intro follows_intros counting)
  show "follows R (loop_turn P C)"
    unfolding loop_turn_def by (intro follows_intros e)
qed

lemma looping [follows_intros]: "follows R (run_loop P C n)"
proof (induction n)
  case (Suc n)
  show ?case unfolding run_loop.simps by (intro follows_intros Suc.IH)
qed (simp add: unmoved)

lemma running [follows_intros]: "follows R (run_for P C n)"
  unfolding run_for_def by (intro follows_intros core_modify) simp

end

section \<open>Orders sent\<close>

text \<open>The runner over the world with the ghost list: only the router's submissions write to it.\<close>

definition beside :: "('v \<Rightarrow> 'a \<times> 'v) \<Rightarrow> 'v \<times> 'l \<Rightarrow> 'a \<times> 'v \<times> 'l" where
  "beside f = (\<lambda>(v, l). case f v of (r, v1) \<Rightarrow> (r, v1, l))"

definition logged_runner :: "'v runner_ports \<Rightarrow> ('v \<times> order list) runner_ports" where
  "logged_runner P =
     \<lparr>rp_router = logged (rp_router P), rp_engage = (\<lambda>h t. beside (rp_engage P h t)),
      rp_last_bars = (\<lambda>sm n t. beside (rp_last_bars P sm n t)), rp_quotes = (\<lambda>xs. beside (rp_quotes P xs)),
      rp_open_orders = beside (rp_open_orders P), rp_save_order = (\<lambda>w. beside (rp_save_order P w)),
      rp_save_book = (\<lambda>pf t. beside (rp_save_book P pf t)), rp_save_signal = (\<lambda>sg r. beside (rp_save_signal P sg r)),
      rp_ensure_strategy = beside (rp_ensure_strategy P),
      rp_put_snapshot = map_option (\<lambda>f pf ws q. beside (f pf ws q)) (rp_put_snapshot P),
      rp_publish = map_option (\<lambda>f c m. beside (f c m)) (rp_publish P),
      rp_alert = map_option (\<lambda>f a (v, l). (f a v, l)) (rp_alert P),
      rp_anchor = map_option (\<lambda>(g, p). (\<lambda>d. beside (g d), \<lambda>d e. beside (p d e))) (rp_anchor P),
      rp_venue = beside (rp_venue P), rp_fees = map_option (\<lambda>f pf. beside (f pf)) (rp_fees P),
      rp_tolerance = rp_tolerance P, rp_settles = rp_settles P, rp_wait = (\<lambda>n (v, l). (rp_wait P n v, l)),
      rp_settle_us = rp_settle_us P, rp_fill_key = rp_fill_key P\<rparr>"

abbreviation sent_by :: "('v \<times> order list, 's) runner \<Rightarrow> order list" where
  "sent_by s \<equiv> sent (rn_router s)"

text \<open>What happens to a runner, one action at a time; the world's own doings are \<open>Elsewhere\<close>.\<close>

inductive runner_step ::
  "'v runner_ports \<Rightarrow> 's runner_setup \<Rightarrow> ('v \<times> order list, 's) runner \<Rightarrow> ('v \<times> order list, 's) runner \<Rightarrow> bool" for P C where
  Run: "runner_step P C s (snd (run_for (logged_runner P) C n s))"
| Turn: "runner_step P C s (snd (loop_turn (logged_runner P) C s))"
| Event: "runner_step P C s (snd (on_fill_event (logged_runner P) C u s))"
| Saved: "runner_step P C s (snd (checkpoint (logged_runner P) s))"
| Stop: "runner_step P C s (snd (shutdown (logged_runner P) C close_them s))"
| Parked: "runner_step P C s (snd (quarantine (logged_runner P) e s))"
| Elsewhere: "runner_step P C s (with_world (v, sent_by s) s)"

inductive runner_run ::
  "'v runner_ports \<Rightarrow> 's runner_setup \<Rightarrow> ('v \<times> order list, 's) runner \<Rightarrow> ('v \<times> order list, 's) runner \<Rightarrow> bool" for P C where
  here: "runner_run P C s s"
| more: "runner_run P C s s' \<Longrightarrow> runner_step P C s' s'' \<Longrightarrow> runner_run P C s s''"

lemma beside_snd [simp]: "snd (snd (beside f x)) = snd x"
  by (simp add: beside_def split: prod.split)

lemma logged_ports_follow: "ports_follow (\<lambda>v v'. snd v' = snd v) (logged_runner P)"
  unfolding ports_follow_def by (auto simp: logged_runner_def logged_def split: prod.split)

lemma in_router_follows:
  "follows Q m \<Longrightarrow> follows (\<lambda>s s'. Q (rn_router s) (rn_router s')) (in_router m)"
  by (simp add: follows_def in_router_snd)

lemma anchor_platform:
  "platform_engine en \<Longrightarrow> platform_engine (snd (anchor_session eq en))" "en_limits (snd (anchor_session eq en)) = en_limits en"
proof -
  have "same_rule r r' \<Longrightarrow> same_rule (anchor_rule eq r) r'" for r r' by (cases r) (auto simp: same_rule_def)
  then show "platform_engine en \<Longrightarrow> platform_engine (snd (anchor_session eq en))"
    unfolding platform_engine_def anchor_session_def
    by (simp add: list_all2_conv_all_nth)
  show "en_limits (snd (anchor_session eq en)) = en_limits en" by (simp add: anchor_session_def)
qed

definition sends_on :: "'v ports \<Rightarrow> ('v \<times> order list, 's) runner \<Rightarrow> ('v \<times> order list, 's) runner \<Rightarrow> bool" where
  "sends_on P s s' \<longleftrightarrow> sends P (rn_router s) (rn_router s')"

lemma sends_in_router: "follows (sends P) m \<Longrightarrow> follows (sends_on P) (in_router m)"
  by (simp add: sends_on_def follows_def in_router_snd)

lemma sends_on_frames:
  "sends_on Q s s" "same_core s s' \<Longrightarrow> sends_on Q s s'" "snd v = snd (rt_venue (rn_router s)) \<Longrightarrow> sends_on Q s (with_world v s)"
  "sends_on Q s (set_anchor eq s)" "sends_on Q s (count f s)"
  by (simp_all add: sends_on_def sends_def core_of_def same_core_def with_world_def set_anchor_def anchor_platform count_def)

lemma sends_on_trans: "sends_on Q a b \<Longrightarrow> sends_on Q b c \<Longrightarrow> sends_on Q a c"
  unfolding sends_on_def by (rule sending.trans)

lemma sends_on_calls:
  "follows (sends_on (rp_router P)) (in_router (submit_protective_orders (rp_router (logged_runner P)) entry cfg atr))"
  "follows (sends_on (rp_router P)) (in_router (cancel_protection (rp_router (logged_runner P)) sm))"
  "follows (sends_on (rp_router P)) (in_router (flatten (rp_router (logged_runner P)) sm at_time purpose))"
  "follows (sends_on (rp_router P)) (in_router (submit_signal (rp_router (logged_runner P)) sg spec pending))"
  "follows (sends_on (rp_router P)) (in_router (adopt_protection os))"
proof -
  have router: "rp_router (logged_runner P) = logged (rp_router P)" by (simp add: logged_runner_def)
  show "follows (sends_on (rp_router P)) (in_router (submit_protective_orders (rp_router (logged_runner P)) entry cfg atr))"
    "follows (sends_on (rp_router P)) (in_router (cancel_protection (rp_router (logged_runner P)) sm))"
    "follows (sends_on (rp_router P)) (in_router (flatten (rp_router (logged_runner P)) sm at_time purpose))"
    "follows (sends_on (rp_router P)) (in_router (submit_signal (rp_router (logged_runner P)) sg spec pending))"
    "follows (sends_on (rp_router P)) (in_router (adopt_protection os))"
    unfolding router by (intro sends_in_router follows_intros sends_entry_points)+
qed

interpretation sender: counting_relation "sends_on (rp_router P)" "\<lambda>v v'. snd v' = snd v" "logged_runner P"
    for P :: "'v runner_ports"
  by unfold_locales
    (erule sends_on_frames sends_on_trans | assumption | rule sends_on_frames sends_on_calls logged_ports_follow)+

lemma runner_step_sends: "runner_step P C s s' \<Longrightarrow> sends_on (rp_router P) s s'"
proof (induction rule: runner_step.induct)
  case (Elsewhere s v)
  show ?case by (simp add: sends_on_def sends_def with_world_def)
qed (rule followsD [OF sender.running] followsD [OF sender.turning(2)] followsD [OF sender.handling]
     followsD [OF sender.saving(2)] followsD [OF sender.closing] followsD [OF sender.parking(1)])+

text \<open>
  C1. The live runner trades only what the risk chain approved. Whatever sequence of warm-ups,
  evaluations, venue events, checkpoints, quarantines, shutdowns and doings of the rest of the
  platform a runner goes through, with any strategy, every order that reaches the venue was
  approved by the platform's own chain under the limits the runner started with; re-anchoring the
  day's loss limit at each session, the one change the runner makes to the chain, keeps its
  composition and its limits.
\<close>

theorem runner_sends_only_approved_orders:
  assumes "runner_run P C s s'" "platform_engine (rt_engine (rn_router s))"
  shows "\<exists>new. sent_by s' = sent_by s @ new
    \<and> (\<forall>o1 \<in> set new. approved_send (rp_router P) (en_limits (rt_engine (rn_router s))) o1)
    \<and> platform_engine (rt_engine (rn_router s')) \<and> en_limits (rt_engine (rn_router s')) = en_limits (rt_engine (rn_router s))"
proof -
  have "sends_on (rp_router P) s s'"
    using assms(1) by (induction rule: runner_run.induct) (auto intro: sender.refl sender.trans runner_step_sends)
  then show ?thesis using assms(2) unfolding sends_on_def sends_def by blast
qed

text \<open>A runner around the sample router, over ports that answer nothing and accept everything.\<close>

definition quiet_ports :: "'v ports \<Rightarrow> 'v runner_ports" where
  "quiet_ports R =
     \<lparr>rp_router = R, rp_engage = (\<lambda>h t v. (Inr (), v)), rp_last_bars = (\<lambda>sm n t v. (Inr [], v)),
      rp_quotes = (\<lambda>xs v. (Inr [], v)), rp_open_orders = (\<lambda>v. (Inr [], v)), rp_save_order = (\<lambda>w v. (Inr (), v)),
      rp_save_book = (\<lambda>pf t v. (Inr (), v)), rp_save_signal = (\<lambda>sg r v. (Inr (), v)), rp_ensure_strategy = (\<lambda>v. (Inr (), v)),
      rp_put_snapshot = None, rp_publish = None, rp_alert = None, rp_anchor = None,
      rp_venue = (\<lambda>v. (Inr \<lparr>vv_positions = [], vv_orders = [], vv_cash = 0\<rparr>, v)), rp_fees = None, rp_tolerance = 0,
      rp_settles = False, rp_wait = (\<lambda>n v. v), rp_settle_us = 0, rp_fill_key = (\<lambda>b q. [])\<rparr>"

definition sample_setup :: "unit runner_setup" where
  "sample_setup =
     \<lparr>rs_name = ''strategy'', rs_symbols = [''AAPL''], rs_timeframe = M1, rs_sizing = \<lparr>ps_type = ''fixed_qty'', ps_value = 1\<rparr>,
      rs_stop = stop_config_of FIXED_PCT, rs_calendar = sample_calendar, rs_warmup = 0, rs_cooldown_us = 900 * 10 ^ 6,
      rs_signal_limit = 10, rs_tick_us = 60 * 10 ^ 6, rs_on_start = (\<lambda>u. (Inr (), u)), rs_on_stop = (\<lambda>u. (Inr (), u)),
      rs_on_bar = (\<lambda>v b u. (Inr [], [], u)), rs_on_fill = (\<lambda>v w f u. (Inr [], [], u)), rs_atr = (\<lambda>bs n. Inr None)\<rparr>"

definition sample_runner :: "'v router \<Rightarrow> ('v, unit) runner" where
  "sample_runner R =
     \<lparr>rn_router = R, rn_strategy = (), rn_rate_refusals = 0, rn_anchor_pending = False, rn_alerted = [], rn_alerted_at = None,
      rn_since = [], rn_bars = [], rn_decision = None, rn_quotes = [], rn_book_bound = True, rn_open = [], rn_unprotected = [],
      rn_entries = [], rn_fills = [], rn_detached = [], rn_recent = [], rn_running = True,
      rn_stats = \<lparr>st_started_at = None, st_evaluations = 0, st_signals = 0, st_submitted = 0, st_refused_by_risk = 0,
        st_rejected_by_venue = 0, st_last_evaluation = None, st_errors = 0, st_consecutive = 0, st_fills = 0, st_stops = 0,
        st_discarded_cold = 0, st_minutes = []\<rparr>\<rparr>"

lemmas sample_runner_defs = quiet_ports_def sample_setup_def sample_runner_def

lemma sample_close_approved:
  "rd_approved (fst (validate (sample_env []) sample_engine
     (order_defaults i c ''AAPL'' SELL 100\<lparr>o_tif := GTC, o_purpose := PURPOSE_FLATTEN, o_created_at := Some 0\<rparr>) sample_portfolio []))"
  by (simp add: sample_defs risk_eval dec_ops Let_def)

lemma sample_platform: "platform_engine sample_engine"
  by (simp add: platform_engine_def sample_engine_def anchor_session_def default_rules_def same_rule_def)

lemma sample_flatten_sends:
  "\<exists>o1 more. sent (snd (flatten (logged sample_ports) ''AAPL'' None PURPOSE_FLATTEN (sample_router ((), [])))) = o1 # more
     \<and> o_symbol o1 = ''AAPL'' \<and> o_side o1 = SELL \<and> o_qty o1 = 100"
proof -
  let ?s = "sample_router ((), [] :: order list)" and ?P = "logged sample_ports"
  define r where "r = close_request ''AAPL'' sample_position 0 PURPOSE_FLATTEN"
  let ?c = "digest (\<lambda>s. s) (client_key_parts ''AAPL'' SELL 0 None PURPOSE_FLATTEN)"
  let ?o = "order_defaults (''id-'' @ nat_digits 0) ?c ''AAPL'' SELL 100\<lparr>o_tif := GTC, o_purpose := PURPOSE_FLATTEN, o_created_at := Some 0\<rparr>"
  have r: "r = \<lparr>r_symbol = ''AAPL'', r_side = SELL, r_decided_at = 0, r_type = MARKET, r_qty = Some 100, r_notional = None,
      r_limit = None, r_stop_loss = None, r_take_profit = None, r_tif = GTC, r_strategy = None, r_signal = None,
      r_purpose = PURPOSE_FLATTEN\<rparr>"
    by (simp add: r_def close_request_def closing_side_def sample_position_def is_long_def dec_ops)
  have flat: "flatten ?P ''AAPL'' None PURPOSE_FLATTEN ?s = close_out ?P r [] ?s"
    using r unfolding r_def
    by (simp add: flatten_def sample_router_def sample_portfolio_def dict_get_Cons new_order_request_def
       logged_def sample_ports_def sample_env_def is_flat_def sample_position_def PURPOSE_FLATTEN_def)
  have tick: "on_tick ?P ?o = Inr ?o"
    by (simp add: on_tick_def instrument_of_def logged_def sample_ports_def new_instrument_def default_instrument_def
        round_opt_def order_defaults_def) code_simp
  let ?s1 = "?s\<lparr>rt_drawn := 1\<rparr>"
  obtain d o2 s2 where j: "judge ?P ?o [] ?s1 = (Inr (d, o2), s2)" using judge_total by blast
  have plat1: "platform_engine (rt_engine ?s1)" using sample_platform by (simp add: sample_router_def)
  note J = judge_sends [OF j plat1]
  have ok: "rd_approved d"
    using j sample_close_approved [of "''id-'' @ nat_digits 0" ?c]
    by (auto simp: judge_def sample_router_def logged_def sample_ports_def split: prod.splits)
  have "submit ?P r [] ?s = route ?P ?o [] (?s\<lparr>rt_drawn := rt_drawn ?s + 1\<rparr>)"
  proof (rule submit_routes [where q = 100])
    show "request_order ?P (po_new_id ?P (rt_drawn ?s)) r 100 = Inr ?o"
      by (simp add: request_order_def r client_order_id_def logged_def sample_ports_def new_order_def order_defaults_def sample_router_def PURPOSE_FLATTEN_def)
  qed (simp_all add: r)
  also have "?s\<lparr>rt_drawn := rt_drawn ?s + 1\<rparr> = ?s1" by (simp add: sample_router_def)
  also have "route ?P ?o [] ?s1 = dispatch ?P (?o\<lparr>o_status := PENDING_SUBMIT\<rparr>) d s2"
    using j J(1) ok by (intro route_approved [OF _ tick]) (simp_all add: order_defaults_def)
  finally have sent: "sent (snd (submit ?P r [] ?s)) = [?o\<lparr>o_status := PENDING_SUBMIT\<rparr>]"
    using dispatch_sends [OF surjective_pairing, of sample_ports "?o\<lparr>o_status := PENDING_SUBMIT\<rparr>" d s2] J(4)
    by (simp add: sample_router_def)
  have "sends sample_ports (snd (submit ?P r [] ?s)) (snd (close_out ?P r [] ?s))"
    unfolding close_out_def by (rule sending.bind_after) (intro follows_intros)
  moreover have "platform_engine (rt_engine (snd (submit ?P r [] ?s)))"
    using followsD [OF sends_submit [of sample_ports r "[]"], of ?s] sample_platform
    by (simp add: sends_def sample_router_def)
  ultimately show ?thesis using sent by (auto simp: sends_def flat order_defaults_def)
qed

theorem runner_sends_only_approved_orders_witness:
  "\<exists>s' o1 more. runner_run (quiet_ports sample_ports) sample_setup (sample_runner (sample_router ((), []))) s'
     \<and> sent_by s' = o1 # more \<and> o_symbol o1 = ''AAPL'' \<and> o_side o1 = SELL \<and> o_qty o1 = 100
     \<and> approved_send sample_ports (en_limits sample_engine) o1"
proof -
  let ?P = "quiet_ports sample_ports" and ?L = "logged_runner (quiet_ports sample_ports)"
  define s where "s = sample_runner (sample_router ((), [] :: order list))"
  define s2 where "s2 = s\<lparr>rn_running := False, rn_strategy := ()\<rparr>"
  define s' where "s' = snd (shutdown ?L sample_setup True s)"
  have router: "rn_router s2 = sample_router ((), [])" "rn_router s = sample_router ((), [])" "rn_book_bound s"
    by (simp_all add: s2_def s_def sample_runner_def)
  have ports: "rp_router ?P = sample_ports" "rp_router ?L = logged sample_ports"
    by (simp_all add: quiet_ports_def logged_runner_def)
  have syms: "map p_symbol (open_positions (rn_portfolio s2)) = [''AAPL'']"
    by (simp add: rn_portfolio_def router sample_router_def open_positions_def dict_values_def sample_defs is_flat_def new_position_def)
  have "shutdown ?L sample_setup True s = bind_a (for_a (\<lambda>sm _. close_one ?L sm) [''AAPL''] ()) (\<lambda>_. checkpoint ?L) s2"
    using syms router unfolding s2_def by (simp add: shutdown_def bind_a_def sample_setup_def del: for_a.simps)
  then have "sends_on (rp_router ?P) (snd (for_a (\<lambda>sm _. close_one ?L sm) [''AAPL''] () s2)) s'"
    unfolding s'_def by (metis sender.bind_after sender.saving(2))
  moreover have "sends_on (rp_router ?P) (snd (close_one ?L ''AAPL'' s2)) (snd (for_a (\<lambda>sm _. close_one ?L sm) [''AAPL''] () s2))"
    unfolding for_a.simps by (rule sender.bind_after) (intro follows_intros)
  moreover have "sends_on (rp_router ?P) (snd (in_router (flatten (rp_router ?L) ''AAPL'' None PURPOSE_FLATTEN) s2)) (snd (close_one ?L ''AAPL'' s2))"
    unfolding close_one_def by (rule sender.bind_after) (intro follows_intros)
  ultimately have "sends_on (rp_router ?P) (snd (in_router (flatten (rp_router ?L) ''AAPL'' None PURPOSE_FLATTEN) s2)) s'"
    by (meson sender.trans)
  moreover have "rn_router (snd (in_router (flatten (rp_router ?L) ''AAPL'' None PURPOSE_FLATTEN) s2))
      = snd (flatten (logged sample_ports) ''AAPL'' None PURPOSE_FLATTEN (sample_router ((), [])))"
    by (simp add: in_router_snd ports router)
  moreover have "platform_engine (rt_engine (snd (flatten (logged sample_ports) ''AAPL'' None PURPOSE_FLATTEN (sample_router ((), [])))))"
    using followsD [OF sends_entry_points(2) [of sample_ports]] sample_platform
    by (simp add: sends_def) (simp add: sample_router_def)
  moreover obtain o1 more where "sent (snd (flatten (logged sample_ports) ''AAPL'' None PURPOSE_FLATTEN (sample_router ((), [])))) = o1 # more"
    "o_symbol o1 = ''AAPL''" "o_side o1 = SELL" "o_qty o1 = 100" using sample_flatten_sends by blast
  ultimately have sent: "\<exists>more. sent_by s' = o1 # more" by (auto simp: sends_on_def sends_def ports)
  have run: "runner_run ?P sample_setup s s'"
    unfolding s'_def by (rule runner_run.more [OF runner_run.here]) (rule runner_step.Stop)
  have start: "rt_engine (rn_router s) = sample_engine" "sent_by s = []" by (simp_all add: router sample_router_def)
  show ?thesis
    using runner_sends_only_approved_orders [OF run] sent sample_platform start run
      \<open>o_symbol o1 = ''AAPL''\<close> \<open>o_side o1 = SELL\<close> \<open>o_qty o1 = 100\<close> unfolding s_def [symmetric] ports
    by (intro exI [of _ s'] exI [of _ o1]) auto
qed

section \<open>Failing evaluations\<close>

interpretation steady: runner_relation "\<lambda>s s'. st_consecutive (rn_stats s') = st_consecutive (rn_stats s)" "\<lambda>_ _. True" P
    for P :: "'v runner_ports"
  by unfold_locales (auto simp: core_of_def same_core_def with_world_def ports_follow_def set_anchor_def follows_def in_router_snd)

text \<open>Evaluations failing in a row, with what else may happen between them.\<close>

inductive failing ::
  "'v runner_ports \<Rightarrow> 's runner_setup \<Rightarrow> nat \<Rightarrow> ('v, 's) runner \<Rightarrow> ('v, 's) runner \<Rightarrow> bool" for P C where
  none: "failing P C 0 s s"
| again: "failing P C n s s' \<Longrightarrow> fst (evaluate_once P C s') = Inl e \<Longrightarrow> failing P C (Suc n) s (snd (evaluate P C s'))"
| event: "failing P C n s s' \<Longrightarrow> failing P C n s (snd (on_fill_event P C u s'))"
| saved: "failing P C n s s' \<Longrightarrow> failing P C n s (snd (checkpoint P s'))"
| elsewhere: "failing P C n s s' \<Longrightarrow> failing P C n s (with_world v s')"

lemma engage_counts: "st_consecutive (rn_stats (snd (engage_halt P scope why who detail target s))) = st_consecutive (rn_stats s)"
  using followsD [OF steady.engaging] by blast

lemma evaluate_failed:
  assumes "fst (evaluate_once P C s) = Inl e"
  shows "\<exists>s1. rn_router s1 = rn_router (snd (evaluate_once P C s)) \<and> st_consecutive (rn_stats s1) = st_consecutive (rn_stats s) + 1
    \<and> evaluate P C s = (if 3 \<le> st_consecutive (rn_stats s) + 1
         then engage_halt P STRATEGY UNHANDLED_EXCEPTION ''strategy_runner'' (rs_name C @ '' failed evaluations in a row'') (Some (rs_name C))
         else ret ()) s1"
proof -
  let ?s = "snd (evaluate_once P C s)"
  have "st_consecutive (rn_stats ?s) = st_consecutive (rn_stats s)"
    using followsD [OF steady.evaluating [of P C]] by blast
  then show ?thesis
    by (intro exI [of _ "count (\<lambda>st. st\<lparr>st_errors := st_errors st + 1, st_consecutive := st_consecutive st + 1\<rparr>) ?s"])
      (simp add: evaluate_def bind_attempt assms count_def MAX_CONSECUTIVE_ERRORS_def)
qed

lemma failing_counts: "failing P C n s s' \<Longrightarrow> st_consecutive (rn_stats s') = st_consecutive (rn_stats s) + int n"
proof (induction rule: failing.induct)
  case (again n s s' e)
  then show ?case using evaluate_failed [of P C s' e] by (auto simp: engage_counts)
next
  case (event n s s' u)
  then show ?case using followsD [OF steady.handling [of P C u], of s'] by simp
next
  case (saved n s s')
  then show ?case using followsD [OF steady.saving(2) [of P], of s'] by simp
qed (simp_all add: with_world_def)

text \<open>
  C15. A strategy that keeps failing is halted. From a runner with no failure counted, however many
  evaluations have raised in a row, and whatever venue events, checkpoints and doings of the rest of
  the platform came between them: the evaluation that raises next leaves the loop running, and asks
  the kill switch to halt this strategy exactly when at least two failures precede it. Before that it
  does nothing but count.
\<close>

theorem third_failure_halts_the_strategy:
  assumes "failing P C n s s'" "st_consecutive (rn_stats s) = 0" "fst (evaluate_once P C s') = Inl e"
  shows "\<exists>s1. rn_router s1 = rn_router (snd (evaluate_once P C s'))
    \<and> evaluate P C s' = (if 2 \<le> n
         then engage_halt P STRATEGY UNHANDLED_EXCEPTION ''strategy_runner'' (rs_name C @ '' failed evaluations in a row'') (Some (rs_name C))
         else ret ()) s1"
  using evaluate_failed [OF assms(3)] failing_counts [OF assms(1)] assms(2) by (auto split: if_splits)

theorem third_failure_halts_the_strategy_witness:
  "\<exists>(P :: unit runner_ports) s s' s1. failing P sample_setup 2 s s'
     \<and> evaluate P sample_setup s' = engage_halt P STRATEGY UNHANDLED_EXCEPTION ''strategy_runner''
          (rs_name sample_setup @ '' failed evaluations in a row'') (Some ''strategy'') s1"
proof -
  let ?P = "(quiet_ports sample_ports)\<lparr>rp_last_bars := (\<lambda>sm n t v. (Inl (value_error ''unreachable''), v))\<rparr>" and ?C = sample_setup
  let ?s = "sample_runner (sample_router ())"
  have fails: "fst (evaluate_once ?P ?C s) = Inl (value_error ''unreachable'')" for s
    by (simp add: evaluate_once_def refresh_bars_def refresh_one_def sample_setup_def bind_a_run out_def in_router_def outside_def
        split: prod.split)
  have two: "failing ?P ?C 2 ?s (snd (evaluate ?P ?C (snd (evaluate ?P ?C ?s))))"
    by (auto intro!: failing.intros fails simp: numeral_2_eq_2)
  have zero: "st_consecutive (rn_stats ?s) = 0" and name: "rs_name ?C = ''strategy''"
    by (simp_all add: sample_runner_def sample_setup_def)
  from third_failure_halts_the_strategy [OF two zero fails] two show ?thesis
    by (simp only: name order_refl if_True) blast
qed

end
