(* ===== verification/LedgerParity.thy ===== *)
theory LedgerParity
  imports RunnerSafety SimBroker Lookahead
begin

text \<open>
  Live, replayed and simulated trading keep one set of books. The abstract ledger is what money and
  tax need: cash, and per symbol the quantity, the entry price, what was realised, the fees and when
  it was opened. A fill acts on it by \<open>ledger_fill\<close>, which never sees a stop level, a mark or the cover
  at the broker. The runner's booking, the replay's settlement and the simulated broker's booking
  each refine it.
\<close>

record account =
  ac_qty :: dec
  ac_avg_entry :: dec
  ac_realized :: dec
  ac_fees :: dec
  ac_opened :: "ts option"

type_synonym ledger = "dec \<times> (string \<Rightarrow> account)"

definition account_of :: "position \<Rightarrow> account" where
  "account_of p = \<lparr>ac_qty = p_qty p, ac_avg_entry = p_avg_entry p, ac_realized = p_realized p, ac_fees = p_fees p, ac_opened = p_opened_at p\<rparr>"

definition bare_position :: "account \<Rightarrow> position" where
  "bare_position a = (new_position [])\<lparr>p_qty := ac_qty a, p_avg_entry := ac_avg_entry a, p_realized := ac_realized a,
     p_fees := ac_fees a, p_opened_at := ac_opened a\<rparr>"

definition ledger_of :: "portfolio \<Rightarrow> ledger" where
  "ledger_of pf = (pf_cash pf, \<lambda>sm. account_of (position_of sm pf))"

definition sim_ledger :: "sim_broker \<Rightarrow> ledger" where
  "sim_ledger sb = (sb_cash sb, \<lambda>sm. account_of (dict_get_or (sb_positions sb) sm (new_position sm)))"

definition ledger_fill :: "order \<Rightarrow> fill \<Rightarrow> ledger \<Rightarrow> exn + ledger" where
  "ledger_fill o1 f L =
     (let sm = o_symbol o1; sign = side_sign (o_side o1) in
      bind_r (position_apply_fill f (dmul (f_qty f) sign) (bare_position (snd L sm))) (\<lambda>(_, p1).
      Inr (dsub (fst L) (dadd (dmul (dmul (f_qty f) (f_price f)) sign) (f_fee f)), (snd L)(sm := account_of p1))))"

lemma account_of_levels [simp]:
  "account_of (p\<lparr>p_stop_loss := a\<rparr>) = account_of p" "account_of (p\<lparr>p_take_profit := b\<rparr>) = account_of p"
  "account_of (bare_position c) = c"
  by (simp_all add: account_of_def bare_position_def new_position_def)

text \<open>What a fill does to the account is a function of the account.\<close>

lemma apply_fill_account:
  assumes "account_of p = account_of q"
  shows "rel_r (\<lambda>x y. fst x = fst y \<and> account_of (snd x) = account_of (snd y)) (position_apply_fill f s p) (position_apply_fill f s q)"
  using assms unfolding account_of_def position_apply_fill_def fill_basis_def clear_if_flat_def Let_def
  by (auto split: if_splits)

lemma ledger_fill_of:
  assumes "account_of p = snd L sm" "sm = o_symbol o1" "sign = side_sign (o_side o1)"
  shows "rel_r (\<lambda>x M. M = (dsub (fst L) (dadd (dmul (dmul (f_qty f) (f_price f)) sign) (f_fee f)), (snd L)(sm := account_of (snd x))))
     (position_apply_fill f (dmul (f_qty f) sign) p) (ledger_fill o1 f L)"
  using apply_fill_account [of p "bare_position (snd L sm)" f "dmul (f_qty f) sign"] assms
  by (cases "position_apply_fill f (dmul (f_qty f) sign) p";
      cases "position_apply_fill f (dmul (f_qty f) sign) (bare_position (snd L sm))")
    (auto simp: ledger_fill_def Let_def)

lemma live_books_the_ledger:
  "map_sum id ledger_of (apply_to_portfolio o1 f pf) = ledger_fill o1 f (ledger_of pf)"
  using ledger_fill_of [of "position_of (o_symbol o1) pf" "ledger_of pf" "o_symbol o1" o1 "side_sign (o_side o1)" f]
  by (cases "position_apply_fill f (dmul (f_qty f) (side_sign (o_side o1))) (position_of (o_symbol o1) pf)";
      cases "ledger_fill o1 f (ledger_of pf)")
    (auto simp: apply_to_portfolio_def Let_def ledger_of_def put_position_def position_of_def dict_get_or_def fun_eq_iff)

lemma arm_keeps_account: "arm_from_config E vis s p = Inr q \<Longrightarrow> account_of q = account_of p"
  by (auto simp: arm_from_config_def suppress_def Let_def bind_r_eq_Inr bind_r_eq_Inl split: option.splits if_splits sum.splits)

lemma replay_books_the_ledger:
  assumes "settle_fill E vis o1 f st = Inr st'"
  shows "ledger_fill o1 f (ledger_of (bt_portfolio st)) = Inr (ledger_of (bt_portfolio st'))"
proof -
  let ?pf = "bt_portfolio st" and ?s = "o_symbol o1" and ?sign = "side_sign (o_side o1)"
  obtain x p1 where fill: "position_apply_fill f (dmul (f_qty f) ?sign) (position_of ?s ?pf) = Inr (x, p1)"
    using assms by (auto simp: settle_fill_def Let_def bind_r_eq_Inr)
  define p2 where "p2 = (case dict_get (bt_protection st) (o_id o1) of Some (stop, target) \<Rightarrow>
                    if is_flat p1 then p1 else p1\<lparr>p_stop_loss := stop, p_take_profit := target\<rparr> | None \<Rightarrow> p1)"
  note run = assms [unfolded settle_fill_def Let_def fill bind_r_Inr prod.case, folded p2_def]
  obtain p3 where p3: "(if is_flat p1 then Inr p2 else arm_from_config E vis ?s p2) = Inr p3"
    and st': "bt_portfolio st' = (put_position ?s p3 ?pf)\<lparr>pf_cash := dsub (pf_cash ?pf) (dadd (dmul (dmul (f_qty f) (f_price f)) ?sign) (f_fee f))\<rparr>"
    using run by (elim bind_r_eq_Inr [THEN iffD1, THEN exE] conjE) (rule that, assumption, drule sum.inject(2) [THEN iffD1], erule subst, simp)
  have "account_of p3 = account_of p1"
    using p3 by (auto simp: p2_def split: if_splits option.splits prod.splits dest!: arm_keeps_account)
  then show ?thesis
    using ledger_fill_of [of "position_of ?s ?pf" "ledger_of ?pf" ?s o1 ?sign f] fill st'
    by (cases "ledger_fill o1 f (ledger_of ?pf)")
      (auto simp: ledger_of_def put_position_def position_of_def dict_get_or_def fun_eq_iff)
qed

lemma simulation_books_the_ledger:
  assumes "book_fill bid o1 qty price tm sb = (Inr o2, sb')"
  shows "\<exists>f. f_qty f = qty \<and> f_price f = price \<and> order_apply_fill f o1 = Inr o2 \<and> ledger_fill o1 f (sim_ledger sb) = Inr (sim_ledger sb')"
proof -
  obtain fee where fee: "commission (sb_costs sb) o1 price qty = Inr fee"
    using assms by (auto simp: book_fill_def split: sum.splits)
  define f where "f = \<lparr>f_order_id = o_id o1, f_ts = tm, f_qty = qty, f_price = price, f_fee = fee, f_venue_id = None\<rparr>"
  let ?s = "o_symbol o1" and ?sign = "side_sign (o_side o1)"
  let ?p = "dict_get_or (sb_positions sb) ?s (new_position ?s)"
  obtain x p1 where fill: "order_apply_fill f o1 = Inr o2" "position_apply_fill f (dmul qty ?sign) ?p = Inr (x, p1)"
    and sb': "sb_positions sb' = dict_set ?s p1 (dict_setdefault ?s (new_position ?s) (sb_positions sb))"
      "sb_cash sb' = dsub (sb_cash sb) (dadd (dmul (dmul qty price) ?sign) fee)"
    using assms fee unfolding book_fill_def by (auto simp: Let_def f_def [symmetric] split: sum.splits prod.splits)
  have "ledger_fill o1 f (sim_ledger sb) = Inr (sim_ledger sb')"
    using ledger_fill_of [of ?p "sim_ledger sb" ?s o1 ?sign f] fill sb'
    by (cases "ledger_fill o1 f (sim_ledger sb)")
      (auto simp: sim_ledger_def dict_get_or_def fun_eq_iff f_def split: option.splits)
  then show ?thesis using fill(1) by (intro exI [of _ f]) (simp add: f_def)
qed

text \<open>
  C10. One set of books. A fill booked by the live runner changes the ledger by \<open>ledger_fill\<close>, and
  raises exactly when that refuses the fill; a fill the replay settles, and one the simulated broker
  books against the order's own progress, change theirs by the same function. Stop levels, marks and
  the cover at the broker, which the three keep differently, never reach the money.
\<close>

theorem one_ledger_for_live_replay_and_simulation:
  "map_sum id ledger_of (apply_to_portfolio o1 f pf) = ledger_fill o1 f (ledger_of pf)
   \<and> (case settle_fill E vis o1 f st of
        Inr st' \<Rightarrow> ledger_fill o1 f (ledger_of (bt_portfolio st)) = Inr (ledger_of (bt_portfolio st'))
      | Inl _ \<Rightarrow> True)
   \<and> (case book_fill bid o1 qty price tm sb of
        (Inr o2, sb') \<Rightarrow> \<exists>g. f_qty g = qty \<and> f_price g = price \<and> order_apply_fill g o1 = Inr o2
                           \<and> ledger_fill o1 g (sim_ledger sb) = Inr (sim_ledger sb')
      | (Inl _, _) \<Rightarrow> True)"
  using live_books_the_ledger replay_books_the_ledger simulation_books_the_ledger
  by (fastforce split: sum.split prod.split)

text \<open>
  The live runner derives the stop a replay derives. Under one stop configuration and one ATR, an
  entry signal for a symbol whose last bar the runner holds gets live the level the replay gives it
  on that bar, and is left without one in the same cases. It takes a signal for the symbol of the bar
  being decided on: the replay measures from that bar's close whatever symbol the signal names.
\<close>

theorem live_stop_is_replay_stop:
  assumes "be_stop E = Some (rs_stop C)" "be_atr E = rs_atr C" "vis (sg_symbol sg) = dict_get_or (rn_bars s) (sg_symbol sg) []"
    "vis (sg_symbol sg) \<noteq> []" "b = last (vis (sg_symbol sg))" "is_entry sg"
  shows "with_stop C sg s = with_derived_stop E vis b sg"
  using assms by (auto simp: with_stop_def with_derived_stop_def live_last_price_def live_atr_def atr_now_def is_entry_def Let_def)

theorem live_stop_is_replay_stop_witness:
  "\<exists>C (s :: (unit, unit) runner) E b sg. with_stop C sg s = with_derived_stop E (\<lambda>_. [b]) b (sg :: signal)
     \<and> with_stop C sg s = Inr (sg\<lparr>sg_stop_loss := Some 98\<rparr>) \<and> be_name (E :: nat backtest_engine) = ''s''"
proof -
  define cfg where "cfg = (stop_config_of FIXED_PCT)\<lparr>sc_value := Some (2/100)\<rparr>"
  let ?E = "sample_backtest\<lparr>be_stop := Some cfg\<rparr>" and ?C = "sample_setup\<lparr>rs_stop := cfg\<rparr>" and ?b = "sample_day 0 100"
  let ?s = "(sample_runner (sample_router ()))\<lparr>rn_bars := [(''AAPL'', [?b])]\<rparr>"
  let ?sg = "\<lparr>sg_strategy = ''s'', sg_symbol = ''AAPL'', sg_action = ENTER_LONG, sg_ts = 0, sg_id = ''i'', sg_strength = 1,
     sg_limit = None, sg_stop_loss = None, sg_take_profit = None\<rparr>"
  have "with_stop ?C ?sg ?s = with_derived_stop ?E (\<lambda>_. [?b]) ?b ?sg"
    by (rule live_stop_is_replay_stop)
      (simp_all add: sample_setup_def sample_backtest_def sample_runner_def dict_get_or_def dict_get_Cons is_entry_def)
  moreover have "with_stop ?C ?sg ?s = Inr (?sg\<lparr>sg_stop_loss := Some 98\<rparr>)"
    by (simp add: with_stop_def live_last_price_def live_atr_def sample_setup_def sample_runner_def dict_get_or_def dict_get_Cons
        cfg_def stop_config_of_def initial_stop_def require_positive_def guard_level_def pct_level_def suppress_def sample_day_def dec_ops Let_def)
  ultimately show ?thesis
    by (intro exI [of _ ?C] exI [of _ ?s] exI [of _ ?E] exI [of _ ?b] exI [of _ ?sg]) (simp add: sample_backtest_def)
qed

end
