(* ===== verification/RunnerProtection.thy ===== *)
theory RunnerProtection
  imports RunnerSafety Lookahead
begin

text \<open>
  What the live runner promises of the protection of its positions: a position it could not cover is
  on record, one of the venue and the engine watches the stop, it says so while it lasts; trading
  starts only on a book the broker agrees with. And where it falls short: a warm-up that runs again
  reads the working orders as new objects, and the router's view of a stop that was placed before it
  never changes again.
\<close>

section \<open>A stop that outlives a warm-up\<close>

lemma adopting_keeps:
  assumes "for_a adopt_one os acc s = (r, s')" "c \<in> set (children_of sm s)"
  shows "c \<in> set (children_of sm s')"
  using assms
proof (induction os arbitrary: acc s)
  case (Cons w os)
  obtain ids vids ad where acc: "acc = (ids, vids, ad)" by (cases acc)
  show ?case
  proof (cases "is_complete w \<or> o_stop w = None \<or> o_broker_id w = None \<or> o_purpose w = PURPOSE_ENTRY
         \<or> o_id w \<in> set ids \<or> the (o_broker_id w) \<in> set vids")
    case True
    with Cons.prems acc show ?thesis by (auto simp: adopt_one_def intro: Cons.IH)
  next
    case False
    let ?s = "s\<lparr>rt_protective := dict_set (o_symbol w) (children_of (o_symbol w) s @ [w]) (rt_protective s)\<rparr>"
    have "c \<in> set (children_of sm ?s)" using Cons.prems(2) by (auto simp: children_of_def dict_get_or_def split: if_splits)
    moreover have step: "adopt_one w acc s = (Inr (o_id w # ids, the (o_broker_id w) # vids, ad @ [w]), ?s)"
      using False acc by (simp add: adopt_one_def)
    moreover have "for_a adopt_one os (o_id w # ids, the (o_broker_id w) # vids, ad @ [w]) ?s = (r, s')"
      using Cons.prems(1) step by (simp add: bind_a_run)
    ultimately show ?thesis using Cons.IH by blast
  qed
qed simp

definition readopted :: "order list \<Rightarrow> ('v, 's) runner \<Rightarrow> ('v, 's) runner" where
  "readopted os s = snd (bind_a (modify_a (restore_orders os)) (\<lambda>_. bind_a (gets_a open_orders) (\<lambda>ws. in_router (adopt_protection ws))) s)"

lemma readopted_run:
  "readopted os s = (restore_orders os s)\<lparr>rn_router := snd (adopt_protection (open_orders (restore_orders os s)) (rn_router (restore_orders os s)))\<rparr>"
  by (simp add: readopted_def in_router_snd)

lemma child_listed: "c \<in> set (children_of sm s) \<Longrightarrow> c \<in> set (all_children s)"
  unfolding children_of_def all_children_def dict_get_or_def dict_values_def
  by (cases "dict_get (rt_protective s) sm") (auto dest!: dict_get_mem intro: bexI [rotated])

lemma restored_router [simp]: "rn_router (restore_orders os s) = rn_router s"
  by (simp add: restore_orders_def Let_def)

lemma adopt_keeps: "c \<in> set (children_of sm r) \<Longrightarrow> c \<in> set (children_of sm (snd (adopt_protection os r)))"
  unfolding adopt_protection_def
  by (auto simp: bind_a_def split: prod.splits sum.splits dest: adopting_keeps)

lemma trade_update_keeps_id:
  assumes "apply_trade_update u w = (r, w2)"
  shows "o_id w2 = o_id w"
proof -
  have move: "transition t tm why who a = Inr (ch, b) \<Longrightarrow> o_id b = o_id a" for t tm why who a ch b
    by (auto simp: transition_def record_move_def Let_def bind_r_eq_Inr split: if_splits)
  have ack: "acknowledge tm a = Inr b \<Longrightarrow> o_id b = o_id a" for tm a b
    by (auto simp: acknowledge_def bind_r_eq_Inr split: if_splits dest!: move)
  show ?thesis
    using assms
    by (auto simp: apply_trade_update_def Let_def apply_fill_event_def apply_status_event_def
        split: if_splits option.splits sum.splits prod.splits dest!: order_apply_fill_cases(9) ack move)
qed

text \<open>
  A trade update right after a warm-up misses the router's stop. Let the router hold a protective stop,
  and a warm-up read the same order from the database again. Then the next trade update applied to that
  order leaves the router's copy as it was, and the quantity it counts as covered at the broker
  does not change, the stop's own fill and its cancellation included. The model keeps the split of the
  shared object as \<open>rn_detached\<close>, which only \<open>restore_orders\<close> writes; what later passes do with the
  copy is not claimed here.
\<close>

theorem update_after_a_warmup_misses_the_stop:
  assumes "c \<in> set (children_of sm (rn_router s))" "o_id c \<in> set (map o_id os)" "o_id w = o_id c"
  shows "c \<in> set (children_of sm (rn_router (snd (applied_update u w (readopted os s)))))
    \<and> broker_side_protected_qty sm p (rn_router (snd (applied_update u w (readopted os s))))
      = broker_side_protected_qty sm p (rn_router (readopted os s))"
proof -
  let ?s1 = "readopted os s"
  have cut: "o_id c \<in> set (rn_detached ?s1)"
    using child_listed [OF assms(1)] assms(2) by (auto simp: readopted_run restore_orders_def Let_def)
  obtain r w2 where u: "apply_trade_update u w = (r, w2)" by (cases "apply_trade_update u w")
  have "o_id w2 = o_id c" using trade_update_keeps_id [OF u] assms(3) by simp
  then have "rn_router (snd (applied_update u w ?s1)) = rn_router ?s1"
    using cut u by (simp add: applied_update_def order_changed_def Let_def)
  moreover have "c \<in> set (children_of sm (rn_router ?s1))"
    using adopt_keeps [OF assms(1)] by (simp add: readopted_run)
  ultimately show ?thesis by simp
qed

text \<open>Overnight, with a stop under a long position; in the morning the venue cancels it.\<close>

definition sample_stop :: order where
  "sample_stop = (order_defaults ''s'' ''c'' ''AAPL'' SELL 100)\<lparr>o_type := STOP, o_tif := GTC, o_stop := Some 147,
     o_broker_id := Some ''v'', o_status := SUBMITTED, o_purpose := PURPOSE_STOP_LOSS\<rparr>"

definition sample_night :: "(unit, unit) runner" where
  "sample_night = (sample_runner ((sample_router ())\<lparr>rt_protective := [(''AAPL'', [sample_stop])]\<rparr>))\<lparr>rn_open := [(''c'', sample_stop)]\<rparr>"

definition sample_cancel :: trade_update where
  "sample_cancel = \<lparr>u_event = ''canceled'', u_client_id = ''c'', u_broker_id = ''v'', u_symbol = ''AAPL'', u_at = 0,
     u_status = Some CANCELLED, u_fill = None, u_reason = None, u_broker = None\<rparr>"

theorem update_after_a_warmup_misses_the_stop_witness:
  "\<exists>s2. s2 = snd (applied_update sample_cancel sample_stop (readopted [sample_stop] sample_night))
     \<and> map o_status (open_orders s2) = [CANCELLED]
     \<and> broker_side_protected_qty ''AAPL'' sample_position (rn_router s2) = 100 \<and> p_qty sample_position = 100"
proof -
  let ?s1 = "readopted [sample_stop] sample_night"
  have one: "?s1 = sample_night\<lparr>rn_detached := [''s'']\<rparr>"
    by (simp add: readopted_run restore_orders_def adopt_protection_def open_orders_def sample_night_def sample_runner_def
        all_children_def dict_values_def adopt_one_def bind_a_def sample_stop_def order_defaults_def dict_set_def is_complete_def
        PURPOSE_STOP_LOSS_def PURPOSE_ENTRY_def is_terminal_def TERMINAL_def)
  have "sample_stop \<in> set (children_of ''AAPL'' (rn_router sample_night))"
    by (simp add: sample_night_def sample_runner_def children_of_def dict_get_or_def dict_get_Cons)
  from update_after_a_warmup_misses_the_stop [OF this, of "[sample_stop]" sample_stop sample_cancel sample_position]
  have "broker_side_protected_qty ''AAPL'' sample_position (rn_router (snd (applied_update sample_cancel sample_stop ?s1)))
      = broker_side_protected_qty ''AAPL'' sample_position (rn_router ?s1)" by simp
  moreover have "broker_side_protected_qty ''AAPL'' sample_position (rn_router ?s1) = 100"
    unfolding one by (simp add: broker_side_protected_qty_def protected_qty_def children_of_def dict_get_or_def dict_get_Cons sample_night_def
        sample_runner_def sample_stop_def order_defaults_def closing_side_def is_long_def sample_position_def remaining_qty_def
        is_complete_def dsum_def dec_ops)
  moreover have "map o_status (open_orders (snd (applied_update sample_cancel sample_stop ?s1))) = [CANCELLED]"
    unfolding one by (simp add: applied_update_def apply_trade_update_def sample_cancel_def sample_stop_def order_defaults_def apply_status_event_def
        transition_def is_stale_event_def assert_transition_def can_transition_def record_move_def guard_r_def order_changed_def
        open_orders_def dict_values_def sample_night_def sample_runner_def Let_def)
  ultimately show ?thesis by (simp add: sample_position_def)
qed

section \<open>A position without a stop\<close>

definition gap_recorded :: "string \<Rightarrow> order \<times> bool \<Rightarrow> ('v, 's) runner \<Rightarrow> bool" where
  "gap_recorded sm e s \<longleftrightarrow> dict_get (rn_unprotected s) sm \<noteq> None \<and> dict_get (rn_entries s) sm = Some e"

lemma gap_noted: "gap_recorded sm e (note_gap sm q e s)"
  by (simp add: gap_recorded_def note_gap_def)

definition same_gaps :: "('v, 's) runner \<Rightarrow> ('v, 's) runner \<Rightarrow> bool" where
  "same_gaps s s' \<longleftrightarrow> rn_unprotected s' = rn_unprotected s \<and> rn_entries s' = rn_entries s"

interpretation gapless: state_relation same_gaps
  by unfold_locales (auto simp: same_gaps_def)

lemma same_gaps_out: "follows same_gaps (out f)"
  by (simp add: follows_def out_snd same_gaps_def with_world_def)

lemma record_refusal_gaps: "follows same_gaps (record_refusal P r)"
  unfolding record_refusal_def by (intro follows_intros same_gaps_out)

lemma refusals_gaps:
  assumes "gap_recorded sm e s"
  shows "gap_recorded sm e (snd (for_a (\<lambda>x _. record_refusal P x) rs () s))"
proof -
  have "follows same_gaps (for_a (\<lambda>x _. record_refusal P x) rs ())"
    by (intro gapless.for_loop record_refusal_gaps)
  from followsD [OF this, of s] show ?thesis using assms by (simp add: gap_recorded_def same_gaps_def)
qed

text \<open>What covers an entry: the router's own answer that nothing is missing.\<close>

definition router_covered :: "'v runner_ports \<Rightarrow> 's runner_setup \<Rightarrow> order \<Rightarrow> 'v router \<Rightarrow> bool" where
  "router_covered P C entry r \<longleftrightarrow>
     (\<exists>atr res. fst (submit_protective_orders (rp_router P) entry (Some (rs_stop C)) atr r) = Inr res
        \<and> is_fully_protected res \<and> \<not> pr_deferred res)"

definition calls_for_cover :: "order \<Rightarrow> ('v, 's) runner \<Rightarrow> bool" where
  "calls_for_cover entry s \<longleftrightarrow>
     (let p = position_of (o_symbol entry) (rn_portfolio s) in \<not> is_flat p \<and> (0 < p_qty p) = (o_side entry = BUY))"

lemma touched_portfolio [simp]:
  "rn_portfolio (on_portfolio f s) = f (rn_portfolio s)"
  "rn_router (on_portfolio f s) = (rn_router s)\<lparr>rt_portfolio := f (rt_portfolio (rn_router s))\<rparr>"
  by (simp_all add: rn_portfolio_def on_portfolio_def)

text \<open>
  C12. No position goes unprotected without a record. When a fill, or a retry, asks for protection of
  a position the entry built: either the router answered that the entry's position is fully covered,
  or the symbol and the entry are on record as unprotected, whatever happened: a refused or partial
  stop, one deferred to the entry's completion, an ATR or a router that raised. A raise is passed on.
\<close>

theorem no_protection_gap_goes_unrecorded:
  fixes P :: "'v runner_ports" and s :: "('v, 's) runner"
  assumes "calls_for_cover entry s" "protect P C entry live retry s = res"
  shows "gap_recorded (o_symbol entry) (entry, live) (snd res)
    \<or> fst res = Inr () \<and> router_covered P C entry ((rn_router s)\<lparr>rt_portfolio := touch_position (o_symbol entry) (rn_portfolio s)\<rparr>)"
proof -
  let ?sm = "o_symbol entry"
  let ?s = "on_portfolio (touch_position ?sm) s"
  define asking :: "('v, 's, protection_result) ran" where "asking = bind_a (checked (live_atr C ?sm)) (\<lambda>atr.
      in_router (submit_protective_orders (rp_router P) entry (Some (rs_stop C)) atr))"
  define k :: "exn + protection_result \<Rightarrow> ('v, 's, unit) ran" where "k = (\<lambda>r. case r of
          Inl e \<Rightarrow> bind_a (modify_a (\<lambda>s. note_gap ?sm (dabs (p_qty (position_of ?sm (rn_portfolio s)))) (entry, live) s)) (\<lambda>_. raise_a e)
        | Inr res \<Rightarrow>
            bind_a (modify_a (fold track (pr_placed res))) (\<lambda>_.
            if pr_deferred res then modify_a (note_gap ?sm (pr_unprotected res) (entry, live))
            else if is_fully_protected res then modify_a (forget_gap ?sm)
            else
              bind_a (modify_a (note_gap ?sm (pr_unprotected res) (entry, live))) (\<lambda>_.
              if retry then ret () else for_a (\<lambda>x _. record_refusal P x) (pr_refused res) ())))"
  have run: "res = k (fst (asking ?s)) (snd (asking ?s))"
    using assms(1) unfolding assms(2) [symmetric] protect_def calls_for_cover_def Let_def
    by (simp add: bind_attempt flip: asking_def k_def)
  show ?thesis
  proof (cases "fst (asking ?s)")
    case (Inl e)
    then show ?thesis by (simp add: run k_def gap_noted)
  next
    case (Inr r)
    have "\<exists>atr. fst (submit_protective_orders (rp_router P) entry (Some (rs_stop C)) atr (rn_router ?s)) = Inr r"
    proof (cases "live_atr C ?sm ?s")
      case (Inr atr)
      with \<open>fst (asking ?s) = Inr r\<close> show ?thesis
        by (intro exI [of _ atr]) (simp add: asking_def checked_def bind_a_run in_router_def split: prod.splits)
    qed (use Inr in \<open>simp add: asking_def checked_def bind_a_run\<close>)
    then show ?thesis
      using Inr by (auto simp: run k_def gap_noted refusals_gaps router_covered_def rn_portfolio_def)
  qed
qed

theorem no_protection_gap_goes_unrecorded_witness:
  "\<exists>(P :: unit runner_ports) C (s :: (unit, unit) runner) e w. calls_for_cover w s \<and> fst (protect P C w True False s) = Inl e
     \<and> gap_recorded ''AAPL'' (w, True) (snd (protect P C w True False s))"
proof -
  let ?P = "quiet_ports sample_ports" and ?C = "sample_setup\<lparr>rs_atr := (\<lambda>bs n. Inl (value_error ''no bars''))\<rparr>"
  let ?s = "sample_runner (sample_router ())"
  let ?w = "(order_defaults ''o'' ''c'' ''AAPL'' BUY 100)\<lparr>o_filled := 100, o_status := FILLED\<rparr>"
  have p: "position_of ''AAPL'' (rn_portfolio ?s) = sample_position"
    by (simp add: rn_portfolio_def sample_runner_def sample_router_def position_of_def sample_portfolio_def dict_get_or_def dict_get_Cons)
  have calls: "calls_for_cover ?w ?s"
    by (simp add: calls_for_cover_def order_defaults_def p) (simp add: is_flat_def sample_position_def)
  have "fst (protect ?P ?C ?w True False ?s) = Inl (value_error ''no bars'')"
    using calls unfolding calls_for_cover_def protect_def Let_def
    by (simp add: bind_a_run attempt_run checked_def live_atr_def sample_setup_def)
  moreover have "gap_recorded ''AAPL'' (?w, True) (snd (protect ?P ?C ?w True False ?s))"
    using no_protection_gap_goes_unrecorded [OF calls, of ?P ?C True False] calculation by (auto simp: order_defaults_def)
  ultimately show ?thesis using calls by blast
qed

text \<open>Ratcheting keeps the size and only tightens the level, so what the old level triggers, the new one does.\<close>

lemma trail_keeps:
  assumes "trail C sm b s = (r, s0)"
  defines "p \<equiv> position_of sm (rn_portfolio s)" and "p0 \<equiv> position_of sm (rn_portfolio s0)"
  shows "rn_unprotected s0 = rn_unprotected s" "rt_protective (rn_router s0) = rt_protective (rn_router s)"
    and "p_symbol p0 = p_symbol p" "p_qty p0 = p_qty p" "tighter p (p_stop_loss p) (p_stop_loss p0)"
proof -
  have step: "rn_unprotected s0 = rn_unprotected s \<and> rt_protective (rn_router s0) = rt_protective (rn_router s)
      \<and> (p0 = p \<or> (\<exists>atr. p0 = trail_step (rs_stop C) (b, atr) p))"
  proof (cases "sc_type (rs_stop C) \<notin> set TRAILING_TYPES")
    case True
    then show ?thesis using assms by (simp add: trail_def ret_def)
  next
    case False
    show ?thesis
    proof (cases "live_atr C sm s")
      case (Inl e)
      then show ?thesis using assms False by (simp add: trail_def bind_a_def checked_def)
    next
      case (Inr atr)
      then have "s0 = on_portfolio (put_position sm (trail_step (rs_stop C) (b, atr) p)) s"
        using assms(1) False by (simp add: trail_def bind_a_def checked_def trail_step_def p_def split: prod.splits)
      then show ?thesis unfolding p0_def by (auto simp: on_portfolio_def rn_portfolio_def)
    qed
  qed
  have symbol: "p_symbol (trail_step (rs_stop C) ba q) = p_symbol q" for ba q
    by (auto simp: trail_step_def update_trailing_def Let_def split: sum.split option.split)
  show "rn_unprotected s0 = rn_unprotected s" "rt_protective (rn_router s0) = rt_protective (rn_router s)" using step by blast+
  show "p_symbol p0 = p_symbol p" "p_qty p0 = p_qty p" "tighter p (p_stop_loss p) (p_stop_loss p0)"
    using step trail_step_tighter [of p "rs_stop C"] by (auto simp: symbol trail_step_frame) (auto simp: tighter_def)
qed

lemma tighter_triggers:
  assumes "should_trigger p b" "p_qty p0 = p_qty p" "tighter p (p_stop_loss p) (p_stop_loss p0)"
  shows "should_trigger p0 b"
proof -
  obtain x where x: "p_stop_loss p = Some x" "\<not> is_flat p" "if is_long p then b_low b \<le> x else x \<le> b_high b"
    using assms(1) by (auto simp: should_trigger_def split: option.splits if_splits)
  moreover from this assms(3) obtain y where y: "p_stop_loss p0 = Some y" "if is_long p then x \<le> y else y \<le> x" by (auto simp: tighter_def)
  moreover have "is_long p0 = is_long p" "is_flat p0 = is_flat p" using assms(2) by (simp_all add: is_long_def is_flat_def)
  ultimately show ?thesis by (auto simp: should_trigger_def split: if_splits)
qed

text \<open>What the check does with the answer of the router, once it has decided to close.\<close>

lemma check_stop_closes:
  assumes "find (\<lambda>b. b_symbol b = sm) (rev fresh) = Some b" "trail C sm b s = (Inr u, s0)" "dict_get (rn_unprotected s0) sm \<noteq> None"
    and "exit_reason C (position_of sm (rn_portfolio s0)) b s0 = Inr (Some why)"
  shows "case flatten (rp_router P) sm None why (rn_router s0) of
      (Inl e, r) \<Rightarrow> fst (check_stop P C fresh sm s) = Inl e \<and> rn_router (snd (check_stop P C fresh sm s)) = r
    | (Inr res, r) \<Rightarrow> fst (check_stop P C fresh sm s) = Inr ()
        \<and> (if sr_submitted res
           then rn_router (snd (check_stop P C fresh sm s)) = r
             \<and> (case sr_order res of None \<Rightarrow> True
                | Some o1 \<Rightarrow> is_complete o1 \<or> dict_get (rn_open (snd (check_stop P C fresh sm s))) (o_client_id o1) = Some o1)
           else dict_get (rn_unprotected (snd (check_stop P C fresh sm s))) sm \<noteq> None)"
proof -
  define s1 where "s1 = count (\<lambda>st. st\<lparr>st_stops := st_stops st + 1\<rparr>) s0"
  have s1: "rn_router s1 = rn_router s0" "rn_unprotected s1 = rn_unprotected s0" by (simp_all add: s1_def count_def)
  obtain a r where f: "flatten (rp_router P) sm None why (rn_router s0) = (a, r)" by fastforce
  have run: "check_stop P C fresh sm s = bind_a (in_router (flatten (rp_router P) sm None why)) (\<lambda>res.
              if \<not> sr_submitted res
              then bind_a (record_refusal P res) (\<lambda>_. modify_a (note_protection_gap sm))
              else (case sr_order res of None \<Rightarrow> ret () | Some o1 \<Rightarrow> modify_a (track o1))) s1"
    unfolding check_stop_def assms(1) option.case
    using assms(2,4) by (simp add: bind_a_def checked_def s1_def)
  have kept: "dict_get (rn_unprotected (note_protection_gap sm t)) sm \<noteq> None" if "dict_get (rn_unprotected t) sm \<noteq> None" for t :: "('a, 'b) runner"
    using that by (auto simp: note_protection_gap_def Let_def split: option.split)
  show ?thesis
  proof (cases a)
    case (Inl e)
    then show ?thesis by (simp add: run f bind_a_run in_router_def s1)
  next
    case (Inr res)
    show ?thesis
    proof (cases "sr_submitted res")
      case True
      then show ?thesis using Inr
        by (auto simp: run f bind_a_run in_router_def s1 track_def split: option.split)
    next
      case False
      let ?t = "s1\<lparr>rn_router := r\<rparr>"
      have "same_gaps ?t (snd (record_refusal P res ?t))" using record_refusal_gaps unfolding follows_def by blast
      then have "dict_get (rn_unprotected (snd (record_refusal P res ?t))) sm \<noteq> None"
        using assms(3) by (simp add: same_gaps_def s1)
      moreover have "fst (record_refusal P res ?t) = Inr ()"
        by (simp add: record_refusal_def bind_attempt split: option.split)
      ultimately show ?thesis using False Inr kept by (simp add: run f bind_a_run in_router_def s1)
    qed
  qed
qed

text \<open>
  C13. The engine closes what the venue does not protect. Let a position be on record as unprotected,
  the router count less cover than its size, the configured stop be a price level (any type but the time
  stop, which has none), and a bar that just closed have traded through that level. The runner's check of
  that position first ratchets a trailing stop, and raises when that does; a fixed level it leaves alone.
  Then it asks the router for a market close of the whole position on the strength of the stop, whatever
  the broker was configured to hold; an order that is accepted is tracked, a refusal leaves the gap on
  record, and the router's failure is raised.
\<close>

theorem engine_closes_what_is_not_covered:
  assumes "dict_get (rn_unprotected s) sm \<noteq> None" "p = position_of sm (rn_portfolio s)" "p_symbol p = sm"
    "broker_side_protected_qty sm p (rn_router s) < dabs (p_qty p)"
    "sc_type (rs_stop C) \<noteq> TIME"
    "find (\<lambda>b. b_symbol b = sm) (rev fresh) = Some b" "should_trigger p b"
  shows "(sc_type (rs_stop C) \<notin> set TRAILING_TYPES \<longrightarrow> trail C sm b s = (Inr (), s))
    \<and> (case trail C sm b s of
      (Inl e, s0) \<Rightarrow> check_stop P C fresh sm s = (Inl e, s0)
    | (Inr _, s0) \<Rightarrow> (case flatten (rp_router P) sm None PURPOSE_STOP_LOSS (rn_router s0) of
      (Inl e, r) \<Rightarrow> fst (check_stop P C fresh sm s) = Inl e \<and> rn_router (snd (check_stop P C fresh sm s)) = r
    | (Inr res, r) \<Rightarrow> fst (check_stop P C fresh sm s) = Inr ()
        \<and> (if sr_submitted res
           then rn_router (snd (check_stop P C fresh sm s)) = r
             \<and> (case sr_order res of None \<Rightarrow> True
                | Some o1 \<Rightarrow> is_complete o1 \<or> dict_get (rn_open (snd (check_stop P C fresh sm s))) (o_client_id o1) = Some o1)
           else dict_get (rn_unprotected (snd (check_stop P C fresh sm s))) sm \<noteq> None)))"
proof -
  obtain t s0 where trail: "trail C sm b s = (t, s0)" by fastforce
  have fixed: "sc_type (rs_stop C) \<notin> set TRAILING_TYPES \<longrightarrow> trail C sm b s = (Inr (), s)" by (simp add: trail_def ret_def)
  show ?thesis
  proof (cases t)
    case (Inl e)
    then show ?thesis using trail fixed assms(6) by (simp add: check_stop_def bind_a_def)
  next
    case (Inr u)
    note kept = trail_keeps [OF trail]
    let ?p0 = "position_of sm (rn_portfolio s0)"
    have cover: "broker_side_protected_qty sm ?p0 (rn_router s0) = broker_side_protected_qty sm p (rn_router s)"
      using kept(2,4) assms(2)
      by (simp add: broker_side_protected_qty_def protected_qty_def children_of_def closing_side_def is_long_def)
    have "should_trigger ?p0 b" by (rule tighter_triggers [OF assms(7)]) (use kept(4,5) assms(2) in simp_all)
    then have why: "exit_reason C ?p0 b s0 = Inr (Some PURPOSE_STOP_LOSS)"
      using assms(1-5) kept(1,3,4) cover by (auto simp: exit_reason_def stop_is_missing_def)
    show ?thesis
      using check_stop_closes [OF assms(6) trail [unfolded Inr] _ why, of P] kept(1) assms(1) trail Inr fixed by simp
  qed
qed

theorem engine_closes_what_is_not_covered_witness:
  "\<exists>(s :: (unit, unit) runner) C b. should_trigger (position_of ''AAPL'' (rn_portfolio s)) b \<and> sc_broker_side (rs_stop C)
     \<and> (case flatten sample_ports ''AAPL'' None PURPOSE_STOP_LOSS (rn_router s) of
      (Inl e, r) \<Rightarrow> fst (check_stop (quiet_ports sample_ports) C [b] ''AAPL'' s) = Inl e
    | (Inr res, r) \<Rightarrow> fst (check_stop (quiet_ports sample_ports) C [b] ''AAPL'' s) = Inr ())"
proof -
  let ?p = "sample_position\<lparr>p_stop_loss := Some 147\<rparr>"
  let ?r = "(sample_router ())\<lparr>rt_portfolio := sample_portfolio\<lparr>pf_positions := [(''AAPL'', ?p)]\<rparr>\<rparr>"
  let ?s = "(sample_runner ?r)\<lparr>rn_unprotected := [(''AAPL'', 100)]\<rparr>"
  let ?C = "sample_setup\<lparr>rs_stop := (stop_config_of FIXED_PCT)\<lparr>sc_broker_side := True\<rparr>\<rparr>"
  let ?b = "sample_day 0 140" and ?P = "quiet_ports sample_ports"
  have p: "position_of ''AAPL'' (rn_portfolio ?s) = ?p"
    by (simp add: rn_portfolio_def sample_runner_def position_of_def dict_get_or_def dict_get_Cons)
  have hit: "should_trigger ?p ?b"
    by (simp add: should_trigger_def sample_position_def is_flat_def is_long_def sample_day_def)
  have P: "rp_router ?P = sample_ports" by (simp add: quiet_ports_def)
  have C: "sc_type (rs_stop ?C) \<noteq> TIME" "sc_type (rs_stop ?C) \<notin> set TRAILING_TYPES" by (simp_all add: stop_config_of_def TRAILING_TYPES_def)
  have r: "rn_router ?s = ?r" by (simp add: sample_runner_def)
  have "broker_side_protected_qty ''AAPL'' ?p (rn_router ?s) < dabs (p_qty ?p)"
    by (simp add: broker_side_protected_qty_def protected_qty_def children_of_def dict_get_or_def sample_runner_def sample_router_def
        sample_position_def dsum_def dec_ops)
  from engine_closes_what_is_not_covered [where sm = "''AAPL''" and s = ?s and P = ?P and C = ?C and fresh = "[?b]", OF _ p [symmetric] _ this C(1) _ hit]
  have "case flatten (rp_router ?P) ''AAPL'' None PURPOSE_STOP_LOSS (rn_router ?s) of
      (Inl e, r) \<Rightarrow> fst (check_stop ?P ?C [?b] ''AAPL'' ?s) = Inl e
    | (Inr res, r) \<Rightarrow> fst (check_stop ?P ?C [?b] ''AAPL'' ?s) = Inr ()"
    using C(2) by (auto simp: sample_day_def sample_position_def dict_get_Cons new_position_def split: prod.splits sum.splits)
  moreover have "sc_broker_side (rs_stop ?C)" by simp
  moreover have "should_trigger (position_of ''AAPL'' (rn_portfolio ?s)) ?b" unfolding p by (rule hit)
  ultimately show ?thesis unfolding P by (intro exI [of _ ?s] exI [of _ ?C] exI [of _ ?b] conjI)
qed

section \<open>Starting on an agreed book\<close>

definition same_book :: "('v, 's) runner \<Rightarrow> ('v, 's) runner \<Rightarrow> bool" where
  "same_book s s' \<longleftrightarrow> rn_portfolio s' = rn_portfolio s \<and> rn_open s' = rn_open s"

interpretation shelved: state_relation same_book
  by unfold_locales (auto simp: same_book_def)

lemma same_book_out: "follows same_book (out f)"
  by (simp add: follows_def out_snd same_book_def with_world_def rn_portfolio_def)

lemma shelf_simps [simp]:
  "same_book s (count f s)" "same_book s (s\<lparr>rn_anchor_pending := b\<rparr>)" "same_book s (s\<lparr>rn_strategy := x\<rparr>)"
  by (simp_all add: same_book_def count_def rn_portfolio_def)

lemma bind_a_Inr:
  "bind_a m f s = (Inr y, s') \<longleftrightarrow> (\<exists>x s1. m s = (Inr x, s1) \<and> f x s1 = (Inr y, s'))"
  by (auto simp: bind_a_def split: prod.splits sum.splits)

lemma followsE: "follows R m \<Longrightarrow> m s = (r, s') \<Longrightarrow> R s s'"
  by (metis followsD snd_conv)

definition agreed :: "'v runner_ports \<Rightarrow> ('v, 's) runner \<Rightarrow> bool" where
  "agreed P s \<longleftrightarrow> (\<exists>v w w'. rp_venue P w = (Inr v, w')
     \<and> (dict_ok (pf_positions (rn_portfolio s)) \<longrightarrow> books_agree (rn_portfolio s) (open_orders s) (rp_tolerance P) v))"

lemma agreed_book: "same_book s s' \<Longrightarrow> agreed P s \<Longrightarrow> agreed P s'"
  by (simp add: agreed_def same_book_def open_orders_def)

lemma compare_now_clean:
  assumes "compare_now P s = (Inr rep, s')" "is_clean rep"
  shows "agreed P s'"
proof -
  have "follows same_book (compare_now P)"
    unfolding compare_now_def clock_now_def by (intro follows_intros same_book_out)
  from followsE [OF this assms(1)] have book: "same_book s s'" .
  obtain r w where v: "rp_venue P (rt_venue (rn_router s)) = (r, w)" by (cases "rp_venue P (rt_venue (rn_router s))")
  then obtain s1 where at: "out (rp_venue P) s = (r, s1)" by (simp add: out_def in_router_def outside_def)
  let ?now = "env_now (po_env (rp_router P) (rt_venue (rn_router s1)))"
  have run: "compare_now P s = (case compare_books ?now (rp_tolerance P) True \<lparr>rd_book = rn_portfolio s, rd_known = open_orders s, rd_venue = r\<rparr> of
       (r, halts) \<Rightarrow> bind_a (for_a (\<lambda>h _. out (rp_engage P h None)) halts ()) (\<lambda>_. lift_a r)) s1"
    by (simp add: compare_now_def bind_attempt at clock_now_def)
  show ?thesis
  proof (cases r)
    case (Inl e)
    with assms(1) run show ?thesis by (auto simp: compare_books_def bind_a_Inr)
  next
    case (Inr x)
    then have "\<exists>now. rep = compare_report now (rn_portfolio s) (open_orders s) (rp_tolerance P) x"
      using assms(1) run by (auto simp: compare_books_def bind_a_Inr)
    then have "agreed P s"
      using assms(2) compare_clean Inr v unfolding agreed_def by blast
    then show ?thesis using book by (rule agreed_book [rotated])
  qed
qed

lemma reconcile_now_clean:
  assumes "reconcile_now P s = (Inr rep, s')" "is_clean rep"
  shows "agreed P s'"
proof -
  obtain rep1 s1 s2 where r1: "compare_now P s1 = (Inr rep1, s2)"
    and k: "(if is_clean rep1 then ret rep1
     else
       bind_a (if rp_settles P then bind_a (tell (rp_wait P (rp_settle_us P))) (\<lambda>_. compare_now P) else ret rep1) (\<lambda>rep.
       if is_clean rep then ret rep
       else bind_a (out (rp_engage P (mismatch_halt rep) None)) (\<lambda>_. ret rep))) s2 = (Inr rep, s')"
    using assms(1) by (auto simp: reconcile_now_def bind_a_Inr)
  show ?thesis
  proof (cases "is_clean rep1")
    case True
    then show ?thesis using k r1 compare_now_clean by auto
  next
    case False
    then obtain rep2 s3 where two: "(if rp_settles P then bind_a (tell (rp_wait P (rp_settle_us P))) (\<lambda>_. compare_now P) else ret rep1) s2 = (Inr rep2, s3)"
      and rest: "(if is_clean rep2 then ret rep2 else bind_a (out (rp_engage P (mismatch_halt rep2) None)) (\<lambda>_. ret rep2)) s3 = (Inr rep, s')"
      using k by (auto simp: bind_a_Inr)
    have "rep2 = rep" "s3 = s'" using rest assms(2) by (auto simp: bind_a_Inr split: if_splits)
    then show ?thesis
      using two False assms(2) compare_now_clean by (auto simp: bind_a_Inr split: if_splits)
  qed
qed

lemma warmup_agreed:
  assumes "warmup P C at_open s = (Inr (), s')"
  shows "agreed P s'"
proof -
  obtain decision missing s1 s2 u where rb: "recover_book P C s1 = (Inr u, s2)"
    and rest: "begin_session P C decision missing s2 = (Inr (), s')"
    using assms unfolding warmup_def bind_a_Inr by blast
  have "follows same_book (begin_session P C decision missing)"
    unfolding begin_session_def announce_decision_bar_def send_alert_def start_strategy_def clock_now_def tell_def
    by (intro follows_intros same_book_out shelved.modify) (simp_all add: follows_def split: prod.split)
  from followsE [OF this rest] have "same_book s2 s'" .
  moreover obtain rep s0 where "reconcile_now P s0 = (Inr rep, s2)" "is_clean rep"
    using rb by (auto simp: recover_book_def bind_a_Inr split: if_splits)
  ultimately show ?thesis using reconcile_now_clean agreed_book by blast
qed

text \<open>
  C7. The runner trades on a book the broker agrees with, or not at all. A run that did anything but
  park or fail began with a warm-up whose last reading of the venue agreed with our book: every
  quantity, the cash within the tolerance, and no working order there that we do not know. A run
  that parked asked for a global halt first, and the kill switch accepted it.
\<close>

theorem runs_only_on_an_agreed_book:
  fixes s :: "('v, 's) runner"
  assumes "run_for P C n s = (Inr x, s')"
  shows "if x = Parked
    then \<exists>e s1 why. bind_a (warmup P C True) (\<lambda>_. run_loop P C n) (s\<lparr>rn_running := True\<rparr>) = (Inl e, s1) \<and> is_warmup_blocked e
      \<and> fst (engage_halt P GLOBAL why QUARANTINE_ACTOR ''refusing to start'' None s1) = Inr ()
      \<and> why \<in> {RECONCILIATION_MISMATCH, UNHANDLED_EXCEPTION}
    else \<exists>s1. warmup P C True (s\<lparr>rn_running := True\<rparr>) = (Inr (), s1) \<and> agreed P s1"
proof -
  let ?body = "bind_a (warmup P C True) (\<lambda>_. run_loop P C n)" and ?s = "s\<lparr>rn_running := True\<rparr>"
  have never: "run_loop P C n s = (Inr y, s') \<Longrightarrow> y \<noteq> Parked" for n s s' y
    by (induction n arbitrary: s) (auto simp: bind_a_Inr split: if_splits)
  show ?thesis
  proof (cases "fst (?body ?s)")
    case (Inl e)
    have "bind_a (quarantine P e) (\<lambda>_. ret Parked) (snd (?body ?s)) = (Inr x, s')"
      and blocked: "is_warmup_blocked e"
      using assms Inl by (simp_all add: run_for_def bind_attempt split: if_splits)
    then obtain s1 where q: "quarantine P e (snd (?body ?s)) = (Inr (), s1)" "x = Parked" by (auto simp: bind_a_Inr)
    then obtain why where "fst (engage_halt P GLOBAL why QUARANTINE_ACTOR ''refusing to start'' None (snd (?body ?s))) = Inr ()"
      "why \<in> {RECONCILIATION_MISMATCH, UNHANDLED_EXCEPTION}"
      by (auto simp: quarantine_def Let_def bind_a_Inr split: if_splits dest: arg_cong [where f = fst])
    moreover have "?body ?s = (Inl e, snd (?body ?s))" using Inl by (metis prod.collapse)
    ultimately show ?thesis using q(2) blocked by (simp only: if_True simp_thms) blast
  next
    case (Inr y)
    then have "x = y" using assms by (simp add: run_for_def bind_attempt)
    obtain s1 s2 where w: "warmup P C True ?s = (Inr (), s1)" "run_loop P C n s1 = (Inr y, s2)"
    proof -
      have "?body ?s = (Inr y, snd (?body ?s))" using Inr by (metis prod.collapse)
      then show thesis using that unfolding bind_a_Inr by auto
    qed
    then show ?thesis using never [OF w(2)] \<open>x = y\<close> warmup_agreed by auto
  qed
qed

text \<open>An exchange that is open on the first day, and a broker that holds what we hold.\<close>

definition open_calendar :: calendar_source where
  "open_calendar = \<lparr>cs_schedule = (\<lambda>y. if y = 1970 then [(EPOCH_ORD, 0, 100)] else []), cs_covered = None, cs_local_date = (\<lambda>t. EPOCH_ORD),
     cs_local_time = (\<lambda>t. 0), cs_midnight = (\<lambda>d. 0), cs_regular_close = None\<rparr>"

definition agreeing_ports :: "unit runner_ports" where
  "agreeing_ports = (quiet_ports sample_ports)\<lparr>rp_venue :=
     (\<lambda>v. (Inr \<lparr>vv_positions = [sample_position], vv_orders = [], vv_cash = 100000\<rparr>, v))\<rparr>"

lemma agreeing_clean:
  "is_clean (compare_report now sample_portfolio [] 0 \<lparr>vv_positions = [sample_position], vv_orders = [], vv_cash = 100000\<rparr>)"
proof -
  have "dict_ok (pf_positions sample_portfolio)" by (simp add: sample_portfolio_def dict_ok_def dict_keys_def)
  then show ?thesis
    by (simp add: compare_clean books_agree_def venue_qty_def book_qty_def their_quantities_def sample_portfolio_def sample_position_def
        new_position_def dict_get_or_def dict_get_Cons dec_ops)
qed

lemma agreeing_recovers:
  assumes "rn_open s = []" "rt_portfolio (rn_router s) = sample_portfolio"
  shows "\<exists>s'. recover_book agreeing_ports C s = (Inr (), s')"
proof -
  have adopt: "adopt_protection [] r = (Inr [], r)" for r :: "unit router" by (simp add: adopt_protection_def bind_a_def)
  show ?thesis
    using assms agreeing_clean
    by (simp add: recover_book_def bind_a_def out_def in_router_def outside_def agreeing_ports_def quiet_ports_def restore_orders_def
        open_orders_def dict_values_def catch_up_on_orders_def reconcile_now_def settle_fees_def compare_now_def attempt_def
        clock_now_def compare_books_def adopt rn_portfolio_def Let_def)
qed

theorem runs_only_on_an_agreed_book_witness:
  "\<exists>C (s :: (unit, unit) runner) s' s1. run_for agreeing_ports C 0 s = (Inr StillRunning, s')
     \<and> warmup agreeing_ports C True (s\<lparr>rn_running := True\<rparr>) = (Inr (), s1) \<and> agreed agreeing_ports s1"
proof -
  let ?C = "sample_setup\<lparr>rs_calendar := open_calendar, rs_symbols := []\<rparr>" and ?s = "sample_runner (sample_router ())"
  let ?s1 = "?s\<lparr>rn_running := True, rn_book_bound := True, rn_decision := None, rn_router := (sample_router ())\<lparr>rt_venue := ()\<rparr>\<rparr>"
  have floor: "warmup_floor ?C 0 = Inr (Some 0)" by code_simp
  have now: "env_now (po_env (rp_router agreeing_ports) v) = 0" for v
    by (simp add: agreeing_ports_def quiet_ports_def sample_ports_def sample_env_def)
  obtain s2 where rec: "recover_book agreeing_ports ?C ?s1 = (Inr (), s2)"
    using agreeing_recovers [of ?s1 ?C] by (auto simp: sample_runner_def sample_router_def)
  have beg: "\<exists>s3. begin_session agreeing_ports ?C None [] s2 = (Inr (), s3)"
    by (simp add: begin_session_def bind_a_def start_strategy_def sample_setup_def clock_now_def)
  have ens: "out (rp_ensure_strategy agreeing_ports) s = (Inr (), s\<lparr>rn_router := (rn_router s)\<lparr>rt_venue := ()\<rparr>\<rparr>)" for s :: "(unit, unit) runner"
    by (simp add: out_def in_router_def outside_def agreeing_ports_def quiet_ports_def)
  have "warmup agreeing_ports ?C True (?s\<lparr>rn_running := True\<rparr>)
      = bind_a (recover_book agreeing_ports ?C) (\<lambda>_. begin_session agreeing_ports ?C None []) ?s1"
    using floor by (simp add: warmup_def bind_a_def ens clock_now_def now is_session_series_def sample_setup_def sample_runner_def)
  then have "\<exists>s3. warmup agreeing_ports ?C True (?s\<lparr>rn_running := True\<rparr>) = (Inr (), s3)"
    using rec beg by (auto simp: bind_a_def)
  then have "\<exists>s'. run_for agreeing_ports ?C 0 ?s = (Inr StillRunning, s')"
    by (auto simp: run_for_def bind_a_def attempt_def)
  then obtain s' where run: "run_for agreeing_ports ?C 0 ?s = (Inr StillRunning, s')" ..
  from runs_only_on_an_agreed_book [OF run] run show ?thesis by auto
qed

section \<open>Saying so\<close>

text \<open>
  A naked position is announced, and again while it lasts. With an alert sink configured, a pass
  that finds positions without a stop at the broker sends a critical alert naming every one of them
  when some of them were not in the last one, or when the cooldown since that alert has passed; and
  otherwise all of them were in it. Either way they are from then on the announced ones, and the
  pass that finds none says once that protection is restored.
\<close>

theorem naked_positions_are_announced:
  assumes "rp_alert P = Some send" "now = env_now (po_env (rp_router P) (rt_venue (rn_router s)))"
  shows "case announce_unprotected P C naked s of (r, s') \<Rightarrow> r = Inr () \<and> set (rn_alerted s') \<supseteq> set (dict_keys naked)
    \<and> (naked \<noteq> [] \<longrightarrow>
        (if set (dict_keys naked) \<subseteq> set (rn_alerted s) \<and> (\<exists>t. rn_alerted_at s = Some t \<and> now - t < rs_cooldown_us C)
         then rt_venue (rn_router s') = rt_venue (rn_router s)
         else rn_alerted_at s' = Some now
            \<and> (\<exists>k ns. rt_venue (rn_router s') = send \<lparr>al_severity = CRITICAL, al_key = ''protection.unprotected'',
                  al_says = Reason k (str_sort (dict_keys naked)) ns\<rparr> (rt_venue (rn_router s)))))"
proof (cases "naked = []")
  case True
  then show ?thesis
    using assms(1) by (auto simp: announce_unprotected_def clock_now_def dict_keys_def send_alert_def bind_a_run tell_def out_def in_router_def outside_def)
next
  case False
  then show ?thesis
    using assms unfolding announce_unprotected_def clock_now_def
    by (auto simp: send_alert_def bind_a_run tell_def out_def in_router_def outside_def filter_empty_conv Let_def split: option.splits)
qed

theorem naked_positions_are_announced_witness:
  "\<exists>(P :: unit runner_ports) C (s :: (unit, unit) runner). rn_alerted_at (snd (announce_unprotected P C [(''AAPL'', 100)] s)) = Some 0"
proof -
  let ?P = "(quiet_ports sample_ports)\<lparr>rp_alert := Some (\<lambda>a v. v)\<rparr>" and ?s = "sample_runner (sample_router ())"
  have "0 = env_now (po_env (rp_router ?P) (rt_venue (rn_router ?s)))"
    by (simp add: quiet_ports_def sample_ports_def sample_env_def)
  from naked_positions_are_announced [OF _ this, where send = "\<lambda>a v. v" and C = sample_setup and naked = "[(''AAPL'', 100)]"]
  have "rn_alerted_at (snd (announce_unprotected ?P sample_setup [(''AAPL'', 100)] ?s)) = Some 0"
    by (auto simp: sample_runner_def dict_keys_def split: prod.splits)
  then show ?thesis by blast
qed

end
