(* ===== verification/Scheduler.thy ===== *)
theory Scheduler
  imports Clock Actions
begin

text \<open>
  \<open>worker/scheduler.py\<close>, the wheel that runs the jobs around the trading day: when an entry of the
  schedule is due next, and the loop that runs what is due, one job at a time. A job is a function
  on the world \<open>'v\<close>; the clock and the sleep are functions of it too. Durations are microseconds,
  where the code has floating-point seconds. The loop's body is \<open>scheduler_turn\<close>, and
  \<open>scheduler_for\<close> repeats it as often as the fuel allows. A dictionary of the schedule is an \<open>entry\<close>:
  its trigger with the keys that trigger reads.
\<close>

datatype trigger = Cron int int | Interval int | Market_open int | Market_close int | Unknown_trigger string

record 'v entry =
  se_name :: string
  se_job :: "'v \<Rightarrow> (exn + unit) \<times> 'v"
  se_trigger :: trigger
  se_market_hours :: bool

definition MINUTE_US :: int where "MINUTE_US = 60 * 10 ^ 6"

definition SESSION_SCAN_DAYS :: nat where "SESSION_SCAN_DAYS = 10"

definition MAX_SLEEP_US :: int where "MAX_SLEEP_US = 300 * 10 ^ 6"

section \<open>When an entry is due\<close>

text \<open>\<open>now.replace(hour=h, minute=m, second=0, microsecond=0)\<close>, in UTC.\<close>

definition replace_time :: "int \<Rightarrow> int \<Rightarrow> ts \<Rightarrow> exn + ts" where
  "replace_time h m now =
     (if 0 \<le> h \<and> h < 24 \<and> 0 \<le> m \<and> m < 60 then Inr (now div DAY_US * DAY_US + (h * 60 + m) * MINUTE_US)
      else Inl (value_error ''must be in range''))"

fun edge_from :: "calendar_source \<Rightarrow> (session \<Rightarrow> ts) \<Rightarrow> int \<Rightarrow> ts \<Rightarrow> nat \<Rightarrow> date \<Rightarrow> exn + ts" where
  "edge_from cs edge offset now 0 d = Inl (value_error ''no trading session within the scan'')"
| "edge_from cs edge offset now (Suc n) d =
     bind_r (session_on cs d) (\<lambda>s. case s of
         Some x \<Rightarrow> let due = edge x + offset in
           if now < due then Inr due else edge_from cs edge offset now n (d + 1)
       | None \<Rightarrow> edge_from cs edge offset now n (d + 1))"

definition next_session_edge :: "calendar_source \<Rightarrow> (session \<Rightarrow> ts) \<Rightarrow> int \<Rightarrow> ts \<Rightarrow> exn + ts" where
  "next_session_edge cs edge minutes now =
     edge_from cs edge (minutes * MINUTE_US) now SESSION_SCAN_DAYS (cs_local_date cs now)"

definition next_due :: "calendar_source \<Rightarrow> 'v entry \<Rightarrow> ts \<Rightarrow> exn + ts" where
  "next_due cs e now =
     (case se_trigger e of
        Cron h m \<Rightarrow> bind_r (replace_time h m now) (\<lambda>t. Inr (if now < t then t else t + DAY_US))
      | Interval n \<Rightarrow>
          let due = now + n * MINUTE_US in
          if se_market_hours e
          then bind_r (is_open_at cs due) (\<lambda>open. if open then Inr due else next_open cs due)
          else Inr due
      | Market_open off \<Rightarrow> next_session_edge cs ss_open off now
      | Market_close off \<Rightarrow> next_session_edge cs ss_close off now
      | Unknown_trigger s \<Rightarrow> Inl (value_error ''unknown scheduler trigger''))"

section \<open>The loop\<close>

record 'v job =
  jb_entry :: "'v entry"
  jb_due :: ts
  jb_dormant :: bool

record 'v scheduler =
  sc_world :: 'v
  sc_jobs :: "'v job list"

record 'v scheduler_ports =
  sp_now :: "'v \<Rightarrow> ts"
  sp_sleep :: "int \<Rightarrow> 'v \<Rightarrow> 'v"
  sp_calendar :: calendar_source

type_synonym ('v, 'a) wheel = "('v scheduler, 'a) act"

text \<open>\<open>min(xs, key=k)\<close>: the first of the smallest.\<close>

fun min_by :: "('a \<Rightarrow> 'b::linorder) \<Rightarrow> 'a \<Rightarrow> 'a list \<Rightarrow> 'a" where
  "min_by k x [] = x"
| "min_by k x (y # ys) = min_by k (if k y < k x then y else x) ys"

definition live_jobs :: "'v scheduler \<Rightarrow> (nat \<times> 'v job) list" where
  "live_jobs s = filter (\<lambda>(i, j). \<not> jb_dormant j) (enumerate 0 (sc_jobs s))"

definition set_job :: "nat \<Rightarrow> ('v job \<Rightarrow> 'v job) \<Rightarrow> 'v scheduler \<Rightarrow> 'v scheduler" where
  "set_job i f s = s\<lparr>sc_jobs := (sc_jobs s)[i := f (sc_jobs s ! i)]\<rparr>"

definition scheduler_now :: "'v scheduler_ports \<Rightarrow> ('v, ts) wheel" where
  "scheduler_now P = gets_a (\<lambda>s. sp_now P (sc_world s))"

definition call_job :: "'v entry \<Rightarrow> ('v, unit) wheel" where
  "call_job e = (\<lambda>s. case se_job e (sc_world s) of (r, v) \<Rightarrow> (r, s\<lparr>sc_world := v\<rparr>))"

definition reschedule :: "'v scheduler_ports \<Rightarrow> nat \<Rightarrow> 'v entry \<Rightarrow> ts \<Rightarrow> ('v, unit) wheel" where
  "reschedule P i e now =
     bind_a (lift_a (next_due (sp_calendar P) e now)) (\<lambda>due. modify_a (set_job i (\<lambda>j. j\<lparr>jb_due := due\<rparr>)))"

text \<open>Whether the job's own code was called.\<close>

definition run_job :: "'v scheduler_ports \<Rightarrow> nat \<Rightarrow> 'v entry \<Rightarrow> ts \<Rightarrow> ('v, bool) wheel" where
  "run_job P i e now =
     bind_a (if se_market_hours e then lift_a (is_open_at (sp_calendar P) now) else ret True) (\<lambda>may.
     if \<not> may then bind_a (reschedule P i e now) (\<lambda>_. ret False)
     else
       bind_a (attempt (call_job e)) (\<lambda>r. case r of
         Inl (NotImplementedError _) \<Rightarrow> bind_a (modify_a (set_job i (\<lambda>j. j\<lparr>jb_dormant := True\<rparr>))) (\<lambda>_. ret True)
       | _ \<Rightarrow> bind_a (scheduler_now P) (\<lambda>after. bind_a (reschedule P i e after) (\<lambda>_. ret True))))"

datatype turn = Parked | Slept | Deferred nat | Ran nat

definition scheduler_turn :: "'v scheduler_ports \<Rightarrow> ('v, turn) wheel" where
  "scheduler_turn P =
     bind_a (gets_a live_jobs) (\<lambda>live. case live of
       [] \<Rightarrow> ret Parked
     | x # xs \<Rightarrow>
         bind_a (scheduler_now P) (\<lambda>now.
         case min_by (jb_due \<circ> snd) x xs of (i, j) \<Rightarrow>
         if now < jb_due j
         then bind_a (modify_a (\<lambda>s. s\<lparr>sc_world := sp_sleep P (min (jb_due j - now) MAX_SLEEP_US) (sc_world s)\<rparr>)) (\<lambda>_. ret Slept)
         else bind_a (run_job P i (jb_entry j) now) (\<lambda>ran. ret (if ran then Ran i else Deferred i))))"

text \<open>The turns that were taken, until the loop parks for ever, raises or the fuel is used.\<close>

fun scheduler_for :: "'v scheduler_ports \<Rightarrow> nat \<Rightarrow> ('v, turn list) wheel" where
  "scheduler_for P 0 = ret []"
| "scheduler_for P (Suc n) =
     bind_a (scheduler_turn P) (\<lambda>t.
     if t = Parked then ret [Parked] else bind_a (scheduler_for P n) (\<lambda>ts. ret (t # ts)))"

definition start_jobs :: "calendar_source \<Rightarrow> 'v entry list \<Rightarrow> ts \<Rightarrow> exn + 'v job list" where
  "start_jobs cs es now =
     map_r (\<lambda>e. bind_r (next_due cs e now) (\<lambda>due. Inr \<lparr>jb_entry = e, jb_due = due, jb_dormant = False\<rparr>)) es"

definition run_scheduler :: "'v scheduler_ports \<Rightarrow> 'v entry list \<Rightarrow> nat \<Rightarrow> ('v, turn list) wheel" where
  "run_scheduler P es n =
     bind_a (scheduler_now P) (\<lambda>now.
     bind_a (lift_a (start_jobs (sp_calendar P) es now)) (\<lambda>jobs.
     bind_a (modify_a (\<lambda>s. s\<lparr>sc_jobs := jobs\<rparr>)) (\<lambda>_. scheduler_for P n)))"

end
