(* ===== verification/SchedulerSafety.thy ===== *)
theory SchedulerSafety
  imports Scheduler
begin

text \<open>
  What the scheduler guarantees: an entry is due strictly after the instant it is scheduled at, on
  the next slot its trigger names; a job is called only when it is due, in a market that is open
  where it asks for one, once per slot; a job that raises costs no other job its turn; and a job that
  is due is reached as long as sleeping lets the clock move.
\<close>

section \<open>Due dates\<close>

lemma edge_from_Inr:
  "edge_from cs edge off now n d = Inr t \<Longrightarrow>
     \<exists>d' s. d \<le> d' \<and> d' < d + int n \<and> session_on cs d' = Inr (Some s) \<and> edge s + off = t \<and> now < t
       \<and> (\<forall>e s'. d \<le> e \<and> e < d' \<and> session_on cs e = Inr (Some s') \<longrightarrow> edge s' + off \<le> now)"
proof (induction n arbitrary: d)
  case (Suc n)
  obtain so where so: "session_on cs d = Inr so" using Suc.prems by (cases "session_on cs d") auto
  show ?case
  proof (cases "\<exists>s. so = Some s \<and> now < edge s + off")
    case True
    with Suc.prems so show ?thesis by (intro exI [of _ d]) auto
  next
    case False
    with Suc.prems so have "edge_from cs edge off now n (d + 1) = Inr t"
      by (auto simp: Let_def split: option.splits if_splits)
    from Suc.IH [OF this] obtain d' s where h: "d + 1 \<le> d'" "d' < d + 1 + int n" "session_on cs d' = Inr (Some s)"
        "edge s + off = t" "now < t"
      and before: "\<forall>e s'. d + 1 \<le> e \<and> e < d' \<and> session_on cs e = Inr (Some s') \<longrightarrow> edge s' + off \<le> now" by blast
    have "edge s' + off \<le> now" if "d \<le> e" "e < d'" "session_on cs e = Inr (Some s')" for e s'
      using that before [rule_format, of e s'] False so by (cases "e = d") auto
    with h show ?thesis by (intro exI [of _ d']) auto
  qed
qed simp

lemma edge_from_finds:
  assumes "session_on cs d' = Inr (Some s)" "now < edge s + off" "d \<le> d'" "d' < d + int n"
    and "\<forall>e. d \<le> e \<and> e \<le> d' \<longrightarrow> is_ok (session_on cs e)"
  shows "\<exists>t. edge_from cs edge off now n d = Inr t"
  using assms(3-5)
proof (induction n arbitrary: d)
  case (Suc n)
  obtain so where so: "session_on cs d = Inr so"
    using Suc.prems(1,3) by (cases "session_on cs d") auto
  show ?case
  proof (cases "d = d'")
    case True
    with assms(1,2) show ?thesis by (simp add: Let_def)
  next
    case False
    with Suc.prems have "\<exists>t. edge_from cs edge off now n (d + 1) = Inr t" by (intro Suc.IH) auto
    with so show ?thesis by (auto simp: Let_def split: option.split)
  qed
qed simp

text \<open>The edges a session entry refers to.\<close>

definition edge_of :: "trigger \<Rightarrow> ((session \<Rightarrow> ts) \<times> int) option" where
  "edge_of g = (case g of Market_open off \<Rightarrow> Some (ss_open, off * MINUTE_US)
     | Market_close off \<Rightarrow> Some (ss_close, off * MINUTE_US) | _ \<Rightarrow> None)"

lemma next_due_edge:
  assumes "edge_of (se_trigger e) = Some (edge, off)"
  shows "next_due cs e now = edge_from cs edge off now SESSION_SCAN_DAYS (cs_local_date cs now)"
  using assms by (auto simp: next_due_def edge_of_def next_session_edge_def split: trigger.splits)

lemma session_edges:
  assumes "calendar_ok cs" "edge_of g = Some (edge, off)" "session_on cs d = Inr (Some s)"
  shows "cs_local_date cs (edge s) = d"
  using assms by (auto simp: calendar_ok_def edge_of_def split: trigger.splits)

lemma edges_ascend:
  assumes "calendar_ok cs" "edge_of g = Some (edge, off)"
    and "session_on cs d = Inr (Some s)" "session_on cs d' = Inr (Some s')" "d \<le> d'"
  shows "edge s \<le> edge s'"
proof (cases "d = d'")
  case False
  have "\<not> edge s' \<le> edge s"
    using assms session_edges [OF assms(1,2)] False unfolding calendar_ok_def by (metis dual_order.antisym)
  then show ?thesis by simp
qed (use assms in simp)

lemma cron_due:
  assumes "se_trigger e = Cron h m" "next_due cs e now = Inr t"
  shows "now < t" "t \<le> now + DAY_US" "t mod DAY_US = (h * 60 + m) * MINUTE_US"
proof -
  let ?k = "(h * 60 + m) * MINUTE_US"
  have r: "0 \<le> ?k" "?k < DAY_US" and t: "t = (let c = now div DAY_US * DAY_US + ?k in if now < c then c else c + DAY_US)"
    using assms by (auto simp: next_due_def replace_time_def Let_def DAY_US_def MINUTE_US_def split: if_splits)
  have d: "now div DAY_US * DAY_US \<le> now" "now < now div DAY_US * DAY_US + DAY_US"
    using pos_mod_bound [of DAY_US now] div_mult_mod_eq [of now DAY_US] pos_mod_sign [of DAY_US now]
    by (auto simp: DAY_US_def)
  show "now < t" "t \<le> now + DAY_US" using r d t by (auto simp: Let_def split: if_splits)
  show "t mod DAY_US = ?k" using r t by (auto simp: Let_def mult.commute [of _ DAY_US] DAY_US_def split: if_splits)
qed

lemma next_open_is_open:
  assumes "calendar_ok cs" "next_open cs t = Inr u"
  shows "t < u" "is_open_at cs u = Inr True"
proof -
  from open_from_Inr [of cs t MAX_LOOKAHEAD_DAYS "cs_local_date cs t" u] assms(2)
  obtain d s where s: "session_on cs d = Inr (Some s)" "ss_open s = u" "t < u"
    unfolding next_open_def by blast
  then show "t < u" by simp
  have "cs_local_date cs u = d" "u < ss_close s" using assms(1) s by (auto simp: calendar_ok_def)
  then show "is_open_at cs u = Inr True" using s by (simp add: is_open_at_def in_session_def)
qed

lemma interval_due:
  assumes "calendar_ok cs" "se_trigger e = Interval n" "next_due cs e now = Inr t"
  shows "now + n * MINUTE_US \<le> t" "\<not> se_market_hours e \<Longrightarrow> t = now + n * MINUTE_US"
    "se_market_hours e \<Longrightarrow> is_open_at cs t = Inr True"
proof -
  let ?d = "now + n * MINUTE_US"
  have "\<not> se_market_hours e \<and> t = ?d \<or> se_market_hours e \<and> (is_open_at cs ?d = Inr True \<and> t = ?d \<or> next_open cs ?d = Inr t)"
    using assms(2,3) by (cases "is_open_at cs ?d") (auto simp: next_due_def Let_def split: if_splits)
  then show "?d \<le> t" "\<not> se_market_hours e \<Longrightarrow> t = ?d" "se_market_hours e \<Longrightarrow> is_open_at cs t = Inr True"
    using next_open_is_open [OF assms(1), of ?d t] by auto
qed

text \<open>An interval of the schedule is some minutes long.\<close>

definition entry_ok :: "'v entry \<Rightarrow> bool" where
  "entry_ok e \<longleftrightarrow> (\<forall>n. se_trigger e = Interval n \<longrightarrow> 0 < n)"

lemma next_due_later:
  assumes "calendar_ok cs" "entry_ok e" "next_due cs e now = Inr t"
  shows "now < t"
proof (cases "se_trigger e")
  case (Cron h m)
  then show ?thesis using cron_due(1) assms(3) by blast
next
  case (Interval n)
  then show ?thesis using interval_due(1) [OF assms(1) Interval assms(3)] assms(2) by (simp add: entry_ok_def MINUTE_US_def)
next
  case (Market_open off)
  then show ?thesis using edge_from_Inr [of cs ss_open "off * MINUTE_US" now SESSION_SCAN_DAYS "cs_local_date cs now" t] assms(3)
    by (auto simp: next_due_def next_session_edge_def)
next
  case (Market_close off)
  then show ?thesis using edge_from_Inr [of cs ss_close "off * MINUTE_US" now SESSION_SCAN_DAYS "cs_local_date cs now" t] assms(3)
    by (auto simp: next_due_def next_session_edge_def)
next
  case (Unknown_trigger x)
  then show ?thesis using assms(3) by (simp add: next_due_def)
qed

lemma session_due:
  assumes "calendar_ok cs" "edge_of (se_trigger e) = Some (edge, off)"
    and in_day: "\<forall>d s. session_on cs d = Inr (Some s) \<longrightarrow> cs_local_date cs (edge s + off) \<le> d"
    and "next_due cs e now = Inr t"
  shows "\<exists>d s. session_on cs d = Inr (Some s) \<and> edge s + off = t"
    and "session_on cs d = Inr (Some s) \<Longrightarrow> now < edge s + off \<Longrightarrow> t \<le> edge s + off"
proof -
  from edge_from_Inr [OF assms(4) [unfolded next_due_edge [OF assms(2)]]]
  obtain d' s' where h: "cs_local_date cs now \<le> d'" "session_on cs d' = Inr (Some s')" "edge s' + off = t"
    and before: "\<forall>e s'. cs_local_date cs now \<le> e \<and> e < d' \<and> session_on cs e = Inr (Some s') \<longrightarrow> edge s' + off \<le> now" by blast
  then show "\<exists>d s. session_on cs d = Inr (Some s) \<and> edge s + off = t" by blast
  assume s: "session_on cs d = Inr (Some s)" and after: "now < edge s + off"
  have "cs_local_date cs now \<le> cs_local_date cs (edge s + off)"
    using assms(1) after by (simp add: calendar_ok_def)
  then have "cs_local_date cs now \<le> d" using in_day s by fastforce
  with before s after have "d' \<le> d" by (metis not_le)
  from edges_ascend [OF assms(1,2) h(2) s this] show "t \<le> edge s + off" using h(3) by simp
qed

text \<open>
  An entry is scheduled for its next slot. Whatever its trigger, \<open>next_due\<close> answers an instant
  strictly after the one it was asked at. For a time of day it is the first instant with that time; for an
  interval it is the interval later, or the next opening after that when the entry wants an open market
  and it is shut; for the open or the close it is the offset edge of a session, and no session has
  its offset edge in between, as long as the offset does not carry an edge into a later day.
\<close>

theorem next_due_is_the_next_slot:
  assumes "calendar_ok cs" "entry_ok e" "next_due cs e now = Inr t"
  shows "now < t
    \<and> (\<forall>h m. se_trigger e = Cron h m \<longrightarrow> t mod DAY_US = (h * 60 + m) * MINUTE_US \<and> t \<le> now + DAY_US)
    \<and> (\<forall>n. se_trigger e = Interval n \<longrightarrow> now + n * MINUTE_US \<le> t
          \<and> (if se_market_hours e then is_open_at cs t = Inr True else t = now + n * MINUTE_US))
    \<and> (\<forall>edge off. edge_of (se_trigger e) = Some (edge, off)
          \<longrightarrow> (\<forall>d s. session_on cs d = Inr (Some s) \<longrightarrow> cs_local_date cs (edge s + off) \<le> d)
          \<longrightarrow> (\<exists>d s. session_on cs d = Inr (Some s) \<and> t = edge s + off)
            \<and> (\<forall>d s. session_on cs d = Inr (Some s) \<longrightarrow> now < edge s + off \<longrightarrow> t \<le> edge s + off))"
proof (intro conjI allI impI)
  show "now < t" by (rule next_due_later [OF assms])
next
  fix h m assume "se_trigger e = Cron h m"
  from cron_due [OF this assms(3)] show "t mod DAY_US = (h * 60 + m) * MINUTE_US" "t \<le> now + DAY_US" by auto
next
  fix n assume "se_trigger e = Interval n"
  from interval_due [OF assms(1) this assms(3)]
  show "now + n * MINUTE_US \<le> t" "if se_market_hours e then is_open_at cs t = Inr True else t = now + n * MINUTE_US" by auto
next
  fix edge off assume g: "edge_of (se_trigger e) = Some (edge, off)"
    and "\<forall>d s. session_on cs d = Inr (Some s) \<longrightarrow> cs_local_date cs (edge s + off) \<le> d"
  from session_due [OF assms(1) this assms(3)]
  show "\<exists>d s. session_on cs d = Inr (Some s) \<and> t = edge s + off"
    "\<And>d s. session_on cs d = Inr (Some s) \<Longrightarrow> now < edge s + off \<Longrightarrow> t \<le> edge s + off" by auto
qed

text \<open>Five minutes before the open of the only session of the sample calendar.\<close>

definition sample_entry :: "trigger \<Rightarrow> unit entry" where
  "sample_entry g = \<lparr>se_name = ''job'', se_job = (\<lambda>v. (Inr (), v)), se_trigger = g, se_market_hours = False\<rparr>"

lemma sample_edge_due: "next_due sample_calendar (sample_entry (Market_open (- 5))) 0 = Inr 138300000000"
proof -
  have "cs_local_date sample_calendar 0 = 719163"
    by (simp add: sample_calendar_def utc_date_def DAY_US_def EPOCH_ORD_def)
  then show ?thesis
    by (simp add: next_due_def sample_entry_def next_session_edge_def SESSION_SCAN_DAYS_def numeral_nat sample_session_on MINUTE_US_def)
qed

theorem next_due_is_the_next_slot_witness:
  "next_due sample_calendar (sample_entry (Market_open (- 5))) 0 = Inr 138300000000 \<and> 0 < (138300000000 :: ts)"
  using next_due_is_the_next_slot [OF sample_calendar_ok _ sample_edge_due] sample_edge_due
  by (simp add: sample_entry_def entry_ok_def)

section \<open>What is run\<close>

lemma min_by_in: "min_by k x xs \<in> set (x # xs)"
  by (induction xs arbitrary: x) (auto split: if_splits)

lemma min_by_le: "y \<in> set (x # xs) \<Longrightarrow> k (min_by k x xs) \<le> k y"
proof (induction xs arbitrary: x y)
  case (Cons a xs)
  show ?case using Cons.IH [of "if k a < k x then a else x" "if k a < k x then a else x"] Cons.IH [of y "if k a < k x then a else x"] Cons.prems
    by (auto split: if_splits intro: order_trans)
qed simp

lemma live_jobs_mem: "(i, j) \<in> set (live_jobs s) \<longleftrightarrow> i < length (sc_jobs s) \<and> sc_jobs s ! i = j \<and> \<not> jb_dormant j"
  by (auto simp: live_jobs_def in_set_enumerate_eq)

lemma set_job_frame [simp]:
  "length (sc_jobs (set_job i f s)) = length (sc_jobs s)" "sc_world (set_job i f s) = sc_world s"
  "i < length (sc_jobs s) \<Longrightarrow> k < length (sc_jobs s) \<Longrightarrow> sc_jobs (set_job i f s) ! k = (if k = i then f (sc_jobs s ! i) else sc_jobs s ! k)"
  by (auto simp: set_job_def nth_list_update)

text \<open>The same world with a list of the calls: the entry's index, the clock before and after.\<close>

type_synonym 'v watched = "'v \<times> (nat \<times> ts \<times> ts) list"

definition watched_ports :: "'v scheduler_ports \<Rightarrow> 'v watched scheduler_ports" where
  "watched_ports P = \<lparr>sp_now = sp_now P \<circ> fst, sp_sleep = (\<lambda>u (v, l). (sp_sleep P u v, l)), sp_calendar = sp_calendar P\<rparr>"

definition watched_entry :: "'v scheduler_ports \<Rightarrow> nat \<times> 'v entry \<Rightarrow> 'v watched entry" where
  "watched_entry P = (\<lambda>(i, e). \<lparr>se_name = se_name e,
     se_job = (\<lambda>(v, l). case se_job e v of (r, v1) \<Rightarrow> (r, (v1, l @ [(i, sp_now P v, sp_now P v1)]))),
     se_trigger = se_trigger e, se_market_hours = se_market_hours e\<rparr>)"

definition watched_entries :: "'v scheduler_ports \<Rightarrow> 'v entry list \<Rightarrow> 'v watched entry list" where
  "watched_entries P es = map (watched_entry P) (enumerate 0 es)"

text \<open>The calls of one entry, each not before the slot that followed the end of the one before.\<close>

fun on_schedule :: "calendar_source \<Rightarrow> 'v entry \<Rightarrow> ts \<Rightarrow> (ts \<times> ts) list \<Rightarrow> bool" where
  "on_schedule cs e after [] \<longleftrightarrow> True"
| "on_schedule cs e after ((a, b) # calls) \<longleftrightarrow>
     (\<exists>due. next_due cs e after = Inr due \<and> due \<le> a) \<and> (se_market_hours e \<longrightarrow> is_open_at cs a = Inr True)
     \<and> on_schedule cs e b calls"

definition calls_of :: "nat \<Rightarrow> (nat \<times> ts \<times> ts) list \<Rightarrow> (ts \<times> ts) list" where
  "calls_of i l = map snd (filter (\<lambda>c. fst c = i) l)"

definition idle_since :: "ts \<Rightarrow> (ts \<times> ts) list \<Rightarrow> ts" where
  "idle_since t0 calls = (if calls = [] then t0 else snd (last calls))"

lemma calls_of_snoc: "calls_of i (l @ [(k, a, b)]) = (if k = i then calls_of i l @ [(a, b)] else calls_of i l)"
  by (simp add: calls_of_def)

lemma on_schedule_snoc:
  "on_schedule cs e t0 (calls @ [(a, b)]) \<longleftrightarrow>
     on_schedule cs e t0 calls \<and> (\<exists>due. next_due cs e (idle_since t0 calls) = Inr due \<and> due \<le> a)
     \<and> (se_market_hours e \<longrightarrow> is_open_at cs a = Inr True)"
  by (induction cs e t0 calls rule: on_schedule.induct) (auto simp: idle_since_def)

lemma watched_entry_sel [simp]:
  "se_trigger (watched_entry P (i, e)) = se_trigger e" "se_market_hours (watched_entry P (i, e)) = se_market_hours e"
  "se_job (watched_entry P (i, e)) (v, l) = (case se_job e v of (r, v1) \<Rightarrow> (r, (v1, l @ [(i, sp_now P v, sp_now P v1)])))"
  by (simp_all add: watched_entry_def)

lemma next_due_watched [simp]: "next_due cs (watched_entry P (i, e)) now = next_due cs e now"
  by (simp add: next_due_def split: trigger.split)

definition calls_ok :: "'v scheduler_ports \<Rightarrow> 'v entry list \<Rightarrow> ts \<Rightarrow> 'v watched scheduler \<Rightarrow> bool" where
  "calls_ok P es t0 s \<longleftrightarrow>
     (\<forall>i < length es. on_schedule (sp_calendar P) (es ! i) t0 (calls_of i (snd (sc_world s))))"

definition wheel_ok :: "'v scheduler_ports \<Rightarrow> 'v entry list \<Rightarrow> ts \<Rightarrow> 'v watched scheduler \<Rightarrow> bool" where
  "wheel_ok P es t0 s \<longleftrightarrow> calls_ok P es t0 s \<and> length (sc_jobs s) = length es
     \<and> (\<forall>i < length es. jb_entry (sc_jobs s ! i) = watched_entry P (i, es ! i)
          \<and> (\<not> jb_dormant (sc_jobs s ! i) \<longrightarrow>
               (\<exists>due. next_due (sp_calendar P) (es ! i) (idle_since t0 (calls_of i (snd (sc_world s)))) = Inr due
                    \<and> due \<le> jb_due (sc_jobs s ! i))))"

text \<open>After an action the wheel stands well, or at least the calls did when it raised.\<close>

definition wheel_after :: "'v scheduler_ports \<Rightarrow> 'v entry list \<Rightarrow> ts \<Rightarrow> (exn + 'a) \<times> 'v watched scheduler \<Rightarrow> bool" where
  "wheel_after P es t0 x \<longleftrightarrow> (case x of (Inl e, s) \<Rightarrow> calls_ok P es t0 s | (Inr y, s) \<Rightarrow> wheel_ok P es t0 s)"

lemma wheel_after_simps [simp]:
  "wheel_after P es t0 (Inl e, s) \<longleftrightarrow> calls_ok P es t0 s" "wheel_after P es t0 (Inr y, s) \<longleftrightarrow> wheel_ok P es t0 s"
  by (simp_all add: wheel_after_def)

lemma wheel_after_bind:
  "wheel_after P es t0 (m s) \<Longrightarrow> (\<And>x s'. m s = (Inr x, s') \<Longrightarrow> wheel_ok P es t0 s' \<Longrightarrow> wheel_after P es t0 (f x s'))
     \<Longrightarrow> wheel_after P es t0 (bind_a m f s)"
  by (auto simp: bind_a_def split: prod.split sum.split)

lemma reschedule_wheel:
  assumes "calls_ok P es t0 s" "length (sc_jobs s) = length es" "i < length es"
    and others: "\<forall>k < length es. k \<noteq> i \<longrightarrow> jb_entry (sc_jobs s ! k) = watched_entry P (k, es ! k)
          \<and> (\<not> jb_dormant (sc_jobs s ! k) \<longrightarrow>
               (\<exists>due. next_due (sp_calendar P) (es ! k) (idle_since t0 (calls_of k (snd (sc_world s)))) = Inr due
                    \<and> due \<le> jb_due (sc_jobs s ! k)))"
    and this: "jb_entry (sc_jobs s ! i) = watched_entry P (i, es ! i)"
    and later: "\<And>due. next_due (sp_calendar P) (es ! i) now = Inr due \<Longrightarrow>
      \<exists>d0. next_due (sp_calendar P) (es ! i) (idle_since t0 (calls_of i (snd (sc_world s)))) = Inr d0 \<and> d0 \<le> due"
  shows "wheel_after P es t0 (reschedule (watched_ports P) i (watched_entry P (i, es ! i)) now s)"
proof (cases "next_due (sp_calendar P) (es ! i) now")
  case (Inr due)
  with assms show ?thesis
    by (auto simp: reschedule_def watched_ports_def wheel_ok_def calls_ok_def)
qed (use assms(1) in \<open>simp add: reschedule_def watched_ports_def\<close>)

lemma run_job_wheel:
  assumes cal: "calendar_ok (sp_calendar P)" and ok: "wheel_ok P es t0 s" and i: "i < length es" "\<not> jb_dormant (sc_jobs s ! i)"
    and es: "\<forall>e \<in> set es. entry_ok e" and due: "jb_due (sc_jobs s ! i) \<le> now" and now: "now = sp_now P (fst (sc_world s))"
  shows "wheel_after P es t0 (run_job (watched_ports P) i (watched_entry P (i, es ! i)) now s)"
proof -
  let ?e = "es ! i" and ?cs = "sp_calendar P"
  obtain v l where w: "sc_world s = (v, l)" by (cases "sc_world s")
  obtain d0 where d0: "next_due ?cs ?e (idle_since t0 (calls_of i l)) = Inr d0" "d0 \<le> jb_due (sc_jobs s ! i)"
    using ok i w by (auto simp: wheel_ok_def)
  obtain r v1 where job: "se_job ?e v = (r, v1)" by (cases "se_job ?e v")
  let ?s1 = "s\<lparr>sc_world := (v1, l @ [(i, now, sp_now P v1)])\<rparr>"
  have later: "\<exists>d. next_due ?cs ?e (idle_since t0 (calls_of i l)) = Inr d \<and> d \<le> due" if "next_due ?cs ?e now = Inr due" for due
    using next_due_later [OF cal _ that] es i d0 due by fastforce
  have deferred: "wheel_after P es t0 (reschedule (watched_ports P) i (watched_entry P (i, ?e)) now s)"
    using ok i w later by (intro reschedule_wheel) (auto simp: wheel_ok_def)
  have called: "call_job (watched_entry P (i, ?e)) s = (r, ?s1)"
    using w job now by (simp add: call_job_def)
  have calls: "calls_ok P es t0 ?s1" if "se_market_hours ?e \<longrightarrow> is_open_at ?cs now = Inr True"
    using ok that d0 due w i by (auto simp: wheel_ok_def calls_ok_def calls_of_snoc on_schedule_snoc)
  have after: "wheel_after P es t0 (reschedule (watched_ports P) i (watched_entry P (i, ?e)) (sp_now P v1) ?s1)"
    if "se_market_hours ?e \<longrightarrow> is_open_at ?cs now = Inr True"
    using ok i w calls [OF that] by (intro reschedule_wheel) (auto simp: wheel_ok_def calls_of_snoc idle_since_def)
  have dormant: "wheel_ok P es t0 (set_job i (\<lambda>j. j\<lparr>jb_dormant := True\<rparr>) ?s1)"
    if "se_market_hours ?e \<longrightarrow> is_open_at ?cs now = Inr True"
    using ok i w calls [OF that] by (auto simp: wheel_ok_def calls_ok_def calls_of_snoc)
  have clock: "scheduler_now (watched_ports P) ?s1 = (Inr (sp_now P v1), ?s1)"
    by (simp add: scheduler_now_def watched_ports_def)
  have body: "wheel_after P es t0 (bind_a (attempt (call_job (watched_entry P (i, ?e)))) (\<lambda>r. case r of
         Inl (NotImplementedError _) \<Rightarrow> bind_a (modify_a (set_job i (\<lambda>j. j\<lparr>jb_dormant := True\<rparr>))) (\<lambda>_. ret True)
       | _ \<Rightarrow> bind_a (scheduler_now (watched_ports P)) (\<lambda>after. bind_a (reschedule (watched_ports P) i (watched_entry P (i, ?e)) after) (\<lambda>_. ret True))) s)"
    if "se_market_hours ?e \<longrightarrow> is_open_at ?cs now = Inr True"
  proof -
    have "wheel_after P es t0 (bind_a (scheduler_now (watched_ports P)) (\<lambda>after.
        bind_a (reschedule (watched_ports P) i (watched_entry P (i, ?e)) after) (\<lambda>_. ret True)) ?s1)"
      using after [OF that] by (simp add: bind_a_def [of "scheduler_now (watched_ports P)"] clock) (auto intro: wheel_after_bind)
    then show ?thesis using dormant [OF that]
      by (auto simp: bind_attempt called split: sum.split exn.split)
  qed
  show ?thesis
  proof (cases "se_market_hours ?e")
    case True
    have cl: "calls_ok P es t0 s" using ok by (simp add: wheel_ok_def)
    have "wheel_after P es t0 (bind_a (reschedule (watched_ports P) i (watched_entry P (i, ?e)) now) (\<lambda>_. ret False) s)"
      using deferred by (auto intro: wheel_after_bind)
    then show ?thesis using body True cl
      by (cases "is_open_at ?cs now") (auto simp: run_job_def watched_ports_def)
  qed (use body in \<open>simp add: run_job_def\<close>)
qed

lemma turn_wheel:
  assumes cal: "calendar_ok (sp_calendar P)" and es: "\<forall>e \<in> set es. entry_ok e" and ok: "wheel_ok P es t0 s"
  shows "wheel_after P es t0 (scheduler_turn (watched_ports P) s)"
proof (cases "live_jobs s")
  case Nil
  with ok show ?thesis by (simp add: scheduler_turn_def)
next
  case (Cons x xs)
  obtain i j where m: "min_by (jb_due \<circ> snd) x xs = (i, j)" by (cases "min_by (jb_due \<circ> snd) x xs")
  have "(i, j) \<in> set (live_jobs s)" using min_by_in [of "jb_due \<circ> snd" x xs] m Cons by simp
  then have j: "i < length es" "sc_jobs s ! i = j" "\<not> jb_dormant j"
    using ok by (auto simp: live_jobs_mem wheel_ok_def)
  then have e: "jb_entry j = watched_entry P (i, es ! i)" using ok by (auto simp: wheel_ok_def)
  obtain v l where w: "sc_world s = (v, l)" by (cases "sc_world s")
  have now: "sp_now (watched_ports P) (sc_world s) = sp_now P v" using w by (simp add: watched_ports_def)
  have slept: "wheel_ok P es t0 (s\<lparr>sc_world := sp_sleep (watched_ports P) u (sc_world s)\<rparr>)" for u
  proof -
    have "wheel_ok P es t0 (s\<lparr>sc_world := sp_sleep (watched_ports P) u (sc_world s)\<rparr>) = wheel_ok P es t0 s"
      unfolding wheel_ok_def calls_ok_def w by (simp add: watched_ports_def)
    with ok show ?thesis by simp
  qed
  have ran: "wheel_after P es t0 (run_job (watched_ports P) i (watched_entry P (i, es ! i)) (sp_now P v) s)"
    if "\<not> sp_now P v < jb_due j"
    by (rule run_job_wheel [OF cal ok j(1) _ es]) (use j that w in simp_all)
  show ?thesis
  proof (cases "sp_now P v < jb_due j")
    case True
    with Cons m slept show ?thesis by (simp add: scheduler_turn_def scheduler_now_def now)
  next
    case False
    have "wheel_after P es t0 (bind_a (run_job (watched_ports P) i (watched_entry P (i, es ! i)) (sp_now P v))
        (\<lambda>ran. ret (if ran then Ran i else Deferred i)) s)"
      using ran [OF False] by (auto intro: wheel_after_bind)
    with Cons m False e show ?thesis by (simp add: scheduler_turn_def scheduler_now_def now)
  qed
qed

lemma loop_wheel:
  assumes "calendar_ok (sp_calendar P)" "\<forall>e \<in> set es. entry_ok e"
  shows "wheel_ok P es t0 s \<Longrightarrow> wheel_after P es t0 (scheduler_for (watched_ports P) n s)"
proof (induction n arbitrary: s)
  case (Suc n)
  have "wheel_after P es t0 (scheduler_for (watched_ports P) (Suc n) s)"
    unfolding scheduler_for.simps using turn_wheel [OF assms Suc.prems] Suc.IH
    by (auto intro!: wheel_after_bind)
  then show ?case .
qed simp

lemma start_jobs_Inr:
  assumes "start_jobs cs es now = Inr js"
  shows "length js = length es"
    "i < length es \<Longrightarrow> jb_entry (js ! i) = es ! i \<and> \<not> jb_dormant (js ! i) \<and> next_due cs (es ! i) now = Inr (jb_due (js ! i))"
proof -
  have "length js = length es \<and> (\<forall>i < length es. jb_entry (js ! i) = es ! i \<and> \<not> jb_dormant (js ! i) \<and> next_due cs (es ! i) now = Inr (jb_due (js ! i)))"
    using assms unfolding start_jobs_def
  proof (induction es arbitrary: js)
    case (Cons e es)
    then obtain d ks where d: "next_due cs e now = Inr d"
      and ks: "map_r (\<lambda>e. bind_r (next_due cs e now) (\<lambda>due. Inr \<lparr>jb_entry = e, jb_due = due, jb_dormant = False\<rparr>)) es = Inr ks"
      and js: "js = \<lparr>jb_entry = e, jb_due = d, jb_dormant = False\<rparr> # ks"
      by (auto simp: bind_r_eq_Inr)
    from Cons.IH [OF ks] show ?case unfolding js by (auto simp: d nth_Cons')
  qed simp
  then show "length js = length es"
    "i < length es \<Longrightarrow> jb_entry (js ! i) = es ! i \<and> \<not> jb_dormant (js ! i) \<and> next_due cs (es ! i) now = Inr (jb_due (js ! i))"
    by blast+
qed

lemma calls_on_schedule:
  assumes "calendar_ok (sp_calendar P)" "\<forall>e \<in> set es. entry_ok e" "sc_world s = (v, [])"
    and "i < length es"
  shows "on_schedule (sp_calendar P) (es ! i) (sp_now P v)
     (calls_of i (snd (sc_world (snd (run_scheduler (watched_ports P) (watched_entries P es) n s)))))"
proof -
  let ?run = "run_scheduler (watched_ports P) (watched_entries P es) n s"
  let ?now = "sp_now P v"
  have first: "bind_a (scheduler_now (watched_ports P)) f s = f ?now s" for f :: "ts \<Rightarrow> ('a watched, turn list) wheel"
    using assms(3) by (simp add: scheduler_now_def watched_ports_def)
  have cal: "sp_calendar (watched_ports P) = sp_calendar P" by (simp add: watched_ports_def)
  have "wheel_after P es ?now ?run"
  proof (cases "start_jobs (sp_calendar P) (watched_entries P es) ?now")
    case (Inl e)
    then show ?thesis using assms(3)
      by (simp add: run_scheduler_def first cal calls_ok_def calls_of_def)
  next
    case (Inr js)
    let ?s1 = "s\<lparr>sc_jobs := js\<rparr>"
    have "wheel_ok P es ?now ?s1"
      using start_jobs_Inr [OF Inr] assms(3)
      by (auto simp: wheel_ok_def calls_ok_def calls_of_def idle_since_def watched_entries_def nth_enumerate_eq)
    from loop_wheel [OF assms(1,2) this] Inr show ?thesis
      by (simp add: run_scheduler_def first cal)
  qed
  then have "calls_ok P es ?now (snd ?run)"
    by (auto simp: wheel_after_def wheel_ok_def split: prod.splits sum.splits)
  with assms(4) show ?thesis by (simp add: calls_ok_def)
qed

text \<open>
  C29. No job runs early, twice in a slot, or in a shut market it asked to avoid. However long the scheduler runs,
  with whatever jobs, raising or not, and whatever they and the sleeping do to the clock: each call of
  an entry's job starts at or after the slot that \<open>next_due\<close> named when the call before it ended (the
  first, when the scheduler started), and a job that wants an open market starts inside a session.
\<close>

theorem jobs_run_on_schedule:
  assumes "calendar_ok (sp_calendar P)" "\<forall>e \<in> set es. entry_ok e" "sc_world s = (v, [])"
    and "i < length es"
  shows "on_schedule (sp_calendar P) (es ! i) (sp_now P v)
     (calls_of i (snd (sc_world (snd (run_scheduler (watched_ports P) (watched_entries P es) n s)))))"
  by (rule calls_on_schedule [OF assms])

text \<open>A clock that sleeping moves, one job at two in the morning, started a microsecond before.\<close>

definition sample_wheel :: "ts scheduler_ports" where
  "sample_wheel = \<lparr>sp_now = (\<lambda>t. t), sp_sleep = (\<lambda>u t. t + u), sp_calendar = sample_calendar\<rparr>"

definition sample_nightly :: "ts entry" where
  "sample_nightly = \<lparr>se_name = ''backfill_missing_bars'', se_job = (\<lambda>t. (Inr (), t + 7)), se_trigger = Cron 2 0, se_market_hours = False\<rparr>"

definition sample_start :: "ts watched scheduler" where
  "sample_start = \<lparr>sc_world = (7199999999, []), sc_jobs = []\<rparr>"

lemma sample_nightly_due:
  "next_due cs sample_nightly 7199999999 = Inr 7200000000" "next_due cs sample_nightly 7200000007 = Inr 93600000000"
  by (simp_all add: next_due_def sample_nightly_def replace_time_def DAY_US_def MINUTE_US_def)

lemma sample_calls:
  "calls_of 0 (snd (sc_world (snd (run_scheduler (watched_ports sample_wheel) (watched_entries sample_wheel [sample_nightly]) 2 sample_start))))
     = [(7200000000, 7200000007)]"
proof -
  let ?e = "watched_entry sample_wheel (0, sample_nightly)"
  let ?P = "watched_ports sample_wheel"
  have p: "sp_now ?P (t, l) = t" "sp_sleep ?P u (t, l) = (t + u, l)" "sp_calendar ?P = sample_calendar" for t l u
    by (simp_all add: watched_ports_def sample_wheel_def)
  have job: "se_job ?e (t, l) = (Inr (), (t + 7, l @ [(0, t, t + 7)]))" "\<not> se_market_hours ?e" for t l
    by (simp_all add: sample_nightly_def sample_wheel_def)
  have es: "watched_entries sample_wheel [sample_nightly] = [?e]" by (simp add: watched_entries_def)
  have start: "run_scheduler ?P [?e] 2 sample_start
      = scheduler_for ?P 2 \<lparr>sc_world = (7199999999, []), sc_jobs = [\<lparr>jb_entry = ?e, jb_due = 7200000000, jb_dormant = False\<rparr>]\<rparr>"
    by (simp add: run_scheduler_def scheduler_now_def sample_start_def p start_jobs_def sample_nightly_due)
  have slept: "scheduler_turn ?P \<lparr>sc_world = (7199999999, []), sc_jobs = [\<lparr>jb_entry = ?e, jb_due = 7200000000, jb_dormant = False\<rparr>]\<rparr>
      = (Inr Slept, \<lparr>sc_world = (7200000000, []), sc_jobs = [\<lparr>jb_entry = ?e, jb_due = 7200000000, jb_dormant = False\<rparr>]\<rparr>)"
    by (simp add: scheduler_turn_def live_jobs_def scheduler_now_def p MAX_SLEEP_US_def)
  have ran: "scheduler_turn ?P \<lparr>sc_world = (7200000000, []), sc_jobs = [\<lparr>jb_entry = ?e, jb_due = 7200000000, jb_dormant = False\<rparr>]\<rparr>
      = (Inr (Ran 0), \<lparr>sc_world = (7200000007, [(0, 7200000000, 7200000007)]), sc_jobs = [\<lparr>jb_entry = ?e, jb_due = 93600000000, jb_dormant = False\<rparr>]\<rparr>)"
  proof -
    have call: "call_job ?e \<lparr>sc_world = (7200000000, []), sc_jobs = js\<rparr> = (Inr (), \<lparr>sc_world = (7200000007, [(0, 7200000000, 7200000007)]), sc_jobs = js\<rparr>)"
      for js by (simp add: call_job_def job del: watched_entry_sel)
    have "run_job ?P 0 ?e 7200000000 \<lparr>sc_world = (7200000000, []), sc_jobs = [\<lparr>jb_entry = ?e, jb_due = 7200000000, jb_dormant = False\<rparr>]\<rparr>
        = (Inr True, \<lparr>sc_world = (7200000007, [(0, 7200000000, 7200000007)]), sc_jobs = [\<lparr>jb_entry = ?e, jb_due = 93600000000, jb_dormant = False\<rparr>]\<rparr>)"
      using job(2) by (simp add: run_job_def bind_a_run attempt_run call scheduler_now_def reschedule_def p sample_nightly_due set_job_def
        del: watched_entry_sel)
    then show ?thesis
      by (simp add: scheduler_turn_def live_jobs_def scheduler_now_def p bind_a_def del: watched_entry_sel)
  qed
  show ?thesis unfolding es start unfolding numeral_2_eq_2
    by (simp add: bind_a_run slept ran calls_of_def)
qed

theorem jobs_run_on_schedule_witness:
  "calls_of 0 (snd (sc_world (snd (run_scheduler (watched_ports sample_wheel) (watched_entries sample_wheel [sample_nightly]) 2 sample_start))))
     = [(7200000000, 7200000007)]
   \<and> on_schedule sample_calendar sample_nightly 7199999999 [(7200000000, 7200000007)]"
proof -
  have e: "entry_ok sample_nightly" by (simp add: entry_ok_def sample_nightly_def)
  have c: "sp_calendar sample_wheel = sample_calendar" "sp_now sample_wheel t = t" for t by (simp_all add: sample_wheel_def)
  show ?thesis
    using jobs_run_on_schedule [of sample_wheel "[sample_nightly]" sample_start 7199999999 0 2] sample_calls sample_calendar_ok e
    by (simp add: c sample_start_def)
qed

section \<open>That it is run\<close>

definition earliest_due :: "'v scheduler \<Rightarrow> ts" where
  "earliest_due s = Min (jb_due ` snd ` set (live_jobs s))"

lemma earliest_min:
  "live_jobs s = x # xs \<Longrightarrow> jb_due (snd (min_by (jb_due \<circ> snd) x xs)) = earliest_due s"
proof -
  assume l: "live_jobs s = x # xs"
  have "jb_due (snd (min_by (jb_due \<circ> snd) x xs)) \<le> jb_due (snd y)" if "y \<in> set (x # xs)" for y
    using min_by_le [OF that, of "jb_due \<circ> snd"] by simp
  then show ?thesis unfolding earliest_due_def l using min_by_in [of "jb_due \<circ> snd" x xs]
    by (intro Min_eqI [symmetric]) blast+
qed

definition some_turn_taken :: "turn list \<Rightarrow> bool" where
  "some_turn_taken ts \<longleftrightarrow> (\<exists>t \<in> set ts. t \<noteq> Slept)"

lemma slept_turn:
  "scheduler_turn P s = (Inr Slept, s1) \<Longrightarrow>
     scheduler_for P (Suc m) s = bind_a (scheduler_for P m) (\<lambda>ts. ret (Slept # ts)) s1"
  by (simp add: bind_a_def)

text \<open>
  C30. A due job is reached. When sleeping moves the clock at least as far as it was asked to, then within
  one turn for every five minutes that separate the clock from the earliest due date, and one more,
  the scheduler takes a turn that calls a job, or puts off one whose market is shut, or it raises.
\<close>

theorem due_job_is_reached:
  assumes moves: "\<forall>u v. 0 < u \<longrightarrow> sp_now P v + u \<le> sp_now P (sp_sleep P u v)"
    and "live_jobs s \<noteq> []" and "earliest_due s \<le> sp_now P (sc_world s) + int n * MAX_SLEEP_US"
    and "scheduler_for P (Suc n) s = (Inr ts, s')"
  shows "some_turn_taken ts"
  using assms(2-4)
proof (induction n arbitrary: s ts)
  case 0
  then obtain x xs i j where l: "live_jobs s = x # xs" and m: "min_by (jb_due \<circ> snd) x xs = (i, j)"
    by (cases "live_jobs s"; cases "min_by (jb_due \<circ> snd) (hd (live_jobs s)) (tl (live_jobs s))") auto
  have "\<not> sp_now P (sc_world s) < jb_due j" using earliest_min [OF l] m 0 by simp
  with 0 l m show ?case
    by (auto simp: scheduler_turn_def scheduler_now_def bind_a_run some_turn_taken_def split: sum.splits if_splits)
next
  case (Suc n)
  then obtain x xs i j where l: "live_jobs s = x # xs" and m: "min_by (jb_due \<circ> snd) x xs = (i, j)"
    by (cases "live_jobs s"; cases "min_by (jb_due \<circ> snd) (hd (live_jobs s)) (tl (live_jobs s))") auto
  have due: "jb_due j = earliest_due s" using earliest_min [OF l] m by simp
  let ?now = "sp_now P (sc_world s)" and ?u = "min (jb_due j - sp_now P (sc_world s)) MAX_SLEEP_US"
  show ?case
  proof (cases "?now < jb_due j")
    case True
    let ?s1 = "s\<lparr>sc_world := sp_sleep P ?u (sc_world s)\<rparr>"
    have turn: "scheduler_turn P s = (Inr Slept, ?s1)"
      using True l m by (simp add: scheduler_turn_def scheduler_now_def)
    have "?now + ?u \<le> sp_now P (sc_world ?s1)" using moves True by (simp add: MAX_SLEEP_US_def)
    then have "earliest_due ?s1 \<le> sp_now P (sc_world ?s1) + int n * MAX_SLEEP_US"
      using Suc.prems(2) due by (simp add: earliest_due_def live_jobs_def min_def MAX_SLEEP_US_def split: if_splits)
    moreover obtain ts1 where "scheduler_for P (Suc n) ?s1 = (Inr ts1, s')" "ts = Slept # ts1"
      using Suc.prems(3) unfolding slept_turn [OF turn]
      by (auto simp: bind_a_def simp del: scheduler_for.simps split: prod.splits sum.splits)
    moreover have "live_jobs ?s1 \<noteq> []" using Suc.prems(1) by (simp add: live_jobs_def)
    ultimately show ?thesis using Suc.IH [of ?s1 ts1] by (simp add: some_turn_taken_def)
  next
    case False
    with Suc.prems(3) l m False show ?thesis
      by (subst (asm) scheduler_for.simps)
        (auto simp: scheduler_turn_def scheduler_now_def bind_a_run some_turn_taken_def split: sum.splits if_splits)
  qed
qed

theorem due_job_is_reached_witness:
  "\<exists>ts s'. scheduler_for sample_wheel (Suc 1) \<lparr>sc_world = 7199999999,
        sc_jobs = [\<lparr>jb_entry = sample_nightly, jb_due = 7200000000, jb_dormant = False\<rparr>]\<rparr> = (Inr ts, s')
     \<and> some_turn_taken ts"
proof -
  let ?s = "\<lparr>sc_world = 7199999999, sc_jobs = [\<lparr>jb_entry = sample_nightly, jb_due = 7200000000, jb_dormant = False\<rparr>]\<rparr>"
  have p: "sp_now sample_wheel t = t" "sp_sleep sample_wheel u t = t + u" "sp_calendar sample_wheel = sample_calendar" for t u
    by (simp_all add: sample_wheel_def)
  have job: "se_job sample_nightly t = (Inr (), t + 7)" "\<not> se_market_hours sample_nightly" for t
    by (simp_all add: sample_nightly_def)
  have live: "live_jobs ?s = [(0, \<lparr>jb_entry = sample_nightly, jb_due = 7200000000, jb_dormant = False\<rparr>)]"
    by (simp add: live_jobs_def)
  have slept: "scheduler_turn sample_wheel ?s = (Inr Slept, ?s\<lparr>sc_world := 7200000000\<rparr>)"
    by (simp add: scheduler_turn_def live scheduler_now_def p MAX_SLEEP_US_def)
  have ran: "fst (scheduler_turn sample_wheel (?s\<lparr>sc_world := 7200000000\<rparr>)) = Inr (Ran 0)"
    by (simp add: scheduler_turn_def live_jobs_def scheduler_now_def p run_job_def job bind_a_run attempt_run call_job_def
        reschedule_def sample_nightly_due set_job_def)
  have "\<exists>s'. scheduler_for sample_wheel (Suc 1) ?s = (Inr [Slept, Ran 0], s')"
    unfolding slept_turn [OF slept] using ran by (simp add: bind_a_run)
  then obtain s' where run: "scheduler_for sample_wheel (Suc 1) ?s = (Inr [Slept, Ran 0], s')" by blast
  have "some_turn_taken [Slept, Ran 0]"
    by (rule due_job_is_reached [OF _ _ _ run]) (simp_all add: p live earliest_due_def MAX_SLEEP_US_def)
  with run show ?thesis by blast
qed

end
