(* ===== verification/BarStore.thy ===== *)
theory BarStore
  imports Gaps Market
begin

text \<open>
  \<open>persistence/bars.py\<close>: the table of bars as its queries see it, keyed by symbol, timeframe and
  timestamp. A statement that fails leaves the table as it was, since each call is one transaction. Text
  columns are ordered by code point. The columns of \<open>persistence/models.py\<close> are as wide as they are there:
  an amount is \<open>NUMERIC(20,8)\<close>, which PostgreSQL rounds to eight places, a tie away from zero, and refuses
  from \<open>10 ^ 12\<close> on; a symbol has at most 20 characters and a trade count 64 bits.
\<close>

type_synonym bar_id = "string \<times> timeframe \<times> ts"
type_synonym bar_table = "(bar_id \<times> bar) list"

fun timeframe_value :: "timeframe \<Rightarrow> string" where
  "timeframe_value M1 = ''1m''"
| "timeframe_value M5 = ''5m''"
| "timeframe_value M15 = ''15m''"
| "timeframe_value M30 = ''30m''"
| "timeframe_value H1 = ''1h''"
| "timeframe_value H4 = ''4h''"
| "timeframe_value D1 = ''1d''"

definition UPSERT_CHUNK_ROWS :: nat where "UPSERT_CHUNK_ROWS = 2000"

definition bar_key :: "bar \<Rightarrow> bar_id" where
  "bar_key b = (b_symbol b, b_timeframe b, b_ts b)"

text \<open>\<open>COALESCE(new, old)\<close>\<close>

definition coalesce :: "'a option \<Rightarrow> 'a option \<Rightarrow> 'a option" where
  "coalesce new old = (case new of None \<Rightarrow> old | Some x \<Rightarrow> Some x)"

definition merge_bar :: "bar \<Rightarrow> bar \<Rightarrow> bar" where
  "merge_bar new old = new\<lparr>b_adj_close := coalesce (b_adj_close new) (b_adj_close old),
     b_vwap := coalesce (b_vwap new) (b_vwap old),
     b_trade_count := coalesce (b_trade_count new) (b_trade_count old)\<rparr>"

text \<open>What a column holds of an amount, and of a row.\<close>

definition to_money :: "dec \<Rightarrow> dec" where
  "to_money x = (if x < 0 then - of_int \<lfloor>- x * 10 ^ 8 + 1 / 2\<rfloor> else of_int \<lfloor>x * 10 ^ 8 + 1 / 2\<rfloor>) / 10 ^ 8"

definition as_stored :: "bar \<Rightarrow> bar" where
  "as_stored b = b\<lparr>b_open := to_money (b_open b), b_high := to_money (b_high b), b_low := to_money (b_low b), b_close := to_money (b_close b),
     b_volume := to_money (b_volume b), b_adj_close := map_option to_money (b_adj_close b), b_vwap := map_option to_money (b_vwap b)\<rparr>"

definition amounts :: "bar \<Rightarrow> dec list" where
  "amounts b = [b_open b, b_high b, b_low b, b_close b, b_volume b] @ (case b_adj_close b of None \<Rightarrow> [] | Some x \<Rightarrow> [x])
     @ (case b_vwap b of None \<Rightarrow> [] | Some x \<Rightarrow> [x])"

definition row_fits :: "bar \<Rightarrow> bool" where
  "row_fits b \<longleftrightarrow> length (b_symbol b) \<le> 20 \<and> list_all (\<lambda>x. \<bar>to_money x\<bar> < 10 ^ 12) (amounts b)
     \<and> (case b_trade_count b of None \<Rightarrow> True | Some n \<Rightarrow> - (2 ^ 63) \<le> n \<and> n < 2 ^ 63)"

definition upsert_row :: "bar \<Rightarrow> bar_table \<Rightarrow> bar_table" where
  "upsert_row b t =
     AList.update (bar_key b) (case map_of t (bar_key b) of None \<Rightarrow> as_stored b | Some old \<Rightarrow> merge_bar (as_stored b) old) t"

text \<open>The slices of a list, \<open>n\<close> long but for the last.\<close>

function chunks :: "nat \<Rightarrow> 'a list \<Rightarrow> 'a list list" where
  "chunks n xs = (if xs = [] \<or> n = 0 then [] else take n xs # chunks n (drop n xs))"
  by auto
termination by (relation "measure (\<lambda>(n, xs). length xs)") auto

declare chunks.simps [simp del]

text \<open>One statement; a row named twice in it, or one a column cannot hold, is an error of the database.\<close>

definition upsert_chunk :: "bar list \<Rightarrow> int \<times> bar_table \<Rightarrow> exn + int \<times> bar_table" where
  "upsert_chunk bars = (\<lambda>(written, t).
     if \<not> list_all row_fits bars then Inl (RuntimeError (Reason ''value out of range for its column'' [] []))
     else if \<not> distinct (map bar_key bars) then Inl (RuntimeError (Reason ''cannot affect row a second time'' [] []))
     else Inr (written + int (length bars), fold upsert_row bars t))"

definition upsert_bars :: "bar list \<Rightarrow> bar_table \<Rightarrow> (exn + int) \<times> bar_table" where
  "upsert_bars bars t =
     (if bars = [] then (Inr 0, t)
      else case for_r upsert_chunk (chunks UPSERT_CHUNK_ROWS bars) (0, t) of
             Inl e \<Rightarrow> (Inl e, t) | Inr (written, t') \<Rightarrow> (Inr written, t'))"

definition series_rows :: "string \<Rightarrow> timeframe \<Rightarrow> bar_table \<Rightarrow> bar list" where
  "series_rows s tf t = sort_key b_ts (map snd (filter (\<lambda>((s', tf', _), _). s' = s \<and> tf' = tf) t))"

definition get_bars :: "string \<Rightarrow> timeframe \<Rightarrow> ts \<Rightarrow> ts \<Rightarrow> bar_table \<Rightarrow> bar list" where
  "get_bars s tf start stop t = filter (\<lambda>b. start \<le> b_ts b \<and> b_ts b < stop) (series_rows s tf t)"

definition get_last_n_bars :: "string \<Rightarrow> timeframe \<Rightarrow> int \<Rightarrow> ts option \<Rightarrow> bar_table \<Rightarrow> exn + bar list" where
  "get_last_n_bars s tf n not_before t =
     (if n < 1 then Inl (value_error ''n must be at least 1'')
      else
        let rows = filter (\<lambda>b. case not_before of None \<Rightarrow> True | Some f \<Rightarrow> f \<le> b_ts b) (series_rows s tf t)
        in Inr (rev (take (nat n) (rev rows))))"

definition stored_timestamps :: "string \<Rightarrow> timeframe \<Rightarrow> ts \<Rightarrow> ts \<Rightarrow> bar_table \<Rightarrow> ts list" where
  "stored_timestamps s tf start stop t = map b_ts (get_bars s tf start stop t)"

definition find_gaps :: "calendar_source \<Rightarrow> string \<Rightarrow> timeframe \<Rightarrow> ts \<Rightarrow> ts \<Rightarrow> bar_table \<Rightarrow> exn + window list" where
  "find_gaps cs s tf start stop t =
     (if stop \<le> start then Inl (value_error ''start must be before end'')
      else bind_r (require_supported tf) (\<lambda>_.
        let (a, b) = query_bounds tf start stop in
        bind_r (expected_windows cs tf start stop) (\<lambda>ws.
          Inr (gs_windows (scan_gaps ws (stored_timestamps s tf a b t))))))"

fun insert_series :: "string \<times> timeframe \<Rightarrow> (string \<times> timeframe) list \<Rightarrow> (string \<times> timeframe) list" where
  "insert_series x [] = [x]"
| "insert_series x (y # ys) =
     (if fst x \<noteq> fst y \<and> str_le (fst x) (fst y) \<or> fst x = fst y \<and> str_le (timeframe_value (snd x)) (timeframe_value (snd y))
      then x # y # ys else y # insert_series x ys)"

definition stored_series :: "bar_table \<Rightarrow> (string \<times> timeframe) list" where
  "stored_series t = foldr insert_series (remdups (map (\<lambda>((s, tf, _), _). (s, tf)) t)) []"

section \<open>What the table holds\<close>

definition table_ok :: "bar_table \<Rightarrow> bool" where
  "table_ok t \<longleftrightarrow> distinct (map fst t) \<and> (\<forall>(k, b) \<in> set t. bar_key b = k)"

lemma merge_bar_key [simp]: "bar_key (merge_bar b old) = bar_key b"
  by (simp add: merge_bar_def bar_key_def)

lemma as_stored_key [simp]: "bar_key (as_stored b) = bar_key b"
  by (simp add: as_stored_def bar_key_def)

text \<open>An amount with at most eight places is kept; the order of two amounts is, so a consistent bar stays one.\<close>

lemma to_money_exact: "x * 10 ^ 8 = of_int n \<Longrightarrow> to_money x = x"
proof -
  assume x: "x * 10 ^ 8 = of_int n"
  have half: "\<lfloor>of_int m + 1 / 2 :: dec\<rfloor> = m" for m :: int by linarith
  show ?thesis
  proof (cases "x < 0")
    case True
    then show ?thesis using x half [of "- n"] by (simp add: to_money_def field_simps)
  qed (use x half [of n] in \<open>simp add: to_money_def field_simps\<close>)
qed

lemma to_money_mono: "x \<le> y \<Longrightarrow> to_money x \<le> to_money y"
proof -
  assume le: "x \<le> y"
  have up: "0 \<le> (of_int \<lfloor>z * 10 ^ 8 + 1 / 2\<rfloor> :: dec)" if "0 \<le> z" for z :: dec using that by simp
  consider "0 \<le> x" | "x < 0" "0 \<le> y" | "y < 0" using le by linarith
  then show ?thesis
  proof cases
    case 1
    then have "\<lfloor>x * 10 ^ 8 + 1 / 2\<rfloor> \<le> \<lfloor>y * 10 ^ 8 + 1 / 2\<rfloor>" using le by (intro floor_mono) simp
    then show ?thesis using 1 le by (simp add: to_money_def divide_right_mono)
  next
    case 2
    have "to_money x \<le> 0" using 2 up [of "- x"] by (simp add: to_money_def divide_nonpos_pos)
    moreover have "0 \<le> to_money y" using 2 up [of y] by (simp add: to_money_def)
    ultimately show ?thesis by simp
  next
    case 3
    then have "\<lfloor>- y * 10 ^ 8 + 1 / 2\<rfloor> \<le> \<lfloor>- x * 10 ^ 8 + 1 / 2\<rfloor>" using le by (intro floor_mono) simp
    then show ?thesis using 3 le by (simp add: to_money_def divide_right_mono)
  qed
qed

lemma as_stored_consistent: "bar_ok b \<Longrightarrow> bar_ok (as_stored b)"
  by (simp add: bar_ok_def as_stored_def to_money_mono)

text \<open>Every amount of the bar is a multiple of \<open>10 ^ -8\<close>.\<close>

definition at_scale :: "bar \<Rightarrow> bool" where
  "at_scale b \<longleftrightarrow> (\<forall>x \<in> set (amounts b). \<exists>n. x * 10 ^ 8 = of_int n)"

lemma as_stored_exact: "at_scale b \<Longrightarrow> as_stored b = b"
proof -
  assume "at_scale b"
  then have "\<forall>x \<in> set (amounts b). to_money x = x" unfolding at_scale_def using to_money_exact by blast
  then show ?thesis
    by (cases b; cases "b_adj_close b"; cases "b_vwap b") (simp_all add: amounts_def as_stored_def)
qed

lemma upsert_row_ok: "table_ok t \<Longrightarrow> table_ok (upsert_row b t)"
proof -
  assume t: "table_ok t"
  have "distinct (map fst (upsert_row b t))"
    using t by (simp add: upsert_row_def table_ok_def distinct_update)
  moreover have "bar_key c = k" if "(k, c) \<in> set (upsert_row b t)" for k c
  proof -
    have "map_of (upsert_row b t) k = Some c" using calculation that by simp
    then show ?thesis using t
      by (auto simp: upsert_row_def update_conv' table_ok_def split: if_splits option.splits dest: map_of_SomeD)
  qed
  ultimately show ?thesis by (auto simp: table_ok_def)
qed

lemma upsert_rows_ok: "table_ok t \<Longrightarrow> table_ok (fold upsert_row bs t)"
  by (induction bs arbitrary: t) (auto simp: upsert_row_ok)

lemma map_of_upsert_row:
  "map_of (upsert_row b t) k =
     (if k = bar_key b then Some (case map_of t k of None \<Rightarrow> as_stored b | Some old \<Rightarrow> merge_bar (as_stored b) old) else map_of t k)"
  by (auto simp: upsert_row_def update_conv' split: option.split)

lemma upsert_rows_lookup:
  "distinct (map bar_key bs) \<Longrightarrow> map_of (fold upsert_row bs t) k =
     (case List.find (\<lambda>b. bar_key b = k) bs of None \<Rightarrow> map_of t k
      | Some b \<Rightarrow> Some (case map_of t k of None \<Rightarrow> as_stored b | Some old \<Rightarrow> merge_bar (as_stored b) old))"
proof (induction bs arbitrary: t)
  case (Cons b bs)
  have "List.find (\<lambda>x. bar_key x = k) bs = None" if "k = bar_key b"
    using Cons.prems that by (simp add: find_None_iff) (metis image_eqI)
  with Cons show ?case by (auto simp: map_of_upsert_row split: option.splits)
qed simp

lemma chunks_concat: "n \<noteq> 0 \<Longrightarrow> concat (chunks n xs) = xs"
  by (induction n xs rule: chunks.induct) (subst chunks.simps, auto)

lemma chunks_bound: "c \<in> set (chunks n xs) \<Longrightarrow> c \<noteq> [] \<and> length c \<le> n"
proof (induction n xs rule: chunks.induct)
  case (1 n xs)
  from 1(2) show ?case by (subst (asm) chunks.simps) (use 1(1) in \<open>auto split: if_splits\<close>)
qed

lemma upsert_chunks:
  "distinct (map bar_key (concat cs)) \<Longrightarrow> list_all row_fits (concat cs) \<Longrightarrow>
     for_r upsert_chunk cs (w, t) = Inr (w + int (length (concat cs)), fold upsert_row (concat cs) t)"
  by (induction cs arbitrary: w t) (auto simp: upsert_chunk_def)

lemma upsert_chunks_refused: "\<not> list_all row_fits (concat cs) \<Longrightarrow> \<exists>e. for_r upsert_chunk cs (w, t) = Inl e"
  by (induction cs arbitrary: w t) (auto simp: upsert_chunk_def)

lemma upsert_bars_refused:
  assumes "\<not> list_all row_fits bs"
  shows "\<exists>e. upsert_bars bs t = (Inl e, t)"
proof -
  have "concat (chunks UPSERT_CHUNK_ROWS bs) = bs" by (rule chunks_concat) (simp add: UPSERT_CHUNK_ROWS_def)
  with upsert_chunks_refused [of "chunks UPSERT_CHUNK_ROWS bs" 0 t] assms show ?thesis
    by (auto simp: upsert_bars_def)
qed

lemma upsert_bars_distinct:
  assumes "distinct (map bar_key bs)" "list_all row_fits bs"
  shows "upsert_bars bs t = (Inr (int (length bs)), fold upsert_row bs t)"
proof -
  have "concat (chunks UPSERT_CHUNK_ROWS bs) = bs" by (rule chunks_concat) (simp add: UPSERT_CHUNK_ROWS_def)
  with upsert_chunks [of "chunks UPSERT_CHUNK_ROWS bs" 0 t] assms show ?thesis
    by (simp add: upsert_bars_def)
qed

definition row_of :: "bar_table \<Rightarrow> bar \<Rightarrow> bar" where
  "row_of t b = (case map_of t (bar_key b) of None \<Rightarrow> as_stored b | Some old \<Rightarrow> merge_bar (as_stored b) old)"

lemma row_of_key [simp]: "bar_key (row_of t b) = bar_key b"
  by (simp add: row_of_def split: option.split)

definition in_series :: "string \<Rightarrow> timeframe \<Rightarrow> ts \<Rightarrow> ts \<Rightarrow> bar_id \<Rightarrow> bool" where
  "in_series s tf start stop k \<longleftrightarrow> fst k = s \<and> fst (snd k) = tf \<and> start \<le> snd (snd k) \<and> snd (snd k) < stop"

lemma get_bars_rows:
  assumes "table_ok t"
  shows "b \<in> set (get_bars s tf start stop t) \<longleftrightarrow> map_of t (bar_key b) = Some b \<and> in_series s tf start stop (bar_key b)"
proof -
  have key: "k = bar_key b" if "(k, b) \<in> set t" for k using assms that by (auto simp: table_ok_def)
  have "b \<in> set (get_bars s tf start stop t) \<longleftrightarrow> (\<exists>u. ((s, tf, u), b) \<in> set t) \<and> start \<le> b_ts b \<and> b_ts b < stop"
    by (auto simp: get_bars_def series_rows_def image_iff)
  also have "\<dots> \<longleftrightarrow> (bar_key b, b) \<in> set t \<and> in_series s tf start stop (bar_key b)"
    using key by (auto simp: in_series_def bar_key_def)
  finally show ?thesis using assms by (simp add: table_ok_def)
qed

lemma get_bars_sorted: "sorted (map b_ts (get_bars s tf start stop t))"
  unfolding get_bars_def series_rows_def by (rule sorted_filter) simp

lemma find_first:
  assumes "distinct (map f bs)" "b \<in> set bs"
  shows "List.find (\<lambda>x. f x = f b) bs = Some b"
  using assms
proof (induction bs)
  case (Cons c bs)
  then show ?case by (auto simp: image_iff)
qed simp

lemma written_bars_read_back:
  assumes "table_ok t" "distinct (map bar_key bs)" "list_all row_fits bs" "t' = fold upsert_row bs t"
  shows "table_ok t'
    \<and> set (get_bars s tf start stop t') = {row_of t b | b. b \<in> set bs \<and> in_series s tf start stop (bar_key b)}
        \<union> {c \<in> set (get_bars s tf start stop t). bar_key c \<notin> bar_key ` set bs}
    \<and> (\<forall>k c. map_of t k = Some c \<and> b_adj_close c \<noteq> None \<longrightarrow> (\<exists>d. map_of t' k = Some d \<and> b_adj_close d \<noteq> None))"
proof -
  note t' = assms(4)
  have ok: "table_ok t'" using assms(1) upsert_rows_ok t' by blast
  have look: "map_of t' k = (case List.find (\<lambda>b. bar_key b = k) bs of None \<Rightarrow> map_of t k | Some b \<Rightarrow> Some (row_of t b))" for k
  proof (cases "List.find (\<lambda>b. bar_key b = k) bs")
    case (Some b)
    then have "bar_key b = k" by (auto simp: find_Some_iff)
    with Some show ?thesis unfolding t' upsert_rows_lookup [OF assms(2)] by (auto simp: row_of_def)
  qed (simp add: t' upsert_rows_lookup [OF assms(2)])
  have there: "map_of t' (bar_key b) = Some (row_of t b)" if "b \<in> set bs" for b
    using find_first [OF assms(2) that] look by simp
  have other: "map_of t' k = map_of t k" if "k \<notin> bar_key ` set bs" for k
  proof -
    have "List.find (\<lambda>b. bar_key b = k) bs = None" using that by (auto simp: find_None_iff)
    then show ?thesis using look by simp
  qed
  have "b \<in> set (get_bars s tf start stop t') \<longleftrightarrow>
      b \<in> {row_of t b | b. b \<in> set bs \<and> in_series s tf start stop (bar_key b)}
        \<union> {c \<in> set (get_bars s tf start stop t). bar_key c \<notin> bar_key ` set bs}" for b
  proof (cases "bar_key b \<in> bar_key ` set bs")
    case True
    then obtain c where c: "c \<in> set bs" "bar_key c = bar_key b" by auto
    have "b = row_of t c' \<Longrightarrow> c' \<in> set bs \<Longrightarrow> c' = c" for c'
      using assms(2) c by (metis distinct_map inj_onD row_of_key)
    then show ?thesis using True c there [OF c(1)] get_bars_rows [OF ok] by auto
  next
    case False
    then show ?thesis using other get_bars_rows [OF ok] get_bars_rows [OF assms(1)] by (auto simp: image_iff)
  qed
  moreover have "\<exists>d. map_of t' k = Some d \<and> b_adj_close d \<noteq> None" if "map_of t k = Some c" "b_adj_close c \<noteq> None" for k c
  proof (cases "k \<in> bar_key ` set bs")
    case True
    then obtain b where "b \<in> set bs" "k = bar_key b" by auto
    with there [of b] that show ?thesis by (auto simp: row_of_def merge_bar_def coalesce_def split: option.split)
  qed (use other that in auto)
  ultimately show ?thesis using ok by blast
qed

text \<open>
  C33. Writing bars and reading them back. A batch that names each row once is written whole or, when a column
  cannot hold one of its values, refused and the table left as it was. Reading a series then gives, in ascending
  time, for each bar of the batch in the range the bar as its columns hold it, with its missing adjusted
  close, VWAP and trade count taken from the row it replaced, and every row the batch did not name as it
  was; so no adjusted close is ever erased. The columns hold amounts of at most eight places exactly, round
  others to eight, and keep a consistent bar consistent.
\<close>

theorem bars_read_back_as_written:
  assumes "table_ok t" "distinct (map bar_key bs)" "upsert_bars bs t = (r, t')"
  shows "(if list_all row_fits bs
     then r = Inr (int (length bs)) \<and> table_ok t'
       \<and> set (get_bars s tf start stop t') = {row_of t b | b. b \<in> set bs \<and> in_series s tf start stop (bar_key b)}
           \<union> {c \<in> set (get_bars s tf start stop t). bar_key c \<notin> bar_key ` set bs}
       \<and> sorted (map b_ts (get_bars s tf start stop t'))
       \<and> (\<forall>k c. map_of t k = Some c \<and> b_adj_close c \<noteq> None \<longrightarrow> (\<exists>d. map_of t' k = Some d \<and> b_adj_close d \<noteq> None))
     else (\<exists>e. r = Inl e) \<and> t' = t)
    \<and> (\<forall>b \<in> set bs. (at_scale b \<longrightarrow> as_stored b = b) \<and> (bar_ok b \<longrightarrow> bar_ok (as_stored b)))"
proof (cases "list_all row_fits bs")
  case True
  have "r = Inr (int (length bs))" "t' = fold upsert_row bs t"
    using assms(3) upsert_bars_distinct [OF assms(2) True] by simp_all
  then show ?thesis using written_bars_read_back [OF assms(1,2) True] True get_bars_sorted as_stored_exact as_stored_consistent
    by simp
next
  case False
  then show ?thesis using upsert_bars_refused [of bs t] assms(3) as_stored_exact as_stored_consistent by auto
qed

definition stored_bar :: "ts \<Rightarrow> dec option \<Rightarrow> bar" where
  "stored_bar t adj = \<lparr>b_symbol = ''AAPL'', b_ts = t, b_timeframe = D1, b_open = 100, b_high = 101, b_low = 99, b_close = 100,
     b_volume = 10, b_adj_close = adj, b_vwap = None, b_trade_count = None\<rparr>"

lemma stored_bar_fits [simp]: "row_fits (stored_bar t None)" "row_fits (stored_bar t (Some 50))" "row_fits (stored_bar t (Some 100))"
  "as_stored (stored_bar t None) = stored_bar t None" "as_stored (stored_bar t (Some 100)) = stored_bar t (Some 100)"
proof -
  have n: "to_money (numeral n) = numeral n" for n by (rule to_money_exact [of _ "numeral n * 10 ^ 8"]) simp
  show "row_fits (stored_bar t None)" "row_fits (stored_bar t (Some 50))" "row_fits (stored_bar t (Some 100))"
    "as_stored (stored_bar t None) = stored_bar t None" "as_stored (stored_bar t (Some 100)) = stored_bar t (Some 100)"
    by (simp_all add: row_fits_def amounts_def as_stored_def stored_bar_def n)
qed

theorem bars_read_back_as_written_witness:
  "\<exists>t' :: bar_table. upsert_bars [stored_bar 5 None, stored_bar 9 None] [((''AAPL'', D1, 5), stored_bar 5 (Some 50))] = (Inr 2, t')
     \<and> set (get_bars ''AAPL'' D1 0 9 t') = {stored_bar 5 (Some 50)}"
proof -
  let ?t = "[((''AAPL'', D1, 5), stored_bar 5 (Some 50))]" and ?bs = "[stored_bar 5 None, stored_bar 9 None]"
  obtain r t' where run: "upsert_bars ?bs ?t = (r, t')" by (cases "upsert_bars ?bs ?t")
  have ok: "table_ok ?t" "distinct (map bar_key ?bs)" by (simp_all add: table_ok_def bar_key_def stored_bar_def)
  have row: "row_of ?t (stored_bar 5 None) = stored_bar 5 (Some 50)"
    by (simp add: row_of_def) (simp add: bar_key_def stored_bar_def merge_bar_def coalesce_def)
  have old: "get_bars ''AAPL'' D1 0 9 ?t = [stored_bar 5 (Some 50)]"
    by (simp add: get_bars_def series_rows_def stored_bar_def)
  have key: "bar_key (stored_bar u a) = (''AAPL'', D1, u)" for u a by (simp add: bar_key_def stored_bar_def)
  have new: "{row_of ?t b | b. b \<in> set ?bs \<and> in_series ''AAPL'' D1 0 9 (bar_key b)} = {row_of ?t (stored_bar 5 None)}"
  proof -
    have "b \<in> set ?bs \<and> in_series ''AAPL'' D1 0 9 (bar_key b) \<longleftrightarrow> b = stored_bar 5 None" for b
      by (auto simp: in_series_def key)
    then show ?thesis by auto
  qed
  have kept: "{c \<in> set (get_bars ''AAPL'' D1 0 9 ?t). bar_key c \<notin> bar_key ` set ?bs} = {}"
    by (auto simp: old key)
  note all = bars_read_back_as_written [OF ok run, of "''AAPL''" D1 0 9]
  have fits: "list_all row_fits ?bs" by simp
  have "r = Inr 2" using all fits by simp
  moreover have "set (get_bars ''AAPL'' D1 0 9 t') = {stored_bar 5 (Some 50)}"
    using all [unfolded if_P [OF fits]] unfolding new kept row by simp
  ultimately show ?thesis using run by blast
qed

end
