(* ===== verification/Backfill.thy ===== *)
theory Backfill
  imports BarStore Actions
begin

text \<open>
  \<open>data/backfill.py\<close>: fetching a range of history in windows and batches, and fetching the gaps the
  store reports. The vendor and the store are the record \<open>bar_ports\<close> of functions on the world \<open>'v\<close>;
  \<open>table_ports\<close> is the store of \<open>BarStore\<close> beside any vendor. Progress is carried by the loops.
\<close>

record 'v bar_ports =
  bp_get_bars :: "string list \<Rightarrow> timeframe \<Rightarrow> ts \<Rightarrow> ts \<Rightarrow> bool \<Rightarrow> 'v \<Rightarrow> (exn + bar list dict) \<times> 'v"
  bp_upsert :: "bar list \<Rightarrow> 'v \<Rightarrow> (exn + int) \<times> 'v"
  bp_find_gaps :: "string \<Rightarrow> timeframe \<Rightarrow> ts \<Rightarrow> ts \<Rightarrow> 'v \<Rightarrow> (exn + window list) \<times> 'v"

definition window_days_for :: "timeframe \<Rightarrow> int" where
  "window_days_for tf = (case tf of M1 \<Rightarrow> 30 | M5 \<Rightarrow> 120 | M15 \<Rightarrow> 365 | M30 \<Rightarrow> 365 | H1 \<Rightarrow> 730 | H4 \<Rightarrow> 1825 | D1 \<Rightarrow> 3650)"

definition DEFAULT_BATCH_SIZE :: int where "DEFAULT_BATCH_SIZE = 20"
definition DEFAULT_MAX_GAPS_PER_SYMBOL :: int where "DEFAULT_MAX_GAPS_PER_SYMBOL = 50"

record backfill_result =
  br_symbols :: "string list"
  br_written :: int
  br_windows :: int
  br_requests :: int
  br_empty :: "(string \<times> ts \<times> ts) list"

definition br_ok :: "backfill_result \<Rightarrow> bool" where "br_ok r \<longleftrightarrow> br_empty r = []"

record gap_backfill_result =
  gr_symbols :: "string list"
  gr_timeframe :: timeframe
  gr_found :: int
  gr_written :: int
  gr_requests :: int
  gr_remaining :: "(string \<times> ts \<times> ts) list"
  gr_truncated :: "string list"

definition gr_ok :: "gap_backfill_result \<Rightarrow> bool" where
  "gr_ok r \<longleftrightarrow> gr_remaining r = [] \<and> gr_truncated r = []"

function windows_from :: "int \<Rightarrow> ts \<Rightarrow> ts \<Rightarrow> window list" where
  "windows_from step cursor stop =
     (if step \<le> 0 \<or> stop \<le> cursor then []
      else let nxt = min (cursor + step) stop in (cursor, nxt) # windows_from step nxt stop)"
  by auto
termination by (relation "measure (\<lambda>(step, cursor, stop). nat (stop - cursor))") (auto simp: Let_def)

declare windows_from.simps [simp del]

definition iter_windows :: "ts \<Rightarrow> ts \<Rightarrow> int \<Rightarrow> exn + window list" where
  "iter_windows start stop days =
     (if days < 1 then Inl (value_error ''window_days must be at least 1'')
      else Inr (windows_from (days * DAY_US) start stop))"

definition batches :: "string list \<Rightarrow> int \<Rightarrow> exn + string list list" where
  "batches symbols n =
     (if n < 1 then Inl (value_error ''batch_size must be at least 1'') else Inr (chunks (nat n) symbols))"

text \<open>\<open>dict.fromkeys(symbols)\<close>\<close>

definition dedup :: "string list \<Rightarrow> string list" where
  "dedup xs = rev (remdups (rev xs))"

definition is_data_gap :: "exn \<Rightarrow> bool" where
  "is_data_gap e = (case e of DataGapError _ \<Rightarrow> True | _ \<Rightarrow> False)"

definition check_symbols :: "string list \<Rightarrow> ts \<Rightarrow> ts \<Rightarrow> exn + unit" where
  "check_symbols symbols start stop =
     (if symbols = [] then Inl (value_error ''no symbols to backfill'')
      else if stop \<le> start then Inl (value_error ''start must be before end'')
      else if \<exists>s \<in> set symbols. s \<noteq> str_upper s then Inl (value_error ''symbol must be uppercase'')
      else Inr ())"

definition fetch_one :: "'v bar_ports \<Rightarrow> timeframe \<Rightarrow> ts \<Rightarrow> ts \<Rightarrow> bool \<Rightarrow> string \<Rightarrow>
    bar list dict \<times> string list \<Rightarrow> ('v, bar list dict \<times> string list) act" where
  "fetch_one P tf start stop adj s = (\<lambda>(bars, empty).
     bind_a (attempt (bp_get_bars P [s] tf start stop adj)) (\<lambda>r. case r of
       Inr got \<Rightarrow> ret (fold (\<lambda>(k, x) d. dict_set k x d) got bars, empty)
     | Inl e \<Rightarrow> if is_data_gap e then ret (bars, empty @ [s]) else raise_a e))"

definition fetch_window :: "'v bar_ports \<Rightarrow> string list \<Rightarrow> timeframe \<Rightarrow> ts \<Rightarrow> ts \<Rightarrow> bool \<Rightarrow>
    ('v, bar list dict \<times> string list \<times> int) act" where
  "fetch_window P symbols tf start stop adj =
     bind_a (attempt (bp_get_bars P symbols tf start stop adj)) (\<lambda>r. case r of
       Inr bars \<Rightarrow> ret (bars, [], 1)
     | Inl e \<Rightarrow>
         if is_data_gap e
         then bind_a (for_a (fetch_one P tf start stop adj) symbols ([], [])) (\<lambda>(bars, empty).
                ret (bars, empty, 1 + int (length symbols)))
         else raise_a e)"

definition backfill_batch :: "'v bar_ports \<Rightarrow> timeframe \<Rightarrow> bool \<Rightarrow> window \<Rightarrow> string list \<Rightarrow> backfill_result \<Rightarrow>
    ('v, backfill_result) act" where
  "backfill_batch P tf adj w batch pr =
     bind_a (fetch_window P batch tf (fst w) (snd w) adj) (\<lambda>(bars, missing, used).
     let pr1 = pr\<lparr>br_requests := br_requests pr + used, br_empty := br_empty pr @ map (\<lambda>s. (s, fst w, snd w)) missing\<rparr>;
         flat = concat (dict_values bars) in
     if flat = [] then ret pr1
     else bind_a (bp_upsert P flat) (\<lambda>n. ret (pr1\<lparr>br_written := br_written pr1 + n\<rparr>)))"

definition backfill_window :: "'v bar_ports \<Rightarrow> timeframe \<Rightarrow> bool \<Rightarrow> int \<Rightarrow> string list \<Rightarrow> window \<Rightarrow> backfill_result \<Rightarrow>
    ('v, backfill_result) act" where
  "backfill_window P tf adj batch_size symbols w pr =
     bind_a (lift_a (batches symbols batch_size)) (\<lambda>bs.
     for_a (backfill_batch P tf adj w) bs (pr\<lparr>br_windows := br_windows pr + 1\<rparr>))"

definition backfill_bars :: "'v bar_ports \<Rightarrow> string list \<Rightarrow> timeframe \<Rightarrow> ts \<Rightarrow> ts \<Rightarrow> bool \<Rightarrow> int option \<Rightarrow> int \<Rightarrow>
    ('v, backfill_result) act" where
  "backfill_bars P symbols tf start stop adj window_days batch_size =
     bind_a (lift_a (check_symbols symbols start stop)) (\<lambda>_.
     bind_a (lift_a (iter_windows start stop (case window_days of Some d \<Rightarrow> d | None \<Rightarrow> window_days_for tf))) (\<lambda>ws.
     for_a (backfill_window P tf adj batch_size (dedup symbols)) ws
       \<lparr>br_symbols = dedup symbols, br_written = 0, br_windows = 0, br_requests = 0, br_empty = []\<rparr>))"

definition attempt_gap :: "'v bar_ports \<Rightarrow> timeframe \<Rightarrow> bool \<Rightarrow> string \<Rightarrow> window \<Rightarrow> gap_backfill_result \<Rightarrow>
    ('v, gap_backfill_result) act" where
  "attempt_gap P tf adj s w pr =
     bind_a (attempt (bp_get_bars P [s] tf (fst w) (snd w) adj)) (\<lambda>r.
     let pr1 = pr\<lparr>gr_requests := gr_requests pr + 1\<rparr> in case r of
       Inl e \<Rightarrow> if is_data_gap e then ret pr1 else raise_a e
     | Inr fetched \<Rightarrow>
         let bars = concat (dict_values fetched) in
         if bars = [] then ret pr1
         else bind_a (bp_upsert P bars) (\<lambda>n. ret (pr1\<lparr>gr_written := gr_written pr1 + n\<rparr>)))"

definition mend_symbol :: "'v bar_ports \<Rightarrow> timeframe \<Rightarrow> ts \<Rightarrow> ts \<Rightarrow> bool \<Rightarrow> nat \<Rightarrow> string \<Rightarrow> gap_backfill_result \<Rightarrow>
    ('v, gap_backfill_result) act" where
  "mend_symbol P tf start stop adj max_gaps s pr =
     bind_a (bp_find_gaps P s tf start stop) (\<lambda>gaps.
     let pr1 = pr\<lparr>gr_found := gr_found pr + int (length gaps)\<rparr> in
     if gaps = [] then ret pr1
     else
       let pr2 = (if max_gaps < length gaps then pr1\<lparr>gr_truncated := gr_truncated pr1 @ [s]\<rparr> else pr1) in
       bind_a (for_a (attempt_gap P tf adj s) (take max_gaps gaps) pr2) (\<lambda>pr3.
       bind_a (bp_find_gaps P s tf start stop) (\<lambda>left.
       ret (pr3\<lparr>gr_remaining := gr_remaining pr3 @ map (\<lambda>(a, b). (s, a, b)) left\<rparr>))))"

definition backfill_gaps :: "'v bar_ports \<Rightarrow> string list \<Rightarrow> timeframe \<Rightarrow> ts \<Rightarrow> ts \<Rightarrow> bool \<Rightarrow> int \<Rightarrow>
    ('v, gap_backfill_result) act" where
  "backfill_gaps P symbols tf start stop adj max_gaps =
     bind_a (lift_a (check_symbols symbols start stop)) (\<lambda>_.
     if max_gaps < 1 then raise_a (value_error ''max_gaps_per_symbol must be at least 1'')
     else
       bind_a (lift_a (require_supported tf)) (\<lambda>_.
       for_a (mend_symbol P tf start stop adj (nat max_gaps)) (dedup symbols)
         \<lparr>gr_symbols = dedup symbols, gr_timeframe = tf, gr_found = 0, gr_written = 0, gr_requests = 0,
          gr_remaining = [], gr_truncated = []\<rparr>))"

section \<open>The store behind the port\<close>

type_synonym 'w stored = "bar_table \<times> 'w"

definition table_ports :: "calendar_source \<Rightarrow>
    (string list \<Rightarrow> timeframe \<Rightarrow> ts \<Rightarrow> ts \<Rightarrow> bool \<Rightarrow> 'w \<Rightarrow> (exn + bar list dict) \<times> 'w) \<Rightarrow> 'w stored bar_ports" where
  "table_ports cs vendor =
     \<lparr>bp_get_bars = (\<lambda>symbols tf a b adj (t, w). case vendor symbols tf a b adj w of (r, w') \<Rightarrow> (r, (t, w'))),
      bp_upsert = (\<lambda>bars (t, w). case upsert_bars bars t of (r, t') \<Rightarrow> (r, (t', w))),
      bp_find_gaps = (\<lambda>s tf a b (t, w). (find_gaps cs s tf a b t, (t, w)))\<rparr>"

section \<open>A clean backfill\<close>

text \<open>
  What a backfill relies on: the store reports no gap only where every expected bar is there, and
  neither fetching, writing nor scanning takes a bar away.
\<close>

locale bar_repository =
  fixes P :: "'v bar_ports" and sound :: "'v \<Rightarrow> bool" and whole :: "string \<Rightarrow> timeframe \<Rightarrow> ts \<Rightarrow> ts \<Rightarrow> 'v \<Rightarrow> bool"
  assumes no_gap: "sound v \<Longrightarrow> bp_find_gaps P s tf a b v = (Inr [], v') \<Longrightarrow> whole s tf a b v'"
    and fetch_sound: "sound v \<Longrightarrow> sound (snd (bp_get_bars P ss tf a b adj v))"
    and write_sound: "sound v \<Longrightarrow> sound (snd (bp_upsert P bs v))"
    and scan_sound: "sound v \<Longrightarrow> sound (snd (bp_find_gaps P s tf a b v))"
    and fetch_keeps: "sound v \<Longrightarrow> whole s tf a b v \<Longrightarrow> whole s tf a b (snd (bp_get_bars P ss tf' a' b' adj v))"
    and write_keeps: "sound v \<Longrightarrow> whole s tf a b v \<Longrightarrow> whole s tf a b (snd (bp_upsert P bs v))"
    and scan_keeps: "sound v \<Longrightarrow> whole s tf a b v \<Longrightarrow> whole s tf a b (snd (bp_find_gaps P s' tf' a' b' v))"
begin

definition grows :: "'v \<Rightarrow> 'v \<Rightarrow> bool" where
  "grows v v' \<longleftrightarrow> (sound v \<longrightarrow> sound v' \<and> (\<forall>s tf a b. whole s tf a b v \<longrightarrow> whole s tf a b v'))"

sublocale growing: state_relation grows
  by unfold_locales (auto simp: grows_def)

lemma ports_grow [follows_intros]:
  "follows grows (bp_get_bars P ss tf a b adj)" "follows grows (bp_upsert P bs)" "follows grows (bp_find_gaps P s tf a b)"
  by (simp_all add: follows_def grows_def fetch_sound write_sound scan_sound fetch_keeps write_keeps scan_keeps)

lemma attempt_gap_grows [follows_intros]: "follows grows (attempt_gap P tf adj s w pr)"
  unfolding attempt_gap_def Let_def by (intro follows_intros)

lemma mend_symbol_grows [follows_intros]: "follows grows (mend_symbol P tf a b adj n s pr)"
  unfolding mend_symbol_def Let_def by (intro follows_intros)

lemma attempt_gap_progress:
  "attempt_gap P tf adj s w pr v = (Inr pr', v') \<Longrightarrow> gr_remaining pr' = gr_remaining pr \<and> gr_truncated pr' = gr_truncated pr"
  by (auto simp: attempt_gap_def bind_a_run attempt_run Let_def split: sum.splits if_splits)

lemma attempts_progress:
  "for_a (attempt_gap P tf adj s) ws pr v = (Inr pr', v') \<Longrightarrow> gr_remaining pr' = gr_remaining pr \<and> gr_truncated pr' = gr_truncated pr"
proof (induction ws arbitrary: pr v)
  case (Cons w ws)
  from Cons.prems obtain pr1 v1 where one: "attempt_gap P tf adj s w pr v = (Inr pr1, v1)"
    and rest: "for_a (attempt_gap P tf adj s) ws pr1 v1 = (Inr pr', v')"
    by (auto simp: bind_a_def split: prod.splits sum.splits)
  show ?case using Cons.IH [OF rest] attempt_gap_progress [OF one] by simp
qed simp

text \<open>A symbol that adds nothing to what remains is whole.\<close>

lemma mend_symbol_whole:
  assumes "sound v" "mend_symbol P tf a b adj n s pr v = (Inr pr', v')" "gr_remaining pr' = []" "gr_truncated pr' = []"
  shows "gr_remaining pr = []" "gr_truncated pr = []" "whole s tf a b v'"
proof -
  obtain gaps v1 where g: "bp_find_gaps P s tf a b v = (Inr gaps, v1)"
    using assms(2) by (auto simp: mend_symbol_def bind_a_def split: prod.splits sum.splits)
  have s1: "sound v1" using scan_sound [OF assms(1), of s tf a b] g by simp
  have "gr_remaining pr = [] \<and> gr_truncated pr = [] \<and> whole s tf a b v'"
  proof (cases "gaps = []")
    case True
    with assms(2-4) g no_gap [OF assms(1)] show ?thesis by (auto simp: mend_symbol_def bind_a_def)
  next
    case False
    let ?pr1 = "pr\<lparr>gr_found := gr_found pr + int (length gaps)\<rparr>"
    let ?pr2 = "if n < length gaps then ?pr1\<lparr>gr_truncated := gr_truncated ?pr1 @ [s]\<rparr> else ?pr1"
    obtain pr3 v2 left where att: "for_a (attempt_gap P tf adj s) (take n gaps) ?pr2 v1 = (Inr pr3, v2)"
      and f: "bp_find_gaps P s tf a b v2 = (Inr left, v')"
      and pr': "pr' = pr3\<lparr>gr_remaining := gr_remaining pr3 @ map (\<lambda>(a, b). (s, a, b)) left\<rparr>"
      using assms(2) g False by (auto simp: mend_symbol_def bind_a_def Let_def split: prod.splits sum.splits)
    have "follows grows (for_a (attempt_gap P tf adj s) (take n gaps) ?pr2)" by (intro follows_intros)
    from followsD [OF this, of v1] have "sound v2" using s1 att by (simp add: grows_def)
    with f pr' assms(3,4) attempts_progress [OF att] no_gap show ?thesis
      by (auto split: if_splits)
  qed
  then show "gr_remaining pr = []" "gr_truncated pr = []" "whole s tf a b v'" by auto
qed

lemma mend_all_whole:
  assumes "sound v" "for_a (mend_symbol P tf a b adj n) ss pr v = (Inr pr', v')" "gr_remaining pr' = []" "gr_truncated pr' = []"
  shows "gr_remaining pr = [] \<and> gr_truncated pr = [] \<and> (\<forall>s \<in> set ss. whole s tf a b v')"
  using assms(1,2)
proof (induction ss arbitrary: pr v)
  case Nil
  with assms(3,4) show ?case by simp
next
  case (Cons s ss)
  then obtain pr1 v1 where one: "mend_symbol P tf a b adj n s pr v = (Inr pr1, v1)"
    and rest: "for_a (mend_symbol P tf a b adj n) ss pr1 v1 = (Inr pr', v')"
    by (auto simp: bind_a_def split: prod.splits sum.splits)
  from followsD [OF mend_symbol_grows, of v tf a b adj n s pr] have s1: "sound v1"
    using Cons.prems(1) one by (simp add: grows_def)
  note ih = Cons.IH [OF s1 rest]
  have here: "gr_remaining pr = [] \<and> gr_truncated pr = [] \<and> whole s tf a b v1"
    using mend_symbol_whole [OF Cons.prems(1) one] ih by blast
  have "follows grows (for_a (mend_symbol P tf a b adj n) ss pr1)" by (intro follows_intros)
  from followsD [OF this, of v1] have "whole s tf a b v'" using here s1 rest by (simp add: grows_def)
  with here ih show ?case by simp
qed

lemma set_dedup [simp]: "set (dedup xs) = set xs"
  by (simp add: dedup_def)

lemma backfill_gaps_whole:
  assumes "sound v" "backfill_gaps P ss tf a b adj n v = (Inr res, v')" "gr_ok res"
  shows "\<forall>s \<in> set ss. whole s tf a b v'"
proof -
  from assms(2) obtain pr where "for_a (mend_symbol P tf a b adj (nat n)) (dedup ss) pr v = (Inr res, v')"
    by (auto simp: backfill_gaps_def bind_a_run split: sum.splits if_splits)
  from mend_all_whole [OF assms(1) this] assms(3) show ?thesis by (simp add: gr_ok_def)
qed

end

text \<open>Every window the calendar expects holds a stored timestamp.\<close>

definition no_window_missing :: "calendar_source \<Rightarrow> string \<Rightarrow> timeframe \<Rightarrow> ts \<Rightarrow> ts \<Rightarrow> bar_table \<Rightarrow> bool" where
  "no_window_missing cs s tf start stop t \<longleftrightarrow>
     (\<exists>ws. expected_windows cs tf start stop = Inr ws \<and>
        (let (a, b) = query_bounds tf start stop in \<forall>w \<in> set ws. covered (stored_timestamps s tf a b t) w))"

lemma missing_runs_Nil: "missing_runs P ws = [] \<longleftrightarrow> (\<forall>w \<in> set ws. P w)"
proof (cases "dropWhile P ws")
  case Nil
  have "missing_runs P ws = []" unfolding missing_runs.simps [of P ws] Nil by simp
  with Nil show ?thesis using dropWhile_eq_Nil_conv [of P ws] by blast
next
  case (Cons x xs)
  have "missing_runs P ws \<noteq> []" unfolding missing_runs.simps [of P ws] Cons by simp
  with Cons show ?thesis using dropWhile_eq_Nil_conv [of P ws] by force
qed

lemma find_gaps_none:
  assumes "schedule_ok cs" "find_gaps cs s tf start stop t = Inr []"
  shows "no_window_missing cs s tf start stop t"
proof -
  obtain a b where q: "query_bounds tf start stop = (a, b)" by (cases "query_bounds tf start stop")
  obtain ws where ws: "expected_windows cs tf start stop = Inr ws"
    and none: "gs_windows (scan_gaps ws (stored_timestamps s tf a b t)) = []"
    using assms(2) q by (auto simp: find_gaps_def bind_r_eq_Inr split: if_splits)
  have "sorted (stored_timestamps s tf a b t)" by (simp add: stored_timestamps_def get_bars_sorted)
  from scan_gaps_reference [OF this expected_windows_ok(1) [OF assms(1) ws]] none
  have "\<forall>w \<in> set ws. covered (stored_timestamps s tf a b t) w"
    by (simp add: reference_scan_def missing_runs_Nil)
  with ws q show ?thesis by (simp add: no_window_missing_def)
qed

lemma stored_keys:
  assumes "table_ok t"
  shows "set (stored_timestamps s tf a b t) = {u. (s, tf, u) \<in> dom (map_of t) \<and> a \<le> u \<and> u < b}"
proof -
  have key: "bar_key c = k" if "map_of t k = Some c" for k c
    using assms map_of_SomeD [OF that] by (auto simp: table_ok_def)
  have "u \<in> set (stored_timestamps s tf a b t) \<longleftrightarrow> (s, tf, u) \<in> dom (map_of t) \<and> a \<le> u \<and> u < b" for u
  proof
    assume "u \<in> set (stored_timestamps s tf a b t)"
    then obtain c where "c \<in> set (get_bars s tf a b t)" "b_ts c = u" by (auto simp: stored_timestamps_def)
    then show "(s, tf, u) \<in> dom (map_of t) \<and> a \<le> u \<and> u < b"
      unfolding get_bars_rows [OF assms] by (auto simp: in_series_def bar_key_def)
  next
    assume u: "(s, tf, u) \<in> dom (map_of t) \<and> a \<le> u \<and> u < b"
    then obtain c where c: "map_of t (s, tf, u) = Some c" by auto
    from key [OF c] c u have "c \<in> set (get_bars s tf a b t)" "b_ts c = u"
      unfolding get_bars_rows [OF assms] by (auto simp: in_series_def bar_key_def)
    then show "u \<in> set (stored_timestamps s tf a b t)" by (auto simp: stored_timestamps_def)
  qed
  then show ?thesis by blast
qed

lemma upsert_chunks_rows: "for_r upsert_chunk cs (w, t) = Inr (w', t') \<Longrightarrow> t' = fold upsert_row (concat cs) t"
  by (induction cs arbitrary: w t) (auto simp: upsert_chunk_def split: if_splits)

lemma upsert_bars_keys:
  "snd (upsert_bars bs t) = t \<or> snd (upsert_bars bs t) = fold upsert_row bs t"
  using chunks_concat [of UPSERT_CHUNK_ROWS bs] upsert_chunks_rows [of "chunks UPSERT_CHUNK_ROWS bs" 0 t]
  by (auto simp: upsert_bars_def UPSERT_CHUNK_ROWS_def split: sum.split)

lemma upsert_bars_ok: "table_ok t \<Longrightarrow> table_ok (snd (upsert_bars bs t))"
  using upsert_bars_keys [of bs t] upsert_rows_ok by fastforce

lemma fold_keys: "dom (map_of t) \<subseteq> dom (map_of (fold upsert_row bs t))"
proof (induction bs arbitrary: t)
  case (Cons b bs)
  have "dom (map_of t) \<subseteq> dom (map_of (upsert_row b t))" by (auto simp: map_of_upsert_row)
  with Cons show ?case by force
qed simp

lemma upsert_keeps_windows:
  assumes "table_ok t" "no_window_missing cs s tf a b t"
  shows "no_window_missing cs s tf a b (snd (upsert_bars bs t))"
proof -
  have "set (stored_timestamps s tf x y t) \<subseteq> set (stored_timestamps s tf x y (snd (upsert_bars bs t)))" for x y
    unfolding stored_keys [OF assms(1)] stored_keys [OF upsert_bars_ok [OF assms(1)]]
    using upsert_bars_keys [of bs t] fold_keys [of t bs] by auto
  with assms(2) show ?thesis by (fastforce simp: no_window_missing_def covered_def)
qed

lemma upsert_bars_to:
  assumes "upsert_bars bs t = (r, t')" "table_ok t"
  shows "table_ok t'" "no_window_missing cs s tf a b t \<Longrightarrow> no_window_missing cs s tf a b t'"
  using assms upsert_bars_ok [of t bs] upsert_keeps_windows [of t cs s tf a b bs] by simp_all

text \<open>The interface holds of the table beside any vendor; on a calendar that is no calendar it says nothing.\<close>

interpretation table: bar_repository "table_ports cs vendor" "\<lambda>v. table_ok (fst v)"
    "\<lambda>s tf a b v. schedule_ok cs \<longrightarrow> no_window_missing cs s tf a b (fst v)" for cs vendor
  by unfold_locales
    (auto simp: table_ports_def find_gaps_none split: prod.splits intro: upsert_bars_to)

text \<open>
  C32. A backfill that reports success left no gap. Whatever the vendor answers and whatever it does between
  the calls, when \<open>backfill_gaps\<close> returns a result with nothing remaining and nothing truncated, the table
  holds a bar in every window the exchange calendar expects of every symbol asked for.
\<close>

theorem clean_backfill_leaves_no_gap:
  assumes "schedule_ok cs" "table_ok t"
    and "backfill_gaps (table_ports cs vendor) symbols tf start stop adj n (t, w) = (Inr res, (t', w'))" "gr_ok res"
  shows "\<forall>s \<in> set symbols. no_window_missing cs s tf start stop t'"
  using table.backfill_gaps_whole [of "(t, w)" cs vendor symbols tf start stop adj n res "(t', w')"] assms by simp

text \<open>A vendor that has the one bar of the one session of the sample calendar.\<close>

definition sample_vendor :: "string list \<Rightarrow> timeframe \<Rightarrow> ts \<Rightarrow> ts \<Rightarrow> bool \<Rightarrow> unit \<Rightarrow> (exn + bar list dict) \<times> unit" where
  "sample_vendor ss tf a b adj w = (Inr [(''AAPL'', [stored_bar 86400000000 (Some 100)])], w)"

lemma sample_windows:
  "expected_windows sample_calendar D1 0 864000000000 = Inr [(86400000000, 172800000000)]"
proof -
  have y: "year_of 719162 = 1969" "year_of 719174 = 1970" by code_simp+
  show ?thesis
    by (simp add: expected_windows_def require_supported_def SUPPORTED_TIMEFRAMES_def sessions_def guard_r_def session_windows_def day_bounds_def
        y sample_calendar_def utc_date_def DAY_US_def EPOCH_ORD_def year_sessions_def session_row_def upto.simps)
qed

lemma sample_find_gaps:
  "find_gaps sample_calendar ''AAPL'' D1 0 864000000000 t =
     Inr (gs_windows (scan_gaps [(86400000000, 172800000000)] (stored_timestamps ''AAPL'' D1 0 950400000000 t)))"
  by (simp add: find_gaps_def require_supported_def SUPPORTED_TIMEFRAMES_def guard_r_def query_bounds_def sample_windows DAY_US_def)

theorem clean_backfill_leaves_no_gap_witness:
  "\<exists>res t'. backfill_gaps (table_ports sample_calendar sample_vendor) [''AAPL''] D1 0 864000000000 True 50 ([], ()) = (Inr res, (t', ()))
     \<and> gr_found res = 1 \<and> gr_ok res \<and> no_window_missing sample_calendar ''AAPL'' D1 0 864000000000 t'"
proof -
  let ?P = "table_ports sample_calendar sample_vendor" and ?t = "[((''AAPL'', D1, 86400000000), stored_bar 86400000000 (Some 100))]"
  have up: "str_upper ''AAPL'' = ''AAPL''" by code_simp
  have w: "upsert_bars [stored_bar 86400000000 (Some 100)] [] = (Inr 1, ?t)"
    by (simp add: upsert_bars_distinct upsert_row_def) (simp add: bar_key_def stored_bar_def)
  have none: "stored_timestamps ''AAPL'' D1 0 950400000000 [] = []"
    and one: "stored_timestamps ''AAPL'' D1 0 950400000000 ?t = [86400000000]"
    by (simp_all add: stored_timestamps_def get_bars_def series_rows_def stored_bar_def)
  have "\<exists>res. backfill_gaps ?P [''AAPL''] D1 0 864000000000 True 50 ([], ()) = (Inr res, (?t, ())) \<and> gr_found res = 1 \<and> gr_ok res"
    by (simp add: backfill_gaps_def check_symbols_def up require_supported_def SUPPORTED_TIMEFRAMES_def guard_r_def dedup_def
        mend_symbol_def attempt_gap_def bind_a_run attempt_run table_ports_def sample_find_gaps none one w scan_gaps_def scan_window_def
        Let_def sample_vendor_def dict_values_def gr_ok_def)
  then obtain res where res: "backfill_gaps ?P [''AAPL''] D1 0 864000000000 True 50 ([], ()) = (Inr res, (?t, ()))"
    "gr_found res = 1" "gr_ok res" by blast
  from clean_backfill_leaves_no_gap [OF sample_schedule_ok _ res(1,3)] res show ?thesis by (auto simp: table_ok_def)
qed

section \<open>Windows and batches\<close>

text \<open>Consecutive windows, none longer than \<open>step\<close>, from \<open>a\<close> to \<open>b\<close>.\<close>

fun tiles :: "int \<Rightarrow> ts \<Rightarrow> ts \<Rightarrow> window list \<Rightarrow> bool" where
  "tiles step a b [] \<longleftrightarrow> a = b"
| "tiles step a b (w # ws) \<longleftrightarrow> fst w = a \<and> a < snd w \<and> snd w - a \<le> step \<and> tiles step (snd w) b ws"

lemma windows_from_tile: "0 < step \<Longrightarrow> a \<le> b \<Longrightarrow> tiles step a b (windows_from step a b)"
proof (induction step a b rule: windows_from.induct)
  case (1 step a b)
  then show ?case by (cases "a = b") (auto simp: windows_from.simps [of step a b] windows_from.simps [of step b b] Let_def)
qed

text \<open>
  A long range is fetched whole: the windows of \<open>iter_windows\<close> follow one another without overlap or hole
  from the start to the end, none longer than the days asked for; and the batches of a window are the
  symbols in their order, none empty and none longer than the batch size.
\<close>

theorem windows_and_batches_cover:
  assumes "start < stop" "iter_windows start stop days = Inr ws" "batches symbols n = Inr bs"
  shows "tiles (days * DAY_US) start stop ws \<and> concat bs = symbols
    \<and> (\<forall>b \<in> set bs. b \<noteq> [] \<and> int (length b) \<le> n)"
  using assms windows_from_tile [of "days * DAY_US" start stop] chunks_concat [of "nat n" symbols] chunks_bound [of _ "nat n" symbols]
  by (fastforce simp: iter_windows_def batches_def DAY_US_def split: if_splits)

theorem windows_and_batches_cover_witness:
  "\<exists>ws. iter_windows 0 (3 * DAY_US) 2 = Inr ws \<and> tiles (2 * DAY_US) 0 (3 * DAY_US) ws"
proof -
  have "iter_windows 0 (3 * DAY_US) 2 = Inr (windows_from (2 * DAY_US) 0 (3 * DAY_US))" by (simp add: iter_windows_def)
  from windows_and_batches_cover [OF _ this, of "[''A'', ''B'', ''C'']" 2] this show ?thesis
    by (simp add: DAY_US_def batches_def)
qed

end
