(* ===== verification/Adjustments.thy ===== *)
theory Adjustments
  imports BarStore
begin

text \<open>
  \<open>data/corporate_actions.py\<close>: what two fetches of one symbol's adjusted history say about a corporate
  action, by comparing the bars they share.
\<close>

definition UNCHANGED_TOLERANCE :: dec where "UNCHANGED_TOLERANCE = 5 / 10000"
definition AGREEMENT_TOLERANCE :: dec where "AGREEMENT_TOLERANCE = 5 / 1000"
definition SPLIT_LIKE_MOVE :: dec where "SPLIT_LIKE_MOVE = 2 / 10"
definition MIN_BARS_COMPARED :: int where "MIN_BARS_COMPARED = 3"

record adjustment =
  ad_symbol :: string
  ad_factor :: dec
  ad_compared :: int
  ad_agreeing :: int
  ad_earliest :: "ts option"

definition is_consistent :: "adjustment \<Rightarrow> bool" where
  "is_consistent a \<longleftrightarrow> MIN_BARS_COMPARED \<le> ad_compared a \<and> ad_agreeing a = ad_compared a"

definition is_split_like :: "adjustment \<Rightarrow> bool" where
  "is_split_like a \<longleftrightarrow> SPLIT_LIKE_MOVE \<le> dabs (dsub (ad_factor a) 1)"

definition implied_position_factor :: "adjustment \<Rightarrow> dec" where
  "implied_position_factor a = ad_factor a"

text \<open>The bars both fetches have, with the ratio of their adjusted closes. Of two fresh bars with one timestamp the last counts.\<close>

definition ratio_of :: "bar list \<Rightarrow> bar \<Rightarrow> (ts \<times> dec) option" where
  "ratio_of fresh old =
     (case map_of (rev (map (\<lambda>b. (b_ts b, b)) fresh)) (b_ts old) of
        None \<Rightarrow> None
      | Some new \<Rightarrow>
          (case (b_adj_close old, b_adj_close new) of
             (Some x, Some y) \<Rightarrow> if x \<le> 0 \<or> y \<le> 0 then None else Some (b_ts old, ddiv x y)
           | _ \<Rightarrow> None))"

definition ratios :: "bar list \<Rightarrow> bar list \<Rightarrow> (ts \<times> dec) list" where
  "ratios stored fresh = List.map_filter (ratio_of fresh) stored"

definition moved :: "(ts \<times> dec) list \<Rightarrow> (ts \<times> dec) list" where
  "moved rs = filter (\<lambda>(t, r). UNCHANGED_TOLERANCE < dabs (dsub r 1)) rs"

text \<open>\<open>sorted(xs)[len(xs) // 2]\<close>\<close>

definition upper_median :: "dec list \<Rightarrow> dec" where
  "upper_median xs = sort xs ! (length xs div 2)"

definition detect_adjustment :: "string \<Rightarrow> bar list \<Rightarrow> bar list \<Rightarrow> adjustment option" where
  "detect_adjustment s stored fresh =
     (let rs = ratios stored fresh; mv = moved rs in
      if mv = [] then None
      else
        let factor = upper_median (map snd mv) in
        Some \<lparr>ad_symbol = s, ad_factor = factor, ad_compared = int (length rs),
              ad_agreeing = int (length (filter (\<lambda>(t, r). dabs (dsub r factor) \<le> AGREEMENT_TOLERANCE) rs)),
              ad_earliest = Some (Min (set (map fst mv)))\<rparr>)"

section \<open>What it names\<close>

lemma upper_median_in: "xs \<noteq> [] \<Longrightarrow> upper_median xs \<in> set xs"
  unfolding upper_median_def by (metis div_less_dividend length_greater_0_conv length_sort lessI nat_1_add_1 nth_mem plus_1_eq_Suc set_sort)

text \<open>A value that most entries have is the middle one.\<close>

lemma sorted_majority:
  fixes ys :: "dec list"
  assumes "sorted ys" "length ys < 2 * count_list ys r"
  shows "ys ! (length ys div 2) = r"
proof -
  let ?m = "length ys div 2"
  have ys: "ys = take ?m ys @ ys ! ?m # drop (Suc ?m) ys"
    using assms(2) by (intro id_take_nth_drop) (cases ys, auto)
  have len: "length (take ?m ys) = ?m" "length (drop (Suc ?m) ys) = length ys - Suc ?m" by simp_all
  have ord: "\<forall>x \<in> set (take ?m ys). x \<le> ys ! ?m" "\<forall>x \<in> set (drop (Suc ?m) ys). ys ! ?m \<le> x"
  proof -
    have "sorted (take ?m ys @ ys ! ?m # drop (Suc ?m) ys)" using assms(1) ys by simp
    then show "\<forall>x \<in> set (take ?m ys). x \<le> ys ! ?m" "\<forall>x \<in> set (drop (Suc ?m) ys). ys ! ?m \<le> x"
      unfolding sorted_append by auto
  qed
  have cnt: "count_list ys r = count_list (take ?m ys) r + (if ys ! ?m = r then 1 else 0) + count_list (drop (Suc ?m) ys) r"
    using arg_cong [OF ys, of "\<lambda>zs. count_list zs r"] by simp
  show ?thesis
  proof (rule ccontr)
    assume ne: "ys ! ?m \<noteq> r"
    consider "ys ! ?m < r" | "r < ys ! ?m" using ne by linarith
    then show False
    proof cases
      case 1
      then have "count_list (take ?m ys) r = 0" using ord(1) by (auto simp: count_list_0_iff)
      then show False using cnt ne count_le_length [of "drop (Suc ?m) ys" r] len assms(2) by simp
    next
      case 2
      then have "count_list (drop (Suc ?m) ys) r = 0" using ord(2) by (auto simp: count_list_0_iff)
      then show False using cnt ne count_le_length [of "take ?m ys" r] len assms(2) by simp
    qed
  qed
qed

lemma upper_median_majority:
  assumes "length xs < 2 * count_list xs r"
  shows "upper_median xs = r"
proof -
  have "count_list (sort xs) r = count_list xs r"
    by (simp add: count_list_eq_length_filter filter_sort)
  then show ?thesis unfolding upper_median_def using sorted_majority [of "sort xs" r] assms by simp
qed

lemma moved_set: "set (moved rs) = {(t, r). (t, r) \<in> set rs \<and> UNCHANGED_TOLERANCE < dabs (dsub r 1)}"
  by (auto simp: moved_def)

lemma count_moved:
  "UNCHANGED_TOLERANCE < dabs (dsub r 1) \<Longrightarrow> count_list (map snd (moved rs)) r = count_list (map snd rs) r"
  by (induction rs) (auto simp: moved_def)

text \<open>
  What a comparison of two fetches names. Nothing is reported exactly when every bar both fetches
  have stayed within the tolerance. Otherwise the factor is the ratio of one of the bars that moved, and it is
  the common ratio as soon as more than half of those that moved have it, whatever the others say; the report
  is consistent exactly when at least three bars were compared and all of them, the unmoved ones
  included, lie within the agreement tolerance of that factor.
\<close>

theorem adjustment_names_the_common_factor:
  "(detect_adjustment s stored fresh = None
      \<longleftrightarrow> (\<forall>(t, r) \<in> set (ratios stored fresh). dabs (dsub r 1) \<le> UNCHANGED_TOLERANCE))
   \<and> (\<forall>a. detect_adjustment s stored fresh = Some a \<longrightarrow>
        (\<exists>t. (t, ad_factor a) \<in> set (ratios stored fresh) \<and> UNCHANGED_TOLERANCE < dabs (dsub (ad_factor a) 1))
      \<and> (\<forall>r. UNCHANGED_TOLERANCE < dabs (dsub r 1)
            \<and> length (moved (ratios stored fresh)) < 2 * count_list (map snd (ratios stored fresh)) r \<longrightarrow> ad_factor a = r)
      \<and> (is_consistent a \<longleftrightarrow> 3 \<le> length (ratios stored fresh)
            \<and> (\<forall>(t, r) \<in> set (ratios stored fresh). dabs (dsub r (ad_factor a)) \<le> AGREEMENT_TOLERANCE)))"
proof (intro conjI allI impI)
  let ?rs = "ratios stored fresh"
  show "detect_adjustment s stored fresh = None \<longleftrightarrow> (\<forall>(t, r) \<in> set ?rs. dabs (dsub r 1) \<le> UNCHANGED_TOLERANCE)"
  proof -
    have "moved ?rs = [] \<longleftrightarrow> (\<forall>(t, r) \<in> set ?rs. dabs (dsub r 1) \<le> UNCHANGED_TOLERANCE)"
      by (auto simp: moved_def filter_empty_conv not_less)
    then show ?thesis by (simp add: detect_adjustment_def Let_def)
  qed
  fix a assume a: "detect_adjustment s stored fresh = Some a"
  then have ne: "moved ?rs \<noteq> []" and f: "ad_factor a = upper_median (map snd (moved ?rs))"
    and n: "ad_compared a = int (length ?rs)"
      "ad_agreeing a = int (length (filter (\<lambda>(t, r). dabs (dsub r (ad_factor a)) \<le> AGREEMENT_TOLERANCE) ?rs))"
    by (auto simp: detect_adjustment_def Let_def split: if_splits)
  have "ad_factor a \<in> set (map snd (moved ?rs))" unfolding f using ne by (intro upper_median_in) simp
  then show "\<exists>t. (t, ad_factor a) \<in> set ?rs \<and> UNCHANGED_TOLERANCE < dabs (dsub (ad_factor a) 1)"
    by (auto simp: moved_set)
  show "ad_factor a = r"
    if "UNCHANGED_TOLERANCE < dabs (dsub r 1) \<and> length (moved ?rs) < 2 * count_list (map snd ?rs) r" for r
    unfolding f using that count_moved [of r ?rs] by (intro upper_median_majority) simp
  show "is_consistent a \<longleftrightarrow> 3 \<le> length ?rs \<and> (\<forall>(t, r) \<in> set ?rs. dabs (dsub r (ad_factor a)) \<le> AGREEMENT_TOLERANCE)"
    unfolding is_consistent_def n MIN_BARS_COMPARED_def
    by (auto simp: filter_id_conv) (metis (mono_tags, lifting) case_prodD filter_True length_filter_less less_irrefl)
qed

text \<open>
  The tolerance on the ratio is absolute, and the vendor rounds an adjusted close to the cent: after a
  ten-for-one split of a fifty-dollar stock the ratios of the rounded closes differ by more than it, and
  the split is reported as history that changed inconsistently.
\<close>

definition closing_at :: "ts \<Rightarrow> dec \<Rightarrow> bar" where
  "closing_at t x = (stored_bar t (Some x))"

theorem rounded_split_is_called_inconsistent:
  "\<exists>before after a. list_all2 (\<lambda>x y. \<bar>x / 10 - y\<bar> \<le> 1 / 200) before after
     \<and> detect_adjustment ''AAPL'' (map2 closing_at [1, 2, 3] before) (map2 closing_at [1, 2, 3] after) = Some a
     \<and> is_split_like a \<and> \<not> is_consistent a"
proof -
  let ?stored = "[closing_at 1 (1001 / 20), closing_at 2 50, closing_at 3 (999 / 20)]"
  let ?fresh = "[closing_at 1 5, closing_at 2 5, closing_at 3 5]"
  have d: "ddiv (1001 / 20) 5 = 1001 / 100" "ddiv 50 5 = 10" "ddiv (999 / 20) 5 = 999 / 100"
    by (simp_all add: ddiv_def)
  have rs: "ratios ?stored ?fresh = [(1, 1001 / 100), (2, 10), (3, 999 / 100)]"
  proof -
    have "ratio_of ?fresh (closing_at 1 (1001 / 20)) = Some (1, 1001 / 100)" "ratio_of ?fresh (closing_at 2 50) = Some (2, 10)"
      "ratio_of ?fresh (closing_at 3 (999 / 20)) = Some (3, 999 / 100)"
      unfolding d [symmetric] by (simp_all add: ratio_of_def closing_at_def stored_bar_def)
    then show ?thesis by (simp add: ratios_def map_filter_simps)
  qed
  have mv: "moved [(1, 1001 / 100), (2, 10), (3, 999 / 100)] = [(1, 1001 / 100), (2, 10), (3, 999 / 100)]"
    by (simp add: moved_def UNCHANGED_TOLERANCE_def dec_ops)
  have med: "upper_median [1001 / 100, 10, 999 / 100] = 10" by (simp add: upper_median_def)
  have det: "detect_adjustment ''AAPL'' ?stored ?fresh = Some \<lparr>ad_symbol = ''AAPL'', ad_factor = 10, ad_compared = 3, ad_agreeing = 1, ad_earliest = Some 1\<rparr>"
    unfolding detect_adjustment_def rs mv Let_def by (simp add: med AGREEMENT_TOLERANCE_def dec_ops)
  then show ?thesis
    by (intro exI [of _ "[1001 / 20, 50, 999 / 20]", OF exI [of _ "[5, 5, 5]", OF exI]] conjI, simp_all)
      (simp_all add: is_split_like_def is_consistent_def SPLIT_LIKE_MOVE_def MIN_BARS_COMPARED_def dec_ops)
qed

end
