(* ===== verification/DailyReport.thy ===== *)
theory DailyReport
  imports Orders Datetimes
begin

text \<open>
  \<open>analytics/daily.py\<close>: what a session did, from the orders and the audit rows of the day. A section's
  text is a \<open>reason\<close>: which sentence, with the words and numbers in it; \<open>say\<close> renders the venue's reason
  for a rejection. What could not be measured has no value.
\<close>

definition NEVER_SENT :: "order_status list" where
  "NEVER_SENT = [REJECTED_RISK, PENDING_RISK, PENDING_SUBMIT]"

definition REASON_CHARS :: nat where "REASON_CHARS = 80"

definition NOT_RECORDED :: string where "NOT_RECORDED = ''not recorded anywhere queryable''"

record order_outcomes =
  oc_recorded :: int
  oc_sent :: int
  oc_accepted :: int
  oc_rejected :: int
  oc_refused :: int
  oc_filled :: int
  oc_by_rule :: "int dict"
  oc_by_reason :: "int dict"

text \<open>\<open>s or other\<close>\<close>

definition or_else :: "string \<Rightarrow> string \<Rightarrow> string" where
  "or_else s other = (if s = [] then other else s)"

text \<open>\<open>d[k] = d.get(k, 0) + 1\<close> for every key.\<close>

definition tally :: "string list \<Rightarrow> int dict" where
  "tally ks = fold (\<lambda>k d. dict_set k (dict_get_or d k 0 + 1) d) ks []"

definition rule_key :: "order \<Rightarrow> string" where
  "rule_key w = or_else (case o_rejected_by w of None \<Rightarrow> [] | Some r \<Rightarrow> r) ''unknown''"

definition reason_text :: "(reason \<Rightarrow> string) \<Rightarrow> order \<Rightarrow> string" where
  "reason_text say w =
     take REASON_CHARS (or_else (case o_reject_reason w of None \<Rightarrow> [] | Some r \<Rightarrow> say r) ''no reason recorded'')"

definition count_outcomes :: "(reason \<Rightarrow> string) \<Rightarrow> order list \<Rightarrow> order_outcomes" where
  "count_outcomes say orders =
     (let refused = filter (\<lambda>w. o_status w = REJECTED_RISK) orders;
          sent = filter (\<lambda>w. o_status w \<notin> set NEVER_SENT) orders;
          rejected = filter (\<lambda>w. o_status w = REJECTED) sent in
      \<lparr>oc_recorded = int (length orders), oc_sent = int (length sent),
       oc_accepted = int (length sent) - int (length rejected), oc_rejected = int (length rejected),
       oc_refused = int (length refused),
       oc_filled = int (length (filter (\<lambda>w. o_status w = FILLED) orders)),
       oc_by_rule = tally (map rule_key refused), oc_by_reason = tally (map (reason_text say) rejected)\<rparr>)"

record session_cover =
  cv_evaluated :: int
  cv_minutes :: int
  cv_open_at :: ts
  cv_visible_from :: "ts option"

record audit_entry =
  au_at :: ts
  au_actor :: string
  au_action :: string
  au_target :: "string option"

record report_section =
  sn_name :: string
  sn_value :: "int option"
  sn_detail :: reason
  sn_how :: string

definition is_absent :: "report_section \<Rightarrow> bool" where
  "is_absent s \<longleftrightarrow> sn_value s = None"

record daily_report =
  dr_day :: date
  dr_sections :: "report_section list"
  dr_submitted :: int
  dr_filled :: int
  dr_refused :: int
  dr_by_rule :: "int dict"
  dr_accepted :: int
  dr_rejected :: int
  dr_by_reason :: "int dict"
  dr_symbols :: "string list"
  dr_start_equity :: "dec option"
  dr_end_equity :: "dec option"

definition absent_sections :: "daily_report \<Rightarrow> report_section list" where
  "absent_sections r = filter is_absent (dr_sections r)"

definition traded :: "daily_report \<Rightarrow> bool" where
  "traded r \<longleftrightarrow> 0 < dr_filled r"

definition pnl_change :: "daily_report \<Rightarrow> dec option" where
  "pnl_change r =
     (case (dr_start_equity r, dr_end_equity r) of (Some a, Some b) \<Rightarrow> Some (dsub b a) | _ \<Rightarrow> None)"

definition headline :: "daily_report \<Rightarrow> reason" where
  "headline r =
     (if dr_submitted r = 0 \<and> dr_refused r = 0 then Reason ''no orders submitted'' [] []
      else Reason ''submitted, accepted, filled, rejected by the venue, refused by risk, equity'' []
        (map of_int [dr_submitted r, dr_accepted r, dr_filled r, dr_rejected r, dr_refused r]
         @ (case pnl_change r of None \<Rightarrow> [] | Some x \<Rightarrow> [x])))"

section \<open>The sections\<close>

definition trades_section :: "order_outcomes \<Rightarrow> report_section" where
  "trades_section oc =
     (if oc_sent oc = 0
      then \<lparr>sn_name = ''trades'', sn_value = Some 0, sn_detail = Reason ''no orders reached the venue'' [] [],
            sn_how = ''`runner.evaluated` says whether the strategy was asked anything at all''\<rparr>
      else \<lparr>sn_name = ''trades'', sn_value = Some (oc_filled oc),
            sn_detail = Reason ''filled of accepted by the venue'' [] (map of_int [oc_filled oc, oc_accepted oc, oc_sent oc]), sn_how = []\<rparr>)"

definition refusals_section :: "order_outcomes \<Rightarrow> report_section" where
  "refusals_section oc =
     (if oc_refused oc = 0
      then \<lparr>sn_name = ''risk rejections'', sn_value = Some 0, sn_detail = Reason ''nothing was refused by the risk chain'' [] [], sn_how = []\<rparr>
      else let ranked = map (\<lambda>k. (k, dict_get_or (oc_by_rule oc) k 0)) (str_sort (dict_keys (oc_by_rule oc))) in
        \<lparr>sn_name = ''risk rejections'', sn_value = Some (oc_refused oc),
         sn_detail = Reason ''refused by'' (map fst ranked) (map (of_int \<circ> snd) ranked), sn_how = []\<rparr>)"

definition venue_rejections_section :: "order_outcomes \<Rightarrow> report_section" where
  "venue_rejections_section oc =
     (if oc_rejected oc = 0
      then \<lparr>sn_name = ''venue rejections'', sn_value = Some 0, sn_detail = Reason ''the venue accepted everything it was sent'' [] [], sn_how = []\<rparr>
      else let ranked = sort_key (\<lambda>kv. - snd kv) (oc_by_reason oc) in
        \<lparr>sn_name = ''venue rejections'', sn_value = Some (oc_rejected oc),
         sn_detail = Reason ''rejected for'' (map fst ranked) (map (of_int \<circ> snd) ranked), sn_how = []\<rparr>)"

definition unseen_minutes :: "session_cover \<Rightarrow> ts \<Rightarrow> int" where
  "unseen_minutes cv seen = min (cv_minutes cv) ((seen - cv_open_at cv) div (60 * 10 ^ 6))"

definition coverage_section :: "session_cover option \<Rightarrow> report_section" where
  "coverage_section c =
     (case c of
        None \<Rightarrow> \<lparr>sn_name = ''RTH coverage'', sn_value = None,
                 sn_detail = Reason NOT_RECORDED [''which minutes the runner evaluated is held in the memory of the worker''] [],
                 sn_how = ''the daily report of the worker carries it; otherwise count runner.evaluated lines between the open and the close''\<rparr>
      | Some cv \<Rightarrow>
          \<lparr>sn_name = ''RTH coverage'', sn_value = Some (cv_evaluated cv),
           sn_detail = Reason ''minutes had an evaluating runner'' []
             (map of_int ([cv_evaluated cv, cv_minutes cv]
               @ (case cv_visible_from cv of
                    Some t \<Rightarrow> if cv_open_at cv < t then [t, unseen_minutes cv t] else []
                  | None \<Rightarrow> []))),
           sn_how = []\<rparr>)"

definition equity_absent_section :: report_section where
  "equity_absent_section = \<lparr>sn_name = ''equity'', sn_value = None,
     sn_detail = Reason NOT_RECORDED [''for this session: no equity snapshot at one end of it, so no P&L''] [],
     sn_how = ''GET /api/v1/dashboard/equity-curve covers the session''\<rparr>"

definition halts_section :: "audit_entry list option \<Rightarrow> report_section" where
  "halts_section audit =
     (case audit of
        None \<Rightarrow> \<lparr>sn_name = ''halts'', sn_value = None, sn_detail = Reason NOT_RECORDED [''for this run: the audit table was not read''] [],
                 sn_how = ''GET /api/v1/audit?action=halt_engaged''\<rparr>
      | Some es \<Rightarrow>
          let n = int (length (filter (\<lambda>e. au_action e = ''halt_engaged'' \<or> au_action e = ''halt_cleared'') es)) in
          \<lparr>sn_name = ''halts'', sn_value = Some n, sn_detail = Reason ''recorded: operator halts only'' [] [of_int n],
           sn_how = ''grep risk.killswitch.engaged in the worker log for automated halts''\<rparr>)"

definition feed_incidents_section :: report_section where
  "feed_incidents_section = \<lparr>sn_name = ''feed incidents'', sn_value = None,
     sn_detail = Reason NOT_RECORDED [''reconnects, gaps and staleness are log lines only''] [],
     sn_how = ''docker compose logs worker''\<rparr>"

definition summarise :: "(reason \<Rightarrow> string) \<Rightarrow> date \<Rightarrow> order list \<Rightarrow> audit_entry list option \<Rightarrow> dec option \<Rightarrow> dec option
    \<Rightarrow> session_cover option \<Rightarrow> daily_report" where
  "summarise say day orders audit starting ending c =
     (let oc = count_outcomes say orders in
      \<lparr>dr_day = day,
       dr_sections = [trades_section oc, refusals_section oc, venue_rejections_section oc, coverage_section c,
          halts_section audit, feed_incidents_section]
          @ (if starting = None \<or> ending = None then [equity_absent_section] else []),
       dr_submitted = oc_sent oc, dr_filled = oc_filled oc, dr_refused = oc_refused oc, dr_by_rule = oc_by_rule oc,
       dr_accepted = oc_accepted oc, dr_rejected = oc_rejected oc, dr_by_reason = oc_by_reason oc,
       dr_symbols = str_sort (remdups (map o_symbol orders)), dr_start_equity = starting, dr_end_equity = ending\<rparr>)"

text \<open>\<open>render\<close>: the order its lines come in, the absent sections last.\<close>

definition render_sections :: "daily_report \<Rightarrow> report_section list" where
  "render_sections r = filter (\<lambda>s. \<not> is_absent s) (dr_sections r) @ absent_sections r"

section \<open>What the counts say\<close>

lemma tally_get: "dict_get_or (tally ks) k 0 = int (count_list ks k)"
proof -
  have "dict_get_or (fold (\<lambda>k d. dict_set k (dict_get_or d k 0 + 1) d) ks d) k 0 = dict_get_or d k 0 + int (count_list ks k)" for d
    by (induction ks arbitrary: d) (auto simp: dict_get_or_def dict_get_def dict_set_def update_conv')
  then show ?thesis by (simp add: tally_def dict_get_or_def dict_get_def)
qed

lemma sum_update: "distinct (map fst d) \<Longrightarrow> sum_list (map snd (AList.update k (v :: int) d)) = sum_list (map snd d) - (case map_of d k of None \<Rightarrow> 0 | Some w \<Rightarrow> w) + v"
  by (induction d) (auto simp: map_of_eq_None_iff split: option.split)

lemma tally_total: "sum_list (dict_values (tally ks)) = int (length ks) \<and> dict_ok (tally ks)"
proof -
  have "dict_ok d \<Longrightarrow> sum_list (dict_values (fold (\<lambda>k d. dict_set k (dict_get_or d k 0 + 1) d) ks d)) = sum_list (dict_values d) + int (length ks)
      \<and> dict_ok (fold (\<lambda>k d. dict_set k (dict_get_or d k 0 + 1) d) ks d)" for d :: "int dict"
  proof (induction ks arbitrary: d)
    case (Cons k ks)
    have "dict_ok (dict_set k (dict_get_or d k 0 + 1) d)"
      using Cons.prems by (simp add: dict_ok_def dict_keys_def dict_set_def distinct_update)
    moreover have "sum_list (dict_values (dict_set k (dict_get_or d k 0 + 1) d)) = sum_list (dict_values d) + 1"
      using Cons.prems sum_update [of d k]
      by (simp add: dict_ok_def dict_keys_def dict_values_def dict_set_def dict_get_or_def dict_get_def split: option.split)
    ultimately show ?case using Cons.IH by simp
  qed simp
  from this [of "[]"] show ?thesis by (simp add: tally_def dict_values_def dict_ok_def dict_keys_def)
qed

lemma length_partition: "length (filter P xs) + length (filter (\<lambda>x. \<not> P x) xs) = length xs"
  by (induction xs) auto

lemma daily_report_counts:
  "r = summarise say day orders audit starting ending c \<Longrightarrow>
      dr_refused r + dr_submitted r + int (length (filter (\<lambda>w. o_status w = PENDING_RISK \<or> o_status w = PENDING_SUBMIT) orders))
        = int (length orders)
    \<and> dr_accepted r + dr_rejected r = dr_submitted r \<and> 0 \<le> dr_filled r \<and> dr_filled r \<le> dr_accepted r
    \<and> sum_list (dict_values (dr_by_rule r)) = dr_refused r \<and> sum_list (dict_values (dr_by_reason r)) = dr_rejected r
    \<and> (\<forall>k. dict_get_or (dr_by_rule r) k 0 = int (length (filter (\<lambda>w. o_status w = REJECTED_RISK \<and> rule_key w = k) orders)))
    \<and> (\<forall>k. dict_get_or (dr_by_reason r) k 0 = int (length (filter (\<lambda>w. o_status w = REJECTED \<and> reason_text say w = k) orders)))
    \<and> map sn_name (absent_sections r) = (if c = None then [''RTH coverage''] else []) @ (if audit = None then [''halts''] else [])
        @ [''feed incidents''] @ (if starting = None \<or> ending = None then [''equity''] else [])"
proof (intro conjI allI)
  assume r: "r = summarise say day orders audit starting ending c"
  have rej: "filter (\<lambda>w. o_status w \<notin> set NEVER_SENT \<and> o_status w = REJECTED) orders = filter (\<lambda>w. o_status w = REJECTED) orders"
    by (auto simp: NEVER_SENT_def intro!: filter_cong)
  have cnt: "count_list (map f (filter P orders)) k = length (filter (\<lambda>w. P w \<and> f w = k) orders)" for f :: "order \<Rightarrow> string" and P k
    by (induction orders) auto
  note parts = summarise_def count_outcomes_def Let_def filter_filter rej
  have split: "length (filter (\<lambda>w. o_status w = REJECTED_RISK) xs) + length (filter (\<lambda>w. o_status w \<notin> set NEVER_SENT) xs)
      + length (filter (\<lambda>w. o_status w = PENDING_RISK \<or> o_status w = PENDING_SUBMIT) xs) = length xs" for xs
    by (induction xs) (auto simp: NEVER_SENT_def)
  show "dr_refused r + dr_submitted r + int (length (filter (\<lambda>w. o_status w = PENDING_RISK \<or> o_status w = PENDING_SUBMIT) orders)) = int (length orders)"
    unfolding r using split [of orders] by (simp add: parts)
  show "dr_accepted r + dr_rejected r = dr_submitted r" "0 \<le> dr_filled r" unfolding r by (simp_all add: parts)
  have "length (filter (\<lambda>w. o_status w = FILLED) xs) + length (filter (\<lambda>w. o_status w = REJECTED) xs)
      \<le> length (filter (\<lambda>w. o_status w \<notin> set NEVER_SENT) xs)" for xs
    by (induction xs) (auto simp: NEVER_SENT_def)
  from this [of orders] show "dr_filled r \<le> dr_accepted r" unfolding r by (simp add: parts)
  show "sum_list (dict_values (dr_by_rule r)) = dr_refused r" "sum_list (dict_values (dr_by_reason r)) = dr_rejected r"
    unfolding r using tally_total by (simp_all add: parts)
  show "dict_get_or (dr_by_rule r) k 0 = int (length (filter (\<lambda>w. o_status w = REJECTED_RISK \<and> rule_key w = k) orders))"
    "dict_get_or (dr_by_reason r) k 0 = int (length (filter (\<lambda>w. o_status w = REJECTED \<and> reason_text say w = k) orders))" for k
    unfolding r by (simp_all add: parts tally_get cnt)
  have "\<not> is_absent (trades_section oc)" "\<not> is_absent (refusals_section oc)" "\<not> is_absent (venue_rejections_section oc)" for oc
    by (simp_all add: is_absent_def trades_section_def refusals_section_def venue_rejections_section_def Let_def)
  moreover have "is_absent (coverage_section c) \<longleftrightarrow> c = None" "is_absent (halts_section audit) \<longleftrightarrow> audit = None"
      "sn_name (coverage_section c) = ''RTH coverage''" "sn_name (halts_section audit) = ''halts''" for c audit
    by (simp_all add: is_absent_def coverage_section_def halts_section_def Let_def split: option.split)
  moreover have "is_absent feed_incidents_section" "is_absent equity_absent_section"
      "sn_name feed_incidents_section = ''feed incidents''" "sn_name equity_absent_section = ''equity''"
    by (simp_all add: is_absent_def feed_incidents_section_def equity_absent_section_def)
  ultimately show "map sn_name (absent_sections r) = (if c = None then [''RTH coverage''] else []) @ (if audit = None then [''halts''] else [])
        @ [''feed incidents''] @ (if starting = None \<or> ending = None then [''equity''] else [])"
    unfolding r by (simp add: summarise_def Let_def absent_sections_def)
qed

text \<open>
  The daily report accounts for every order once. Each row was refused by the risk chain, sent, or never
  left; each sent one was accepted or rejected by the venue, and a filled one was accepted; the tallies by
  rule and by reason add up to the refusals and the rejections, and count each key's orders. And what
  was not measured is never a zero: a section has no value exactly when its source was not there.
\<close>

theorem daily_report_accounts:
  "let r = summarise say day orders audit starting ending c in
      dr_refused r + dr_submitted r + int (length (filter (\<lambda>w. o_status w = PENDING_RISK \<or> o_status w = PENDING_SUBMIT) orders))
        = int (length orders)
    \<and> dr_accepted r + dr_rejected r = dr_submitted r \<and> 0 \<le> dr_filled r \<and> dr_filled r \<le> dr_accepted r
    \<and> sum_list (dict_values (dr_by_rule r)) = dr_refused r \<and> sum_list (dict_values (dr_by_reason r)) = dr_rejected r
    \<and> (\<forall>k. dict_get_or (dr_by_rule r) k 0 = int (length (filter (\<lambda>w. o_status w = REJECTED_RISK \<and> rule_key w = k) orders)))
    \<and> (\<forall>k. dict_get_or (dr_by_reason r) k 0 = int (length (filter (\<lambda>w. o_status w = REJECTED \<and> reason_text say w = k) orders)))
    \<and> map sn_name (absent_sections r) = (if c = None then [''RTH coverage''] else []) @ (if audit = None then [''halts''] else [])
        @ [''feed incidents''] @ (if starting = None \<or> ending = None then [''equity''] else [])"
  unfolding Let_def by (rule daily_report_counts [OF refl])

end
