(* ===== verification/SessionJobs.thy ===== *)
theory SessionJobs
  imports Scheduler DailyReport Adjustments Backfill RunnerLoop
begin

text \<open>
  \<open>worker/scheduler.py\<close>, the jobs: what runs around each session, and the schedule that says when. The
  callables the process hands to the jobs are \<open>session_jobs\<close>, \<open>session_watch\<close> and \<open>bar_pull\<close>; what the jobs build
  themselves (the system clock, the calendar, the vendor, the repositories) is \<open>services\<close>. \<open>sv_say\<close> and \<open>sv_decimal\<close> are how a message and a
  number with its trailing zeros are written. All else are
  functions on the world \<open>'w\<close>; \<open>runner_session\<close> and \<open>runner_watch\<close> are the ones of a process that trades, where the world is the
  live runner. The reminder counter, module state of the program, is beside the world in \<open>desk\<close>. What an alert
  says is a \<open>reason\<close>; log lines are not modelled, nor is closing the connections a job opened.
\<close>

record 'w session_jobs =
  sj_reconcile :: "'w \<Rightarrow> (exn + reconciliation_report) \<times> 'w"
  sj_checkpoint :: "('w \<Rightarrow> (exn + unit) \<times> 'w) option"

record 'w session_watch =
  sw_active_halts :: "'w \<Rightarrow> (exn + halt_record list) \<times> 'w"
  sw_clear :: "halt_scope \<Rightarrow> string \<Rightarrow> string option \<Rightarrow> 'w \<Rightarrow> (exn + halt_record option) \<times> 'w"
  sw_send :: "alert \<Rightarrow> 'w \<Rightarrow> 'w"
  sw_stats :: "('w \<Rightarrow> runner_stats) option"

record 'w bar_pull =
  pl_symbols :: "string list"
  pl_timeframe :: timeframe
  pl_sessions :: int
  pl_alerts :: "(alert \<Rightarrow> 'w \<Rightarrow> 'w) option"

record 'w services =
  sv_now :: "'w \<Rightarrow> ts"
  sv_calendar :: calendar_source
  sv_vendor :: "string list \<Rightarrow> timeframe \<Rightarrow> ts \<Rightarrow> ts \<Rightarrow> 'w \<Rightarrow> (exn + bar list dict) \<times> 'w"
  sv_ports :: "'w bar_ports"
  sv_stored_series :: "'w \<Rightarrow> (exn + (string \<times> timeframe) list) \<times> 'w"
  sv_stored_bars :: "string \<Rightarrow> timeframe \<Rightarrow> ts \<Rightarrow> ts \<Rightarrow> 'w \<Rightarrow> (exn + bar list) \<times> 'w"
  sv_recent_orders :: "ts \<Rightarrow> int \<Rightarrow> 'w \<Rightarrow> (exn + order list) \<times> 'w"
  sv_equity_history :: "ts \<Rightarrow> ts \<Rightarrow> 'w \<Rightarrow> (exn + dec list) \<times> 'w"
  sv_recent_audit :: "int \<Rightarrow> 'w \<Rightarrow> (exn + audit_entry list) \<times> 'w"
  sv_say :: "reason \<Rightarrow> string"
  sv_decimal :: "dec \<Rightarrow> string"

record 'w desk =
  dk_world :: 'w
  dk_reminders :: int

type_synonym ('w, 'a) chore = "('w desk, 'a) act"

definition NIGHTLY_LOOKBACK_DAYS :: int where "NIGHTLY_LOOKBACK_DAYS = 7"
definition DAILY_REPORT_ORDER_LIMIT :: int where "DAILY_REPORT_ORDER_LIMIT = 1000"
definition DAILY_REPORT_AUDIT_LIMIT :: int where "DAILY_REPORT_AUDIT_LIMIT = 500"
definition ROLLOVER_ACTOR :: string where "ROLLOVER_ACTOR = ''daily_loss_rollover''"
definition DECISION_BAR_OFFSET_MINUTES :: int where "DECISION_BAR_OFFSET_MINUTES = - 30"
definition DECISION_BAR_RETRY_OFFSET_MINUTES :: int where "DECISION_BAR_RETRY_OFFSET_MINUTES = - 15"
definition RESERVED_TEST_SYMBOLS :: "string list" where
  "RESERVED_TEST_SYMBOLS = [''ZJZZT'', ''ZVZZT'', ''ZWZZT'', ''ZXZZT'']"
definition STREAMED_BAR_TIMEFRAME :: timeframe where "STREAMED_BAR_TIMEFRAME = M1"

definition in_world :: "('w \<Rightarrow> (exn + 'a) \<times> 'w) \<Rightarrow> ('w, 'a) chore" where
  "in_world f = (\<lambda>s. case f (dk_world s) of (r, w) \<Rightarrow> (r, s\<lparr>dk_world := w\<rparr>))"

definition send :: "(alert \<Rightarrow> 'w \<Rightarrow> 'w) \<Rightarrow> alert \<Rightarrow> ('w, unit) chore" where
  "send f a = modify_a (\<lambda>s. s\<lparr>dk_world := f a (dk_world s)\<rparr>)"

definition system_now :: "'w services \<Rightarrow> ('w, ts) chore" where
  "system_now S = gets_a (\<lambda>s. sv_now S (dk_world s))"

section \<open>Halts\<close>

definition halt_words :: "halt_record \<Rightarrow> string list" where
  "halt_words h =
     [scope_value (h_scope h), or_empty (h_target h), reason_value (h_reason h), h_engaged_by h, isoformat (h_engaged_at h)]
     @ (if h_impugned h \<noteq> [] then str_sort (remdups (unproven_symbols h)) else [])"

definition remind_about_halts :: "'w session_watch \<Rightarrow> ('w, unit) chore" where
  "remind_about_halts W =
     bind_a (in_world (sw_active_halts W)) (\<lambda>halts.
     if halts = [] then ret ()
     else
       bind_a (modify_a (\<lambda>s. s\<lparr>dk_reminders := dk_reminders s + 1\<rparr>)) (\<lambda>_.
       bind_a (gets_a dk_reminders) (\<lambda>count.
       send (sw_send W) \<lparr>al_severity = CRITICAL, al_key = ''halt.reminder.'' @ int_digits count,
         al_says = Reason ''still halted, active'' (concat (map halt_words halts)) [of_nat (length halts)]\<rparr>)))"

definition session_day_key :: "'w services \<Rightarrow> 'w session_watch \<Rightarrow> ('w, string) chore" where
  "session_day_key S W =
     bind_a (in_world (sw_active_halts W)) (\<lambda>halts. case halts of
       h # _ \<Rightarrow> ret (iso_date (utc_date (h_engaged_at h)))
     | [] \<Rightarrow> bind_a (system_now S) (\<lambda>now. ret (iso_date (utc_date now))))"

definition summary_words :: "runner_stats option \<Rightarrow> halt_record list \<Rightarrow> reason" where
  "summary_words stats halts =
     Reason (if halts = [] then ''session closed, not halted'' else ''session closed, still halted'')
       (concat (map halt_words halts))
       (case stats of None \<Rightarrow> []
        | Some st \<Rightarrow> map of_int ([st_submitted st, st_signals st, st_evaluations st, st_refused_by_risk st, st_rejected_by_venue st]
            @ (if st_discarded_cold st \<noteq> 0 then [st_discarded_cold st] else [])))"

definition summarise_the_session :: "'w services \<Rightarrow> 'w session_watch \<Rightarrow> ('w, unit) chore" where
  "summarise_the_session S W =
     bind_a (in_world (sw_active_halts W)) (\<lambda>halts.
     bind_a (gets_a (\<lambda>s. map_option (\<lambda>f. f (dk_world s)) (sw_stats W))) (\<lambda>stats.
     bind_a (session_day_key S W) (\<lambda>day.
     send (sw_send W) \<lparr>al_severity = (if halts = [] then INFO else CRITICAL), al_key = ''session.summary.'' @ day,
       al_says = summary_words stats halts\<rparr>)))"

text \<open>One halt of the rollover: released only when it is yesterday's loss limit and nothing else.\<close>

definition rollover_one :: "'w session_watch \<Rightarrow> ts \<Rightarrow> halt_record \<Rightarrow> ('w, unit) chore" where
  "rollover_one W now h =
     (if book_is_unproven h then ret ()
      else if h_reason h \<noteq> DAILY_LOSS_LIMIT then ret ()
      else if h_engaged_by h \<noteq> DAILY_LOSS_RULE then ret ()
      else if utc_date now \<le> utc_date (h_engaged_at h) then ret ()
      else
        bind_a (in_world (sw_clear W (h_scope h) ROLLOVER_ACTOR (h_target h))) (\<lambda>_.
        send (sw_send W) \<lparr>al_severity = INFO, al_key = ''halt.rollover.'' @ iso_date (utc_date (h_engaged_at h)),
          al_says = Reason ''daily loss halt released'' [isoformat (h_engaged_at h), scope_value (h_scope h)] []\<rparr>))"

definition rollover_daily_counters :: "'w services \<Rightarrow> 'w session_watch \<Rightarrow> ('w, unit) chore" where
  "rollover_daily_counters S W =
     bind_a (system_now S) (\<lambda>now.
     bind_a (in_world (sw_active_halts W)) (\<lambda>halts.
     for_a (\<lambda>h _. rollover_one W now h) halts ()))"

section \<open>The book\<close>

definition reconcile_with_broker :: "'w session_jobs \<Rightarrow> ('w, unit) chore" where
  "reconcile_with_broker J =
     bind_a (in_world (sj_reconcile J)) (\<lambda>rep.
     if is_clean rep then (case sj_checkpoint J of Some f \<Rightarrow> in_world f | None \<Rightarrow> ret ()) else ret ())"

text \<open>The callables of a process that trades.\<close>

definition runner_session :: "'v runner_ports \<Rightarrow> ('v, 's) runner session_jobs" where
  "runner_session P = \<lparr>sj_reconcile = reconcile_now P, sj_checkpoint = Some (checkpoint P)\<rparr>"

definition runner_watch :: "('v \<Rightarrow> (exn + halt_record list) \<times> 'v) \<Rightarrow> (halt_scope \<Rightarrow> string \<Rightarrow> string option \<Rightarrow> 'v \<Rightarrow> (exn + halt_record option) \<times> 'v)
    \<Rightarrow> (alert \<Rightarrow> 'v \<Rightarrow> 'v) \<Rightarrow> ('v, 's) runner session_watch" where
  "runner_watch halts clr alerts = \<lparr>sw_active_halts = out halts, sw_clear = (\<lambda>sc who t. out (clr sc who t)),
     sw_send = (\<lambda>a s. snd (tell (alerts a) s)), sw_stats = Some rn_stats\<rparr>"

section \<open>Bars\<close>

definition announce_missing_session_bars :: "'w bar_pull \<Rightarrow> session \<Rightarrow> string list \<Rightarrow> ('w, unit) chore" where
  "announce_missing_session_bars pull decision missing =
     (if missing = [] then ret ()
      else case pl_alerts pull of None \<Rightarrow> ret ()
      | Some f \<Rightarrow> send f \<lparr>al_severity = WARNING, al_key = ''worker.session_bars.missing'',
          al_says = Reason ''have no bar for the previous session'' (missing @ [iso_date (ss_day decision)]) [of_nat (length missing)]\<rparr>)"

definition store_session_bars :: "'w services \<Rightarrow> session \<Rightarrow> bar list dict \<Rightarrow> string \<Rightarrow> string list \<times> int \<Rightarrow>
    ('w, string list \<times> int) chore" where
  "store_session_bars S decision fresh sm = (\<lambda>(missing, written).
     let incoming = filter (\<lambda>b. cs_local_date (sv_calendar S) (b_ts b) \<le> ss_day decision) (dict_get_or fresh sm []) in
     if incoming = [] then ret (if sm \<in> set missing then missing else missing @ [sm], written)
     else bind_a (in_world (bp_upsert (sv_ports S) incoming)) (\<lambda>_. ret (missing, written + int (length incoming))))"

definition refresh_session_bars :: "'w services \<Rightarrow> 'w bar_pull \<Rightarrow> ('w, int) chore" where
  "refresh_session_bars S pull =
     (if pl_symbols pull = [] then ret 0
      else
        bind_a (system_now S) (\<lambda>now.
        bind_a (lift_a (previous_session (sv_calendar S) now)) (\<lambda>found. case found of
          None \<Rightarrow> ret 0
        | Some decision \<Rightarrow>
            bind_a (in_world (sv_vendor S (pl_symbols pull) (pl_timeframe pull)
              (ss_close decision - (pl_sessions pull * 2 + 10) * DAY_US) (ss_close decision))) (\<lambda>fresh.
            let missing = str_sort (filter (\<lambda>sm. sm \<notin> set (dict_keys fresh)) (remdups (pl_symbols pull))) in
            bind_a (for_a (store_session_bars S decision fresh) (pl_symbols pull) (missing, 0)) (\<lambda>(missing, written).
            bind_a (announce_missing_session_bars pull decision (str_sort missing)) (\<lambda>_. ret written))))))"

text \<open>\<open>by_timeframe.setdefault(tf, []).append(symbol)\<close>\<close>

definition file_under :: "timeframe \<Rightarrow> string \<Rightarrow> (timeframe \<times> string list) list \<Rightarrow> (timeframe \<times> string list) list" where
  "file_under tf sm m = AList.update tf ((case map_of m tf of None \<Rightarrow> [] | Some xs \<Rightarrow> xs) @ [sm]) m"

definition backfill_missing_bars :: "'w services \<Rightarrow> ('w, gap_backfill_result list) chore" where
  "backfill_missing_bars S =
     bind_a (system_now S) (\<lambda>now.
     bind_a (in_world (sv_stored_series S)) (\<lambda>stored.
     let groups = fold (\<lambda>(sm, tf) m. if tf \<in> set SUPPORTED_TIMEFRAMES then file_under tf sm m else m) stored [] in
     for_a (\<lambda>(tf, symbols) results.
         bind_a (in_world (backfill_gaps (sv_ports S) symbols tf (now - NIGHTLY_LOOKBACK_DAYS * DAY_US) now True DEFAULT_MAX_GAPS_PER_SYMBOL))
           (\<lambda>r. ret (results @ [r])))
       groups []))"

definition sweepable_series :: "(string \<times> timeframe) list \<Rightarrow> (timeframe \<times> string list) list \<times> string list" where
  "sweepable_series stored =
     (let (groups, skipped) = fold (\<lambda>(sm, tf) (m, sk).
            if tf \<notin> set SUPPORTED_TIMEFRAMES then (m, sk)
            else if sm \<in> set RESERVED_TEST_SYMBOLS then (m, List.insert sm sk)
            else (file_under tf sm m, sk)) stored ([], [])
      in (groups, str_sort skipped))"

definition report_adjustment :: "'w services \<Rightarrow> 'w session_watch \<Rightarrow> adjustment \<Rightarrow> ('w, unit) chore" where
  "report_adjustment S W a =
     (if \<not> is_consistent a
      then send (sw_send W) \<lparr>al_severity = CRITICAL, al_key = ''corporate_action.inconsistent.'' @ ad_symbol a,
             al_says = Reason ''adjusted history changed inconsistently'' [ad_symbol a] [of_int (ad_agreeing a), of_int (ad_compared a), ad_factor a]\<rparr>
      else if \<not> is_split_like a then ret ()
      else send (sw_send W) \<lparr>al_severity = CRITICAL, al_key = ''corporate_action.'' @ ad_symbol a @ ''.'' @ sv_decimal S (ad_factor a),
             al_says = Reason ''corporate action'' [ad_symbol a] [ad_factor a, of_int (ad_compared a), implied_position_factor a]\<rparr>)"

definition sweep_symbol :: "'w services \<Rightarrow> 'w session_watch \<Rightarrow> timeframe \<Rightarrow> ts \<Rightarrow> ts \<Rightarrow> bar list dict \<Rightarrow> string \<Rightarrow> adjustment list
    \<Rightarrow> ('w, adjustment list) chore" where
  "sweep_symbol S W tf start now fresh sm found =
     (let incoming = dict_get_or fresh sm [] in
      if incoming = [] then ret found
      else
        bind_a (in_world (sv_stored_bars S sm tf start now)) (\<lambda>stored.
        bind_a (in_world (bp_upsert (sv_ports S) incoming)) (\<lambda>_.
        case detect_adjustment sm stored incoming of
          None \<Rightarrow> ret found
        | Some a \<Rightarrow> bind_a (report_adjustment S W a) (\<lambda>_. ret (found @ [a])))))"

definition apply_corporate_actions :: "'w services \<Rightarrow> 'w session_watch \<Rightarrow> ('w, adjustment list) chore" where
  "apply_corporate_actions S W =
     bind_a (system_now S) (\<lambda>now.
     bind_a (in_world (sv_stored_series S)) (\<lambda>stored.
     for_a (\<lambda>(tf, symbols) found.
         bind_a (in_world (sv_vendor S symbols tf (now - NIGHTLY_LOOKBACK_DAYS * DAY_US) now)) (\<lambda>fresh.
         for_a (sweep_symbol S W tf (now - NIGHTLY_LOOKBACK_DAYS * DAY_US) now fresh) symbols found))
       (fst (sweepable_series stored)) []))"

section \<open>The daily report\<close>

definition report_window :: "calendar_source \<Rightarrow> ts \<Rightarrow> exn + (session \<times> ts) option" where
  "report_window cs now =
     bind_r (previous_session cs now) (\<lambda>found. case found of
       None \<Rightarrow> Inr None
     | Some s \<Rightarrow>
         bind_r (previous_session cs (ss_open s)) (\<lambda>prior.
           Inr (Some (s, case prior of Some p \<Rightarrow> ss_close p | None \<Rightarrow> ss_open s - DAY_US))))"

definition session_coverage :: "runner_stats option \<Rightarrow> session \<Rightarrow> session_cover" where
  "session_coverage stats s =
     (let minutes = (ss_close s - ss_open s) div (60 * 10 ^ 6) in
      case stats of
        None \<Rightarrow> \<lparr>cv_evaluated = 0, cv_minutes = minutes, cv_open_at = ss_open s, cv_visible_from = None\<rparr>
      | Some st \<Rightarrow>
          \<lparr>cv_evaluated = int (length (filter (\<lambda>m. ss_open s \<le> m \<and> m < ss_close s) (st_minutes st))),
           cv_minutes = minutes, cv_open_at = ss_open s, cv_visible_from = st_started_at st\<rparr>)"

definition generate_daily_report :: "'w services \<Rightarrow> 'w session_watch \<Rightarrow> ('w, daily_report) chore" where
  "generate_daily_report S W =
     bind_a (system_now S) (\<lambda>now.
     bind_a (lift_a (report_window (sv_calendar S) now)) (\<lambda>window. case window of
       None \<Rightarrow> ret (summarise (sv_say S) (utc_date now) [] None None None None)
     | Some (s, start) \<Rightarrow>
         bind_a (in_world (sv_recent_orders S start DAILY_REPORT_ORDER_LIMIT)) (\<lambda>orders.
         bind_a (attempt (in_world (sv_equity_history S (ss_open s) (ss_close s)))) (\<lambda>equity.
         bind_a (attempt (in_world (sv_recent_audit S DAILY_REPORT_AUDIT_LIMIT))) (\<lambda>rows.
         bind_a (gets_a (\<lambda>k. map_option (\<lambda>f. f (dk_world k)) (sw_stats W))) (\<lambda>stats.
         let points = (case equity of Inr ps \<Rightarrow> ps | Inl _ \<Rightarrow> []);
             audit = (case rows of Inr es \<Rightarrow> Some (filter (\<lambda>e. start \<le> au_at e) es) | Inl _ \<Rightarrow> None);
             rep = summarise (sv_say S) (ss_day s) orders audit
               (if points = [] then None else Some (hd points)) (if points = [] then None else Some (last points))
               (Some (session_coverage stats s)) in
         bind_a (send (sw_send W) \<lparr>al_severity = INFO, al_key = ''daily.report.'' @ iso_date (dr_day rep),
           al_says = headline rep\<rparr>) (\<lambda>_. ret rep)))))))"

section \<open>The schedule\<close>

definition entry_of :: "string \<Rightarrow> ('w, 'a) chore \<Rightarrow> trigger \<Rightarrow> bool \<Rightarrow> 'w desk entry" where
  "entry_of name job g market_hours =
     \<lparr>se_name = name, se_job = bind_a job (\<lambda>_. ret ()), se_trigger = g, se_market_hours = market_hours\<rparr>"

definition SCHEDULE :: "'w services \<Rightarrow> 'w desk entry list" where
  "SCHEDULE S = [entry_of ''backfill_missing_bars'' (backfill_missing_bars S) (Cron 2 0) False]"

definition build_schedule :: "'w services \<Rightarrow> 'w session_jobs option \<Rightarrow> 'w session_watch option \<Rightarrow> 'w bar_pull option \<Rightarrow> 'w desk entry list" where
  "build_schedule S session watch pull =
     (let pulling = (case pull of
            Some p \<Rightarrow> if pl_timeframe p \<noteq> STREAMED_BAR_TIMEFRAME
              then [entry_of ''refresh_session_bars'' (refresh_session_bars S p) (Market_open DECISION_BAR_OFFSET_MINUTES) False,
                    entry_of ''refresh_session_bars'' (refresh_session_bars S p) (Market_open DECISION_BAR_RETRY_OFFSET_MINUTES) False]
              else []
          | None \<Rightarrow> []);
          watching = (case watch of
            Some W \<Rightarrow>
              [entry_of ''remind_about_halts'' (remind_about_halts W) (Interval 15) True,
               entry_of ''summarise_the_session'' (summarise_the_session S W) (Market_close 0) False,
               entry_of ''rollover_daily_counters'' (rollover_daily_counters S W) (Market_open (- 5)) False,
               entry_of ''apply_corporate_actions'' (apply_corporate_actions S W) (Market_open (- 60)) False,
               entry_of ''generate_daily_report'' (generate_daily_report S W) (Market_close 30) False]
          | None \<Rightarrow> []);
          reconciling = (case session of
            Some J \<Rightarrow> [entry_of ''reconcile_with_broker'' (reconcile_with_broker J) (Interval 5) True]
          | None \<Rightarrow> [])
      in reconciling @ pulling @ watching @ SCHEDULE S)"

end
