(* ===== verification/SessionSafety.thy ===== *)
theory SessionSafety
  imports SessionJobs SchedulerSafety
begin

text \<open>
  What the session jobs guarantee: the rollover releases exactly the halts it may, when nothing else
  writes to the store meanwhile, and what it does when something does; which series a sweep asks the vendor
  for; that the windows of the daily reports follow one another.
\<close>

section \<open>The rollover\<close>

definition releasable :: "ts \<Rightarrow> halt_record \<Rightarrow> bool" where
  "releasable now h \<longleftrightarrow> \<not> book_is_unproven h \<and> h_reason h = DAILY_LOSS_LIMIT \<and> h_engaged_by h = DAILY_LOSS_RULE
     \<and> utc_date (h_engaged_at h) < utc_date now"

text \<open>
  The kill switch's store beside the alerts sent, and \<open>other\<close>, what the rest of the platform does to the store
  just before a clear reaches it.
\<close>

type_synonym halt_world = "store \<times> alert list"

definition store_watch :: "string \<Rightarrow> string list \<Rightarrow> (store \<Rightarrow> store) \<Rightarrow> halt_world session_watch" where
  "store_watch prefix keys other =
     \<lparr>sw_active_halts = (\<lambda>(st, l). (active_halts keys st, (st, l))),
      sw_clear = (\<lambda>sc who t (st, l). case clear prefix sc who t (other st) of (r, st') \<Rightarrow> (r, (st', l))),
      sw_send = (\<lambda>a (st, l). (st, l @ [a])), sw_stats = None\<rparr>"

text \<open>Each record stands under its own key, and \<open>keys\<close> are the keys that are there.\<close>

definition store_ok :: "string \<Rightarrow> string list \<Rightarrow> store \<Rightarrow> bool" where
  "store_ok prefix keys st \<longleftrightarrow> distinct keys \<and> dom st = set keys
     \<and> (\<forall>k raw. st k = Some raw \<longrightarrow> (\<exists>h. decode raw = Some h \<and> halt_key prefix (h_scope h) (h_target h) = Inr k))"

definition record_at :: "store \<Rightarrow> string \<Rightarrow> halt_record" where
  "record_at st k = the (decode (the (st k)))"

lemma sequence_all: "(\<And>x. x \<in> set xs \<Longrightarrow> f x = Some (g x)) \<Longrightarrow> sequence_opt (map f xs) = Some (map g xs)"
  by (induction xs) auto

lemma active_halts_ok:
  assumes "store_ok prefix keys st"
  shows "active_halts keys st = Inr (map (record_at st) keys)"
proof -
  have some: "\<exists>raw. st k = Some raw \<and> decode raw = Some (record_at st k)" if "k \<in> set keys" for k
    using assms that unfolding store_ok_def record_at_def by (metis domD option.sel)
  have "List.map_filter st keys = map (\<lambda>k. the (st k)) keys"
    using some by (induction keys) (force simp: map_filter_simps)+
  moreover have "sequence_opt (map decode (map (\<lambda>k. the (st k)) keys)) = Some (map (record_at st) keys)"
    unfolding map_map by (rule sequence_all) (use some in force)
  ultimately show ?thesis by (simp add: active_halts_def)
qed

lemma actor_named: "str_strip ROLLOVER_ACTOR \<noteq> []"
  by code_simp

lemma rollover_one_store:
  assumes "halt_key prefix (h_scope h) (h_target h) = Inr k"
  shows "\<exists>r l'. rollover_one (store_watch prefix keys other) now h \<lparr>dk_world = (st, l), dk_reminders = n\<rparr>
       = (r, \<lparr>dk_world = (if releasable now h then (other st)(k := None) else st, l'), dk_reminders = n\<rparr>)
     \<and> (\<not> releasable now h \<longrightarrow> r = Inr () \<and> l' = l)
     \<and> (releasable now h \<longrightarrow> (case other st k of Some raw \<Rightarrow> decode raw \<noteq> None | None \<Rightarrow> True) \<longrightarrow> r = Inr ())"
proof (cases "releasable now h")
  case True
  then have "rollover_one (store_watch prefix keys other) now h =
      bind_a (in_world (sw_clear (store_watch prefix keys other) (h_scope h) ROLLOVER_ACTOR (h_target h))) (\<lambda>_.
        send (sw_send (store_watch prefix keys other)) \<lparr>al_severity = INFO, al_key = ''halt.rollover.'' @ iso_date (utc_date (h_engaged_at h)),
          al_says = Reason ''daily loss halt released'' [isoformat (h_engaged_at h), scope_value (h_scope h)] []\<rparr>)"
    by (simp add: rollover_one_def releasable_def)
  moreover have "other st = (other st)(k := None)" if "other st k = None" using that by auto
  ultimately show ?thesis using True assms actor_named
    by (cases "other st k") (auto simp: bind_a_run in_world_def store_watch_def clear_def send_def split: option.split)
qed (auto simp: rollover_one_def releasable_def)

lemma rollover_loop_store:
  assumes "distinct ks" "\<forall>k \<in> set ks. halt_key prefix (h_scope (rec k)) (h_target (rec k)) = Inr k"
    and "\<forall>k \<in> set ks. case st k of Some raw \<Rightarrow> decode raw \<noteq> None | None \<Rightarrow> True"
  shows "\<exists>l'. for_a (\<lambda>h _. rollover_one (store_watch prefix keys (\<lambda>st. st)) now h) (map rec ks) () \<lparr>dk_world = (st, l), dk_reminders = n\<rparr>
     = (Inr (), \<lparr>dk_world = (\<lambda>k. if k \<in> set ks \<and> releasable now (rec k) then None else st k, l'), dk_reminders = n\<rparr>)"
  using assms
proof (induction ks arbitrary: st l)
  case (Cons k ks)
  let ?W = "store_watch prefix keys (\<lambda>st. st)" and ?st1 = "if releasable now (rec k) then st(k := None) else st"
  from Cons.prems(2) have "halt_key prefix (h_scope (rec k)) (h_target (rec k)) = Inr k" by simp
  from rollover_one_store [OF this, of keys "\<lambda>st. st" now st l n] Cons.prems(3)
  obtain l1 where one: "rollover_one ?W now (rec k) \<lparr>dk_world = (st, l), dk_reminders = n\<rparr>
      = (Inr (), \<lparr>dk_world = (?st1, l1), dk_reminders = n\<rparr>)" by (cases "releasable now (rec k)") auto
  have "\<forall>k' \<in> set ks. case ?st1 k' of Some raw \<Rightarrow> decode raw \<noteq> None | None \<Rightarrow> True"
    using Cons.prems(1,3) by auto
  from Cons.IH [OF _ _ this, of l1] Cons.prems(1,2) obtain l2 where rest:
    "for_a (\<lambda>h _. rollover_one ?W now h) (map rec ks) () \<lparr>dk_world = (?st1, l1), dk_reminders = n\<rparr>
      = (Inr (), \<lparr>dk_world = (\<lambda>k'. if k' \<in> set ks \<and> releasable now (rec k') then None else ?st1 k', l2), dk_reminders = n\<rparr>)" by auto
  have "(\<lambda>k'. if k' \<in> set ks \<and> releasable now (rec k') then None else ?st1 k')
      = (\<lambda>k'. if k' \<in> set (k # ks) \<and> releasable now (rec k') then None else st k')"
    using Cons.prems(1) by (auto simp: fun_eq_iff)
  with one rest show ?case by (simp add: bind_a_run)
qed auto

text \<open>
  C31. The rollover releases exactly the halts it may. When every record stands under its own key and nothing
  else writes to the store meanwhile, the job ends without raising, and a key is then empty exactly when
  it was before or held a daily-loss halt that the risk chain itself engaged, on an earlier day, with no
  position it could not prove; every other record is untouched.
\<close>

theorem rollover_releases_exactly:
  assumes "store_ok prefix keys st" "sv_now S (st, l) = now"
    and "rollover_daily_counters S (store_watch prefix keys (\<lambda>st. st)) \<lparr>dk_world = (st, l), dk_reminders = n\<rparr> = (r, s')"
  shows "r = Inr () \<and> (\<forall>k. fst (dk_world s') k =
     (if st k \<noteq> None \<and> releasable now (record_at st k) then None else st k))"
proof -
  have keys: "set keys = dom st" "distinct keys"
    and own: "\<forall>k \<in> set keys. halt_key prefix (h_scope (record_at st k)) (h_target (record_at st k)) = Inr k"
    and good: "\<forall>k \<in> set keys. case st k of Some raw \<Rightarrow> decode raw \<noteq> None | None \<Rightarrow> True"
    using assms(1) by (auto simp: store_ok_def record_at_def split: option.split) (metis domD option.sel)+
  from rollover_loop_store [OF keys(2) own good, of keys now l n]
  obtain l' where "for_a (\<lambda>h _. rollover_one (store_watch prefix keys (\<lambda>st. st)) now h) (map (record_at st) keys) () \<lparr>dk_world = (st, l), dk_reminders = n\<rparr>
     = (Inr (), \<lparr>dk_world = (\<lambda>k. if k \<in> set keys \<and> releasable now (record_at st k) then None else st k, l'), dk_reminders = n\<rparr>)" by blast
  moreover have "in_world (sw_active_halts (store_watch prefix keys (\<lambda>st. st))) \<lparr>dk_world = (st, l), dk_reminders = n\<rparr>
      = (Inr (map (record_at st) keys), \<lparr>dk_world = (st, l), dk_reminders = n\<rparr>)"
    using active_halts_ok [OF assms(1)] by (simp add: in_world_def store_watch_def)
  ultimately show ?thesis using assms(2,3) keys(1)
    by (auto simp: rollover_daily_counters_def system_now_def bind_a_run)
qed

text \<open>
  The rollover's clear is not conditional on what it read. Between reading the halts and clearing
  one, another process may write to the store; whatever stands under the key by then is deleted, a
  reconciliation's evidence that a position cannot be proven included, though the job says it never releases that.
\<close>

theorem rollover_clears_what_it_never_read:
  assumes "active_halts keys st = Inr [h]" "releasable now h" "halt_key prefix (h_scope h) (h_target h) = Inr k"
    and "sv_now S (st, l) = now"
    and "rollover_daily_counters S (store_watch prefix keys other) \<lparr>dk_world = (st, l), dk_reminders = n\<rparr> = (r, s')"
  shows "fst (dk_world s') = (other st)(k := None)"
proof -
  from rollover_one_store [OF assms(3), of keys other now st l n] assms(2)
  obtain r1 l' where one: "rollover_one (store_watch prefix keys other) now h \<lparr>dk_world = (st, l), dk_reminders = n\<rparr>
       = (r1, \<lparr>dk_world = ((other st)(k := None), l'), dk_reminders = n\<rparr>)" by auto
  have "in_world (sw_active_halts (store_watch prefix keys other)) \<lparr>dk_world = (st, l), dk_reminders = n\<rparr>
      = (Inr [h], \<lparr>dk_world = (st, l), dk_reminders = n\<rparr>)"
    using assms(1) by (simp add: in_world_def store_watch_def)
  with one assms(4,5) show ?thesis
    by (auto simp: rollover_daily_counters_def system_now_def bind_a_run split: sum.splits)
qed

text \<open>Yesterday's daily-loss halt, read the next morning.\<close>

definition sample_services :: "ts \<Rightarrow> 'w services" where
  "sample_services now = \<lparr>sv_now = (\<lambda>w. now), sv_calendar = sample_calendar, sv_vendor = (\<lambda>ss tf a b w. (Inr [], w)),
     sv_ports = \<lparr>bp_get_bars = (\<lambda>ss tf a b adj w. (Inr [], w)), bp_upsert = (\<lambda>bs w. (Inr 0, w)), bp_find_gaps = (\<lambda>s tf a b w. (Inr [], w))\<rparr>,
     sv_stored_series = (\<lambda>w. (Inr [], w)), sv_stored_bars = (\<lambda>s tf a b w. (Inr [], w)), sv_recent_orders = (\<lambda>t n w. (Inr [], w)),
     sv_equity_history = (\<lambda>a b w. (Inr [], w)), sv_recent_audit = (\<lambda>n w. (Inr [], w)), sv_say = (\<lambda>r. []), sv_decimal = (\<lambda>x. [])\<rparr>"

definition loss_halt :: halt_record where
  "loss_halt = engage_record GLOBAL DAILY_LOSS_LIMIT DAILY_LOSS_RULE [] None [] 0"

definition loss_store :: store where
  "loss_store = [''h:global'' \<mapsto> encode loss_halt]"

lemma loss_store_ok: "store_ok ''h'' [''h:global''] loss_store"
  by (simp add: store_ok_def loss_store_def halt_key_def loss_halt_def engage_record_def)

lemma loss_releasable: "releasable DAY_US (record_at loss_store ''h:global'')" "releasable DAY_US loss_halt"
  by (simp_all add: releasable_def record_at_def loss_store_def loss_halt_def engage_record_def book_is_unproven_def utc_date_def DAY_US_def)

theorem rollover_releases_exactly_witness:
  "\<exists>s'. rollover_daily_counters (sample_services DAY_US) (store_watch ''h'' [''h:global''] (\<lambda>st. st)) \<lparr>dk_world = (loss_store, []), dk_reminders = 0\<rparr>
       = (Inr (), s') \<and> loss_store ''h:global'' \<noteq> None \<and> fst (dk_world s') ''h:global'' = None"
proof -
  obtain r s' where run: "rollover_daily_counters (sample_services DAY_US) (store_watch ''h'' [''h:global''] (\<lambda>st. st)) \<lparr>dk_world = (loss_store, []), dk_reminders = 0\<rparr> = (r, s')"
    by (cases "rollover_daily_counters (sample_services DAY_US) (store_watch ''h'' [''h:global''] (\<lambda>st. st)) \<lparr>dk_world = (loss_store, []), dk_reminders = 0\<rparr>")
  have "sv_now (sample_services DAY_US) (loss_store, []) = DAY_US" by (simp add: sample_services_def)
  from rollover_releases_exactly [OF loss_store_ok this run] loss_releasable run show ?thesis
    by (auto simp: loss_store_def)
qed

text \<open>A reconciliation that finds a quantity it cannot prove, between the read and the clear.\<close>

definition disputing :: "store \<Rightarrow> store" where
  "disputing st = snd (engage ''h'' (\<lambda>n. DAY_US) (\<lambda>n. (id, id, id)) GLOBAL RECONCILIATION_MISMATCH ''reconciler'' [] None [''SPY''] st)"

lemma disputed: "\<exists>h'. disputing loss_store ''h:global'' = Some (encode h') \<and> book_is_unproven h'"
proof -
  have c: "clean_symbols [''SPY''] = Inr [''SPY'']" by code_simp
  show ?thesis
    by (auto simp: disputing_def engage_def halt_key_def c MAX_ENGAGE_ATTEMPTS_def numeral_3_eq_3 loss_store_def Let_def
      merge_def loss_halt_def engage_record_def unproven_symbols_def book_is_unproven_def)
qed

theorem rollover_clears_what_it_never_read_witness:
  "\<exists>s' h'. snd (rollover_daily_counters (sample_services DAY_US) (store_watch ''h'' [''h:global''] disputing) \<lparr>dk_world = (loss_store, []), dk_reminders = 0\<rparr>) = s'
     \<and> disputing loss_store ''h:global'' = Some (encode h') \<and> book_is_unproven h' \<and> fst (dk_world s') ''h:global'' = None"
proof -
  obtain r s' where run: "rollover_daily_counters (sample_services DAY_US) (store_watch ''h'' [''h:global''] disputing) \<lparr>dk_world = (loss_store, []), dk_reminders = 0\<rparr> = (r, s')"
    by (cases "rollover_daily_counters (sample_services DAY_US) (store_watch ''h'' [''h:global''] disputing) \<lparr>dk_world = (loss_store, []), dk_reminders = 0\<rparr>")
  have a: "active_halts [''h:global''] loss_store = Inr [loss_halt]"
    using active_halts_ok [OF loss_store_ok] by (simp add: record_at_def loss_store_def)
  have k: "halt_key ''h'' (h_scope loss_halt) (h_target loss_halt) = Inr ''h:global''"
    by (simp add: halt_key_def loss_halt_def engage_record_def)
  have n: "sv_now (sample_services DAY_US) (loss_store, []) = DAY_US" by (simp add: sample_services_def)
  from rollover_clears_what_it_never_read [OF a loss_releasable(2) k n run] disputed run show ?thesis by auto
qed

section \<open>The session summary\<close>

text \<open>
  The key of a summary sent while a halt stands is the day the halt was engaged, whatever day it is: the
  summaries of two sessions under one halt have the same key, though they are to be one a day and never collapse.
\<close>

theorem halted_summaries_share_their_key:
  assumes "store_ok prefix (k # keys) st"
  shows "\<exists>a. snd (dk_world (snd (summarise_the_session S (store_watch prefix (k # keys) other) \<lparr>dk_world = (st, l), dk_reminders = n\<rparr>))) = l @ [a]
     \<and> al_key a = ''session.summary.'' @ iso_date (utc_date (h_engaged_at (record_at st k))) \<and> al_severity a = CRITICAL"
proof -
  have "in_world (sw_active_halts (store_watch prefix (k # keys) other)) \<lparr>dk_world = (st, l), dk_reminders = n\<rparr>
      = (Inr (map (record_at st) (k # keys)), \<lparr>dk_world = (st, l), dk_reminders = n\<rparr>)"
    using active_halts_ok [OF assms] by (simp add: in_world_def store_watch_def)
  then show ?thesis
    by (simp add: summarise_the_session_def session_day_key_def bind_a_run send_def store_watch_def)
qed

section \<open>The schedule\<close>

text \<open>
  Every entry the process builds is one the scheduler's guarantees hold of, whatever the process trades, watches or pulls.
\<close>

lemma schedule_entries_ok: "\<forall>e \<in> set (build_schedule S session watch pull). entry_ok e"
  by (auto simp: build_schedule_def SCHEDULE_def entry_of_def entry_ok_def Let_def split: option.split)

text \<open>
  The schedule of the process, run by its scheduler. Whatever the jobs do and for however long: the calls of each
  entry are on its schedule, and those of the reconciliation and of the reminders start inside a session.
\<close>

theorem session_jobs_run_on_schedule:
  assumes "calendar_ok (sp_calendar P)" "sc_world s = (v, [])"
    and "i < length (build_schedule S session watch pull)"
  shows "on_schedule (sp_calendar P) (build_schedule S session watch pull ! i) (sp_now P v)
     (calls_of i (snd (sc_world (snd (run_scheduler (watched_ports P) (watched_entries P (build_schedule S session watch pull)) n s)))))
   \<and> (se_name (build_schedule S session watch pull ! i) \<in> {''reconcile_with_broker'', ''remind_about_halts''} \<longrightarrow>
       (\<forall>(a, b) \<in> set (calls_of i (snd (sc_world (snd (run_scheduler (watched_ports P)
            (watched_entries P (build_schedule S session watch pull)) n s))))). is_open_at (sp_calendar P) a = Inr True))"
proof -
  let ?es = "build_schedule S session watch pull"
  have sched: "on_schedule (sp_calendar P) (?es ! i) (sp_now P v)
     (calls_of i (snd (sc_world (snd (run_scheduler (watched_ports P) (watched_entries P ?es) n s)))))"
    by (rule calls_on_schedule [OF assms(1) schedule_entries_ok assms(2,3)])
  have "se_market_hours e" if "e \<in> set ?es" "se_name e \<in> {''reconcile_with_broker'', ''remind_about_halts''}" for e
    using that by (auto simp: build_schedule_def SCHEDULE_def entry_of_def Let_def split: option.splits if_splits)
  then have "se_name (?es ! i) \<in> {''reconcile_with_broker'', ''remind_about_halts''} \<longrightarrow> se_market_hours (?es ! i)"
    using assms(3) by (metis nth_mem)
  moreover have "on_schedule cs e t calls \<Longrightarrow> se_market_hours e \<Longrightarrow> \<forall>(a, b) \<in> set calls. is_open_at cs a = Inr True"
    for cs t calls and e :: "'a desk entry"
    by (induction cs e t calls rule: on_schedule.induct) auto
  ultimately show ?thesis using sched by blast
qed

section \<open>Series and windows\<close>

lemma map_of_file_under:
  "map_of (file_under tf sm m) k = (if k = tf then Some ((case map_of m tf of None \<Rightarrow> [] | Some xs \<Rightarrow> xs) @ [sm]) else map_of m k)"
  by (simp add: file_under_def update_conv')

definition group_of :: "(timeframe \<times> string list) list \<Rightarrow> timeframe \<Rightarrow> string list" where
  "group_of m tf = (case map_of m tf of None \<Rightarrow> [] | Some xs \<Rightarrow> xs)"

lemma group_of_file_under: "group_of (file_under tf sm m) k = (if k = tf then group_of m k @ [sm] else group_of m k)"
  by (simp add: group_of_def map_of_file_under)

text \<open>
  A sweep asks the vendor for every stored series it can and for no reserved ticker: under each
  timeframe it files, in the order of the store, the symbols stored under it that are no test tickers, when
  its bar grid is known, and it names the test tickers it dropped.
\<close>

theorem sweep_asks_for_real_series:
  "group_of (fst (sweepable_series stored)) tf =
     (if tf \<in> set SUPPORTED_TIMEFRAMES then map fst (filter (\<lambda>(sm, t). t = tf \<and> sm \<notin> set RESERVED_TEST_SYMBOLS) stored) else [])
   \<and> set (snd (sweepable_series stored)) = {sm \<in> set RESERVED_TEST_SYMBOLS. \<exists>t \<in> set SUPPORTED_TIMEFRAMES. (sm, t) \<in> set stored}"
proof -
  let ?f = "\<lambda>(sm, tf) (m, sk). if tf \<notin> set SUPPORTED_TIMEFRAMES then (m, sk)
            else if sm \<in> set RESERVED_TEST_SYMBOLS then (m, List.insert sm sk) else (file_under tf sm m, sk)"
  have "group_of (fst (fold ?f stored (m, sk))) tf = group_of m tf @
        (if tf \<in> set SUPPORTED_TIMEFRAMES then map fst (filter (\<lambda>(sm, t). t = tf \<and> sm \<notin> set RESERVED_TEST_SYMBOLS) stored) else [])
      \<and> set (snd (fold ?f stored (m, sk))) = set sk \<union> {sm \<in> set RESERVED_TEST_SYMBOLS. \<exists>t \<in> set SUPPORTED_TIMEFRAMES. (sm, t) \<in> set stored}" for m sk
    by (induction stored arbitrary: m sk) (auto simp: group_of_file_under split: if_splits)
  note folded = this [of "[]" "[]"]
  have "sweepable_series stored = (fst (fold ?f stored ([], [])), str_sort (snd (fold ?f stored ([], []))))"
    by (simp add: sweepable_series_def split: prod.split)
  with folded show ?thesis by (simp add: str_sort_set group_of_def)
qed

lemma closed_before_Some:
  "closed_before cs t n d = Inr (Some s) \<Longrightarrow>
     \<exists>d'. d' \<le> d \<and> session_on cs d' = Inr (Some s) \<and> ss_close s \<le> t
       \<and> (\<forall>e s'. d' < e \<and> e \<le> d \<and> session_on cs e = Inr (Some s') \<longrightarrow> t < ss_close s')"
proof (induction n arbitrary: d)
  case (Suc n)
  obtain so where so: "session_on cs d = Inr so" using Suc.prems by (cases "session_on cs d") auto
  show ?case
  proof (cases "\<exists>x. so = Some x \<and> ss_close x \<le> t")
    case True
    with Suc.prems so show ?thesis by (intro exI [of _ d]) auto
  next
    case False
    with Suc.prems so have "closed_before cs t n (d - 1) = Inr (Some s)" by (auto split: option.splits if_splits)
    from Suc.IH [OF this] obtain d' where h: "d' \<le> d - 1" "session_on cs d' = Inr (Some s)" "ss_close s \<le> t"
      and after: "\<forall>e s'. d' < e \<and> e \<le> d - 1 \<and> session_on cs e = Inr (Some s') \<longrightarrow> t < ss_close s'" by blast
    have "t < ss_close s'" if "d' < e" "e \<le> d" "session_on cs e = Inr (Some s')" for e s'
      using that after [rule_format, of e s'] False so by (cases "e = d") auto
    with h show ?thesis by (intro exI [of _ d']) auto
  qed
qed simp

lemma previous_session_last:
  assumes "calendar_ok cs" "previous_session cs t = Inr (Some s)"
  shows "ss_close s \<le> t" "\<exists>d. session_on cs d = Inr (Some s)"
    and "session_on cs d = Inr (Some s') \<Longrightarrow> ss_close s' \<le> t \<Longrightarrow> ss_close s' \<le> ss_close s"
proof -
  from closed_before_Some [OF assms(2) [unfolded previous_session_def]]
  obtain d' where h: "session_on cs d' = Inr (Some s)" "ss_close s \<le> t"
    and after: "\<forall>e s'. d' < e \<and> e \<le> cs_local_date cs t \<and> session_on cs e = Inr (Some s') \<longrightarrow> t < ss_close s'" by blast
  then show "ss_close s \<le> t" "\<exists>d. session_on cs d = Inr (Some s)" by auto
  assume s': "session_on cs d = Inr (Some s')" "ss_close s' \<le> t"
  have "d = cs_local_date cs (ss_close s')" using assms(1) s' by (auto simp: calendar_ok_def)
  then have "d \<le> cs_local_date cs t" using assms(1) s'(2) by (auto simp: calendar_ok_def)
  with after s' have "d \<le> d'" by (metis not_le not_less)
  with edges_ascend [OF assms(1) _ s'(1) h(1), of "Market_close 0" ss_close] show "ss_close s' \<le> ss_close s"
    by (simp add: edge_of_def)
qed

text \<open>
  A daily report is about the trading day. Its session is the last one to have closed, its window begins
  at the close of the session before that one, and no session closes between the two: so the windows
  of consecutive reports meet, and what falls between two sessions belongs to the later one. At the start of the
  calendar, with no session before, it begins a day before the open.
\<close>

theorem report_window_is_the_trading_day:
  assumes "calendar_ok cs" "report_window cs now = Inr (Some (s, start))"
  shows "(\<exists>d. session_on cs d = Inr (Some s)) \<and> ss_close s \<le> now
    \<and> (\<forall>d s'. session_on cs d = Inr (Some s') \<longrightarrow> ss_close s' \<le> now \<longrightarrow> ss_close s' \<le> ss_close s)
    \<and> (start = ss_open s - DAY_US \<and> previous_session cs (ss_open s) = Inr None
       \<or> (\<exists>d p. session_on cs d = Inr (Some p) \<and> start = ss_close p \<and> start \<le> ss_open s
            \<and> (\<forall>d s'. session_on cs d = Inr (Some s') \<longrightarrow> ss_close s' \<le> ss_open s \<longrightarrow> ss_close s' \<le> start)))"
proof -
  obtain prior where s: "previous_session cs now = Inr (Some s)" and p: "previous_session cs (ss_open s) = Inr prior"
    and st: "start = (case prior of Some p \<Rightarrow> ss_close p | None \<Rightarrow> ss_open s - DAY_US)"
    using assms(2) by (auto simp: report_window_def bind_r_eq_Inr split: option.splits)
  note last = previous_session_last [OF assms(1) s]
  show ?thesis
  proof (cases prior)
    case None
    with st p last show ?thesis by auto
  next
    case (Some q)
    note before = previous_session_last [OF assms(1), of "ss_open s" q]
    with Some st p last show ?thesis by auto
  qed
qed

end
