(* ===== verification/Ingest.thy ===== *)
theory Ingest
  imports Backfill KillSwitch Clock
begin

text \<open>
  \<open>data/stream.py\<close>: the consumer of the market-data feed, which stores what arrives and refetches what a
  reconnect says was lost, and the watchdog that halts on silence. The feed, the bar table, the cache and
  the clock are the record \<open>ingestor_ports\<close> of functions on the world \<open>'v\<close>; \<open>ip_next\<close> is the next event of
  the stream, \<open>None\<close> when it ended. The two objects are one state \<open>'v feed\<close>, since the watchdog reads the
  ingestor's statistics. Silence is measured in microseconds. Log lines, metrics and closing the stream
  are not modelled; texts are in ASCII.
\<close>

definition STREAM_ACTOR :: string where "STREAM_ACTOR = ''stream_ingestor''"
definition STALENESS_ACTOR :: string where "STALENESS_ACTOR = ''staleness_monitor''"
definition CHANNEL_QUOTES :: string where "CHANNEL_QUOTES = ''atp:md:quotes''"
definition CHANNEL_BARS :: string where "CHANNEL_BARS = ''atp:md:bars''"
definition MAX_RECONNECT_BACKFILL :: int where "MAX_RECONNECT_BACKFILL = 6 * 3600 * 10 ^ 6"

record feed_reconnected =
  fr_gap_since :: ts
  fr_reconnected_at :: ts
  fr_attempts :: int

datatype stream_event = QuoteEvent quote | BarEvent bar | TradeEvent trade_print | ReconnectEvent feed_reconnected

record gap_repair =
  gp_written :: int
  gp_recovered :: bool

record ingestor_stats =
  ig_connected_since :: "ts option"
  ig_messages :: int
  ig_reconnects :: int
  ig_last_message :: "ts option"
  ig_gaps_backfilled :: int
  ig_symbols :: "string list"
  ig_last_tick :: "ts dict"
  ig_watermark :: "ts option"

definition fresh_stats :: ingestor_stats where
  "fresh_stats = \<lparr>ig_connected_since = None, ig_messages = 0, ig_reconnects = 0, ig_last_message = None,
     ig_gaps_backfilled = 0, ig_symbols = [], ig_last_tick = [], ig_watermark = None\<rparr>"

record 'v ingestor_ports =
  ip_bars :: "'v bar_ports"
  ip_last_n :: "string \<Rightarrow> timeframe \<Rightarrow> int \<Rightarrow> 'v \<Rightarrow> (exn + bar list) \<times> 'v"
  ip_set_quote :: "quote \<Rightarrow> 'v \<Rightarrow> (exn + unit) \<times> 'v"
  ip_publish :: "(string \<Rightarrow> string dict \<Rightarrow> 'v \<Rightarrow> (exn + unit) \<times> 'v) option"
  ip_engage :: "(halt_request \<Rightarrow> 'v \<Rightarrow> (exn + unit) \<times> 'v) option"
  ip_now :: "'v \<Rightarrow> ts"
  ip_subscribe :: "string list \<Rightarrow> 'v \<Rightarrow> (exn + unit) \<times> 'v"
  ip_next :: "'v \<Rightarrow> (exn + stream_event option) \<times> 'v"
  ip_timeframe :: timeframe
  ip_cap :: int
  ip_decimal :: "dec \<Rightarrow> string"
  ip_say :: "exn \<Rightarrow> string"

record 'v feed =
  fd_world :: 'v
  fd_symbols :: "string list"
  fd_stats :: ingestor_stats
  fd_alerted :: bool

type_synonym ('v, 'a) fed = "('v feed, 'a) act"

definition in_feed :: "('v \<Rightarrow> (exn + 'a) \<times> 'v) \<Rightarrow> ('v, 'a) fed" where
  "in_feed f = (\<lambda>s. case f (fd_world s) of (r, v) \<Rightarrow> (r, s\<lparr>fd_world := v\<rparr>))"

definition note_stats :: "(ingestor_stats \<Rightarrow> ingestor_stats) \<Rightarrow> ('v, unit) fed" where
  "note_stats f = modify_a (\<lambda>s. s\<lparr>fd_stats := f (fd_stats s)\<rparr>)"

definition feed_now :: "'v ingestor_ports \<Rightarrow> ('v, ts) fed" where
  "feed_now P = gets_a (\<lambda>s. ip_now P (fd_world s))"

section \<open>The ingestor\<close>

text \<open>\<open>int(ts.timestamp())\<close> truncates towards zero, and \<open>%\<close> is the floored remainder.\<close>

definition floor_to_grid :: "ts \<Rightarrow> timeframe \<Rightarrow> ts" where
  "floor_to_grid t tf =
     (let epoch = (if 0 \<le> t then t div 10 ^ 6 else - ((- t) div 10 ^ 6)); step = timeframe_seconds tf
      in (epoch - epoch mod step) * 10 ^ 6)"

definition quote_message :: "'v ingestor_ports \<Rightarrow> quote \<Rightarrow> string dict" where
  "quote_message P q =
     [(''type'', ''quote''), (''symbol'', q_symbol q), (''ts'', isoformat (q_ts q)), (''bid'', ip_decimal P (q_bid q)),
      (''ask'', ip_decimal P (q_ask q)), (''bid_size'', ip_decimal P (q_bid_size q)), (''ask_size'', ip_decimal P (q_ask_size q))]"

definition bar_message :: "'v ingestor_ports \<Rightarrow> bar \<Rightarrow> string dict" where
  "bar_message P b =
     [(''type'', ''bar''), (''symbol'', b_symbol b), (''timeframe'', timeframe_value (b_timeframe b)),
      (''ts'', isoformat (b_ts b)), (''open'', ip_decimal P (b_open b)), (''high'', ip_decimal P (b_high b)),
      (''low'', ip_decimal P (b_low b)), (''close'', ip_decimal P (b_close b)), (''volume'', ip_decimal P (b_volume b))]"

definition publish_best_effort :: "'v ingestor_ports \<Rightarrow> string \<Rightarrow> string dict \<Rightarrow> ('v, unit) fed" where
  "publish_best_effort P channel message =
     (case ip_publish P of
        None \<Rightarrow> ret ()
      | Some f \<Rightarrow> bind_a (attempt (in_feed (f channel message))) (\<lambda>_. ret ()))"

definition halt_feed :: "'v ingestor_ports \<Rightarrow> string \<Rightarrow> string \<Rightarrow> ('v, unit) fed" where
  "halt_feed P actor detail =
     (case ip_engage P of
        None \<Rightarrow> ret ()
      | Some f \<Rightarrow> in_feed (f \<lparr>hq_scope = GLOBAL, hq_reason = DATA_FEED_LOST, hq_by = actor, hq_detail = detail, hq_unproven = []\<rparr>))"

definition newest_of :: "'v ingestor_ports \<Rightarrow> string \<Rightarrow> ts option \<Rightarrow> ('v, ts option) fed" where
  "newest_of P s newest =
     bind_a (in_feed (ip_last_n P s (ip_timeframe P) 1)) (\<lambda>bars.
     ret (if bars \<noteq> [] \<and> (case newest of None \<Rightarrow> True | Some n \<Rightarrow> n < b_ts (last bars))
          then Some (b_ts (last bars)) else newest))"

definition read_storage_watermark :: "'v ingestor_ports \<Rightarrow> ('v, ts option) fed" where
  "read_storage_watermark P =
     bind_a (gets_a fd_symbols) (\<lambda>syms.
     bind_a (attempt (for_a (newest_of P) syms None)) (\<lambda>r. case r of
       Inl e \<Rightarrow> ret None
     | Inr newest \<Rightarrow> ret (map_option (\<lambda>n. n + timeframe_seconds (ip_timeframe P) * 10 ^ 6) newest)))"

definition witnesses :: "ingestor_stats \<Rightarrow> ts list" where
  "witnesses st = List.map_filter id [ig_watermark st, ig_last_message st]"

text \<open>From where a reconnect refetches, before the window is judged empty or too long.\<close>

definition gap_start :: "timeframe \<Rightarrow> ingestor_stats \<Rightarrow> ts \<Rightarrow> ts" where
  "gap_start tf st since =
     (let start = floor_to_grid since tf in
      case witnesses st of
        [] \<Rightarrow> start
      | w # ws \<Rightarrow> (let storage = floor_to_grid (fold max ws w) tf in if storage < start then storage else start))"

definition backfill_gap :: "'v ingestor_ports \<Rightarrow> ts \<Rightarrow> ('v, gap_repair option) fed" where
  "backfill_gap P since =
     bind_a (feed_now P) (\<lambda>now.
     bind_a (gets_a fd_stats) (\<lambda>st.
     bind_a (gets_a fd_symbols) (\<lambda>syms.
     let tf = ip_timeframe P; stop = floor_to_grid now tf; start = gap_start tf st since in
     if stop \<le> start then ret (Some \<lparr>gp_written = 0, gp_recovered = False\<rparr>)
     else
       let earliest = stop - ip_cap P;
           start = (if start < earliest then floor_to_grid earliest tf else start) in
       bind_a (attempt (in_feed (backfill_bars (ip_bars P) syms tf start stop False None DEFAULT_BATCH_SIZE))) (\<lambda>r.
       case r of
         Inl e \<Rightarrow>
           if is_data_error e
           then bind_a (halt_feed P STREAM_ACTOR (''could not backfill '' @ isoformat start @ '' to '' @ isoformat stop
                  @ '' after a feed reconnect - the bar history has a hole in it'')) (\<lambda>_. ret None)
           else raise_a e
       | Inr res \<Rightarrow> ret (Some \<lparr>gp_written = br_written res, gp_recovered = br_ok res \<and> 0 < br_written res\<rparr>)))))"

definition on_reconnect :: "'v ingestor_ports \<Rightarrow> feed_reconnected \<Rightarrow> ('v, unit) fed" where
  "on_reconnect P ev =
     bind_a (note_stats (\<lambda>st. st\<lparr>ig_reconnects := ig_reconnects st + 1, ig_connected_since := Some (fr_reconnected_at ev)\<rparr>)) (\<lambda>_.
     bind_a (backfill_gap P (fr_gap_since ev)) (\<lambda>repair. case repair of
       None \<Rightarrow> ret ()
     | Some g \<Rightarrow>
         bind_a (note_stats (\<lambda>st. st\<lparr>ig_gaps_backfilled := ig_gaps_backfilled st + gp_written g\<rparr>)) (\<lambda>_.
         if \<not> gp_recovered g then ret ()
         else note_stats (\<lambda>st. st\<lparr>ig_watermark := Some (fr_reconnected_at ev)\<rparr>))))"

definition handle_quote :: "'v ingestor_ports \<Rightarrow> quote \<Rightarrow> ('v, unit) fed" where
  "handle_quote P q =
     bind_a (note_stats (\<lambda>st. st\<lparr>ig_last_tick := dict_set (q_symbol q) (q_ts q) (ig_last_tick st)\<rparr>)) (\<lambda>_.
     bind_a (in_feed (ip_set_quote P q)) (\<lambda>_.
     publish_best_effort P CHANNEL_QUOTES (quote_message P q)))"

definition handle_bar :: "'v ingestor_ports \<Rightarrow> bar \<Rightarrow> ('v, unit) fed" where
  "handle_bar P b =
     bind_a (in_feed (bp_upsert (ip_bars P) [b])) (\<lambda>_.
     publish_best_effort P CHANNEL_BARS (bar_message P b))"

definition count_message :: "'v ingestor_ports \<Rightarrow> ('v, unit) fed" where
  "count_message P =
     bind_a (note_stats (\<lambda>st. st\<lparr>ig_messages := ig_messages st + 1\<rparr>)) (\<lambda>_.
     bind_a (feed_now P) (\<lambda>now. note_stats (\<lambda>st. st\<lparr>ig_last_message := Some now\<rparr>)))"

fun dispatch_event :: "'v ingestor_ports \<Rightarrow> stream_event \<Rightarrow> ('v, unit) fed" where
  "dispatch_event P (ReconnectEvent ev) = on_reconnect P ev"
| "dispatch_event P (QuoteEvent q) = bind_a (count_message P) (\<lambda>_. handle_quote P q)"
| "dispatch_event P (BarEvent b) = bind_a (count_message P) (\<lambda>_. handle_bar P b)"
| "dispatch_event P (TradeEvent t) = count_message P"

datatype ingest_end = FeedEnded | StillIngesting

fun ingest_loop :: "'v ingestor_ports \<Rightarrow> nat \<Rightarrow> ('v, ingest_end) fed" where
  "ingest_loop P 0 = ret StillIngesting"
| "ingest_loop P (Suc n) =
     bind_a (in_feed (ip_next P)) (\<lambda>e. case e of
       None \<Rightarrow> ret FeedEnded
     | Some ev \<Rightarrow> bind_a (dispatch_event P ev) (\<lambda>_. ingest_loop P n))"

definition ingest :: "'v ingestor_ports \<Rightarrow> string list \<Rightarrow> nat \<Rightarrow> ('v, ingest_end) fed" where
  "ingest P symbols n =
     (if symbols = [] then raise_a (value_error ''no symbols to ingest'')
      else if \<exists>s \<in> set symbols. s \<noteq> str_upper s then raise_a (value_error ''symbol must be uppercase'')
      else
        bind_a (modify_a (\<lambda>s. s\<lparr>fd_symbols := dedup symbols\<rparr>)) (\<lambda>_.
        bind_a (note_stats (\<lambda>st. st\<lparr>ig_symbols := dedup symbols\<rparr>)) (\<lambda>_.
        bind_a (feed_now P) (\<lambda>now.
        bind_a (note_stats (\<lambda>st. st\<lparr>ig_connected_since := Some now\<rparr>)) (\<lambda>_.
        bind_a (read_storage_watermark P) (\<lambda>w.
        bind_a (note_stats (\<lambda>st. st\<lparr>ig_watermark := w\<rparr>)) (\<lambda>_.
        bind_a (in_feed (ip_subscribe P (dedup symbols))) (\<lambda>_.
        bind_a (attempt (ingest_loop P n)) (\<lambda>r. case r of
          Inr x \<Rightarrow> ret x
        | Inl e \<Rightarrow>
            if is_data_error e
            then bind_a (halt_feed P STREAM_ACTOR (''market-data feed lost: '' @ ip_say P e)) (\<lambda>_. raise_a e)
            else raise_a e)))))))))"

section \<open>The watchdog\<close>

record staleness_verdict =
  vd_stale :: bool
  vd_silent_us :: "int option"
  vd_market_open :: bool
  vd_current :: bool
  vd_reason :: string

record 'v watchdog_ports =
  wd_ingestor :: "'v ingestor_ports"
  wd_max_silence :: int
  wd_calendar :: calendar_source
  wd_sleep :: "'v \<Rightarrow> 'v"
  wd_alert :: "(bool \<Rightarrow> 'v \<Rightarrow> (exn + unit) \<times> 'v) option"
  wd_engaged :: "'v \<Rightarrow> (exn + bool) \<times> 'v"

text \<open>What the data was last known good by; that the process is connected only when nothing else is known.\<close>

definition known_good :: "ingestor_stats \<Rightarrow> ts list" where
  "known_good st = (if witnesses st = [] then List.map_filter id [ig_connected_since st] else witnesses st)"

definition market_shut :: staleness_verdict where
  "market_shut = \<lparr>vd_stale = False, vd_silent_us = None, vd_market_open = False, vd_current = False,
     vd_reason = ''market is shut - silence is expected''\<rparr>"

definition evaluate_silence :: "calendar_source \<Rightarrow> int \<Rightarrow> ingestor_stats \<Rightarrow> ts \<Rightarrow> exn + staleness_verdict" where
  "evaluate_silence cs limit st now =
     bind_r (session_on cs (cs_local_date cs now)) (\<lambda>day. case day of
       None \<Rightarrow> Inr market_shut
     | Some d \<Rightarrow>
         if \<not> (ss_open d \<le> now \<and> now < ss_close d) then Inr market_shut
         else
           let silent = now - fold max (known_good st) (ss_open d);
               seconds = int_digits (round_half_even (of_int silent / 10 ^ 6));
               stale = (limit * 10 ^ 6 < silent);
               current = (case ig_last_message st of
                   None \<Rightarrow> False
                 | Some m \<Rightarrow> ss_open d \<le> m \<and> now - m \<le> limit * 10 ^ 6) in
           Inr \<lparr>vd_stale = stale, vd_silent_us = Some silent, vd_market_open = True, vd_current = current,
             vd_reason = (if stale then ''no market data for '' @ seconds @ ''s during the session''
               else if current then ''feed is current''
               else ''no data yet this session - '' @ seconds @ ''s since the open'')\<rparr>)"

text \<open>Whether a halt stands is asked, and a sink that raises costs nothing.\<close>

definition announce_recovery :: "'v watchdog_ports \<Rightarrow> ('v, unit) fed" where
  "announce_recovery W =
     (case wd_alert W of
        None \<Rightarrow> ret ()
      | Some send \<Rightarrow>
          bind_a (attempt
            (bind_a (if ip_engage (wd_ingestor W) = None then ret False else in_feed (wd_engaged W)) (\<lambda>halted.
             in_feed (send halted)))) (\<lambda>_. ret ()))"

definition set_alerted :: "bool \<Rightarrow> ('v, unit) fed" where
  "set_alerted b = modify_a (\<lambda>s. s\<lparr>fd_alerted := b\<rparr>)"

definition watch_turn :: "'v watchdog_ports \<Rightarrow> ('v, unit) fed" where
  "watch_turn W =
     bind_a (modify_a (\<lambda>s. s\<lparr>fd_world := wd_sleep W (fd_world s)\<rparr>)) (\<lambda>_.
     bind_a (feed_now (wd_ingestor W)) (\<lambda>now.
     bind_a (gets_a fd_stats) (\<lambda>st.
     bind_a (lift_a (evaluate_silence (wd_calendar W) (wd_max_silence W) st now)) (\<lambda>verdict.
     bind_a (gets_a fd_alerted) (\<lambda>alerted.
     if vd_stale verdict \<and> \<not> alerted
     then bind_a (set_alerted True) (\<lambda>_. halt_feed (wd_ingestor W) STALENESS_ACTOR (vd_reason verdict))
     else if \<not> vd_market_open verdict \<and> alerted then set_alerted False
     else if vd_current verdict \<and> alerted
     then bind_a (set_alerted False) (\<lambda>_. announce_recovery W)
     else ret ())))))"

text \<open>The constructor of the watchdog.\<close>

definition check_watchdog :: "int \<Rightarrow> int \<Rightarrow> exn + unit" where
  "check_watchdog max_silence poll_us =
     (if max_silence < 1 then Inl (value_error ''max_silence_seconds must be at least 1'')
      else if poll_us \<le> 0 then Inl (value_error ''poll_interval_seconds must be positive'')
      else Inr ())"

end
