(* ===== verification/IngestSafety.thy ===== *)
theory IngestSafety
  imports Ingest
begin

text \<open>
  What the ingestor and its watchdog guarantee: which bars a reconnect asks for and when it may call the
  data good again; that reconnects that bring nothing back neither hide an outage nor end one; that an
  outage is halted once. And where the last holds only if something was ever seen.
\<close>

lemma in_feed_run: "in_feed f s = (fst (f (fd_world s)), s\<lparr>fd_world := snd (f (fd_world s))\<rparr>)"
  by (simp add: in_feed_def split: prod.split)

lemma note_stats_run: "note_stats f s = (Inr (), s\<lparr>fd_stats := f (fd_stats s)\<rparr>)"
  by (simp add: note_stats_def)

lemma feed_now_run: "feed_now P s = (Inr (ip_now P (fd_world s)), s)"
  by (simp add: feed_now_def)

lemmas fed_run = in_feed_run note_stats_run feed_now_run bind_a_run attempt_run

section \<open>The bars a reconnect asks for\<close>

lemma timeframe_seconds_nonneg [simp]: "0 \<le> timeframe_seconds tf"
  by (cases tf; simp)

lemma floor_to_grid_nonneg:
  assumes "0 \<le> t"
  shows "floor_to_grid t tf = t - t mod (timeframe_seconds tf * 10 ^ 6)"
proof -
  let ?s = "timeframe_seconds tf"
  have "(t div 10 ^ 6 - t div 10 ^ 6 mod ?s) * 10 ^ 6 = (t div 10 ^ 6 div ?s) * ?s * 10 ^ 6"
    by (simp add: minus_mod_eq_div_mult)
  also have "t div 10 ^ 6 div ?s = t div (?s * 10 ^ 6)"
    using zdiv_zmult2_eq [of ?s t "10 ^ 6"] by (simp add: mult.commute)
  also have "t div (?s * 10 ^ 6) * ?s * 10 ^ 6 = t - t mod (?s * 10 ^ 6)"
    by (simp add: minus_mod_eq_div_mult)
  finally show ?thesis using assms by (simp add: floor_to_grid_def Let_def)
qed

lemma floor_to_grid_bounds:
  assumes "0 \<le> t"
  shows "floor_to_grid t tf \<le> t \<and> t < floor_to_grid t tf + timeframe_seconds tf * 10 ^ 6 \<and> 0 \<le> floor_to_grid t tf"
proof -
  let ?m = "timeframe_seconds tf * 10 ^ 6"
  have p: "0 < ?m" by simp
  have "0 \<le> t mod ?m" "t mod ?m < ?m" using p by auto
  moreover have "t mod ?m \<le> t" using assms zmod_le_nonneg_dividend by blast
  ultimately show ?thesis by (simp add: floor_to_grid_nonneg [OF assms])
qed

lemma floor_to_grid_mono: "0 \<le> a \<Longrightarrow> a \<le> b \<Longrightarrow> floor_to_grid a tf \<le> floor_to_grid b tf"
proof -
  assume "0 \<le> a" "a \<le> b"
  let ?m = "timeframe_seconds tf * 10 ^ 6"
  have p: "0 < ?m" by simp
  have "a div ?m * ?m \<le> b div ?m * ?m" using \<open>a \<le> b\<close> p by (intro mult_right_mono zdiv_mono1) auto
  then show ?thesis using \<open>0 \<le> a\<close> \<open>a \<le> b\<close> by (simp add: floor_to_grid_nonneg minus_mod_eq_div_mult)
qed

lemma on_grid_floor: "0 \<le> t \<Longrightarrow> floor_to_grid t tf = t \<longleftrightarrow> t mod (timeframe_seconds tf * 10 ^ 6) = 0"
  by (auto simp: floor_to_grid_nonneg)

text \<open>A bar that was open at an instant starts no earlier than the floor of that instant.\<close>

lemma grid_after:
  assumes "0 \<le> a" "0 \<le> t" "floor_to_grid t tf = t" "a < t + timeframe_seconds tf * 10 ^ 6"
  shows "floor_to_grid a tf \<le> t"
proof (rule ccontr)
  let ?m = "timeframe_seconds tf * 10 ^ 6"
  have p: "0 < ?m" by simp
  assume "\<not> floor_to_grid a tf \<le> t"
  moreover have "t = t div ?m * ?m" "floor_to_grid a tf = a div ?m * ?m"
    using assms by (auto simp: on_grid_floor floor_to_grid_nonneg minus_mod_eq_div_mult)
  ultimately have "t div ?m < a div ?m" by (metis linorder_not_le mult_right_mono p order_less_imp_le)
  then have "(t div ?m + 1) * ?m \<le> a div ?m * ?m" using p by (intro mult_right_mono) auto
  also have "\<dots> \<le> a" using p by (simp add: minus_mod_eq_div_mult [symmetric])
  finally show False using assms(4) \<open>t = t div ?m * ?m\<close> by (simp add: distrib_right)
qed

lemma grid_before:
  assumes "0 \<le> b" "0 \<le> t" "floor_to_grid t tf = t" "t + timeframe_seconds tf * 10 ^ 6 \<le> b"
  shows "t + timeframe_seconds tf * 10 ^ 6 \<le> floor_to_grid b tf"
proof -
  let ?m = "timeframe_seconds tf * 10 ^ 6"
  have "0 \<le> t + ?m" using assms(2) by simp
  then have "floor_to_grid (t + ?m) tf = t + ?m" using assms by (simp add: on_grid_floor)
  then show ?thesis using floor_to_grid_mono [of "t + ?m" b tf] assms \<open>0 \<le> t + ?m\<close> by simp
qed

lemma fold_max_ge: "x \<le> fold max xs x" "y \<in> set xs \<Longrightarrow> y \<le> fold max xs x" for x :: int
  by (induction xs arbitrary: x) (auto intro: order_trans [OF max.cobounded1] order_trans [OF max.cobounded2])

lemma fold_max_mem: "fold max xs x \<in> insert x (set xs)" for x :: int
  proof (induction xs arbitrary: x)
  case (Cons a xs)
  show ?case using Cons.IH [of "max a x"] by (auto simp: max_def split: if_splits)
qed simp

lemma fold_max_le: "fold max xs x \<le> b \<longleftrightarrow> x \<le> b \<and> (\<forall>y \<in> set xs. y \<le> b)" for x :: int
  by (induction xs arbitrary: x) auto

text \<open>The window a reconnect asks the vendor for, \<open>None\<close> when no bar was completed meanwhile.\<close>

definition asked_window :: "'v ingestor_ports \<Rightarrow> ts \<Rightarrow> 'v feed \<Rightarrow> (ts \<times> ts) option" where
  "asked_window P since s =
     (let tf = ip_timeframe P; stop = floor_to_grid (ip_now P (fd_world s)) tf; start = gap_start tf (fd_stats s) since
      in if stop \<le> start then None
         else Some (if start < stop - ip_cap P then floor_to_grid (stop - ip_cap P) tf else start, stop))"

definition refetch :: "'v ingestor_ports \<Rightarrow> 'v feed \<Rightarrow> ts \<times> ts \<Rightarrow> (exn + backfill_result) \<times> 'v" where
  "refetch P s w = backfill_bars (ip_bars P) (fd_symbols s) (ip_timeframe P) (fst w) (snd w) False None DEFAULT_BATCH_SIZE (fd_world s)"

definition hole_detail :: "ts \<times> ts \<Rightarrow> string" where
  "hole_detail w = ''could not backfill '' @ isoformat (fst w) @ '' to '' @ isoformat (snd w)
     @ '' after a feed reconnect - the bar history has a hole in it''"

lemma backfill_gap_run:
  "backfill_gap P since s =
     (case asked_window P since s of
        None \<Rightarrow> (Inr (Some \<lparr>gp_written = 0, gp_recovered = False\<rparr>), s)
      | Some w \<Rightarrow>
          (let (r, v) = refetch P s w; s1 = s\<lparr>fd_world := v\<rparr> in case r of
             Inl e \<Rightarrow> if is_data_error e then bind_a (halt_feed P STREAM_ACTOR (hole_detail w)) (\<lambda>_. ret None) s1
                     else (Inl e, s1)
           | Inr res \<Rightarrow> (Inr (Some \<lparr>gp_written = br_written res, gp_recovered = br_ok res \<and> 0 < br_written res\<rparr>), s1)))"
  by (simp add: backfill_gap_def asked_window_def refetch_def hole_detail_def fed_run Let_def split: sum.split prod.split)

lemma halt_feed_keeps: "fd_stats (snd (halt_feed P actor detail s)) = fd_stats s \<and> fd_symbols (snd (halt_feed P actor detail s)) = fd_symbols s
    \<and> fd_alerted (snd (halt_feed P actor detail s)) = fd_alerted s"
  by (simp add: halt_feed_def in_feed_run split: option.split)

text \<open>What a reconnect leaves in the statistics, however it ends.\<close>

definition recovered_by :: "'v ingestor_ports \<Rightarrow> ts \<Rightarrow> 'v feed \<Rightarrow> bool" where
  "recovered_by P since s =
     (case asked_window P since s of None \<Rightarrow> False
      | Some w \<Rightarrow> (case fst (refetch P s w) of Inl e \<Rightarrow> False | Inr res \<Rightarrow> br_ok res \<and> 0 < br_written res))"

definition reconnecting :: "feed_reconnected \<Rightarrow> 'v feed \<Rightarrow> 'v feed" where
  "reconnecting ev s = s\<lparr>fd_stats := (fd_stats s)\<lparr>ig_reconnects := ig_reconnects (fd_stats s) + 1, ig_connected_since := Some (fr_reconnected_at ev)\<rparr>\<rparr>"

lemma refetch_reconnecting [simp]: "refetch P (reconnecting ev s) = refetch P s"
  by (simp add: refetch_def reconnecting_def fun_eq_iff)

lemma asked_reconnecting [simp]: "asked_window P since (reconnecting ev s) = asked_window P since s"
proof -
  have "gap_start tf (fd_stats (reconnecting ev s)) since = gap_start tf (fd_stats s) since" for tf
    by (simp add: reconnecting_def gap_start_def witnesses_def)
  then show ?thesis by (simp add: asked_window_def) (simp add: reconnecting_def)
qed

lemma recovered_reconnecting [simp]: "recovered_by P since (reconnecting ev s) = recovered_by P since s"
  by (simp add: recovered_by_def split: option.split)

lemma on_reconnect_stats:
  fixes s :: "'v feed"
  assumes d: "st = fd_stats s" "st' = fd_stats (snd (on_reconnect P ev s))"
  shows "ig_last_message st' = ig_last_message st"
    and "ig_connected_since st' = Some (fr_reconnected_at ev)"
    and "ig_watermark st' = (if recovered_by P (fr_gap_since ev) s then Some (fr_reconnected_at ev) else ig_watermark st)"
proof -
  have k: "fd_stats (snd (halt_feed P a d u)) = fd_stats u" for a d and u :: "'v feed" by (simp add: halt_feed_keeps)
  have *: "on_reconnect P ev s = bind_a (backfill_gap P (fr_gap_since ev)) (\<lambda>repair. case repair of
       None \<Rightarrow> ret ()
     | Some g \<Rightarrow>
         bind_a (note_stats (\<lambda>st. st\<lparr>ig_gaps_backfilled := ig_gaps_backfilled st + gp_written g\<rparr>)) (\<lambda>_.
         if \<not> gp_recovered g then ret ()
         else note_stats (\<lambda>st. st\<lparr>ig_watermark := Some (fr_reconnected_at ev)\<rparr>))) (reconnecting ev s)"
    by (simp add: on_reconnect_def bind_a_run [of "note_stats _"] note_stats_run reconnecting_def)
  show "ig_last_message st' = ig_last_message st"
    "ig_connected_since st' = Some (fr_reconnected_at ev)"
    "ig_watermark st' = (if recovered_by P (fr_gap_since ev) s then Some (fr_reconnected_at ev) else ig_watermark st)"
    unfolding d * bind_a_run backfill_gap_run
    by (auto simp: fed_run k recovered_by_def Let_def split: option.splits sum.splits prod.splits)
       (auto simp: reconnecting_def k)
qed
lemma gap_start_le:
  "gap_start tf st since \<le> floor_to_grid since tf"
  "w \<in> set (witnesses st) \<Longrightarrow> \<exists>g \<in> set (witnesses st). w \<le> g \<and> gap_start tf st since \<le> floor_to_grid g tf"
proof -
  show "gap_start tf st since \<le> floor_to_grid since tf"
    by (simp add: gap_start_def Let_def split: list.split)
  assume w: "w \<in> set (witnesses st)"
  then obtain a ws where e: "witnesses st = a # ws" by (cases "witnesses st") auto
  have "w \<le> fold max ws a" using w e fold_max_ge by auto
  moreover have "fold max ws a \<in> set (witnesses st)" using fold_max_mem [of ws a] e by simp
  moreover have "gap_start tf st since \<le> floor_to_grid (fold max ws a) tf" by (simp add: gap_start_def Let_def e)
  ultimately show "\<exists>g \<in> set (witnesses st). w \<le> g \<and> gap_start tf st since \<le> floor_to_grid g tf" by blast
qed

text \<open>
  The bars a reconnect has to bring back: those that had not closed when the feed says it lost touch, or when
  this process and the bar table last saw data, and have closed by now, as far as the cap reaches back.
\<close>

definition bar_was_lost :: "'v ingestor_ports \<Rightarrow> ts \<Rightarrow> 'v feed \<Rightarrow> ts \<Rightarrow> bool" where
  "bar_was_lost P since s t \<longleftrightarrow>
     (let tf = ip_timeframe P; closes = t + timeframe_seconds tf * 10 ^ 6; now = ip_now P (fd_world s); seen = witnesses (fd_stats s)
      in 0 \<le> t \<and> floor_to_grid t tf = t \<and> closes \<le> now \<and> floor_to_grid now tf - ip_cap P \<le> t
         \<and> (since < closes \<or> seen \<noteq> [] \<and> (\<forall>w \<in> set seen. w < closes)))"

lemma asked_window_covers:
  assumes "asked_window P since s = Some (a, b)" "bar_was_lost P since s t"
    and "0 \<le> since" "\<forall>w \<in> set (witnesses (fd_stats s)). 0 \<le> w" "ip_cap P \<le> floor_to_grid (ip_now P (fd_world s)) (ip_timeframe P)"
  shows "a \<le> t \<and> t < b"
proof -
  let ?tf = "ip_timeframe P" and ?now = "ip_now P (fd_world s)"
  let ?step = "timeframe_seconds ?tf * 10 ^ 6" and ?g = "gap_start (ip_timeframe P) (fd_stats s) since"
  have t: "0 \<le> t" "floor_to_grid t ?tf = t" "t + ?step \<le> ?now" "floor_to_grid ?now ?tf - ip_cap P \<le> t"
    and lost: "since < t + ?step \<or> witnesses (fd_stats s) \<noteq> [] \<and> (\<forall>w \<in> set (witnesses (fd_stats s)). w < t + ?step)"
    using assms(2) by (simp_all add: bar_was_lost_def Let_def)
  have "0 < ?step" by simp
  then have "0 \<le> ?now" using t(1,3) by linarith
  have b: "t + ?step \<le> floor_to_grid ?now ?tf" by (rule grid_before [OF \<open>0 \<le> ?now\<close> t(1-3)])
  have g: "?g \<le> t"
  proof (cases "since < t + ?step")
    case True
    show ?thesis using gap_start_le(1) [of ?tf "fd_stats s" since] grid_after [OF assms(3) t(1,2) True] by linarith
  next
    case False
    then obtain w where "w \<in> set (witnesses (fd_stats s))" and all: "\<forall>w \<in> set (witnesses (fd_stats s)). w < t + ?step"
      using lost by (meson last_in_set)
    then obtain m where m: "m \<in> set (witnesses (fd_stats s))" "?g \<le> floor_to_grid m ?tf" using gap_start_le(2) by blast
    have "floor_to_grid m ?tf \<le> t" using m all assms(4) t by (intro grid_after) auto
    then show ?thesis using m(2) by linarith
  qed
  have "floor_to_grid (floor_to_grid ?now ?tf - ip_cap P) ?tf \<le> t"
    using floor_to_grid_bounds [of "floor_to_grid ?now ?tf - ip_cap P" ?tf] t(4) assms(5) by linarith
  moreover have "t < floor_to_grid ?now ?tf" using b \<open>0 < ?step\<close> by linarith
  ultimately show ?thesis using assms(1) g by (auto simp: asked_window_def Let_def split: if_splits)
qed

text \<open>
  C36. A reconnect declares the data good again only when every bar the outage cut off came back. Whatever the
  vendor, the table and the halt switch do: if the storage watermark moves, it moves to the instant of the
  reconnect, after one backfill of all the symbols which answered in every window and stored at least one
  bar, over a range that holds every bar that was lost.
\<close>

theorem watermark_moves_only_when_the_gap_came_back:
  assumes "ig_watermark (fd_stats (snd (on_reconnect P ev s))) \<noteq> ig_watermark (fd_stats s)"
    and "0 \<le> fr_gap_since ev" "\<forall>w \<in> set (witnesses (fd_stats s)). 0 \<le> w"
    and "ip_cap P \<le> floor_to_grid (ip_now P (fd_world s)) (ip_timeframe P)"
  shows "ig_watermark (fd_stats (snd (on_reconnect P ev s))) = Some (fr_reconnected_at ev) \<and>
    (\<exists>start stop res v. backfill_bars (ip_bars P) (fd_symbols s) (ip_timeframe P) start stop False None DEFAULT_BATCH_SIZE (fd_world s)
        = (Inr res, v) \<and> br_ok res \<and> 0 < br_written res \<and>
      (\<forall>t. bar_was_lost P (fr_gap_since ev) s t \<longrightarrow> start \<le> t \<and> t < stop))"
proof -
  have r: "recovered_by P (fr_gap_since ev) s" using assms(1) on_reconnect_stats(3) [OF refl refl, of P ev s] by (auto split: if_splits)
  then obtain a b res where w: "asked_window P (fr_gap_since ev) s = Some (a, b)"
      and res: "fst (refetch P s (a, b)) = Inr res" "br_ok res" "0 < br_written res"
    by (auto simp: recovered_by_def split: option.splits sum.splits)
  have "backfill_bars (ip_bars P) (fd_symbols s) (ip_timeframe P) a b False None DEFAULT_BATCH_SIZE (fd_world s)
      = (Inr res, snd (refetch P s (a, b)))" using res(1) by (simp add: refetch_def prod_eq_iff)
  moreover have "\<forall>t. bar_was_lost P (fr_gap_since ev) s t \<longrightarrow> a \<le> t \<and> t < b"
    using asked_window_covers [OF w _ assms(2-4)] by blast
  ultimately show ?thesis using r res on_reconnect_stats(3) [OF refl refl, of P ev s] by auto
qed

section \<open>Reconnects that bring nothing back\<close>

definition hollow :: "bar list dict \<Rightarrow> bool" where
  "hollow d \<longleftrightarrow> (\<forall>(k, bars) \<in> set d. bars = [])"

text \<open>A vendor that has nothing: every request fails or is empty.\<close>

definition vendor_silent :: "'v bar_ports \<Rightarrow> bool" where
  "vendor_silent B \<longleftrightarrow> (\<forall>syms tf a b adj v got. fst (bp_get_bars B syms tf a b adj v) = Inr got \<longrightarrow> hollow got)"

lemma hollow_set: "hollow d \<Longrightarrow> hollow (dict_set k [] d)"
  unfolding dict_set_def hollow_def by (induction d) auto

lemma hollow_fold: "hollow got \<Longrightarrow> hollow d \<Longrightarrow> hollow (fold (\<lambda>(k, x) d. dict_set k x d) got d)"
proof (induction got arbitrary: d)
  case (Cons g got)
  obtain k where "g = (k, [])" "hollow got" using Cons.prems(1) by (cases g) (auto simp: hollow_def)
  then show ?case using Cons.IH [OF _ hollow_set [OF Cons.prems(2)]] by simp
qed simp

lemma for_a_keeps:
  "for_a f xs b v = (Inr r, v') \<Longrightarrow> (\<And>x b v r v'. f x b v = (Inr r, v') \<Longrightarrow> I b \<Longrightarrow> I r) \<Longrightarrow> I b \<Longrightarrow> I r"
proof (induction xs arbitrary: b v)
  case (Cons x xs)
  obtain b1 v1 where "f x b v = (Inr b1, v1)" "for_a f xs b1 v1 = (Inr r, v')"
    using Cons.prems(1) by (auto simp: bind_a_def split: prod.splits sum.splits)
  then show ?case using Cons.IH [of b1 v1] Cons.prems(2) [of x b v b1 v1] Cons.prems(2,3) by blast
qed simp

lemma silent_window:
  assumes "vendor_silent B" "fetch_window B syms tf a b adj v = (Inr (bars, missing, used), v')"
  shows "concat (dict_values bars) = []"
proof -
  note silent = assms(1) [unfolded vendor_silent_def, rule_format]
  have one: "hollow (fst r)" if "fetch_one B tf a b adj sm c u = (Inr r, u')" "hollow (fst c)" for sm c u r u'
    using that silent [of "[sm]" tf a b adj u]
    by (cases c) (auto simp: fetch_one_def bind_attempt hollow_fold split: sum.splits if_splits)
  have "hollow bars"
  proof (cases "fst (bp_get_bars B syms tf a b adj v)")
    case (Inr got)
    then show ?thesis using assms(2) silent [OF Inr] by (auto simp: fetch_window_def bind_attempt)
  next
    case (Inl e)
    then obtain u c u' where "for_a (fetch_one B tf a b adj) syms ([], []) u = (Inr c, u')" "bars = fst c"
      using assms(2) unfolding fetch_window_def bind_attempt by (auto simp: bind_a_def split: if_splits prod.splits sum.splits)
    then show ?thesis using for_a_keeps [where I = "\<lambda>c. hollow (fst c)", of "fetch_one B tf a b adj" syms "([], [])" u c u'] one
      by (simp add: hollow_def)
  qed
  then show ?thesis by (auto simp: dict_values_def hollow_def)
qed

lemma silent_backfill:
  assumes silent: "vendor_silent B" and "backfill_bars B syms tf a b adj days n v = (Inr res, v')"
  shows "br_written res = 0"
proof -
  have batch: "br_written r = 0" if "backfill_batch B tf adj w batch pr u = (Inr r, u')" "br_written pr = 0" for w batch pr u r u'
    using that silent_window [OF silent] by (auto simp: backfill_batch_def bind_a_def Let_def split: prod.splits sum.splits if_splits)
  have window: "br_written r = 0" if "backfill_window B tf adj n sy w pr u = (Inr r, u')" "br_written pr = 0" for sy w pr u r u'
    using that by (auto simp: backfill_window_def bind_a_def split: prod.splits sum.splits
        dest!: for_a_keeps [where I = "\<lambda>c. br_written c = 0", OF _ batch])
  show ?thesis
    using assms(2) by (auto simp: backfill_bars_def bind_a_def split: prod.splits sum.splits
        dest!: for_a_keeps [where I = "\<lambda>c. br_written c = 0", OF _ window])
qed
lemma fruitless:
  assumes "vendor_silent (ip_bars P)"
  shows "\<not> recovered_by P since s"
  using silent_backfill [OF assms] by (fastforce simp: recovered_by_def refetch_def prod_eq_iff split: option.splits sum.splits)

text \<open>A storm of reconnects, each handled to its end or to an exception.\<close>

definition storm :: "'v ingestor_ports \<Rightarrow> feed_reconnected list \<Rightarrow> 'v feed \<Rightarrow> 'v feed" where
  "storm P evs s = fold (\<lambda>ev s. snd (on_reconnect P ev s)) evs s"

lemma storm_stats:
  assumes "vendor_silent (ip_bars P)"
  shows "ig_watermark (fd_stats (storm P evs s)) = ig_watermark (fd_stats s)
    \<and> ig_last_message (fd_stats (storm P evs s)) = ig_last_message (fd_stats s)
    \<and> ig_connected_since (fd_stats (storm P evs s)) =
        (if evs = [] then ig_connected_since (fd_stats s) else Some (fr_reconnected_at (last evs)))"
proof (induction evs arbitrary: s)
  case (Cons ev evs)
  show ?case using Cons.IH [of "snd (on_reconnect P ev s)"] on_reconnect_stats [OF refl refl, of P ev s] fruitless [OF assms]
    by (simp add: storm_def)
qed (simp add: storm_def)

lemma evaluate_silence_cong:
  assumes "ig_watermark st = ig_watermark st'" "ig_last_message st = ig_last_message st'"
    and "witnesses st = [] \<Longrightarrow> ig_connected_since st = ig_connected_since st'"
  shows "evaluate_silence cs limit st now = evaluate_silence cs limit st' now"
proof -
  have k: "known_good st = known_good st'" using assms by (simp add: known_good_def witnesses_def)
  show ?thesis by (simp only: evaluate_silence_def k assms(2))
qed

text \<open>
  C35. An outage cannot be hidden by the reconnects it causes. While the vendor has nothing, as many reconnects
  as there may be, claiming whatever origin, leave what the watchdog says at every instant as it was,
  provided data was ever seen, by this process or in the bar table. And no reconnect, fruitless or not,
  can pass for the data that ends an outage.
\<close>

theorem reconnects_do_not_hide_an_outage:
  assumes "vendor_silent (ip_bars P)" "witnesses (fd_stats s) \<noteq> []"
  shows "evaluate_silence cs limit (fd_stats (storm P evs s)) now = evaluate_silence cs limit (fd_stats s) now"
  using storm_stats [OF assms(1), of evs s] assms(2) by (intro evaluate_silence_cong) (auto simp: witnesses_def)

lemma older_than: "(limit < now - fold max ks w) = (\<forall>good \<in> insert w (set ks). good + limit < now)" for w :: int
  using fold_max_le [of ks w "now - limit - 1"] by auto

lemma verdict_of_silence:
  assumes "evaluate_silence cs limit st now = Inr v"
  shows "vd_stale v \<longleftrightarrow> (\<exists>d. session_on cs (cs_local_date cs now) = Inr (Some d) \<and> ss_open d \<le> now \<and> now < ss_close d
      \<and> (\<forall>good \<in> insert (ss_open d) (set (known_good st)). good + limit * 10 ^ 6 < now))"
    and "vd_current v \<longleftrightarrow> (\<exists>d m. session_on cs (cs_local_date cs now) = Inr (Some d) \<and> ss_open d \<le> now \<and> now < ss_close d
      \<and> ig_last_message st = Some m \<and> ss_open d \<le> m \<and> now - m \<le> limit * 10 ^ 6)"
    and "vd_market_open v \<longleftrightarrow> (\<exists>d. session_on cs (cs_local_date cs now) = Inr (Some d) \<and> ss_open d \<le> now \<and> now < ss_close d)"
  using assms unfolding evaluate_silence_def Let_def older_than
  by (auto simp: bind_r_def market_shut_def split: sum.splits option.splits if_splits)

lemma current_is_not_stale: "evaluate_silence cs limit st now = Inr v \<Longrightarrow> vd_current v \<Longrightarrow> vd_market_open v \<and> \<not> vd_stale v"
  by (simp add: verdict_of_silence) (fastforce simp: known_good_def witnesses_def List.map_filter_def)
text \<open>
  Where that falls short. Until data was seen the watchdog goes by the connection, and a reconnect counts as
  one: a feed that flaps faster than the limit is never reported, for as long as it never delivers.
\<close>

theorem flapping_feed_goes_unreported:
  assumes "vendor_silent (ip_bars P)" "witnesses (fd_stats s) = []" "evs \<noteq> []"
    and "now \<le> fr_reconnected_at (last evs) + limit * 10 ^ 6"
    and "evaluate_silence cs limit (fd_stats (storm P evs s)) now = Inr v"
  shows "\<not> vd_stale v"
proof -
  have "fr_reconnected_at (last evs) \<in> set (known_good (fd_stats (storm P evs s)))"
    using storm_stats [OF assms(1), of evs s] assms(2,3) by (simp add: known_good_def witnesses_def List.map_filter_def split: if_splits)
  then show ?thesis using assms(4) unfolding verdict_of_silence(1) [OF assms(5)] by fastforce
qed

text \<open>
  A refetch that fails is a halt. When the vendor or the table answers a reconnect's backfill with a data
  error, the halt switch is asked, once, for a global halt that names the range; the watermark stays, and
  the ingestor goes on unless the switch itself raises.
\<close>

theorem failed_refetch_halts:
  assumes "asked_window P (fr_gap_since ev) s = Some w" "refetch P s w = (Inl e, v)" "is_data_error e" "ip_engage P = Some f"
    and "rq = \<lparr>hq_scope = GLOBAL, hq_reason = DATA_FEED_LOST, hq_by = STREAM_ACTOR, hq_detail = hole_detail w, hq_unproven = []\<rparr>"
  shows "dispatch_event P (ReconnectEvent ev) s = (fst (f rq v), (reconnecting ev s)\<lparr>fd_world := snd (f rq v)\<rparr>)
    \<and> ig_watermark (fd_stats (reconnecting ev s)) = ig_watermark (fd_stats s)"
proof -
  have "on_reconnect P ev s = bind_a (backfill_gap P (fr_gap_since ev)) (\<lambda>repair. case repair of
       None \<Rightarrow> ret ()
     | Some g \<Rightarrow>
         bind_a (note_stats (\<lambda>st. st\<lparr>ig_gaps_backfilled := ig_gaps_backfilled st + gp_written g\<rparr>)) (\<lambda>_.
         if \<not> gp_recovered g then ret ()
         else note_stats (\<lambda>st. st\<lparr>ig_watermark := Some (fr_reconnected_at ev)\<rparr>))) (reconnecting ev s)"
    by (simp add: on_reconnect_def bind_a_run [of "note_stats _"] note_stats_run reconnecting_def)
  also have "\<dots> = (fst (f rq v), (reconnecting ev s)\<lparr>fd_world := snd (f rq v)\<rparr>)"
    using assms(1-4) unfolding bind_a_run backfill_gap_run assms(5)
    by (cases "fst (f rq v)") (auto simp: halt_feed_def fed_run assms(5) split: sum.split)
  finally show ?thesis by (simp add: reconnecting_def)
qed

section \<open>The watchdog\<close>

text \<open>Turns of the watchdog with anything in between: the states before and after each, up to one that raises.\<close>

fun watch_run :: "'v watchdog_ports \<Rightarrow> ('v feed \<Rightarrow> 'v feed) list \<Rightarrow> 'v feed \<Rightarrow> ('v feed \<times> 'v feed) list" where
  "watch_run W [] s = []"
| "watch_run W (h # hs) s =
     (h s, snd (watch_turn W (h s))) # (case fst (watch_turn W (h s)) of Inl e \<Rightarrow> [] | Inr _ \<Rightarrow> watch_run W hs (snd (watch_turn W (h s))))"

definition verdict_at :: "'v watchdog_ports \<Rightarrow> 'v feed \<Rightarrow> exn + staleness_verdict" where
  "verdict_at W s = evaluate_silence (wd_calendar W) (wd_max_silence W) (fd_stats s) (ip_now (wd_ingestor W) (wd_sleep W (fd_world s)))"

text \<open>\<open>asked\<close> reads off the world the halts the watchdog asked for; only the switch writes there.\<close>

definition records_halts :: "'v watchdog_ports \<Rightarrow> ('v \<Rightarrow> halt_request list) \<Rightarrow> bool" where
  "records_halts W asked \<longleftrightarrow>
     (\<exists>f. ip_engage (wd_ingestor W) = Some f \<and> (\<forall>rq v. asked (snd (f rq v)) = asked v @ [rq]))
     \<and> (\<forall>v. asked (wd_sleep W v) = asked v) \<and> (\<forall>v. asked (snd (wd_engaged W v)) = asked v)
     \<and> (\<forall>send b v. wd_alert W = Some send \<longrightarrow> asked (snd (send b v)) = asked v)"

definition outage_request :: "staleness_verdict \<Rightarrow> halt_request" where
  "outage_request v = \<lparr>hq_scope = GLOBAL, hq_reason = DATA_FEED_LOST, hq_by = STALENESS_ACTOR, hq_detail = vd_reason v, hq_unproven = []\<rparr>"

lemma announce_recovery_keeps:
  assumes "records_halts W asked"
  shows "asked (fd_world (snd (announce_recovery W s))) = asked (fd_world s) \<and> fd_alerted (snd (announce_recovery W s)) = fd_alerted s"
  using assms by (auto simp: announce_recovery_def records_halts_def fed_run split: option.split sum.split)

lemma watch_turn_effect:
  assumes "records_halts W asked"
  shows "fd_alerted (snd (watch_turn W s)) = (case verdict_at W s of Inl e \<Rightarrow> fd_alerted s | Inr v \<Rightarrow>
      if fd_alerted s then vd_market_open v \<and> \<not> vd_current v else vd_stale v)"
    and "asked (fd_world (snd (watch_turn W s))) = asked (fd_world s) @ (case verdict_at W s of Inl e \<Rightarrow> [] | Inr v \<Rightarrow>
      if vd_stale v \<and> \<not> fd_alerted s then [outage_request v] else [])"
  using assms announce_recovery_keeps [OF assms]
  by (auto simp: watch_turn_def fed_run verdict_at_def set_alerted_def halt_feed_def outage_request_def records_halts_def split: sum.split option.split)
definition stale_turn :: "'v watchdog_ports \<Rightarrow> 'v feed \<times> 'v feed \<Rightarrow> bool" where
  "stale_turn W t \<longleftrightarrow> (\<exists>v. verdict_at W (fst t) = Inr v \<and> vd_stale v)"

definition rearming_turn :: "'v watchdog_ports \<Rightarrow> 'v feed \<times> 'v feed \<Rightarrow> bool" where
  "rearming_turn W t \<longleftrightarrow> (\<exists>v. verdict_at W (fst t) = Inr v \<and> (\<not> vd_market_open v \<or> vd_current v))"

definition keeps_watch :: "('v \<Rightarrow> halt_request list) \<Rightarrow> ('v feed \<Rightarrow> 'v feed) \<Rightarrow> bool" where
  "keeps_watch asked h \<longleftrightarrow> (\<forall>s. fd_alerted (h s) = fd_alerted s \<and> asked (fd_world (h s)) = asked (fd_world s))"

lemma watch_run_chain:
  assumes "\<forall>h \<in> set hs. keeps_watch asked h"
  shows "i < length (watch_run W hs s) \<Longrightarrow>
      snd (watch_run W hs s ! i) = snd (watch_turn W (fst (watch_run W hs s ! i)))
      \<and> fd_alerted (fst (watch_run W hs s ! i)) = fd_alerted (if i = 0 then s else snd (watch_run W hs s ! (i - 1)))"
  using assms
proof (induction hs arbitrary: s i)
  case (Cons h hs)
  show ?case
  proof (cases i)
    case 0
    then show ?thesis using Cons.prems by (simp add: keeps_watch_def)
  next
    case (Suc k)
    obtain x where x: "fst (watch_turn W (h s)) = Inr x" using Cons.prems(1) Suc by (auto split: sum.splits)
    have "k < length (watch_run W hs (snd (watch_turn W (h s))))" using Cons.prems(1) Suc x by simp
    from Cons.IH [OF this] show ?thesis using Cons.prems(2) Suc x by (cases k) auto
  qed
qed simp

lemma alerted_since:
  assumes "records_halts W asked" "\<forall>h \<in> set hs. keeps_watch asked h" "\<not> fd_alerted s"
  shows "i < length (watch_run W hs s) \<Longrightarrow> fd_alerted (fst (watch_run W hs s ! i)) \<longleftrightarrow>
    (\<exists>j < i. stale_turn W (watch_run W hs s ! j) \<and> (\<forall>k. j < k \<and> k < i \<longrightarrow> \<not> rearming_turn W (watch_run W hs s ! k)))"
proof (induction i)
  case 0
  then show ?case using watch_run_chain [OF assms(2) 0] assms(3) by simp
next
  case (Suc i)
  let ?r = "watch_run W hs s"
  have i: "i < length ?r" using Suc.prems by simp
  have a: "fd_alerted (fst (?r ! Suc i)) = (case verdict_at W (fst (?r ! i)) of Inl e \<Rightarrow> fd_alerted (fst (?r ! i))
      | Inr v \<Rightarrow> if fd_alerted (fst (?r ! i)) then vd_market_open v \<and> \<not> vd_current v else vd_stale v)"
    using watch_run_chain [OF assms(2) Suc.prems] watch_run_chain [OF assms(2) i] watch_turn_effect(1) [OF assms(1)] by simp
  have open_if: "vd_market_open v \<and> \<not> vd_current v" if "verdict_at W (fst (?r ! i)) = Inr v" "vd_stale v" for v
    using that verdict_of_silence(1,3) [of _ _ _ _ v] current_is_not_stale [of _ _ _ _ v] unfolding verdict_at_def by blast
  have "fd_alerted (fst (?r ! Suc i)) \<longleftrightarrow> stale_turn W (?r ! i) \<or> fd_alerted (fst (?r ! i)) \<and> \<not> rearming_turn W (?r ! i)"
    using a open_if by (auto simp: stale_turn_def rearming_turn_def split: sum.splits if_splits)
  then show ?case using Suc.IH [OF i] by (auto simp: less_Suc_eq)
qed

text \<open>
  C34. An outage is halted once, and none goes by. Take the watchdog's turns in their order, with anything at
  all happening to the feed between them. At a turn that finds the feed stale it asks the switch for
  exactly one global halt, unless it already did at an earlier stale turn since which neither the market
  was shut nor a fresh frame had arrived; at every other turn it asks for none.
\<close>

theorem outage_is_halted_once:
  assumes "records_halts W asked" "\<forall>h \<in> set hs. keeps_watch asked h" "\<not> fd_alerted s"
    and run: "run = watch_run W hs s" "i < length run"
  shows "asked (fd_world (snd (run ! i))) = asked (fd_world (fst (run ! i))) @
    (if stale_turn W (run ! i) \<and> (\<forall>j < i. stale_turn W (run ! j) \<longrightarrow> (\<exists>k. j < k \<and> k < i \<and> rearming_turn W (run ! k)))
     then [outage_request (projr (verdict_at W (fst (run ! i))))] else [])"
proof -
  have "snd (run ! i) = snd (watch_turn W (fst (run ! i)))" using watch_run_chain [OF assms(2) run(2) [unfolded run(1)]] run(1) by simp
  moreover have "fd_alerted (fst (run ! i)) \<longleftrightarrow>
      \<not> (\<forall>j < i. stale_turn W (run ! j) \<longrightarrow> (\<exists>k. j < k \<and> k < i \<and> rearming_turn W (run ! k)))"
    using alerted_since [OF assms(1-3) run(2) [unfolded run(1)]] run(1) by auto
  ultimately show ?thesis using watch_turn_effect(2) [OF assms(1), of "fst (run ! i)"]
    by (auto simp: stale_turn_def split: sum.splits)
qed
section \<open>Witnesses\<close>

text \<open>A feed at a fixed instant whose world is the list of the halts asked for, over a vendor that gives \<open>got\<close>.\<close>

definition sample_feed_ports :: "ts \<Rightarrow> (exn + bar list dict) \<Rightarrow> halt_request list ingestor_ports" where
  "sample_feed_ports now got = \<lparr>ip_bars = \<lparr>bp_get_bars = (\<lambda>_ _ _ _ _ v. (got, v)), bp_upsert = (\<lambda>bs v. (Inr (int (length bs)), v)),
       bp_find_gaps = (\<lambda>_ _ _ _ v. (Inr [], v))\<rparr>,
     ip_last_n = (\<lambda>_ _ _ v. (Inr [], v)), ip_set_quote = (\<lambda>_ v. (Inr (), v)), ip_publish = None,
     ip_engage = Some (\<lambda>rq v. (Inr (), v @ [rq])), ip_now = (\<lambda>_. now), ip_subscribe = (\<lambda>_ v. (Inr (), v)),
     ip_next = (\<lambda>v. (Inr None, v)), ip_timeframe = M1, ip_cap = 120 * 10 ^ 6, ip_decimal = (\<lambda>_. []), ip_say = (\<lambda>_. [])\<rparr>"

definition sample_feed :: "ts option \<Rightarrow> halt_request list feed" where
  "sample_feed watermark = \<lparr>fd_world = [], fd_symbols = [''AAPL''],
     fd_stats = fresh_stats\<lparr>ig_connected_since := Some 0, ig_watermark := watermark\<rparr>, fd_alerted = False\<rparr>"

definition sample_watchdog :: "halt_request list watchdog_ports" where
  "sample_watchdog = \<lparr>wd_ingestor = sample_feed_ports 138700000000 (Inr []), wd_max_silence = 60, wd_calendar = sample_calendar,
     wd_sleep = id, wd_alert = None, wd_engaged = (\<lambda>v. (Inr (v \<noteq> []), v))\<rparr>"

lemma sample_window: "asked_window (sample_feed_ports 185000000 got) 70000000 (sample_feed None) = Some (60000000, 180000000)"
  by (simp add: asked_window_def sample_feed_ports_def sample_feed_def gap_start_def witnesses_def fresh_stats_def List.map_filter_def
      floor_to_grid_def Let_def)

lemma sample_refetch:
  "refetch (sample_feed_ports 185000000 (Inr [(''AAPL'', [b])])) (sample_feed None) (60000000, 180000000)
     = (Inr \<lparr>br_symbols = [''AAPL''], br_written = 1, br_windows = 1, br_requests = 1, br_empty = []\<rparr>, [])"
  "refetch (sample_feed_ports 185000000 (Inl (DataError r))) (sample_feed None) (60000000, 180000000) = (Inl (DataError r), [])"
proof -
  have up: "str_upper ''AAPL'' = ''AAPL''" by code_simp
  have w: "windows_from 2592000000000 60000000 180000000 = [(60000000, 180000000)]"
    by (simp add: windows_from.simps)
  have c: "chunks 20 [''AAPL''] = [[''AAPL'']]" by code_simp
  note run = refetch_def sample_feed_ports_def sample_feed_def backfill_bars_def check_symbols_def up iter_windows_def window_days_for_def DAY_US_def w
    backfill_window_def batches_def c DEFAULT_BATCH_SIZE_def dedup_def backfill_batch_def fetch_window_def is_data_gap_def
  show "refetch (sample_feed_ports 185000000 (Inr [(''AAPL'', [b])])) (sample_feed None) (60000000, 180000000)
     = (Inr \<lparr>br_symbols = [''AAPL''], br_written = 1, br_windows = 1, br_requests = 1, br_empty = []\<rparr>, [])"
    "refetch (sample_feed_ports 185000000 (Inl (DataError r))) (sample_feed None) (60000000, 180000000) = (Inl (DataError r), [])"
    by (simp_all add: run bind_a_run attempt_run Let_def dict_values_def)
qed

theorem watermark_moves_only_when_the_gap_came_back_witness:
  "\<exists>s' start stop. s' = snd (on_reconnect (sample_feed_ports 185000000 (Inr [(''AAPL'', [sample_bar])]))
       \<lparr>fr_gap_since = 70000000, fr_reconnected_at = 183000000, fr_attempts = 1\<rparr> (sample_feed None))
     \<and> ig_watermark (fd_stats s') = Some 183000000 \<and> start \<le> (60000000 :: ts) \<and> 60000000 < (stop :: ts)"
proof -
  let ?P = "sample_feed_ports 185000000 (Inr [(''AAPL'', [sample_bar])])" and ?s = "sample_feed None"
  let ?ev = "\<lparr>fr_gap_since = 70000000, fr_reconnected_at = 183000000, fr_attempts = 1\<rparr>"
  have r: "recovered_by ?P (fr_gap_since ?ev) ?s" by (simp add: recovered_by_def sample_window sample_refetch br_ok_def)
  have moved: "ig_watermark (fd_stats (snd (on_reconnect ?P ?ev ?s))) \<noteq> ig_watermark (fd_stats ?s)"
    using on_reconnect_stats(3) [OF refl refl, of ?P ?ev ?s] r by (simp add: sample_feed_def)
  have none: "witnesses (fd_stats ?s) = []" by (simp add: sample_feed_def fresh_stats_def witnesses_def List.map_filter_def)
  have lost: "bar_was_lost ?P 70000000 ?s 60000000"
    by (simp add: bar_was_lost_def none) (simp add: sample_feed_ports_def floor_to_grid_def Let_def)
  from watermark_moves_only_when_the_gap_came_back [OF moved] none lost show ?thesis
    by (fastforce simp: sample_feed_ports_def floor_to_grid_def)
qed

lemma sample_verdict:
  "evaluate_silence sample_calendar 60 (fd_stats (sample_feed (Some 0))) 138700000000 = Inr v \<Longrightarrow> vd_stale v"
  "\<exists>v. evaluate_silence sample_calendar 60 (fd_stats (sample_feed (Some 0))) 138700000000 = Inr v"
  by (simp_all add: evaluate_silence_def sample_session_on, simp_all add: sample_calendar_def utc_date_def DAY_US_def EPOCH_ORD_def
      known_good_def sample_feed_def fresh_stats_def witnesses_def List.map_filter_def Let_def, auto)

theorem reconnects_do_not_hide_an_outage_witness:
  "\<exists>v. evaluate_silence sample_calendar 60 (fd_stats (storm (sample_feed_ports 138695000000 (Inr []))
       [\<lparr>fr_gap_since = 138690000000, fr_reconnected_at = 138695000000, fr_attempts = 1\<rparr>] (sample_feed (Some 0)))) 138700000000 = Inr v
     \<and> vd_stale v"
proof -
  have "vendor_silent (ip_bars (sample_feed_ports 138695000000 (Inr [])))" by (simp add: vendor_silent_def sample_feed_ports_def hollow_def)
  moreover have "witnesses (fd_stats (sample_feed (Some 0))) \<noteq> []" by (simp add: sample_feed_def witnesses_def List.map_filter_def)
  ultimately show ?thesis using sample_verdict by (simp add: reconnects_do_not_hide_an_outage) blast
qed

theorem failed_refetch_halts_witness:
  "\<exists>s' rq. dispatch_event (sample_feed_ports 185000000 (Inl (DataError (Reason [] [] []))))
       (ReconnectEvent \<lparr>fr_gap_since = 70000000, fr_reconnected_at = 183000000, fr_attempts = 1\<rparr>) (sample_feed None) = (Inr (), s')
     \<and> fd_world s' = [rq] \<and> hq_reason rq = DATA_FEED_LOST \<and> ig_watermark (fd_stats s') = None"
proof -
  let ?P = "sample_feed_ports 185000000 (Inl (DataError (Reason [] [] [])))" and ?s = "sample_feed None"
  let ?ev = "\<lparr>fr_gap_since = 70000000, fr_reconnected_at = 183000000, fr_attempts = 1\<rparr>"
  have "asked_window ?P (fr_gap_since ?ev) ?s = Some (60000000, 180000000)" by (simp add: sample_window)
  from failed_refetch_halts [OF this sample_refetch(2) _ _ refl, of "\<lambda>rq v. (Inr (), v @ [rq])"] show ?thesis
    by (simp add: sample_feed_ports_def sample_feed_def)
qed

theorem outage_is_halted_once_witness:
  "\<exists>r0 r1. watch_run sample_watchdog [id, id] (sample_feed (Some 0)) = [r0, r1]
     \<and> (\<exists>rq. fd_world (snd r0) = [rq] \<and> fd_world (snd r1) = fd_world (fst r1))"
proof -
  let ?W = sample_watchdog and ?s = "sample_feed (Some 0)" and ?run = "watch_run sample_watchdog [id, id] (sample_feed (Some 0))"
  have rec: "records_halts ?W id" by (simp add: records_halts_def sample_watchdog_def sample_feed_ports_def)
  have "\<forall>h \<in> set [id, id]. keeps_watch id h" by (simp add: keeps_watch_def)
  note once = outage_is_halted_once [OF rec this]
  have v: "verdict_at ?W s = evaluate_silence sample_calendar 60 (fd_stats s) 138700000000" for s
    by (simp add: verdict_at_def sample_watchdog_def sample_feed_ports_def)
  obtain vd where vd: "evaluate_silence sample_calendar 60 (fd_stats ?s) 138700000000 = Inr vd" "vd_stale vd" using sample_verdict by blast
  have t0: "watch_turn ?W ?s = (Inr (), ?s\<lparr>fd_world := [outage_request vd], fd_alerted := True\<rparr>)"
    using vd by (simp add: watch_turn_def fed_run sample_watchdog_def set_alerted_def halt_feed_def)
       (simp add: sample_feed_ports_def sample_feed_def outage_request_def fed_run set_alerted_def halt_feed_def)
  obtain r1 where run: "[(?s, snd (watch_turn ?W ?s)), r1] = ?run" by (simp add: t0 split: sum.split)
  have "stale_turn ?W (?s, snd (watch_turn ?W ?s))" by (simp add: stale_turn_def v vd)
  then have "fd_world (snd r1) = fd_world (fst r1)" using once [OF _ run, of 1] by (simp add: sample_feed_def)
  moreover have "fd_world (snd (?s, snd (watch_turn ?W ?s))) = [outage_request vd]" by (simp add: t0)
  ultimately show ?thesis using run [symmetric] by (intro exI [of _ "(?s, snd (watch_turn ?W ?s))"] exI [of _ r1] conjI exI [of _ "outage_request vd"])
qed
end
