(* ===== verification/RuleSets.thy ===== *)
theory RuleSets
  imports Backtest Runner
begin

text \<open>
  \<open>strategy/rules.py\<close>: a strategy written as data. A rule set is two entry trees and an exit tree of
  conditions over prices and indicators; a walk of a tree answers true, false or cannot say. Floats and
  the indicators, which are numpy, are the record \<open>floats\<close> of functions on a type \<open>'f\<close>; nothing is assumed of
  the comparisons. A condition group is built with exactly one branch (\<open>new_group\<close>) and is that branch
  afterwards. The compiled rule set has the interface both the replay and the live runner drive. The
  history it reads is the one of the run, whose bars are all of one timeframe; texts are in ASCII.
\<close>

datatype price_field = POpen | PHigh | PLow | PClose | PVolume

datatype operand =
  Indicator string "int option" price_field int "string list"
| PriceOf price_field int
| Constant dec

datatype comparator = OpLt | OpLe | OpGt | OpGe | OpEq | OpNe | CrossesAbove | CrossesBelow

datatype node =
  Condition operand comparator operand
| AllOf "node list"
| AnyOf "node list"
| NoneOf "node list"

definition offset_of :: "operand \<Rightarrow> int" where
  "offset_of x = (case x of Indicator n p f k params \<Rightarrow> k | PriceOf f k \<Rightarrow> k | Constant v \<Rightarrow> 0)"

definition new_operand :: "operand \<Rightarrow> exn + operand" where
  "new_operand x = (if offset_of x < 0 then Inl (value_error ''offset must be at least 0'') else Inr x)"

definition new_group :: "node list option \<Rightarrow> node list option \<Rightarrow> node list option \<Rightarrow> exn + node" where
  "new_group all_of any_of none_of =
     (case (all_of, any_of, none_of) of
        (Some xs, None, None) \<Rightarrow> Inr (AllOf xs)
      | (None, Some xs, None) \<Rightarrow> Inr (AnyOf xs)
      | (None, None, Some xs) \<Rightarrow> Inr (NoneOf xs)
      | _ \<Rightarrow> Inl (value_error ''a condition group needs exactly one of all/any/none''))"

record stop_spec =
  sp_type :: stop_type
  sp_value :: "dec option"
  sp_multiplier :: "dec option"
  sp_period :: "int option"
  sp_bars :: "int option"

definition MAX_RISK_PCT :: dec where "MAX_RISK_PCT = 1 / 10"

definition new_size_spec :: "string \<Rightarrow> dec \<Rightarrow> dec option \<Rightarrow> exn + size_spec" where
  "new_size_spec kind v max_position =
     (if kind \<notin> {''fixed_qty'', ''fixed_notional'', ''equity_pct'', ''risk_pct'', ''volatility_target''}
      then Inl (value_error ''unknown sizing method'')
      else if v \<le> 0 then Inl (value_error ''value must be positive'')
      else if (case max_position of None \<Rightarrow> False | Some m \<Rightarrow> m \<le> 0 \<or> 1 < m) then Inl (value_error ''max_position_pct is outside (0, 1]'')
      else if kind \<in> {''equity_pct'', ''risk_pct'', ''volatility_target''} \<and> 1 < v
      then Inl (value_error ''takes a fraction of equity'')
      else if kind = ''risk_pct'' \<and> MAX_RISK_PCT < v then Inl (value_error ''risk_pct is past the backstop'')
      else Inr \<lparr>ps_type = kind, ps_value = v\<rparr>)"

record risk_spec =
  rk_stop_loss :: "stop_spec option"
  rk_take_profit :: "stop_spec option"
  rk_size :: size_spec
  rk_max_holding :: "int option"
  rk_flatten_at_close :: bool

record rule_set =
  rt_name :: string
  rt_description :: string
  rt_universe :: "string list"
  rt_timeframe :: timeframe
  rt_entry_long :: "node option"
  rt_entry_short :: "node option"
  rt_exit :: "node option"
  rt_risk :: risk_spec
  rt_max_positions :: int
  rt_cooldown :: int

definition new_rule_set :: "rule_set \<Rightarrow> exn + rule_set" where
  "new_rule_set r =
     (if rt_universe r = [] then Inl (value_error ''universe needs at least one symbol'')
      else if rt_max_positions r < 1 then Inl (value_error ''max_concurrent_positions must be at least 1'')
      else if rt_cooldown r < 0 then Inl (value_error ''cooldown_bars must be at least 0'')
      else if rt_entry_long r = None \<and> rt_entry_short r = None
      then Inl (value_error ''a rule set needs at least one of entry_long / entry_short'')
      else if rt_exit r = None \<and> rk_stop_loss (rt_risk r) = None
      then Inl (value_error ''a rule set with no exit condition and no stop loss can never close a position'')
      else Inr r)"

section \<open>History a rule set needs\<close>

definition KNOWN_INDICATORS :: "string list" where "KNOWN_INDICATORS = [''sma'', ''ema'', ''rsi'', ''stddev'', ''atr'']"

definition min_bars :: "string \<Rightarrow> int \<Rightarrow> exn + int" where
  "min_bars name period =
     (if name \<notin> set KNOWN_INDICATORS then Inl (StrategyError (Reason ''unknown indicator'' [name] []))
      else Inr (if name \<in> {''rsi'', ''atr''} then period + 1 else period))"

definition is_crossing :: "comparator \<Rightarrow> bool" where
  "is_crossing c \<longleftrightarrow> c = CrossesAbove \<or> c = CrossesBelow"

definition period_or_zero :: "int option \<Rightarrow> int" where
  "period_or_zero p = (case p of None \<Rightarrow> 0 | Some k \<Rightarrow> k)"

fun operand_bars :: "operand \<Rightarrow> exn + int" where
  "operand_bars (Indicator name period f k params) = bind_r (min_bars name (period_or_zero period)) (\<lambda>n. Inr (n + k))"
| "operand_bars (PriceOf f k) = Inr (k + 1)"
| "operand_bars (Constant v) = Inr 0"

fun bars_needed :: "node \<Rightarrow> exn + int" and bars_needed_all :: "node list \<Rightarrow> exn + int list" where
  "bars_needed (Condition l c r) =
     bind_r (operand_bars l) (\<lambda>a. bind_r (operand_bars r) (\<lambda>b. Inr (max a b + (if is_crossing c then 1 else 0))))"
| "bars_needed (AllOf xs) = bind_r (bars_needed_all xs) (\<lambda>ns. Inr (if ns = [] then 0 else Max (set ns)))"
| "bars_needed (AnyOf xs) = bind_r (bars_needed_all xs) (\<lambda>ns. Inr (if ns = [] then 0 else Max (set ns)))"
| "bars_needed (NoneOf xs) = bind_r (bars_needed_all xs) (\<lambda>ns. Inr (if ns = [] then 0 else Max (set ns)))"
| "bars_needed_all [] = Inr []"
| "bars_needed_all (x # xs) = bind_r (bars_needed x) (\<lambda>n. bind_r (bars_needed_all xs) (\<lambda>ns. Inr (n # ns)))"

definition trees_of :: "rule_set \<Rightarrow> node list" where
  "trees_of r = List.map_filter id [rt_entry_long r, rt_entry_short r, rt_exit r]"

definition stop_bars :: "stop_spec option \<Rightarrow> int \<Rightarrow> exn + int" where
  "stop_bars stop needed =
     (case stop of None \<Rightarrow> Inr needed
      | Some sp \<Rightarrow> (case sp_period sp of None \<Rightarrow> Inr needed | Some p \<Rightarrow> bind_r (min_bars ''atr'' p) (\<lambda>n. Inr (max needed n))))"

definition required_warmup :: "rule_set \<Rightarrow> exn + int" where
  "required_warmup r =
     bind_r (bars_needed_all (trees_of r)) (\<lambda>ns.
     bind_r (stop_bars (rk_stop_loss (rt_risk r)) (if ns = [] then 0 else Max (set ns)))
       (stop_bars (rk_take_profit (rt_risk r))))"

section \<open>What is refused\<close>

fun refuse_operand :: "operand \<Rightarrow> exn + unit" where
  "refuse_operand (Indicator name period f k params) =
     (if name \<notin> set KNOWN_INDICATORS then Inl (InvalidRuleError (Reason ''unknown indicator'' [name] []))
      else if period_or_zero period < 1 then Inl (InvalidRuleError (Reason ''needs a period of at least 1'' [name] []))
      else if f \<noteq> PClose then Inl (InvalidRuleError (Reason ''computes on closes'' [name] []))
      else if params \<noteq> [] then Inl (InvalidRuleError (Reason ''takes no extra params'' (name # str_sort params) []))
      else Inr ())"
| "refuse_operand _ = Inr ()"

definition empty_group :: exn where
  "empty_group = InvalidRuleError (Reason ''an empty condition group is never what was meant'' [] [])"

fun refuse_node :: "node \<Rightarrow> exn + unit" and refuse_all :: "node list \<Rightarrow> exn + unit" where
  "refuse_node (Condition l c r) = bind_r (refuse_operand l) (\<lambda>_. refuse_operand r)"
| "refuse_node (AllOf xs) = (if xs = [] then Inl empty_group else refuse_all xs)"
| "refuse_node (AnyOf xs) = (if xs = [] then Inl empty_group else refuse_all xs)"
| "refuse_node (NoneOf xs) = (if xs = [] then Inl empty_group else refuse_all xs)"
| "refuse_all [] = Inr ()"
| "refuse_all (x # xs) = bind_r (refuse_node x) (\<lambda>_. refuse_all xs)"

definition refuse_what_cannot_run :: "rule_set \<Rightarrow> exn + unit" where
  "refuse_what_cannot_run r =
     bind_r (refuse_all (trees_of r)) (\<lambda>_.
     if rk_flatten_at_close (rt_risk r) then Inl (InvalidRuleError (Reason ''flatten_at_close is not modelled yet'' [] []))
     else Inr ())"

section \<open>Walking a tree\<close>

record 'f floats =
  fl_of :: "dec \<Rightarrow> 'f"
  fl_lt :: "'f \<Rightarrow> 'f \<Rightarrow> bool"
  fl_le :: "'f \<Rightarrow> 'f \<Rightarrow> bool"
  fl_eq :: "'f \<Rightarrow> 'f \<Rightarrow> bool"
  fl_compute :: "string \<Rightarrow> bar list \<Rightarrow> int \<Rightarrow> exn + 'f option"
  fl_shown :: "'f \<Rightarrow> string"
  fl_written :: "dec \<Rightarrow> string"

record 'f walk =
  wk_memo :: "((string \<times> int) \<times> 'f option) list"
  wk_values :: "'f dict"

definition field_name :: "price_field \<Rightarrow> string" where
  "field_name f = (case f of POpen \<Rightarrow> ''open'' | PHigh \<Rightarrow> ''high'' | PLow \<Rightarrow> ''low'' | PClose \<Rightarrow> ''close'' | PVolume \<Rightarrow> ''volume'')"

definition field_of :: "price_field \<Rightarrow> bar \<Rightarrow> dec" where
  "field_of f b = (case f of POpen \<Rightarrow> b_open b | PHigh \<Rightarrow> b_high b | PLow \<Rightarrow> b_low b | PClose \<Rightarrow> b_close b | PVolume \<Rightarrow> b_volume b)"

definition with_offset :: "string \<Rightarrow> int \<Rightarrow> string" where
  "with_offset base k = (if k \<noteq> 0 then base @ ''[-'' @ int_digits k @ '']'' else base)"

fun label :: "'f floats \<Rightarrow> operand \<Rightarrow> string" where
  "label F (Constant v) = fl_written F v"
| "label F (Indicator name period f k params) =
     with_offset (name @ ''('' @ (case period of None \<Rightarrow> ''None'' | Some p \<Rightarrow> int_digits p) @ '')'') k"
| "label F (PriceOf f k) = with_offset (field_name f) k"

text \<open>\<open>bars[:len(bars) - offset]\<close>, where a negative bound counts from the end again.\<close>

definition bars_before :: "int \<Rightarrow> bar list \<Rightarrow> bar list" where
  "bars_before k bars =
     (if k = 0 then bars
      else let stop = int (length bars) - k in take (nat (if stop < 0 then int (length bars) + stop else stop)) bars)"

fun compute_value :: "'f floats \<Rightarrow> bar list \<Rightarrow> operand \<Rightarrow> int \<Rightarrow> exn + 'f option" where
  "compute_value F bars (Constant v) back = Inr (Some (fl_of F v))"
| "compute_value F bars (PriceOf f k) back =
     (let window = bars_before (k + back) bars in
      Inr (if window = [] then None else Some (fl_of F (field_of f (last window)))))"
| "compute_value F bars (Indicator name period f k params) back =
     (let window = bars_before (k + back) bars in
      if window = [] then Inr None else fl_compute F name window (period_or_zero period))"

definition is_constant :: "operand \<Rightarrow> bool" where
  "is_constant x = (case x of Constant v \<Rightarrow> True | _ \<Rightarrow> False)"

definition trace :: "string \<Rightarrow> 'f option \<Rightarrow> bool \<Rightarrow> 'f walk \<Rightarrow> 'f walk" where
  "trace key found traced w =
     (case found of None \<Rightarrow> w | Some x \<Rightarrow> if traced then w\<lparr>wk_values := dict_set key x (wk_values w)\<rparr> else w)"

definition value_of :: "'f floats \<Rightarrow> bar list \<Rightarrow> operand \<Rightarrow> int \<Rightarrow> ('f walk, 'f option) act" where
  "value_of F bars x back =
     (\<lambda>w. let key = (label F x, back) in
      case map_of (wk_memo w) key of
        Some found \<Rightarrow> (Inr found, trace (fst key) found (back = 0 \<and> \<not> is_constant x) w)
      | None \<Rightarrow>
          (case compute_value F bars x back of
             Inl e \<Rightarrow> (Inl e, w)
           | Inr found \<Rightarrow>
               (Inr found, trace (fst key) found (back = 0 \<and> \<not> is_constant x) (w\<lparr>wk_memo := (key, found) # wk_memo w\<rparr>))))"

fun compares :: "'f floats \<Rightarrow> comparator \<Rightarrow> 'f \<Rightarrow> 'f \<Rightarrow> bool" where
  "compares F OpLt a b = fl_lt F a b"
| "compares F OpLe a b = fl_le F a b"
| "compares F OpGt a b = fl_lt F b a"
| "compares F OpGe a b = fl_le F b a"
| "compares F OpEq a b = fl_eq F a b"
| "compares F OpNe a b = (\<not> fl_eq F a b)"
| "compares F CrossesAbove a b = fl_lt F b a"
| "compares F CrossesBelow a b = fl_lt F a b"

text \<open>The previous bar's half of a crossing.\<close>

definition crossed_from :: "'f floats \<Rightarrow> comparator \<Rightarrow> 'f \<Rightarrow> 'f \<Rightarrow> bool" where
  "crossed_from F c was_left was_right = (if c = CrossesAbove then fl_le F was_left was_right else fl_le F was_right was_left)"

definition compare_operands :: "'f floats \<Rightarrow> bar list \<Rightarrow> operand \<Rightarrow> comparator \<Rightarrow> operand \<Rightarrow> ('f walk, bool option) act" where
  "compare_operands F bars l c r =
     bind_a (value_of F bars l 0) (\<lambda>left. bind_a (value_of F bars r 0) (\<lambda>right.
     case (left, right) of
       (Some a, Some b) \<Rightarrow>
         if \<not> is_crossing c then ret (Some (compares F c a b))
         else
           bind_a (value_of F bars l 1) (\<lambda>was_left. bind_a (value_of F bars r 1) (\<lambda>was_right.
           case (was_left, was_right) of
             (Some a', Some b') \<Rightarrow> ret (Some (crossed_from F c a' b' \<and> compares F c a b))
           | _ \<Rightarrow> ret None))
     | _ \<Rightarrow> ret None))"

definition all_verdict :: "bool option list \<Rightarrow> bool option" where
  "all_verdict vs = (if Some False \<in> set vs then Some False else if None \<in> set vs then None else Some True)"

definition any_verdict :: "bool option list \<Rightarrow> bool option" where
  "any_verdict vs = (if Some True \<in> set vs then Some True else if None \<in> set vs then None else Some False)"

definition none_verdict :: "bool option list \<Rightarrow> bool option" where
  "none_verdict vs = (if Some True \<in> set vs then Some False else if None \<in> set vs then None else Some True)"

fun walk_node :: "'f floats \<Rightarrow> bar list \<Rightarrow> node \<Rightarrow> ('f walk, bool option) act"
  and walk_all :: "'f floats \<Rightarrow> bar list \<Rightarrow> node list \<Rightarrow> ('f walk, bool option list) act" where
  "walk_node F bars (Condition l c r) = compare_operands F bars l c r"
| "walk_node F bars (AllOf xs) = bind_a (walk_all F bars xs) (\<lambda>vs. ret (all_verdict vs))"
| "walk_node F bars (AnyOf xs) = bind_a (walk_all F bars xs) (\<lambda>vs. ret (any_verdict vs))"
| "walk_node F bars (NoneOf xs) = bind_a (walk_all F bars xs) (\<lambda>vs. ret (none_verdict vs))"
| "walk_all F bars [] = ret []"
| "walk_all F bars (x # xs) = bind_a (walk_node F bars x) (\<lambda>v. bind_a (walk_all F bars xs) (\<lambda>vs. ret (v # vs)))"

definition op_text :: "comparator \<Rightarrow> string" where
  "op_text c = (case c of OpLt \<Rightarrow> ''<'' | OpLe \<Rightarrow> ''<='' | OpGt \<Rightarrow> ''>'' | OpGe \<Rightarrow> ''>='' | OpEq \<Rightarrow> ''=='' | OpNe \<Rightarrow> ''!=''
     | CrossesAbove \<Rightarrow> ''crosses_above'' | CrossesBelow \<Rightarrow> ''crosses_below'')"

definition shown :: "'f floats \<Rightarrow> 'f dict \<Rightarrow> operand \<Rightarrow> string" where
  "shown F values x =
     (if is_constant x then label F x
      else case dict_get values (label F x) of None \<Rightarrow> label F x | Some v \<Rightarrow> label F x @ ''='' @ fl_shown F v)"

fun join_comma :: "string list \<Rightarrow> string" where
  "join_comma [] = []"
| "join_comma [s] = s"
| "join_comma (s # ss) = s @ '', '' @ join_comma ss"

fun describe :: "'f floats \<Rightarrow> 'f dict \<Rightarrow> node \<Rightarrow> string" and describe_all :: "'f floats \<Rightarrow> 'f dict \<Rightarrow> node list \<Rightarrow> string list" where
  "describe F values (Condition l c r) = shown F values l @ '' '' @ op_text c @ '' '' @ shown F values r"
| "describe F values (AllOf xs) = ''all('' @ join_comma (describe_all F values xs) @ '')''"
| "describe F values (AnyOf xs) = ''any('' @ join_comma (describe_all F values xs) @ '')''"
| "describe F values (NoneOf xs) = ''none('' @ join_comma (describe_all F values xs) @ '')''"
| "describe_all F values [] = []"
| "describe_all F values (x # xs) = describe F values x # describe_all F values xs"

section \<open>The compiled strategy\<close>

text \<open>\<open>cr_universe\<close> is the frozen set of symbols in the order it iterates in.\<close>

record 'f compiled =
  cr_spec :: rule_set
  cr_universe :: "string list"
  cr_window :: int
  cr_floats :: "'f floats"
  cr_new_id :: "nat \<Rightarrow> string"

record rule_state =
  rl_seen :: "int dict"
  rl_entered :: "int dict"
  rl_exited :: "int dict"
  rl_drawn :: nat

record 'f decision =
  dn_signal :: signal
  dn_reason :: string
  dn_indicators :: "'f dict"

definition rules_on_start :: "rule_state \<Rightarrow> rule_state" where
  "rules_on_start st = st\<lparr>rl_seen := [], rl_entered := [], rl_exited := []\<rparr>"

definition compile_ruleset :: "'f floats \<Rightarrow> (string list \<Rightarrow> string list) \<Rightarrow> (nat \<Rightarrow> string) \<Rightarrow> rule_set \<Rightarrow> exn + 'f compiled" where
  "compile_ruleset F frozen new_id spec =
     bind_r (refuse_what_cannot_run spec) (\<lambda>_.
     bind_r (required_warmup spec) (\<lambda>n.
     Inr \<lparr>cr_spec = spec, cr_universe = frozen (rt_universe spec), cr_window = max n 1, cr_floats = F, cr_new_id = new_id\<rparr>))"

definition view_history :: "view \<Rightarrow> string \<Rightarrow> int \<Rightarrow> exn + bar list" where
  "view_history vw s n =
     (if int (length (vw_visible vw s)) < n then Inl (DataGapError (Reason ''needs more bars'' [s] []))
      else Inr (py_last n (vw_visible vw s)))"

definition held :: "view \<Rightarrow> string \<Rightarrow> bool" where
  "held vw s \<longleftrightarrow> \<not> is_flat (position_of s (vw_portfolio vw))"

definition track_symbol :: "string \<Rightarrow> int \<Rightarrow> bool \<Rightarrow> rule_state \<Rightarrow> rule_state" where
  "track_symbol s index flat st =
     (if flat
      then (case dict_get (rl_entered st) s of
              None \<Rightarrow> st
            | Some k \<Rightarrow> st\<lparr>rl_entered := dict_pop s (rl_entered st), rl_exited := dict_set s index (rl_exited st)\<rparr>)
      else st\<lparr>rl_entered := dict_setdefault s index (rl_entered st)\<rparr>)"

definition decide :: "'f compiled \<Rightarrow> signal_action \<Rightarrow> view \<Rightarrow> bar \<Rightarrow> string \<Rightarrow> 'f dict \<Rightarrow> rule_state \<Rightarrow> 'f decision \<times> rule_state" where
  "decide C action vw b why values st =
     (\<lparr>dn_signal = \<lparr>sg_strategy = rt_name (cr_spec C), sg_symbol = b_symbol b, sg_action = action, sg_ts = vw_now vw,
          sg_id = cr_new_id C (rl_drawn st), sg_strength = 1, sg_limit = None, sg_stop_loss = None, sg_take_profit = None\<rparr>,
       dn_reason = why, dn_indicators = dict_set ''close'' (fl_of (cr_floats C) (b_close b)) values\<rparr>,
      st\<lparr>rl_drawn := Suc (rl_drawn st)\<rparr>)"

definition fresh_walk :: "'f walk" where "fresh_walk = \<lparr>wk_memo = [], wk_values = []\<rparr>"

definition exit_signals :: "'f compiled \<Rightarrow> view \<Rightarrow> bar \<Rightarrow> bar list \<Rightarrow> int \<Rightarrow> rule_state \<Rightarrow> (exn + 'f decision list) \<times> rule_state" where
  "exit_signals C vw b bars index st =
     (let entered = dict_get (rl_entered st) (b_symbol b);
          one = (\<lambda>why values. let (d, st1) = decide C EXIT vw b why values st in (Inr [d], st1));
          by_rule = (case rt_exit (cr_spec C) of
              None \<Rightarrow> (Inr [], st)
            | Some tree \<Rightarrow>
                (case walk_node (cr_floats C) bars tree fresh_walk of
                   (Inl e, w) \<Rightarrow> (Inl e, st)
                 | (Inr v, w) \<Rightarrow>
                     if v \<noteq> Some True then (Inr [], st)
                     else one (''exit: '' @ describe (cr_floats C) (wk_values w) tree) (wk_values w))) in
      case (rk_max_holding (rt_risk (cr_spec C)), entered) of
        (Some most, Some since) \<Rightarrow>
          if most \<le> index - since then one (''held '' @ int_digits (index - since) @ '' bars >= '' @ int_digits most) [] else by_rule
      | _ \<Rightarrow> by_rule)"

fun first_entry :: "'f compiled \<Rightarrow> view \<Rightarrow> bar \<Rightarrow> bar list \<Rightarrow> (node option \<times> signal_action \<times> string) list \<Rightarrow> rule_state \<Rightarrow>
    (exn + 'f decision list) \<times> rule_state" where
  "first_entry C vw b bars [] st = (Inr [], st)"
| "first_entry C vw b bars ((None, action, place) # rest) st = first_entry C vw b bars rest st"
| "first_entry C vw b bars ((Some tree, action, place) # rest) st =
     (case walk_node (cr_floats C) bars tree fresh_walk of
        (Inl e, w) \<Rightarrow> (Inl e, st)
      | (Inr v, w) \<Rightarrow>
          if v = Some True
          then (let (d, st1) = decide C action vw b (place @ '': '' @ describe (cr_floats C) (wk_values w) tree) (wk_values w) st
                in (Inr [d], st1))
          else first_entry C vw b bars rest st)"

definition cooling :: "'f compiled \<Rightarrow> string \<Rightarrow> int \<Rightarrow> rule_state \<Rightarrow> bool" where
  "cooling C s index st \<longleftrightarrow>
     (case dict_get (rl_exited st) s of None \<Rightarrow> False | Some k \<Rightarrow> index - k < rt_cooldown (cr_spec C))"

definition universe_held :: "'f compiled \<Rightarrow> view \<Rightarrow> int" where
  "universe_held C vw = int (length (filter (held vw) (cr_universe C)))"

definition entry_signals :: "'f compiled \<Rightarrow> view \<Rightarrow> bar \<Rightarrow> bar list \<Rightarrow> int \<Rightarrow> rule_state \<Rightarrow>
    (exn + 'f decision list) \<times> string list \<times> rule_state" where
  "entry_signals C vw b bars index st =
     (if cooling C (b_symbol b) index st then (Inr [], [], st)
      else if rt_max_positions (cr_spec C) \<le> universe_held C vw then (Inr [], cr_universe C, st)
      else
        let (r, st1) = first_entry C vw b bars
              [(rt_entry_long (cr_spec C), ENTER_LONG, ''entry_long''), (rt_entry_short (cr_spec C), ENTER_SHORT, ''entry_short'')] st
        in (r, cr_universe C, st1))"

text \<open>One bar: the decisions, the positions it asked for, the counters after it.\<close>

definition rules_on_bar :: "'f compiled \<Rightarrow> view \<Rightarrow> bar \<Rightarrow> rule_state \<Rightarrow> (exn + 'f decision list) \<times> string list \<times> rule_state" where
  "rules_on_bar C vw b st =
     (let s = b_symbol b in
      if s \<notin> set (cr_universe C) then (Inr [], [], st)
      else
        let index = dict_get_or (rl_seen st) s 0 + 1;
            st1 = track_symbol s index (\<not> held vw s) (st\<lparr>rl_seen := dict_set s index (rl_seen st)\<rparr>) in
        case view_history vw s (cr_window C) of
          Inl e \<Rightarrow> (if (case e of DataGapError _ \<Rightarrow> True | _ \<Rightarrow> False) then Inr [] else Inl e, [s], st1)
        | Inr bars \<Rightarrow>
            if held vw s then (case exit_signals C vw b bars index st1 of (r, st2) \<Rightarrow> (r, [s], st2))
            else (case entry_signals C vw b bars index st1 of (r, touched, st2) \<Rightarrow> (r, s # touched, st2)))"

text \<open>The interfaces of the two engines that drive it.\<close>

definition rules_live :: "'f compiled \<Rightarrow> view \<Rightarrow> bar \<Rightarrow> rule_state \<Rightarrow> (exn + signal list) \<times> string list \<times> rule_state" where
  "rules_live C vw b st = (case rules_on_bar C vw b st of (r, touched, st1) \<Rightarrow> (bind_r r (\<lambda>ds. Inr (map dn_signal ds)), touched, st1))"

definition rules_replayed :: "'f compiled \<Rightarrow> view \<Rightarrow> bar \<Rightarrow> rule_state \<Rightarrow> exn + (signal list \<times> string list \<times> rule_state)" where
  "rules_replayed C vw b st =
     (case rules_on_bar C vw b st of (r, touched, st1) \<Rightarrow> bind_r r (\<lambda>ds. Inr (map dn_signal ds, touched, st1)))"

end
