(* ===== verification/RuleSafety.thy ===== *)
theory RuleSafety
  imports RuleSets
begin

text \<open>
  What a compiled rule set guarantees: the memo and the trace of a walk change no answer, the history it asks
  for is enough to answer, an answer that is not unknown comes_true whatever the unknown turns out to be, the
  decisions are exactly those the trees and counters call for, and the counters count.
\<close>

section \<open>Labels\<close>

lemma split_at_char: "c \<notin> set xs \<Longrightarrow> c \<notin> set ys \<Longrightarrow> xs @ c # zs = ys @ c # ws \<longleftrightarrow> xs = ys \<and> zs = ws"
proof (induction xs arbitrary: ys)
  case Nil
  then show ?case by (cases ys) auto
next
  case (Cons x xs)
  then show ?case by (cases ys) auto
qed

lemma nat_digits_chars: "c \<in> set (nat_digits n) \<Longrightarrow> 48 \<le> (of_char c :: nat) \<and> (of_char c :: nat) < 58"
proof (induction n rule: nat_digits.induct)
  case (1 n)
  have d: "48 \<le> (of_char (char_of (48 + k) :: char) :: nat) \<and> (of_char (char_of (48 + k) :: char) :: nat) < 58" if "k < 10" for k :: nat
    using that by simp
  show ?case using 1 d [of n] d [of "n mod 10"] by (subst (asm) (2) nat_digits.simps) (auto split: if_splits)
qed

lemma int_digits_chars: "0 \<le> n \<Longrightarrow> 58 \<le> (of_char c :: nat) \<Longrightarrow> c \<notin> set (int_digits n)"
  using nat_digits_chars [of c "nat n"] by (auto simp: int_digits_def)

lemma int_digits_inj: "0 \<le> a \<Longrightarrow> 0 \<le> b \<Longrightarrow> int_digits a = int_digits b \<Longrightarrow> a = b"
  using nat_digits_inj [of "nat a" "nat b"] by (simp add: int_digits_def)

lemma with_offset_inj:
  assumes "CHR ''['' \<notin> set base" "CHR ''['' \<notin> set base'" "0 \<le> k" "0 \<le> k'" "with_offset base k = with_offset base' k'"
  shows "base = base' \<and> k = k'"
proof -
  have none: "CHR ''['' \<in> set (with_offset b j) \<longleftrightarrow> j \<noteq> 0" if "CHR ''['' \<notin> set b" for b j
    using that by (auto simp: with_offset_def)
  have "k = 0 \<longleftrightarrow> k' = 0" using none [OF assms(1), of k] none [OF assms(2), of k'] assms(5) by auto
  moreover have "base = base' \<and> int_digits k = int_digits k'" if "k \<noteq> 0" "k' \<noteq> 0"
    using assms(5) that split_at_char [OF assms(1,2)] by (simp add: with_offset_def)
  ultimately show ?thesis using int_digits_inj [OF assms(3,4)] assms(5) by (cases "k = 0") (auto simp: with_offset_def)
qed

text \<open>An operand of a rule set that compiles.\<close>

definition operand_ok :: "operand \<Rightarrow> bool" where
  "operand_ok x \<longleftrightarrow> refuse_operand x = Inr () \<and> 0 \<le> offset_of x"

definition starts_number :: "char \<Rightarrow> bool" where
  "starts_number c \<longleftrightarrow> c = CHR ''-'' \<or> 48 \<le> (of_char c :: nat) \<and> (of_char c :: nat) < 58"

text \<open>Two decimals are written alike only when equal, and begin as numbers do.\<close>

definition writes_numbers :: "'f floats \<Rightarrow> bool" where
  "writes_numbers F \<longleftrightarrow> (\<forall>v v'. fl_written F v = fl_written F v' \<longrightarrow> v = v')
     \<and> (\<forall>v. \<exists>c cs. fl_written F v = c # cs \<and> starts_number c)"

definition base_label :: "operand \<Rightarrow> string" where
  "base_label x = (case x of Indicator name period f k params \<Rightarrow> name @ ''('' @ int_digits (period_or_zero period) @ '')''
     | PriceOf f k \<Rightarrow> field_name f | Constant v \<Rightarrow> [])"

lemma label_split:
  assumes "operand_ok x" "\<not> is_constant x"
  shows "label F x = with_offset (base_label x) (offset_of x) \<and> CHR ''['' \<notin> set (base_label x)
    \<and> (\<exists>c cs. label F x = c # cs \<and> \<not> starts_number c)"
proof (cases x)
  case (Indicator name period f k params)
  then have n: "name \<in> set KNOWN_INDICATORS" and p: "1 \<le> period_or_zero period"
    using assms(1) by (auto simp: operand_ok_def split: if_splits)
  obtain m where m: "period = Some m" using p by (cases period) (auto simp: period_or_zero_def)
  have "CHR ''['' \<notin> set (int_digits m)" using p m by (intro int_digits_chars) (auto simp: period_or_zero_def)
  then show ?thesis using n m by (auto simp: Indicator base_label_def offset_of_def KNOWN_INDICATORS_def period_or_zero_def with_offset_def starts_number_def)
next
  case (PriceOf f k)
  then show ?thesis by (cases f) (auto simp: base_label_def offset_of_def field_name_def with_offset_def starts_number_def)
next
  case (Constant v)
  then show ?thesis using assms(2) by (simp add: is_constant_def)
qed

lemma label_determines:
  assumes ok: "operand_ok x" "operand_ok y" and F: "writes_numbers F" and eq: "label F x = label F y"
  shows "compute_value F bars x = compute_value F bars y \<and> is_constant x = is_constant y"
proof (cases "is_constant x \<or> is_constant y")
  case True
  have n: "\<exists>c cs. label F z = c # cs \<and> (starts_number c \<longleftrightarrow> is_constant z)" if "operand_ok z" for z
  proof (cases "is_constant z")
    case True
    then obtain v where "z = Constant v" by (cases z) (auto simp: is_constant_def)
    moreover obtain c cs where "fl_written F v = c # cs" "starts_number c" using F unfolding writes_numbers_def by blast
    ultimately show ?thesis by (simp add: is_constant_def)
  next
    case False
    then show ?thesis using label_split [OF that False, of F] by blast
  qed
  have "is_constant x" "is_constant y" using True n [OF ok(1)] n [OF ok(2)] eq by auto
  then show ?thesis using eq F by (cases x; cases y) (auto simp: is_constant_def writes_numbers_def)
next
  case False
  have "base_label x = base_label y \<and> offset_of x = offset_of y"
    using label_split [OF ok(1), of F] label_split [OF ok(2), of F] False eq ok
    by (intro with_offset_inj) (auto simp: operand_ok_def)
  then have b: "base_label x = base_label y" and k: "offset_of x = offset_of y" by simp_all
  have known: "CHR ''('' \<notin> set name \<and> 1 \<le> period_or_zero period" if "operand_ok (Indicator name period f k params)" for name period f k params
    using that by (auto simp: operand_ok_def KNOWN_INDICATORS_def split: if_splits)
  have field: "CHR ''('' \<notin> set (field_name f)" for f by (cases f) (simp_all add: field_name_def)
  show ?thesis
  proof (cases x; cases y)
    fix n p f j ps n' p' f' j' ps'
    assume xy: "x = Indicator n p f j ps" "y = Indicator n' p' f' j' ps'"
    note kx = known [OF ok(1) [unfolded xy(1)]] and ky = known [OF ok(2) [unfolded xy(2)]]
    have n: "n = n'" and d: "int_digits (period_or_zero p) = int_digits (period_or_zero p')"
      using b xy split_at_char [of "CHR ''(''" n n'] kx ky by (simp_all add: base_label_def)
    have "period_or_zero p = period_or_zero p'" using kx ky by (intro int_digits_inj [OF _ _ d]) simp_all
    with n have "n = n' \<and> period_or_zero p = period_or_zero p'" by simp
    then show ?thesis using xy k by (simp add: fun_eq_iff offset_of_def is_constant_def Let_def)
  next
    fix f j f' j'
    assume xy: "x = PriceOf f j" "y = PriceOf f' j'"
    then have "f = f'" using b by (cases f; cases f') (simp_all add: base_label_def field_name_def)
    then show ?thesis using xy k by (simp add: offset_of_def is_constant_def)
  next
    fix n p f j ps f' j'
    assume "x = Indicator n p f j ps" "y = PriceOf f' j'"
    then have "CHR ''('' \<in> set (base_label x)" "CHR ''('' \<notin> set (base_label y)" using field by (simp_all add: base_label_def)
    then show ?thesis using b by simp
  next
    fix n p f j ps f' j'
    assume "x = PriceOf f' j'" "y = Indicator n p f j ps"
    then have "CHR ''('' \<in> set (base_label y)" "CHR ''('' \<notin> set (base_label x)" using field by (simp_all add: base_label_def)
    then show ?thesis using b by simp
  qed (use False in \<open>simp_all add: is_constant_def\<close>)
qed

section \<open>The memo\<close>

text \<open>A walk without memo or trace.\<close>

definition plain_compare :: "'f floats \<Rightarrow> bar list \<Rightarrow> operand \<Rightarrow> comparator \<Rightarrow> operand \<Rightarrow> exn + bool option" where
  "plain_compare F bars l c r =
     bind_r (compute_value F bars l 0) (\<lambda>left. bind_r (compute_value F bars r 0) (\<lambda>right.
     case (left, right) of
       (Some a, Some b) \<Rightarrow>
         if \<not> is_crossing c then Inr (Some (compares F c a b))
         else
           bind_r (compute_value F bars l 1) (\<lambda>was_left. bind_r (compute_value F bars r 1) (\<lambda>was_right.
           case (was_left, was_right) of
             (Some a', Some b') \<Rightarrow> Inr (Some (crossed_from F c a' b' \<and> compares F c a b))
           | _ \<Rightarrow> Inr None))
     | _ \<Rightarrow> Inr None))"

fun plain_verdict :: "'f floats \<Rightarrow> bar list \<Rightarrow> node \<Rightarrow> exn + bool option"
  and plain_verdicts :: "'f floats \<Rightarrow> bar list \<Rightarrow> node list \<Rightarrow> exn + bool option list" where
  "plain_verdict F bars (Condition l c r) = plain_compare F bars l c r"
| "plain_verdict F bars (AllOf xs) = bind_r (plain_verdicts F bars xs) (\<lambda>vs. Inr (all_verdict vs))"
| "plain_verdict F bars (AnyOf xs) = bind_r (plain_verdicts F bars xs) (\<lambda>vs. Inr (any_verdict vs))"
| "plain_verdict F bars (NoneOf xs) = bind_r (plain_verdicts F bars xs) (\<lambda>vs. Inr (none_verdict vs))"
| "plain_verdicts F bars [] = Inr []"
| "plain_verdicts F bars (x # xs) = bind_r (plain_verdict F bars x) (\<lambda>v. bind_r (plain_verdicts F bars xs) (\<lambda>vs. Inr (v # vs)))"

definition memo_ok :: "'f floats \<Rightarrow> bar list \<Rightarrow> 'f walk \<Rightarrow> bool" where
  "memo_ok F bars w \<longleftrightarrow> (\<forall>x back found. operand_ok x \<and> map_of (wk_memo w) (label F x, back) = Some found
     \<longrightarrow> compute_value F bars x back = Inr found)"

text \<open>\<open>agrees m r\<close>: from a sound memo the action answers \<open>r\<close> and leaves a sound memo.\<close>

definition agrees :: "'f floats \<Rightarrow> bar list \<Rightarrow> ('f walk, 'a) act \<Rightarrow> exn + 'a \<Rightarrow> bool" where
  "agrees F bars m r \<longleftrightarrow> (\<forall>w. memo_ok F bars w \<longrightarrow> fst (m w) = r \<and> memo_ok F bars (snd (m w)))"

lemma agrees_ret: "agrees F bars (ret x) (Inr x)"
  by (simp add: agrees_def)

lemma agrees_bind: "agrees F bars m r \<Longrightarrow> (\<And>x. agrees F bars (f x) (g x)) \<Longrightarrow> agrees F bars (bind_a m f) (bind_r r g)"
  by (auto simp: agrees_def bind_a_run bind_r_def split: sum.split)

lemma memo_ok_trace [simp]: "memo_ok F bars (trace k found t w) = memo_ok F bars w"
  by (simp add: memo_ok_def trace_def split: option.split)

lemma agrees_value:
  assumes "writes_numbers F" "operand_ok x"
  shows "agrees F bars (value_of F bars x back) (compute_value F bars x back)"
proof -
  have "fst (value_of F bars x back w) = compute_value F bars x back \<and> memo_ok F bars (snd (value_of F bars x back w))" if w: "memo_ok F bars w" for w
  proof (cases "map_of (wk_memo w) (label F x, back)")
    case (Some found)
    then have "compute_value F bars x back = Inr found" using w assms(2) by (simp add: memo_ok_def)
    then show ?thesis using Some w by (simp add: value_of_def)
  next
    case None
    have "memo_ok F bars (w\<lparr>wk_memo := ((label F x, back), found) # wk_memo w\<rparr>)" if "compute_value F bars x back = Inr found" for found
      using w that label_determines [OF _ assms(2,1)] by (fastforce simp: memo_ok_def)
    then show ?thesis using None w by (auto simp: value_of_def Let_def split: sum.split)
  qed
  then show ?thesis by (simp add: agrees_def)
qed

fun tree_ok :: "node \<Rightarrow> bool" and trees_ok :: "node list \<Rightarrow> bool" where
  "tree_ok (Condition l c r) \<longleftrightarrow> operand_ok l \<and> operand_ok r"
| "tree_ok (AllOf xs) \<longleftrightarrow> xs \<noteq> [] \<and> trees_ok xs"
| "tree_ok (AnyOf xs) \<longleftrightarrow> xs \<noteq> [] \<and> trees_ok xs"
| "tree_ok (NoneOf xs) \<longleftrightarrow> xs \<noteq> [] \<and> trees_ok xs"
| "trees_ok [] \<longleftrightarrow> True"
| "trees_ok (x # xs) \<longleftrightarrow> tree_ok x \<and> trees_ok xs"

lemma agrees_option:
  "(x = None \<Longrightarrow> agrees F bars m r) \<Longrightarrow> (\<And>a. x = Some a \<Longrightarrow> agrees F bars (f a) (g a)) \<Longrightarrow>
   agrees F bars (case x of None \<Rightarrow> m | Some a \<Rightarrow> f a) (case x of None \<Rightarrow> r | Some a \<Rightarrow> g a)"
  by (cases x) auto

lemma agrees_walk:
  assumes "writes_numbers F"
  shows "tree_ok n \<Longrightarrow> agrees F bars (walk_node F bars n) (plain_verdict F bars n)"
    and "trees_ok ns \<Longrightarrow> agrees F bars (walk_all F bars ns) (plain_verdicts F bars ns)"
proof (induction n and ns rule: tree_ok_trees_ok.induct)
  case (1 l c r)
  then show ?case unfolding walk_node.simps plain_verdict.simps compare_operands_def plain_compare_def
    by (auto intro!: agrees_bind agrees_value [OF assms] agrees_ret split: option.split)
qed (auto intro!: agrees_bind agrees_ret)

section \<open>Enough history\<close>

text \<open>What the numeric library documents: an indicator answers once it has the bars it says it needs.\<close>

definition indicators_ready :: "'f floats \<Rightarrow> bool" where
  "indicators_ready F \<longleftrightarrow> (\<forall>name period bars n. 1 \<le> period \<longrightarrow> min_bars name period = Inr n \<longrightarrow> n \<le> int (length bars)
     \<longrightarrow> (\<exists>x. fl_compute F name bars period = Inr (Some x)))"

lemma bars_before_length: "0 \<le> k \<Longrightarrow> k \<le> int (length bars) \<Longrightarrow> int (length (bars_before k bars)) = int (length bars) - k"
  by (auto simp: bars_before_def Let_def)

lemma operand_known:
  assumes "indicators_ready F" "operand_ok x" "operand_bars x = Inr n" "0 \<le> back" "n + back \<le> int (length bars)"
  shows "\<exists>v. compute_value F bars x back = Inr (Some v)"
proof (cases x)
  case (Indicator name period f k params)
  then obtain m where m: "min_bars name (period_or_zero period) = Inr m" "n = m + k"
    using assms(3) by (auto simp: bind_r_def split: sum.splits)
  have ok: "1 \<le> period_or_zero period" "0 \<le> k" using assms(2) Indicator by (auto simp: operand_ok_def offset_of_def split: if_splits)
  then have "1 \<le> m" using m(1) by (auto simp: min_bars_def split: if_splits)
  have len: "int (length (bars_before (k + back) bars)) = int (length bars) - (k + back)"
    using ok assms(4,5) m(2) \<open>1 \<le> m\<close> by (intro bars_before_length) auto
  then have "m \<le> int (length (bars_before (k + back) bars))" "bars_before (k + back) bars \<noteq> []"
    using assms(5) m(2) \<open>1 \<le> m\<close> by auto
  then show ?thesis using assms(1) m(1) ok(1) Indicator unfolding indicators_ready_def by (auto simp: Let_def)
next
  case (PriceOf f k)
  then have "int (length (bars_before (k + back) bars)) = int (length bars) - (k + back)"
    using assms by (intro bars_before_length) (auto simp: operand_ok_def offset_of_def)
  then have "bars_before (k + back) bars \<noteq> []" using assms PriceOf by auto
  then show ?thesis using PriceOf by (simp add: Let_def)
qed simp

lemma bars_needed_all_bound: "bars_needed_all xs = Inr ns \<Longrightarrow> x \<in> set xs \<Longrightarrow> \<exists>n \<in> set ns. bars_needed x = Inr n"
  by (induction xs arbitrary: ns) (auto simp: bind_r_def split: sum.splits)

lemma compare_known:
  assumes ready: "indicators_ready F" and ok: "operand_ok l" "operand_ok r"
    and "bars_needed (Condition l c r) = Inr n" "n \<le> int (length bars)"
  shows "\<exists>b. plain_compare F bars l c r = Inr (Some b)"
proof -
  obtain a b where ab: "operand_bars l = Inr a" "operand_bars r = Inr b" "n = max a b + (if is_crossing c then 1 else 0)"
    using assms(4) by (auto simp: bind_r_def split: sum.splits)
  have now: "\<exists>v. compute_value F bars l 0 = Inr (Some v)" "\<exists>v. compute_value F bars r 0 = Inr (Some v)"
    using operand_known [OF ready ok(1) ab(1), of 0 bars] operand_known [OF ready ok(2) ab(2), of 0 bars] assms(5) ab(3) by (auto split: if_splits)
  have was: "\<exists>v. compute_value F bars l 1 = Inr (Some v)" "\<exists>v. compute_value F bars r 1 = Inr (Some v)" if "is_crossing c"
    using operand_known [OF ready ok(1) ab(1), of 1 bars] operand_known [OF ready ok(2) ab(2), of 1 bars] assms(5) ab(3) that by (auto split: if_splits)
  show ?thesis using now was unfolding plain_compare_def by (cases "is_crossing c") (auto simp: bind_r_def)
qed

lemma bars_needed_groups:
  assumes "bars_needed g = Inr n" "g = AllOf xs \<or> g = AnyOf xs \<or> g = NoneOf xs"
  shows "\<exists>ns. bars_needed_all xs = Inr ns \<and> (\<forall>m \<in> set ns. m \<le> n)"
  using assms by (auto simp: bind_r_def split: sum.splits if_splits)

lemma tree_known:
  assumes "indicators_ready F"
  shows "tree_ok n \<Longrightarrow> bars_needed n = Inr k \<Longrightarrow> k \<le> int (length bars) \<Longrightarrow> \<exists>b. plain_verdict F bars n = Inr (Some b)"
    and "trees_ok ns \<Longrightarrow> bars_needed_all ns = Inr ks \<Longrightarrow> (\<forall>k \<in> set ks. k \<le> int (length bars)) \<Longrightarrow>
      \<exists>bs. plain_verdicts F bars ns = Inr (map Some bs)"
proof (induction n and ns arbitrary: k and ks rule: tree_ok_trees_ok.induct)
  case (1 l c r)
  then show ?case using compare_known [OF assms] by (simp only: plain_verdict.simps tree_ok.simps)
next
  case (2 xs)
  then obtain ks where "bars_needed_all xs = Inr ks" "\<forall>m \<in> set ks. m \<le> int (length bars)"
    using bars_needed_groups [OF 2(3), of xs] by fastforce
  with 2 obtain bs where "plain_verdicts F bars xs = Inr (map Some bs)" by auto
  then show ?case by (auto simp: all_verdict_def)
next
  case (3 xs)
  then obtain ks where "bars_needed_all xs = Inr ks" "\<forall>m \<in> set ks. m \<le> int (length bars)"
    using bars_needed_groups [OF 3(3), of xs] by fastforce
  with 3 obtain bs where "plain_verdicts F bars xs = Inr (map Some bs)" by auto
  then show ?case by (auto simp: any_verdict_def)
next
  case (4 xs)
  then obtain ks where "bars_needed_all xs = Inr ks" "\<forall>m \<in> set ks. m \<le> int (length bars)"
    using bars_needed_groups [OF 4(3), of xs] by fastforce
  with 4 obtain bs where "plain_verdicts F bars xs = Inr (map Some bs)" by auto
  then show ?case by (auto simp: none_verdict_def)
next
  case (6 x xs)
  obtain k' ks' where ks: "bars_needed x = Inr k'" "bars_needed_all xs = Inr ks'" "ks = k' # ks'"
    using 6(4) by (auto simp: bind_r_def split: sum.splits)
  from 6 ks obtain b bs where "plain_verdict F bars x = Inr (Some b)" "plain_verdicts F bars xs = Inr (map Some bs)" by fastforce
  then show ?case by (auto intro: exI [of _ "b # bs"])
qed simp
text \<open>Every operand of the tree has passed its constructor.\<close>

fun built :: "node \<Rightarrow> bool" and built_all :: "node list \<Rightarrow> bool" where
  "built (Condition l c r) \<longleftrightarrow> new_operand l = Inr l \<and> new_operand r = Inr r"
| "built (AllOf xs) \<longleftrightarrow> built_all xs"
| "built (AnyOf xs) \<longleftrightarrow> built_all xs"
| "built (NoneOf xs) \<longleftrightarrow> built_all xs"
| "built_all [] \<longleftrightarrow> True"
| "built_all (x # xs) \<longleftrightarrow> built x \<and> built_all xs"

lemma unit_Inr: "bind_r a (\<lambda>_. b) = Inr () \<longleftrightarrow> a = Inr () \<and> b = Inr ()" for a b :: "exn + unit"
  by (auto simp: bind_r_def split: sum.split)

lemma refused_or_ok:
  "refuse_node n = Inr () \<Longrightarrow> built n \<Longrightarrow> tree_ok n"
  "refuse_all ns = Inr () \<Longrightarrow> built_all ns \<Longrightarrow> trees_ok ns"
proof (induction n and ns rule: tree_ok_trees_ok.induct)
  case (1 l c r)
  then have "refuse_operand l = Inr ()" "refuse_operand r = Inr ()" by (simp_all add: unit_Inr)
  then show ?case using 1 by (simp add: operand_ok_def new_operand_def split: if_splits)
next
  case (6 x xs)
  then have "refuse_node x = Inr ()" "refuse_all xs = Inr ()" by (simp_all add: unit_Inr)
  then show ?case using 6 by simp
qed (auto split: if_splits)

lemma members_ok: "trees_ok xs \<Longrightarrow> x \<in> set xs \<Longrightarrow> tree_ok x"
  by (induction xs) auto

lemma fresh_memo: "memo_ok F bars fresh_walk"
  by (simp add: memo_ok_def fresh_walk_def)

lemma compiled:
  assumes "compile_ruleset F frozen new_id spec = Inr C" "built_all (trees_of spec)"
  shows "trees_ok (trees_of spec)" "cr_spec C = spec" "cr_floats C = F" "cr_universe C = frozen (rt_universe spec)" "1 \<le> cr_window C"
    and "\<exists>ns. bars_needed_all (trees_of spec) = Inr ns \<and> (\<forall>n \<in> set ns. n \<le> cr_window C)"
proof -
  obtain w where refused: "refuse_what_cannot_run spec = Inr ()" and w: "required_warmup spec = Inr w"
    and C: "C = \<lparr>cr_spec = spec, cr_universe = frozen (rt_universe spec), cr_window = max w 1, cr_floats = F, cr_new_id = new_id\<rparr>"
    using assms(1) by (auto simp: compile_ruleset_def bind_r_def split: sum.splits)
  have "refuse_all (trees_of spec) = Inr ()"
    using refused by (auto simp: refuse_what_cannot_run_def bind_r_def split: sum.splits)
  then show "trees_ok (trees_of spec)" using refused_or_ok(2) assms(2) by blast
  obtain ns where ns: "bars_needed_all (trees_of spec) = Inr ns" using w by (auto simp: required_warmup_def bind_r_def split: sum.splits)
  have mono: "stop_bars sp k = Inr m \<Longrightarrow> k \<le> m" for sp k m
    by (auto simp: stop_bars_def bind_r_def split: option.splits sum.splits)
  obtain k where k: "stop_bars (rk_stop_loss (rt_risk spec)) (if ns = [] then 0 else Max (set ns)) = Inr k"
      "stop_bars (rk_take_profit (rt_risk spec)) k = Inr w"
    using w ns unfolding required_warmup_def by (auto simp: bind_r_def split: sum.splits)
  have "(if ns = [] then 0 else Max (set ns)) \<le> w" using mono [OF k(1)] mono [OF k(2)] by linarith
  then have "\<forall>n \<in> set ns. n \<le> w" by (auto split: if_splits)
  then show "\<exists>ns. bars_needed_all (trees_of spec) = Inr ns \<and> (\<forall>n \<in> set ns. n \<le> cr_window C)" using ns C by fastforce
qed (use assms(1) in \<open>auto simp: compile_ruleset_def bind_r_def split: sum.splits\<close>)

lemma history_length: "1 \<le> n \<Longrightarrow> view_history vw s n = Inr bars \<Longrightarrow> int (length bars) = n"
  by (auto simp: view_history_def py_last_def split: if_splits)

lemma trees_answer:
  assumes "compile_ruleset F frozen new_id spec = Inr C" "built_all (trees_of spec)" "writes_numbers F" "indicators_ready F"
    and "tree \<in> set (trees_of spec)" "view_history vw s (cr_window C) = Inr bars"
  shows "\<exists>b. plain_verdict F bars tree = Inr (Some b)"
proof -
  note c = compiled [OF assms(1,2)]
  obtain n where n: "bars_needed tree = Inr n" "n \<le> cr_window C" using c(6) bars_needed_all_bound [OF _ assms(5)] by blast
  show ?thesis
    using tree_known(1) [OF assms(4) members_ok [OF c(1) assms(5)] n(1), of bars] n(2) history_length [OF c(5) assms(6)] by auto
qed

lemma walk_is_plain:
  assumes "compile_ruleset F frozen new_id spec = Inr C" "built_all (trees_of spec)" "writes_numbers F" "indicators_ready F"
    and "tree \<in> set (trees_of spec)" "view_history vw s (cr_window C) = Inr bars"
  shows "fst (walk_node F bars tree fresh_walk) = plain_verdict F bars tree"
  using agrees_walk(1) [OF assms(3) members_ok [OF compiled(1) [OF assms(1,2)] assms(5)], of bars] fresh_memo [of F bars]
  by (simp add: agrees_def)

text \<open>
  C38. A compiled rule set is never in doubt. Once the history it asks for is there, every one of its trees
  answers true or false, so what it declares as its warm-up is enough, crossings, offsets and smoothed
  indicators included; and the memo of the walk never changes that answer, because two operands with one
  label have one value.
\<close>

theorem compiled_rules_always_answer:
  assumes "compile_ruleset F frozen new_id spec = Inr C" "built_all (trees_of spec)" "writes_numbers F" "indicators_ready F"
    and "tree \<in> set (trees_of spec)" "view_history vw s (cr_window C) = Inr bars"
  shows "\<exists>b. fst (walk_node F bars tree fresh_walk) = Inr (Some b) \<and> plain_verdict F bars tree = Inr (Some b)"
  using trees_answer [OF assms] walk_is_plain [OF assms] by simp

section \<open>What is unknown\<close>

text \<open>The two-valued reading of a tree, given the truth of its conditions.\<close>

fun comes_true :: "(operand \<Rightarrow> comparator \<Rightarrow> operand \<Rightarrow> bool) \<Rightarrow> node \<Rightarrow> bool"
  and all_come_true :: "(operand \<Rightarrow> comparator \<Rightarrow> operand \<Rightarrow> bool) \<Rightarrow> node list \<Rightarrow> bool list" where
  "comes_true I (Condition l c r) = I l c r"
| "comes_true I (AllOf xs) \<longleftrightarrow> False \<notin> set (all_come_true I xs)"
| "comes_true I (AnyOf xs) \<longleftrightarrow> True \<in> set (all_come_true I xs)"
| "comes_true I (NoneOf xs) \<longleftrightarrow> True \<notin> set (all_come_true I xs)"
| "all_come_true I [] = []"
| "all_come_true I (x # xs) = comes_true I x # all_come_true I xs"

lemma list_all2_mem:
  "list_all2 (\<lambda>v b. v = None \<or> v = Some b) vs bs \<Longrightarrow> Some b \<in> set vs \<Longrightarrow> b \<in> set bs"
  "list_all2 (\<lambda>v b. v = None \<or> v = Some b) vs bs \<Longrightarrow> b \<in> set bs \<Longrightarrow> Some b \<in> set vs \<or> None \<in> set vs"
  by (induction rule: list_all2_induct) auto

lemma verdict_is_sound:
  assumes "\<And>l c r b. plain_compare F bars l c r = Inr (Some b) \<Longrightarrow> I l c r = b"
  shows "plain_verdict F bars n = Inr (Some b) \<Longrightarrow> comes_true I n = b"
    and "plain_verdicts F bars ns = Inr vs \<Longrightarrow> list_all2 (\<lambda>v b. v = None \<or> v = Some b) vs (all_come_true I ns)"
proof (induction n and ns arbitrary: b and vs rule: tree_ok_trees_ok.induct)
  case (1 l c r)
  then show ?case using assms by simp
next
  case (2 xs)
  then obtain vs where vs: "plain_verdicts F bars xs = Inr vs" "all_verdict vs = Some b" by (auto simp: bind_r_def split: sum.splits)
  show ?case using vs(2) list_all2_mem [OF 2(1) [OF vs(1)]] by (auto simp: all_verdict_def split: if_splits)
next
  case (3 xs)
  then obtain vs where vs: "plain_verdicts F bars xs = Inr vs" "any_verdict vs = Some b" by (auto simp: bind_r_def split: sum.splits)
  show ?case using vs(2) list_all2_mem [OF 3(1) [OF vs(1)]] by (auto simp: any_verdict_def split: if_splits)
next
  case (4 xs)
  then obtain vs where vs: "plain_verdicts F bars xs = Inr vs" "none_verdict vs = Some b" by (auto simp: bind_r_def split: sum.splits)
  show ?case using vs(2) list_all2_mem [OF 4(1) [OF vs(1)]] by (auto simp: none_verdict_def split: if_splits)
next
  case (6 x xs)
  then obtain v ws where "plain_verdict F bars x = Inr v" "plain_verdicts F bars xs = Inr ws" "vs = v # ws"
    by (auto simp: bind_r_def split: sum.splits)
  then show ?case using 6 by (cases v) auto
qed simp

text \<open>
  What a walk cannot say cannot overturn what it says. If a tree answers, then it has that truth value
  under every way of settling the conditions that are still unknown: an indicator that is warming up
  never makes a rule fire, or hold back, that its value could have reversed.
\<close>

theorem unknown_cannot_overturn:
  assumes "tree_ok tree" "writes_numbers F" "fst (walk_node F bars tree fresh_walk) = Inr (Some b)"
    and "\<And>l c r b. plain_compare F bars l c r = Inr (Some b) \<Longrightarrow> I l c r = b"
  shows "comes_true I tree = b"
proof -
  have "plain_verdict F bars tree = Inr (Some b)"
    using agrees_walk(1) [OF assms(2,1), of bars] fresh_memo [of F bars] assms(3) by (auto simp: agrees_def)
  then show ?thesis using verdict_is_sound(1) [of F bars I tree b] assms(4) by blast
qed

section \<open>The decisions\<close>

definition says :: "'f compiled \<Rightarrow> bar list \<Rightarrow> node option \<Rightarrow> bool" where
  "says C bars t \<longleftrightarrow> (\<exists>tree. t = Some tree \<and> plain_verdict (cr_floats C) bars tree = Inr (Some True))"

definition overdue :: "'f compiled \<Rightarrow> string \<Rightarrow> int \<Rightarrow> rule_state \<Rightarrow> bool" where
  "overdue C s index st \<longleftrightarrow> (\<exists>most since. rk_max_holding (rt_risk (cr_spec C)) = Some most \<and> dict_get (rl_entered st) s = Some since
     \<and> most \<le> index - since)"

definition actions_of :: "exn + 'f decision list \<Rightarrow> signal_action list" where
  "actions_of r = (case r of Inl e \<Rightarrow> [] | Inr ds \<Rightarrow> map (\<lambda>d. sg_action (dn_signal d)) ds)"

text \<open>A rule set that compiled, over floats that behave.\<close>

definition runs :: "'f compiled \<Rightarrow> bool" where
  "runs C \<longleftrightarrow> writes_numbers (cr_floats C) \<and> indicators_ready (cr_floats C) \<and> built_all (trees_of (cr_spec C))
     \<and> (\<exists>frozen new_id. compile_ruleset (cr_floats C) frozen new_id (cr_spec C) = Inr C)"

lemma runs_answer:
  assumes "runs C" "tree \<in> set (trees_of (cr_spec C))" "view_history vw s (cr_window C) = Inr bars"
  shows "\<exists>b w. walk_node (cr_floats C) bars tree fresh_walk = (Inr (Some b), w) \<and> b = says C bars (Some tree)"
proof -
  obtain b where "fst (walk_node (cr_floats C) bars tree fresh_walk) = Inr (Some b)" "plain_verdict (cr_floats C) bars tree = Inr (Some b)"
    using assms trees_answer walk_is_plain unfolding runs_def by metis
  then show ?thesis by (cases "walk_node (cr_floats C) bars tree fresh_walk") (auto simp: says_def)
qed

lemma exit_actions:
  assumes "runs C" "view_history vw s (cr_window C) = Inr bars" "s = b_symbol b"
  shows "actions_of (fst (exit_signals C vw b bars index st)) = (if overdue C s index st \<or> says C bars (rt_exit (cr_spec C)) then [EXIT] else [])
    \<and> (\<exists>ds. fst (exit_signals C vw b bars index st) = Inr ds)"
proof -
  let ?by = "case rt_exit (cr_spec C) of None \<Rightarrow> (Inr [], st)
     | Some tree \<Rightarrow> (case walk_node (cr_floats C) bars tree fresh_walk of
         (Inl e, w) \<Rightarrow> (Inl e, st)
       | (Inr v, w) \<Rightarrow> if v \<noteq> Some True then (Inr [], st)
           else let (d, st1) = decide C EXIT vw b (''exit: '' @ describe (cr_floats C) (wk_values w) tree) (wk_values w) st in (Inr [d], st1))"
  have by_rule: "\<exists>ds. fst ?by = Inr ds \<and> map (\<lambda>d. sg_action (dn_signal d)) ds = (if says C bars (rt_exit (cr_spec C)) then [EXIT] else [])"
  proof (cases "rt_exit (cr_spec C)")
    case (Some tree)
    then have "tree \<in> set (trees_of (cr_spec C))" by (simp add: trees_of_def List.map_filter_def)
    from runs_answer [OF assms(1) this assms(2)] Some show ?thesis by (auto simp: decide_def)
  qed (simp add: says_def)
  show ?thesis
  proof (cases "overdue C s index st")
    case True
    then show ?thesis using assms(3) by (auto simp: overdue_def exit_signals_def Let_def decide_def actions_of_def)
  next
    case False
    then have "exit_signals C vw b bars index st = ?by"
      using assms(3) unfolding exit_signals_def Let_def overdue_def by (auto split: option.split)
    then show ?thesis using by_rule False by (auto simp: actions_of_def)
  qed
qed

lemma first_entry_actions:
  assumes "runs C" "view_history vw s (cr_window C) = Inr bars" "\<And>t a p tree. (t, a, p) \<in> set xs \<Longrightarrow> t = Some tree \<Longrightarrow> tree \<in> set (trees_of (cr_spec C))"
  shows "\<exists>ds. fst (first_entry C vw b bars xs st) = Inr ds
    \<and> map (\<lambda>d. sg_action (dn_signal d)) ds = (case filter (\<lambda>x. says C bars (fst x)) xs of [] \<Rightarrow> [] | y # _ \<Rightarrow> [fst (snd y)])"
  using assms(3)
proof (induction xs)
  case (Cons x xs)
  obtain t a p where x: "x = (t, a, p)" by (cases x)
  have IH: "\<exists>ds. fst (first_entry C vw b bars xs st) = Inr ds
      \<and> map (\<lambda>d. sg_action (dn_signal d)) ds = (case filter (\<lambda>x. says C bars (fst x)) xs of [] \<Rightarrow> [] | y # _ \<Rightarrow> [fst (snd y)])"
    by (rule Cons.IH, rule Cons.prems) auto
  show ?case
  proof (cases t)
    case None
    moreover have "\<not> says C bars None" by (simp add: says_def)
    ultimately show ?thesis using IH x by simp
  next
    case (Some tree)
    have "tree \<in> set (trees_of (cr_spec C))" by (rule Cons.prems [of t a p]) (simp_all add: x Some)
    from runs_answer [OF assms(1) this assms(2)] obtain v w where
      "walk_node (cr_floats C) bars tree fresh_walk = (Inr (Some v), w)" "v = says C bars (Some tree)" by blast
    then show ?thesis using IH x Some by (cases v) (auto simp: decide_def)
  qed
qed simp

definition tracked :: "view \<Rightarrow> bar \<Rightarrow> rule_state \<Rightarrow> rule_state" where
  "tracked vw b st = (let s = b_symbol b; index = dict_get_or (rl_seen st) s 0 + 1
     in track_symbol s index (\<not> held vw s) (st\<lparr>rl_seen := dict_set s index (rl_seen st)\<rparr>))"

lemma held_decides:
  assumes "runs C" "b_symbol b \<in> set (cr_universe C)" "view_history vw (b_symbol b) (cr_window C) = Inr bars" "held vw (b_symbol b)"
    and "tracked vw b st = st1" "dict_get_or (rl_seen st) (b_symbol b) 0 + 1 = index"
  shows "(\<exists>ds. fst (rules_on_bar C vw b st) = Inr ds) \<and> actions_of (fst (rules_on_bar C vw b st))
    = (if overdue C (b_symbol b) index st1 \<or> says C bars (rt_exit (cr_spec C)) then [EXIT] else [])"
proof -
  have "fst (rules_on_bar C vw b st) = fst (exit_signals C vw b bars index st1)"
    using assms(2-6) by (auto simp: rules_on_bar_def tracked_def Let_def split_beta)
  then show ?thesis using exit_actions [OF assms(1,3) HOL.refl, of index st1] by simp
qed

lemma flat_decides:
  assumes "runs C" "b_symbol b \<in> set (cr_universe C)" "view_history vw (b_symbol b) (cr_window C) = Inr bars" "\<not> held vw (b_symbol b)"
    and "tracked vw b st = st1" "dict_get_or (rl_seen st) (b_symbol b) 0 + 1 = index"
  shows "(\<exists>ds. fst (rules_on_bar C vw b st) = Inr ds) \<and> actions_of (fst (rules_on_bar C vw b st))
    = (if cooling C (b_symbol b) index st1 \<or> rt_max_positions (cr_spec C) \<le> universe_held C vw then []
       else if says C bars (rt_entry_long (cr_spec C)) then [ENTER_LONG]
       else if says C bars (rt_entry_short (cr_spec C)) then [ENTER_SHORT] else [])"
proof -
  let ?xs = "[(rt_entry_long (cr_spec C), ENTER_LONG, ''entry_long''), (rt_entry_short (cr_spec C), ENTER_SHORT, ''entry_short'')]"
  have r: "fst (rules_on_bar C vw b st) = fst (entry_signals C vw b bars index st1)"
    using assms(2-6) by (auto simp: rules_on_bar_def tracked_def Let_def split_beta)
  have "\<exists>ds. fst (first_entry C vw b bars ?xs st1) = Inr ds \<and> map (\<lambda>d. sg_action (dn_signal d)) ds
      = (case filter (\<lambda>x. says C bars (fst x)) ?xs of [] \<Rightarrow> [] | y # _ \<Rightarrow> [fst (snd y)])"
    by (rule first_entry_actions [OF assms(1,3)]) (auto simp: trees_of_def List.map_filter_def dest: sym split: option.splits)
  then show ?thesis unfolding r by (auto simp: entry_signals_def actions_of_def split_beta)
qed

text \<open>
  C37. A rule set decides exactly what its trees and counters say. On a bar whose history is complete it
  never fails, and asks: of a symbol that is held, an exit, when the holding limit is reached or the exit
  tree is true; of one that is flat, nothing while cooling or while the positions are all taken, and
  else the long entry if its tree is true, and else the short one if its tree is; and nothing more.
\<close>

theorem rules_decide_exactly:
  assumes "runs C" "s = b_symbol b" "s \<in> set (cr_universe C)" "view_history vw s (cr_window C) = Inr bars"
    and "rules_on_bar C vw b st = (r, touched, st')"
    and "index = dict_get_or (rl_seen st) s 0 + 1" "st1 = track_symbol s index (\<not> held vw s) (st\<lparr>rl_seen := dict_set s index (rl_seen st)\<rparr>)"
  shows "(\<exists>ds. r = Inr ds) \<and> actions_of r =
    (if held vw s then if overdue C s index st1 \<or> says C bars (rt_exit (cr_spec C)) then [EXIT] else []
     else if cooling C s index st1 \<or> rt_max_positions (cr_spec C) \<le> universe_held C vw then []
     else if says C bars (rt_entry_long (cr_spec C)) then [ENTER_LONG]
     else if says C bars (rt_entry_short (cr_spec C)) then [ENTER_SHORT] else [])"
proof -
  have t: "tracked vw b st = st1" and i: "dict_get_or (rl_seen st) (b_symbol b) 0 + 1 = index"
    using assms(2,6,7) by (simp_all add: tracked_def Let_def)
  have r: "r = fst (rules_on_bar C vw b st)" using assms(5) by simp
  show ?thesis using held_decides [OF assms(1) _ _ _ t i, of bars] flat_decides [OF assms(1) _ _ _ t i, of bars] assms(2-4) unfolding r by simp
qed

section \<open>The counters\<close>

definition same_counters :: "rule_state \<Rightarrow> rule_state \<Rightarrow> bool" where
  "same_counters st st' \<longleftrightarrow> rl_seen st' = rl_seen st \<and> rl_entered st' = rl_entered st \<and> rl_exited st' = rl_exited st"

lemma decide_counters: "same_counters st (snd (decide C a vw b why vals st))"
  by (simp add: decide_def same_counters_def)

lemma first_entry_counters: "same_counters st (snd (first_entry C vw b bars xs st))"
  by (induction C vw b bars xs st rule: first_entry.induct)
    (auto simp: same_counters_def decide_def split: prod.splits sum.splits)

lemma exit_counters: "same_counters st (snd (exit_signals C vw b bars index st))"
  by (auto simp: exit_signals_def Let_def same_counters_def decide_def split: option.splits prod.splits sum.splits)

lemma same_counters_refl [simp]: "same_counters st st"
  by (simp add: same_counters_def)

lemma entry_counters: "same_counters st (snd (snd (entry_signals C vw b bars index st)))"
  by (simp add: entry_signals_def Let_def split_beta first_entry_counters)

lemma rules_on_bar_counters:
  assumes "b_symbol b \<in> set (cr_universe C)"
  shows "same_counters (tracked vw b st) (snd (snd (rules_on_bar C vw b st)))"
  using assms by (simp add: rules_on_bar_def tracked_def Let_def split_beta exit_counters entry_counters split: sum.split)

text \<open>The counters of a symbol against whether it was held at each of its bars so far.\<close>

definition counted :: "string \<Rightarrow> bool list \<Rightarrow> rule_state \<Rightarrow> bool" where
  "counted s hs st \<longleftrightarrow> dict_get_or (rl_seen st) s 0 = int (length hs)
     \<and> (case dict_get (rl_entered st) s of
          None \<Rightarrow> hs = [] \<or> \<not> last hs
        | Some a \<Rightarrow> \<exists>k < length hs. a = int k + 1 \<and> (\<forall>m. k \<le> m \<and> m < length hs \<longrightarrow> hs ! m) \<and> (0 < k \<longrightarrow> \<not> hs ! (k - 1)))
     \<and> (hs \<noteq> [] \<and> \<not> last hs \<longrightarrow> (\<forall>j < length hs. hs ! j \<longrightarrow> (\<exists>k. dict_get (rl_exited st) s = Some k \<and> int j + 1 < k)))"

lemma counted_same: "same_counters st st' \<Longrightarrow> counted s hs st \<Longrightarrow> counted s hs st'"
  by (simp add: counted_def same_counters_def)

lemma counted_step:
  assumes "counted s hs st" "b_symbol b = s"
  shows "counted s (hs @ [held vw s]) (tracked vw b st)"
proof (cases "dict_get (rl_entered st) s")
  case None
  have not_held: "\<exists>k. dict_get (rl_exited st) s = Some k \<and> int j + 1 < k" if "j < length hs" "hs ! j" for j
    using assms(1) None that by (auto simp: counted_def)
  show ?thesis
  proof (cases "held vw s")
    case True
    have "0 < length hs \<longrightarrow> \<not> hs ! (length hs - 1)" using assms(1) None by (auto simp: counted_def last_conv_nth)
    then show ?thesis using assms None True
      by (auto simp: counted_def tracked_def track_symbol_def Let_def dict_get_or_def dict_setdefault_def nth_append)
  next
    case False
    then show ?thesis using assms None not_held
      by (auto simp: counted_def tracked_def track_symbol_def Let_def dict_get_or_def nth_append less_Suc_eq)
  qed
next
  case (Some a)
  then obtain k where k: "k < length hs" "a = int k + 1" "\<forall>m. k \<le> m \<and> m < length hs \<longrightarrow> hs ! m" "0 < k \<longrightarrow> \<not> hs ! (k - 1)"
    using assms(1) by (auto simp: counted_def)
  show ?thesis
  proof (cases "held vw s")
    case True
    then show ?thesis using assms Some k
      by (auto simp: counted_def tracked_def track_symbol_def Let_def dict_get_or_def dict_setdefault_def nth_append intro!: exI [of _ k])
  next
    case False
    then show ?thesis using assms Some
      by (auto simp: counted_def tracked_def track_symbol_def Let_def dict_get_or_def nth_append less_Suc_eq)
  qed
qed

lemma counted_cooldown:
  assumes "counted s hs st" "j < length hs" "hs ! j" "\<not> last hs" "\<not> cooling C s (int (length hs)) st"
  shows "j + nat (rt_cooldown (cr_spec C)) + 1 < length hs"
proof -
  obtain k where "dict_get (rl_exited st) s = Some k" "int j + 1 < k" using assms(1-4) by (cases hs) (auto simp: counted_def)
  moreover have "j \<noteq> length hs - 1" using assms(2-4) last_conv_nth [of hs] by (cases "hs = []") auto
  ultimately show ?thesis using assms(2,5) by (cases "0 \<le> rt_cooldown (cr_spec C)") (auto simp: cooling_def)
qed

lemma counted_overdue:
  assumes "counted s hs st" "j < length hs" "\<forall>k. j \<le> k \<and> k < length hs \<longrightarrow> hs ! k" "rk_max_holding (rt_risk (cr_spec C)) = Some most"
    and "most < int (length hs) - int j"
  shows "overdue C s (int (length hs)) st"
proof -
  have "hs \<noteq> []" using assms(2) by auto
  moreover from this have "last hs" using assms(2,3) last_conv_nth [of hs] by simp
  ultimately obtain k where k: "dict_get (rl_entered st) s = Some (int k + 1)" "k < length hs" "0 < k \<longrightarrow> \<not> hs ! (k - 1)"
    using assms(1) by (auto simp: counted_def split: option.splits)
  have "k \<le> j"
  proof (rule ccontr)
    assume "\<not> k \<le> j"
    then have "0 < k" "j \<le> k - 1 \<and> k - 1 < length hs" using k(2) by auto
    with assms(3) k(3) show False by blast
  qed
  then show ?thesis using k(1) assms(4,5) by (auto simp: overdue_def)
qed

fun rules_run :: "'f compiled \<Rightarrow> (view \<times> bar) list \<Rightarrow> rule_state \<Rightarrow> (exn + 'f decision list) list" where
  "rules_run C [] st = []"
| "rules_run C ((vw, b) # xs) st = fst (rules_on_bar C vw b st) # rules_run C xs (snd (snd (rules_on_bar C vw b st)))"

lemma rules_run_at:
  assumes "counted s hs st" "\<forall>(vw, b) \<in> set xs. b_symbol b = s" "s \<in> set (cr_universe C)" "i < length xs"
  shows "\<exists>sti. counted s (hs @ map (\<lambda>x. held (fst x) s) (take i xs)) sti
    \<and> rules_run C xs st ! i = fst (rules_on_bar C (fst (xs ! i)) (snd (xs ! i)) sti)"
  using assms
proof (induction xs arbitrary: hs st i)
  case (Cons x xs)
  obtain vw b where x: "x = (vw, b)" by (cases x)
  show ?case
  proof (cases i)
    case 0
    then show ?thesis using Cons.prems(1) x by auto
  next
    case (Suc k)
    let ?st = "snd (snd (rules_on_bar C vw b st))"
    have s: "b_symbol b = s" using Cons.prems(2) x by simp
    have "counted s (hs @ [held vw s]) ?st"
      using counted_same [OF rules_on_bar_counters counted_step [OF Cons.prems(1) s]] Cons.prems(3) s by simp
    from Cons.IH [OF this _ Cons.prems(3), of k] Cons.prems Suc x show ?thesis by auto
  qed
qed simp

lemma short_history_decides:
  assumes "int (length (vw_visible vw (b_symbol b))) < cr_window C"
  shows "fst (rules_on_bar C vw b st) = Inr []"
  using assms by (simp add: rules_on_bar_def view_history_def Let_def)

text \<open>
  C39. The counters count. Run a rule set over the bars of one symbol, from its start, whatever the positions
  do: it asks for an entry only when at least the cooldown has passed, in bars, after the last bar on which
  the symbol was seen held. On a bar whose history is complete and on which the symbol has been held for the
  holding limit it asks to be out; on a bar whose history is short it asks for nothing at all, so a
  holding limit that falls due there waits.
\<close>

theorem cooldown_and_holding_limit_are_kept:
  assumes "runs C" "s \<in> set (cr_universe C)" "\<forall>(vw, b) \<in> set xs. b_symbol b = s" "i < length xs"
    and "rs = rules_run C xs (rules_on_start st)"
  shows "(\<forall>j < i. held (fst (xs ! j)) s \<and> (ENTER_LONG \<in> set (actions_of (rs ! i)) \<or> ENTER_SHORT \<in> set (actions_of (rs ! i)))
      \<longrightarrow> j + nat (rt_cooldown (cr_spec C)) < i)
    \<and> (if int (length (vw_visible (fst (xs ! i)) s)) < cr_window C then rs ! i = Inr []
       else \<forall>j \<le> i. \<forall>most. rk_max_holding (rt_risk (cr_spec C)) = Some most \<and> (\<forall>k. j \<le> k \<and> k \<le> i \<longrightarrow> held (fst (xs ! k)) s)
           \<and> most \<le> int i - int j \<longrightarrow> actions_of (rs ! i) = [EXIT])"
proof -
  let ?vw = "fst (xs ! i)" and ?b = "snd (xs ! i)" and ?hs = "map (\<lambda>x. held (fst x) s) (take (Suc i) xs)"
  have start: "counted s [] (rules_on_start st)" by (simp add: counted_def rules_on_start_def dict_get_or_def dict_get_def)
  obtain sti where sti: "counted s (map (\<lambda>x. held (fst x) s) (take i xs)) sti" "rs ! i = fst (rules_on_bar C ?vw ?b sti)"
    using rules_run_at [OF start assms(3,2,4)] assms(5) by auto
  have s: "b_symbol ?b = s" using assms(3,4) by (metis (mono_tags, lifting) case_prodD nth_mem prod.collapse)
  have len: "length ?hs = Suc i" and nth: "j \<le> i \<Longrightarrow> ?hs ! j = held (fst (xs ! j)) s" for j using assms(4) by (simp_all add: split_beta)
  have index: "dict_get_or (rl_seen sti) (b_symbol ?b) 0 + 1 = int (length ?hs)" using sti(1) assms(4) s by (simp add: counted_def)
  have counted: "counted s ?hs (tracked ?vw ?b sti)"
    using counted_step [OF sti(1) s, of ?vw] assms(4) by (simp add: take_Suc_conv_app_nth split_beta)
  have final: "last ?hs = held ?vw s" using last_conv_nth [of ?hs] nth [of i] len by (metis diff_Suc_1 le_refl list.size(3) nat.distinct(1))
  show ?thesis
  proof (cases "int (length (vw_visible ?vw s)) < cr_window C")
    case True
    then have "rs ! i = Inr []" using short_history_decides [of ?vw ?b C sti] s sti(2) by simp
    then show ?thesis using True by (simp add: actions_of_def)
  next
    case whole: False
    define bars where "bars = py_last (cr_window C) (vw_visible ?vw s)"
    have u: "b_symbol ?b \<in> set (cr_universe C)" "view_history ?vw (b_symbol ?b) (cr_window C) = Inr bars"
      using assms(2) s whole by (simp_all add: view_history_def bars_def)
    have "j + nat (rt_cooldown (cr_spec C)) < i" if "j < i" "held (fst (xs ! j)) s"
        "ENTER_LONG \<in> set (actions_of (rs ! i)) \<or> ENTER_SHORT \<in> set (actions_of (rs ! i))" for j
    proof -
      have flat: "\<not> held ?vw (b_symbol ?b)"
        using that(3) held_decides [OF assms(1) u _ HOL.refl HOL.refl, of sti] sti(2) by (auto split: if_splits)
      have "\<not> cooling C s (int (length ?hs)) (tracked ?vw ?b sti)"
        using that(3) flat_decides [OF assms(1) u flat HOL.refl index] sti(2) s by (auto split: if_splits)
      from counted_cooldown [OF counted _ _ _ this, of j] show ?thesis using that(1,2) nth [of j] len flat final s by simp
    qed
    moreover have "actions_of (rs ! i) = [EXIT]" if "j \<le> i" "rk_max_holding (rt_risk (cr_spec C)) = Some most"
        "\<forall>k. j \<le> k \<and> k \<le> i \<longrightarrow> held (fst (xs ! k)) s" "most \<le> int i - int j" for j most
    proof -
      have h: "held ?vw (b_symbol ?b)" using that(1,3) s by blast
      have "overdue C s (int (length ?hs)) (tracked ?vw ?b sti)"
        by (rule counted_overdue [OF counted _ _ that(2), of j]) (use that(1,3,4) nth len in auto)
      then show ?thesis using held_decides [OF assms(1) u h HOL.refl index] sti(2) s by simp
    qed
    ultimately show ?thesis using whole by simp
  qed
qed

section \<open>Witnesses\<close>

definition ratio_text :: "dec \<Rightarrow> string" where
  "ratio_text v = (let (p, q) = quotient_of v in int_digits p @ ''/'' @ int_digits q)"

lemma int_digits_start: "\<exists>c cs. int_digits n = c # cs \<and> starts_number c"
proof -
  have ne: "nat_digits k \<noteq> []" for k by (subst nat_digits.simps) simp
  have "\<exists>c cs. nat_digits k = c # cs \<and> starts_number c" for k
    using nat_digits_chars [of "hd (nat_digits k)" k] ne [of k] by (cases "nat_digits k") (auto simp: starts_number_def)
  then show ?thesis by (auto simp: int_digits_def starts_number_def)
qed

lemma int_digits_inj_all: "int_digits a = int_digits b \<Longrightarrow> a = b"
proof -
  assume eq: "int_digits a = int_digits b"
  have minus: "CHR ''-'' \<in> set (int_digits n) \<longleftrightarrow> n < 0" for n using nat_digits_chars [of "CHR ''-''" "nat \<bar>n\<bar>"] by (auto simp: int_digits_def)
  then have "a < 0 \<longleftrightarrow> b < 0" using eq by metis
  then have "nat \<bar>a\<bar> = nat \<bar>b\<bar>" using eq nat_digits_inj by (auto simp: int_digits_def split: if_splits)
  then have "\<bar>a\<bar> = \<bar>b\<bar>" by (metis abs_ge_zero eq_nat_nat_iff)
  then show ?thesis using \<open>a < 0 \<longleftrightarrow> b < 0\<close> by linarith
qed

definition sample_floats :: "dec floats" where
  "sample_floats = \<lparr>fl_of = id, fl_lt = (<), fl_le = (\<le>), fl_eq = (=),
     fl_compute = (\<lambda>name bars p. Inr (if int (length bars) < p then None else Some (b_close (last bars)))),
     fl_shown = ratio_text, fl_written = ratio_text\<rparr>"

lemma sample_floats_ok: "writes_numbers sample_floats" "indicators_ready sample_floats"
proof -
  have slash: "CHR ''/'' \<notin> set (int_digits n)" for n using nat_digits_chars [of "CHR ''/''"] by (auto simp: int_digits_def)
  have "v = v'" if "ratio_text v = ratio_text v'" for v v'
  proof -
    obtain p q p' q' where pq: "quotient_of v = (p, q)" "quotient_of v' = (p', q')" by (metis surj_pair)
    then have "int_digits p = int_digits p' \<and> int_digits q = int_digits q'"
      using that split_at_char [OF slash [of p] slash [of p']] by (simp add: ratio_text_def)
    then have "p = p' \<and> q = q'" using int_digits_inj_all by blast
    then show ?thesis using quotient_of_div [OF pq(1)] quotient_of_div [OF pq(2)] by simp
  qed
  moreover have "\<exists>c cs. ratio_text v = c # cs \<and> starts_number c" for v
    using int_digits_start [of "fst (quotient_of v)"] by (auto simp: ratio_text_def split_beta)
  ultimately show "writes_numbers sample_floats" by (auto simp: writes_numbers_def sample_floats_def)
  have "p \<le> n" if "min_bars name p = Inr n" for name p n using that by (simp add: min_bars_def split: if_splits)
  then show "indicators_ready sample_floats" unfolding indicators_ready_def sample_floats_def by fastforce
qed

text \<open>Long when the average crosses above ten, out after one bar.\<close>

definition sample_rules :: rule_set where
  "sample_rules = \<lparr>rt_name = ''cross'', rt_description = [], rt_universe = [''AAPL'', ''MSFT''], rt_timeframe = D1,
     rt_entry_long = Some (AnyOf [Condition (Indicator ''sma'' (Some 2) PClose 0 []) CrossesAbove (Constant 10)]), rt_entry_short = None,
     rt_exit = Some (Condition (PriceOf PClose 0) OpLt (Constant 5)),
     rt_risk = \<lparr>rk_stop_loss = None, rk_take_profit = None, rk_size = \<lparr>ps_type = ''fixed_qty'', ps_value = 1\<rparr>,
        rk_max_holding = Some 1, rk_flatten_at_close = False\<rparr>, rt_max_positions = 1, rt_cooldown = 2\<rparr>"

definition sample_compiled :: "dec compiled" where
  "sample_compiled = \<lparr>cr_spec = sample_rules, cr_universe = [''AAPL'', ''MSFT''], cr_window = 3, cr_floats = sample_floats, cr_new_id = (\<lambda>n. [])\<rparr>"

lemma sample_trees: "trees_of sample_rules = [AnyOf [Condition (Indicator ''sma'' (Some 2) PClose 0 []) CrossesAbove (Constant 10)],
    Condition (PriceOf PClose 0) OpLt (Constant 5)]"
  by (simp add: trees_of_def sample_rules_def List.map_filter_def)

lemma sample_compiles: "compile_ruleset sample_floats id (\<lambda>n. []) sample_rules = Inr sample_compiled" "built_all (trees_of sample_rules)"
proof -
  have "required_warmup sample_rules = Inr 3" "refuse_what_cannot_run sample_rules = Inr ()"
    by (simp_all add: required_warmup_def refuse_what_cannot_run_def sample_trees)
      (simp_all add: sample_rules_def stop_bars_def min_bars_def KNOWN_INDICATORS_def period_or_zero_def is_crossing_def)
  then show "compile_ruleset sample_floats id (\<lambda>n. []) sample_rules = Inr sample_compiled"
    by (simp add: compile_ruleset_def sample_compiled_def) (simp add: sample_rules_def)
  show "built_all (trees_of sample_rules)" by (simp add: sample_trees new_operand_def offset_of_def)
qed

lemma sample_runs: "runs sample_compiled"
proof -
  have "cr_floats sample_compiled = sample_floats" "cr_spec sample_compiled = sample_rules" by (simp_all add: sample_compiled_def)
  then show ?thesis unfolding runs_def using sample_floats_ok sample_compiles by auto
qed
definition sample_close :: "string \<Rightarrow> dec \<Rightarrow> bar" where
  "sample_close s c = sample_bar\<lparr>b_symbol := s, b_close := c\<rparr>"

definition sample_view :: "dec \<Rightarrow> view" where
  "sample_view q = \<lparr>vw_visible = (\<lambda>s. [sample_close s 8, sample_close s 8, sample_close s 12]), vw_now = 0, vw_symbols = [''AAPL'', ''MSFT''],
     vw_portfolio = put_position ''AAPL'' ((new_position ''AAPL'')\<lparr>p_qty := q\<rparr>)
       \<lparr>pf_cash = 0, pf_starting_equity = 0, pf_fees_settled = 0, pf_positions = [], pf_equity_curve = []\<rparr>\<rparr>"

lemma sample_history: "view_history (sample_view q) s (cr_window sample_compiled) = Inr [sample_close s 8, sample_close s 8, sample_close s 12]"
  by (simp add: view_history_def sample_view_def sample_compiled_def py_last_def)

lemma sample_held: "held (sample_view q) s \<longleftrightarrow> s = ''AAPL'' \<and> q \<noteq> 0"
  by (simp add: held_def sample_view_def position_of_def put_position_def dict_get_or_def is_flat_def new_position_def)

lemma sample_says:
  "says sample_compiled [sample_close s 8, sample_close s 8, sample_close s 12] (rt_entry_long sample_rules)"
  "\<not> says sample_compiled [sample_close s 8, sample_close s 8, sample_close s 12] (rt_exit sample_rules)"
  by (simp_all add: says_def sample_rules_def plain_compare_def is_crossing_def period_or_zero_def Let_def sample_compiled_def sample_floats_def
      bars_before_def any_verdict_def crossed_from_def sample_close_def field_of_def)

theorem compiled_rules_always_answer_witness:
  "\<exists>tree b. tree \<in> set (trees_of sample_rules)
     \<and> fst (walk_node sample_floats [sample_close ''AAPL'' 8, sample_close ''AAPL'' 8, sample_close ''AAPL'' 12] tree fresh_walk) = Inr (Some b) \<and> b"
proof -
  have "AnyOf [Condition (Indicator ''sma'' (Some 2) PClose 0 []) CrossesAbove (Constant 10)] \<in> set (trees_of sample_rules)" (is "?t \<in> _")
    by (simp add: sample_trees)
  moreover from compiled_rules_always_answer [OF sample_compiles sample_floats_ok this sample_history]
  obtain b where "fst (walk_node sample_floats [sample_close ''AAPL'' 8, sample_close ''AAPL'' 8, sample_close ''AAPL'' 12] ?t fresh_walk) = Inr (Some b)"
    "plain_verdict sample_floats [sample_close ''AAPL'' 8, sample_close ''AAPL'' 8, sample_close ''AAPL'' 12] ?t = Inr (Some b)" by blast
  moreover from this(2) sample_says(1) [of "''AAPL''"] have b by (simp add: says_def sample_rules_def sample_compiled_def)
  ultimately show ?thesis by blast
qed

theorem unknown_cannot_overturn_witness:
  "comes_true (\<lambda>l c r. case plain_compare sample_floats [sample_bar] l c r of Inr (Some b) \<Rightarrow> b | _ \<Rightarrow> False)
     (AnyOf [Condition (PriceOf PClose 5) OpLt (Constant 0), Condition (Constant 1) OpLt (Constant 2)])"
proof -
  let ?t = "AnyOf [Condition (PriceOf PClose 5) OpLt (Constant 0), Condition (Constant 1) OpLt (Constant 2)]"
  have ok: "tree_ok ?t" by (simp add: operand_ok_def offset_of_def)
  have "plain_verdict sample_floats [sample_bar] ?t = Inr (Some True)"
    by (simp add: plain_compare_def is_crossing_def sample_floats_def bars_before_def Let_def any_verdict_def)
  then have "fst (walk_node sample_floats [sample_bar] ?t fresh_walk) = Inr (Some True)"
    using agrees_walk(1) [OF sample_floats_ok(1) ok, of "[sample_bar]"] fresh_memo [of sample_floats "[sample_bar]"] by (simp add: agrees_def)
  from unknown_cannot_overturn [OF ok sample_floats_ok(1) this, where I = "\<lambda>l c r. case plain_compare sample_floats [sample_bar] l c r of
      Inr (Some b) \<Rightarrow> b | _ \<Rightarrow> False"] show ?thesis by simp
qed

definition empty_rule_state :: rule_state where
  "empty_rule_state = \<lparr>rl_seen = [], rl_entered = [], rl_exited = [], rl_drawn = 0\<rparr>"

lemma sample_spec: "cr_spec sample_compiled = sample_rules"
  by (simp add: sample_compiled_def)

lemma sample_entry_decided:
  assumes "s \<in> {''AAPL'', ''MSFT''}" "dict_get (rl_entered st) s = None" "dict_get (rl_exited st) s = None"
  shows "actions_of (fst (rules_on_bar sample_compiled (sample_view 0) (sample_close s 12) st)) = [ENTER_LONG]"
proof -
  have s: "b_symbol (sample_close s 12) = s" "b_symbol (sample_close s 12) \<in> set (cr_universe sample_compiled)" "\<not> held (sample_view 0) (b_symbol (sample_close s 12))"
    using assms by (auto simp: sample_close_def sample_compiled_def sample_held)
  have u: "universe_held sample_compiled (sample_view 0) = 0" "rt_max_positions sample_rules = 1"
    by (simp_all add: universe_held_def sample_compiled_def sample_held sample_rules_def)
  have "\<not> cooling sample_compiled s n (tracked (sample_view 0) (sample_close s 12) st)" for n
    using assms(2,3) by (simp add: cooling_def tracked_def track_symbol_def Let_def s(1) sample_held)
  with flat_decides [OF sample_runs s(2) sample_history s(3) HOL.refl HOL.refl] u sample_says(1) [of s] show ?thesis
    by (simp add: sample_spec s(1))
qed

theorem rules_decide_exactly_witness:
  "\<exists>r touched st'. rules_on_bar sample_compiled (sample_view 5) (sample_close ''AAPL'' 12) empty_rule_state = (r, touched, st') \<and> actions_of r = []"
proof -
  obtain r touched st' where r: "rules_on_bar sample_compiled (sample_view 5) (sample_close ''AAPL'' 12) empty_rule_state = (r, touched, st')" by (metis surj_pair)
  have s: "''AAPL'' = b_symbol (sample_close ''AAPL'' 12)" "''AAPL'' \<in> set (cr_universe sample_compiled)" by (simp_all add: sample_close_def sample_compiled_def)
  have "\<not> overdue sample_compiled ''AAPL'' n (track_symbol ''AAPL'' n False (empty_rule_state\<lparr>rl_seen := x\<rparr>))" for n x
    by (simp add: overdue_def track_symbol_def empty_rule_state_def dict_setdefault_def dict_get_def dict_set_def sample_spec) (simp add: sample_rules_def)
  with rules_decide_exactly [OF sample_runs s sample_history r HOL.refl HOL.refl] sample_says(2) [of "''AAPL''"]
  have "actions_of r = []" by (simp add: sample_held sample_spec)
  with r show ?thesis by blast
qed

theorem cooldown_and_holding_limit_are_kept_witness:
  "\<exists>rs. rs = rules_run sample_compiled [(sample_view 5, sample_close ''AAPL'' 8), (sample_view 5, sample_close ''AAPL'' 12)] (rules_on_start empty_rule_state)
     \<and> actions_of (rs ! 1) = [EXIT]"
proof -
  let ?xs = "[(sample_view 5, sample_close ''AAPL'' 8), (sample_view 5, sample_close ''AAPL'' 12)]"
  obtain rs where rs: "rs = rules_run sample_compiled ?xs (rules_on_start empty_rule_state)" by blast
  have "''AAPL'' \<in> set (cr_universe sample_compiled)" "\<forall>(vw, b) \<in> set ?xs. b_symbol b = ''AAPL''" "1 < length ?xs"
    by (simp_all add: sample_compiled_def sample_close_def)
  moreover have "\<not> int (length (vw_visible (fst (?xs ! 1)) ''AAPL'')) < cr_window sample_compiled"
    using sample_history [of 5 "''AAPL''"] by (simp add: view_history_def split: if_splits)
  ultimately have "\<forall>j \<le> 1. \<forall>most. rk_max_holding (rt_risk (cr_spec sample_compiled)) = Some most
      \<and> (\<forall>k. j \<le> k \<and> k \<le> 1 \<longrightarrow> held (fst (?xs ! k)) ''AAPL'') \<and> most \<le> int 1 - int j \<longrightarrow> actions_of (rs ! 1) = [EXIT]"
    using cooldown_and_holding_limit_are_kept [OF sample_runs _ _ _ rs] by presburger
  from this [rule_format, of 0 1] have "actions_of (rs ! 1) = [EXIT]"
    by (simp add: sample_compiled_def sample_rules_def sample_held nth_Cons split: nat.split)
  with rs show ?thesis by blast
qed

text \<open>
  The cap on positions is read off the book, which the entries of one instant do not yet change: with
  one position allowed and none open, two symbols of the universe are both entered on one bar.
\<close>

lemma cap_does_not_bind_within_a_bar:
  "rt_max_positions (cr_spec sample_compiled) = 1
   \<and> actions_of (fst (rules_on_bar sample_compiled (sample_view 0) (sample_close ''AAPL'' 12) empty_rule_state)) = [ENTER_LONG]
   \<and> actions_of (fst (rules_on_bar sample_compiled (sample_view 0) (sample_close ''MSFT'' 12)
        (snd (snd (rules_on_bar sample_compiled (sample_view 0) (sample_close ''AAPL'' 12) empty_rule_state))))) = [ENTER_LONG]"
proof -
  let ?st = "snd (snd (rules_on_bar sample_compiled (sample_view 0) (sample_close ''AAPL'' 12) empty_rule_state))"
  have "same_counters (tracked (sample_view 0) (sample_close ''AAPL'' 12) empty_rule_state) ?st"
    by (rule rules_on_bar_counters) (simp add: sample_close_def sample_compiled_def)
  then have "rl_entered ?st = []" "rl_exited ?st = []"
    by (simp_all add: same_counters_def tracked_def Let_def sample_held track_symbol_def empty_rule_state_def sample_close_def dict_get_def)
  then show ?thesis using sample_entry_decided [of "''AAPL''" empty_rule_state] sample_entry_decided [of "''MSFT''" ?st]
    by (simp add: sample_spec sample_rules_def empty_rule_state_def dict_get_def)
qed

end
