(* ===== verification/TradeRecords.thy ===== *)
theory TradeRecords
  imports Orders Market Idempotency
begin

text \<open>
  \<open>analytics/performance.py\<close>: round trips rebuilt from the fills of orders, their excursions against bars,
  attribution and daily returns. A leg and an episode are mutable in the code and values here. The name-based
  UUID of a trade is the function \<open>uuid5\<close> of its text. What the code hands out as a binary float is kept
  before that conversion: a holding period in microseconds, a win rate as wins over trades, a contribution
  in percent as the decimal that is converted. Metrics computed in floats are not modelled.
\<close>

definition UNATTRIBUTED :: string where "UNATTRIBUTED = ''unattributed''"
definition UNKNOWN_EXIT :: string where "UNKNOWN_EXIT = ''unknown''"

definition EXIT_REASONS :: "string dict" where
  "EXIT_REASONS = [(PURPOSE_ENTRY, ''signal''), (PURPOSE_EXIT, ''signal''), (PURPOSE_STOP_LOSS, ''stop_loss''), (PURPOSE_TAKE_PROFIT, ''take_profit''),
     (PURPOSE_TIME_EXIT, ''time''), (PURPOSE_FLATTEN, ''manual''), (PURPOSE_MANUAL, ''manual'')]"

definition ATTRIBUTION_DIMENSIONS :: "string list" where
  "ATTRIBUTION_DIMENSIONS = [''strategy'', ''symbol'', ''hour'', ''weekday'', ''exit_reason'']"

definition WEEKDAYS :: "string list" where
  "WEEKDAYS = [''Monday'', ''Tuesday'', ''Wednesday'', ''Thursday'', ''Friday'', ''Saturday'', ''Sunday'']"

record trade_record =
  tr_id :: string
  tr_strategy :: string
  tr_symbol :: string
  tr_side :: string
  tr_entry_ts :: ts
  tr_exit_ts :: "ts option"
  tr_entry_price :: dec
  tr_exit_price :: "dec option"
  tr_qty :: dec
  tr_gross :: dec
  tr_fees :: dec
  tr_net :: dec
  tr_return_pct :: dec
  tr_holding_us :: int
  tr_exit_reason :: string
  tr_mfe :: "dec option"
  tr_mae :: "dec option"

definition trade_is_long :: "trade_record \<Rightarrow> bool" where "trade_is_long t \<longleftrightarrow> tr_side t = ''long''"
definition is_win :: "trade_record \<Rightarrow> bool" where "is_win t \<longleftrightarrow> 0 < tr_net t"

section \<open>Legs and episodes\<close>

record leg =
  lg_qty :: dec
  lg_notional :: dec
  lg_fees :: dec
  lg_first :: "ts option"
  lg_last :: "ts option"

definition empty_leg :: leg where
  "empty_leg = \<lparr>lg_qty = 0, lg_notional = 0, lg_fees = 0, lg_first = None, lg_last = None\<rparr>"

definition leg_add :: "dec \<Rightarrow> dec \<Rightarrow> dec \<Rightarrow> ts \<Rightarrow> leg \<Rightarrow> leg" where
  "leg_add qty price fee t l =
     \<lparr>lg_qty = dadd (lg_qty l) qty, lg_notional = dadd (lg_notional l) (dmul qty price), lg_fees = dadd (lg_fees l) fee,
      lg_first = (case lg_first l of None \<Rightarrow> Some t | Some x \<Rightarrow> Some x), lg_last = Some t\<rparr>"

definition vwap :: "leg \<Rightarrow> dec" where
  "vwap l = (if lg_qty l \<noteq> 0 then ddiv (lg_notional l) (lg_qty l) else 0)"

record episode =
  ep_symbol :: string
  ep_long :: bool
  ep_strategy :: string
  ep_entry :: leg
  ep_exit :: leg
  ep_purpose :: "string option"

definition open_qty :: "episode \<Rightarrow> dec" where
  "open_qty e = dsub (lg_qty (ep_entry e)) (lg_qty (ep_exit e))"

definition trade_id :: "(string \<Rightarrow> string) \<Rightarrow> string \<Rightarrow> ts \<Rightarrow> ts \<Rightarrow> bool \<Rightarrow> string" where
  "trade_id uuid5 sm entry_ts exit_ts long =
     uuid5 (sm @ '':'' @ (if long then ''long'' else ''short'') @ '':'' @ isoformat entry_ts @ '':'' @ isoformat exit_ts)"

text \<open>The assertion that both legs have an instant is the error case.\<close>

definition to_trade :: "(string \<Rightarrow> string) \<Rightarrow> episode \<Rightarrow> exn + trade_record" where
  "to_trade uuid5 e =
     (case (lg_first (ep_entry e), lg_last (ep_exit e)) of
        (Some entry_ts, Some exit_ts) \<Rightarrow>
          let direction = (if ep_long e then 1 else - 1);
              gross = dmul (dsub (lg_notional (ep_exit e)) (lg_notional (ep_entry e))) direction;
              fees = dadd (lg_fees (ep_entry e)) (lg_fees (ep_exit e));
              net = dsub gross fees in
          Inr \<lparr>tr_id = trade_id uuid5 (ep_symbol e) entry_ts exit_ts (ep_long e), tr_strategy = ep_strategy e, tr_symbol = ep_symbol e,
            tr_side = (if ep_long e then ''long'' else ''short''), tr_entry_ts = entry_ts, tr_exit_ts = Some exit_ts,
            tr_entry_price = vwap (ep_entry e), tr_exit_price = Some (vwap (ep_exit e)), tr_qty = lg_qty (ep_entry e),
            tr_gross = gross, tr_fees = fees, tr_net = net,
            tr_return_pct = (if lg_notional (ep_entry e) \<noteq> 0 then ddiv net (lg_notional (ep_entry e)) else 0),
            tr_holding_us = exit_ts - entry_ts,
            tr_exit_reason = dict_get_or EXIT_REASONS (or_empty (ep_purpose e)) UNKNOWN_EXIT, tr_mfe = None, tr_mae = None\<rparr>
      | _ \<Rightarrow> Inl (RuntimeError (Reason ''an episode has both legs'' [] [])))"

section \<open>From orders to round trips\<close>

record fill_event =
  fe_ts :: ts
  fe_qty :: dec
  fe_price :: dec
  fe_fee :: dec
  fe_purpose :: string
  fe_strategy :: string

definition strategy_or :: "string option \<Rightarrow> string" where
  "strategy_or s = (case s of None \<Rightarrow> UNATTRIBUTED | Some x \<Rightarrow> if x = [] then UNATTRIBUTED else x)"

definition event_of :: "order \<Rightarrow> fill \<Rightarrow> fill_event" where
  "event_of o1 f = \<lparr>fe_ts = f_ts f, fe_qty = dmul (f_qty f) (side_sign (o_side o1)), fe_price = f_price f, fe_fee = f_fee f,
     fe_purpose = o_purpose o1, fe_strategy = strategy_or (o_strategy o1)\<rparr>"

definition add_event :: "string \<Rightarrow> fill_event \<Rightarrow> fill_event list dict \<Rightarrow> fill_event list dict" where
  "add_event sm ev d = dict_set sm (dict_get_or d sm [] @ [ev]) d"

definition unsorted_stream :: "order list \<Rightarrow> fill_event list dict" where
  "unsorted_stream orders = fold (\<lambda>o1 d. fold (\<lambda>f. add_event (o_symbol o1) (event_of o1 f)) (o_fills o1) d) orders []"

text \<open>The sort key is the instant, then the place in the input; a stable sort by the instant is the same.\<close>

definition fill_stream :: "order list \<Rightarrow> fill_event list dict" where
  "fill_stream orders = map (\<lambda>(sm, evs). (sm, sort_key fe_ts evs)) (unsorted_stream orders)"

definition close_part :: "dec \<Rightarrow> dec \<Rightarrow> episode \<Rightarrow> dec \<times> dec" where
  "close_part remaining fee e =
     (let closing = min remaining (open_qty e)
      in (closing, if remaining \<noteq> 0 then ddiv (dmul fee closing) remaining else 0))"

definition closed_by :: "fill_event \<Rightarrow> dec \<Rightarrow> dec \<Rightarrow> episode \<Rightarrow> episode" where
  "closed_by ev closing closing_fee e =
     e\<lparr>ep_exit := leg_add closing (fe_price ev) closing_fee (fe_ts ev) (ep_exit e), ep_purpose := Some (fe_purpose ev)\<rparr>"

definition entered_by :: "string \<Rightarrow> fill_event \<Rightarrow> dec \<Rightarrow> dec \<Rightarrow> episode option \<Rightarrow> episode" where
  "entered_by sm ev remaining fee cur =
     (let e = (case cur of Some e \<Rightarrow> e
        | None \<Rightarrow> \<lparr>ep_symbol = sm, ep_long = (0 < fe_qty ev), ep_strategy = fe_strategy ev, ep_entry = empty_leg, ep_exit = empty_leg, ep_purpose = None\<rparr>)
      in e\<lparr>ep_entry := leg_add remaining (fe_price ev) fee (fe_ts ev) (ep_entry e)\<rparr>)"

definition enter_rest :: "string \<Rightarrow> fill_event \<Rightarrow> dec \<Rightarrow> dec \<Rightarrow> trade_record list \<times> episode option \<Rightarrow> trade_record list \<times> episode option" where
  "enter_rest sm ev remaining fee st =
     (if remaining = 0 then st else (fst st, Some (entered_by sm ev remaining fee (snd st))))"

definition fold_fill :: "(string \<Rightarrow> string) \<Rightarrow> string \<Rightarrow> fill_event \<Rightarrow> trade_record list \<times> episode option \<Rightarrow>
    exn + trade_record list \<times> episode option" where
  "fold_fill uuid5 sm ev st =
     (let remaining = dabs (fe_qty ev); fee = fe_fee ev in
      case snd st of
        Some e \<Rightarrow>
          if ep_long e \<noteq> (0 < fe_qty ev)
          then
            let (closing, closing_fee) = close_part remaining fee e; e1 = closed_by ev closing closing_fee e;
                rest = dsub remaining closing; rest_fee = dsub fee closing_fee in
            if open_qty e1 = 0
            then bind_r (to_trade uuid5 e1) (\<lambda>t. Inr (enter_rest sm ev rest rest_fee (fst st @ [t], None)))
            else Inr (enter_rest sm ev rest rest_fee (fst st, Some e1))
          else Inr (enter_rest sm ev remaining fee st)
      | None \<Rightarrow> Inr (enter_rest sm ev remaining fee st))"

definition symbol_trades :: "(string \<Rightarrow> string) \<Rightarrow> string \<times> fill_event list \<Rightarrow> trade_record list \<Rightarrow> exn + trade_record list" where
  "symbol_trades uuid5 x trades =
     bind_r (for_r (fold_fill uuid5 (fst x)) (snd x) (trades, None)) (\<lambda>st. Inr (fst st))"

text \<open>Sorted by when they closed, then by symbol: a stable sort by each, the last first.\<close>

fun insert_by_symbol :: "trade_record \<Rightarrow> trade_record list \<Rightarrow> trade_record list" where
  "insert_by_symbol t [] = [t]"
| "insert_by_symbol t (u # us) = (if str_le (tr_symbol t) (tr_symbol u) then t # u # us else u # insert_by_symbol t us)"

definition closed_at :: "trade_record \<Rightarrow> ts" where
  "closed_at t = (case tr_exit_ts t of Some x \<Rightarrow> x | None \<Rightarrow> tr_entry_ts t)"

definition in_closing_order :: "trade_record list \<Rightarrow> trade_record list" where
  "in_closing_order ts = sort_key closed_at (foldr insert_by_symbol ts [])"

definition build_trades :: "(string \<Rightarrow> string) \<Rightarrow> order list \<Rightarrow> exn + trade_record list" where
  "build_trades uuid5 orders =
     bind_r (for_r (symbol_trades uuid5) (fill_stream orders) []) (\<lambda>ts. Inr (in_closing_order ts))"

section \<open>Excursions\<close>

definition bars_in :: "bar list \<Rightarrow> trade_record \<Rightarrow> bar list" where
  "bars_in bars t =
     (case tr_exit_ts t of None \<Rightarrow> [] | Some stop \<Rightarrow> filter (\<lambda>b. tr_entry_ts t \<le> b_ts b \<and> b_ts b \<le> stop) bars)"

definition with_excursion :: "bar list dict \<Rightarrow> trade_record \<Rightarrow> trade_record" where
  "with_excursion bars_by_symbol t =
     (let window = bars_in (dict_get_or bars_by_symbol (tr_symbol t) []) t in
      if window = [] then t
      else
        let high = Max (set (map b_high window)); low = Min (set (map b_low window));
            (best, worst) = (if trade_is_long t then (dsub high (tr_entry_price t), dsub low (tr_entry_price t))
                             else (dsub (tr_entry_price t) low, dsub (tr_entry_price t) high)) in
        t\<lparr>tr_mfe := Some (dmul (max best 0) (tr_qty t)), tr_mae := Some (dmul (min worst 0) (tr_qty t))\<rparr>)"

definition with_excursions :: "trade_record list \<Rightarrow> bar list dict \<Rightarrow> trade_record list" where
  "with_excursions trades bars_by_symbol = map (with_excursion bars_by_symbol) trades"

section \<open>Attribution\<close>

record attribution_row =
  ar_key :: string
  ar_net :: dec
  ar_trades :: int
  ar_wins :: int
  ar_avg :: dec
  ar_contribution :: dec

definition attribution_key :: "string \<Rightarrow> trade_record \<Rightarrow> string" where
  "attribution_key by_what t =
     (if by_what = ''strategy'' then tr_strategy t
      else if by_what = ''symbol'' then tr_symbol t
      else if by_what = ''exit_reason'' then tr_exit_reason t
      else if by_what = ''hour'' then pad_digits 2 (nat (tr_entry_ts t mod DAY_US div (3600 * 10 ^ 6)))
      else WEEKDAYS ! nat (weekday (utc_date (tr_entry_ts t))))"

definition group_trade :: "string \<Rightarrow> trade_record \<Rightarrow> trade_record list dict \<Rightarrow> trade_record list dict" where
  "group_trade by_what t d = dict_set (attribution_key by_what t) (dict_get_or d (attribution_key by_what t) [] @ [t]) d"

definition attribution_row_of :: "dec \<Rightarrow> string \<times> trade_record list \<Rightarrow> attribution_row" where
  "attribution_row_of magnitude g =
     (let net = dsum (map tr_net (snd g)); n = int (length (snd g)) in
      \<lparr>ar_key = fst g, ar_net = net, ar_trades = n, ar_wins = int (length (filter is_win (snd g))), ar_avg = ddiv net (of_int n),
       ar_contribution = (if magnitude \<noteq> 0 then dmul (ddiv net magnitude) 100 else 0)\<rparr>)"

definition attribution :: "trade_record list \<Rightarrow> string \<Rightarrow> exn + attribution_row list" where
  "attribution trades by_what =
     (if by_what \<notin> set ATTRIBUTION_DIMENSIONS then Inl (value_error ''cannot attribute by an unknown dimension'')
      else
        let grouped = fold (group_trade by_what) trades []; magnitude = dsum (map (\<lambda>t. dabs (tr_net t)) trades) in
        Inr (sort_key (\<lambda>r. - ar_net r) (map (attribution_row_of magnitude) grouped)))"

section \<open>Daily returns\<close>

definition day_closes :: "(ts \<times> dec) list \<Rightarrow> (date \<times> dec) list" where
  "day_closes curve = fold (\<lambda>(t, equity) d. AList.update (utc_date t) equity d) curve []"

fun returns_between :: "(date \<times> dec) list \<Rightarrow> (date \<times> dec) list" where
  "returns_between ((d1, c1) # (d2, c2) # rest) =
     (if 0 < c1 then [(d2, ddiv (dsub c2 c1) c1)] else []) @ returns_between ((d2, c2) # rest)"
| "returns_between _ = []"

definition daily_returns :: "(ts \<times> dec) list \<Rightarrow> (date \<times> dec) list" where
  "daily_returns curve = returns_between (sort_key fst (day_closes curve))"

end
