(* ===== verification/TradeSafety.thy ===== *)
theory TradeSafety
  imports TradeRecords "HOL-Library.Multiset"
begin

text \<open>
  What the rebuilt round trips say of the fills: they account for every dollar when nothing is rounded and
  the position ends flat, an attribution counts every trade once, an excursion has the sign its name says.
  And two things their comments get wrong: which bars an excursion is measured over, and that two
  trades cannot share an identifier.
\<close>

section \<open>Round trips and cash\<close>

definition cash_of :: "fill_event \<Rightarrow> dec" where
  "cash_of ev = - (fe_qty ev * fe_price ev) - fe_fee ev"

definition leg_exact :: "dec \<Rightarrow> dec \<Rightarrow> dec \<Rightarrow> leg \<Rightarrow> bool" where
  "leg_exact q p f l \<longleftrightarrow> exact28 (lg_qty l + q) \<and> exact28 (q * p) \<and> exact28 (lg_notional l + q * p) \<and> exact28 (lg_fees l + f)"

definition direction :: "episode \<Rightarrow> dec" where "direction e = (if ep_long e then 1 else - 1)"

definition trade_exact :: "episode \<Rightarrow> bool" where
  "trade_exact e \<longleftrightarrow> exact28 (lg_notional (ep_exit e) - lg_notional (ep_entry e)) \<and> exact28 (lg_fees (ep_entry e) + lg_fees (ep_exit e))
     \<and> exact28 ((lg_notional (ep_exit e) - lg_notional (ep_entry e)) * direction e - (lg_fees (ep_entry e) + lg_fees (ep_exit e)))"

definition entry_leg :: "episode option \<Rightarrow> leg" where
  "entry_leg cur = (case cur of None \<Rightarrow> empty_leg | Some e \<Rightarrow> ep_entry e)"

text \<open>Nothing of this step is rounded, the split of the fee apart.\<close>

definition step_exact :: "fill_event \<Rightarrow> episode option \<Rightarrow> bool" where
  "step_exact ev cur \<longleftrightarrow> fe_qty ev \<noteq> 0 \<and> exact28 (fe_qty ev) \<and>
     (let q = \<bar>fe_qty ev\<bar>; fee = fe_fee ev in
      case cur of
        None \<Rightarrow> leg_exact q (fe_price ev) fee empty_leg
      | Some e \<Rightarrow>
          if ep_long e = (0 < fe_qty ev) then leg_exact q (fe_price ev) fee (ep_entry e)
          else
            let (closing, closing_fee) = close_part q fee e; e1 = closed_by ev closing closing_fee e in
            exact28 fee \<and> exact28 (fee * closing) \<and> exact28 (lg_qty (ep_entry e) - lg_qty (ep_exit e)) \<and> leg_exact closing (fe_price ev) closing_fee (ep_exit e)
            \<and> exact28 (q - closing) \<and> exact28 (fee - closing_fee) \<and> exact28 (lg_qty (ep_entry e) - (lg_qty (ep_exit e) + closing))
            \<and> trade_exact e1 \<and> leg_exact (q - closing) (fe_price ev) (fee - closing_fee) (if open_qty e1 = 0 then empty_leg else ep_entry e))"

fun run_exact :: "(string \<Rightarrow> string) \<Rightarrow> string \<Rightarrow> fill_event list \<Rightarrow> episode option \<Rightarrow> bool" where
  "run_exact u sm [] cur \<longleftrightarrow> True"
| "run_exact u sm (ev # evs) cur \<longleftrightarrow> step_exact ev cur \<and>
     (case fold_fill u sm ev ([], cur) of Inl e \<Rightarrow> True | Inr st \<Rightarrow> run_exact u sm evs (snd st))"

text \<open>An episode in progress: it has begun, and something is open.\<close>

definition in_progress :: "episode option \<Rightarrow> bool" where
  "in_progress cur \<longleftrightarrow> (\<forall>e. cur = Some e \<longrightarrow> lg_first (ep_entry e) \<noteq> None \<and> lg_qty (ep_exit e) < lg_qty (ep_entry e))"

definition open_position :: "episode option \<Rightarrow> dec" where
  "open_position cur = (case cur of None \<Rightarrow> 0 | Some e \<Rightarrow> direction e * (lg_qty (ep_entry e) - lg_qty (ep_exit e)))"

text \<open>What the open episode has cost so far.\<close>

definition open_cost :: "episode option \<Rightarrow> dec" where
  "open_cost cur = (case cur of None \<Rightarrow> 0
     | Some e \<Rightarrow> direction e * (lg_notional (ep_entry e) - lg_notional (ep_exit e)) + lg_fees (ep_entry e) + lg_fees (ep_exit e))"

lemma leg_add_exact:
  "leg_exact q p f l \<Longrightarrow> lg_qty (leg_add q p f t l) = lg_qty l + q \<and> lg_notional (leg_add q p f t l) = lg_notional l + q * p
    \<and> lg_fees (leg_add q p f t l) = lg_fees l + f"
  by (simp add: leg_add_def leg_exact_def dadd_def dmul_def rnd_exact)

lemma leg_add_dates [simp]: "\<exists>x. lg_first (leg_add q p f t l) = Some x" "lg_last (leg_add q p f t l) = Some t"
  by (simp_all add: leg_add_def split: option.split)

text \<open>Adding the rest of a fill to the entry, or opening an episode with it.\<close>

lemma enter_rest_accounts:
  assumes "leg_exact q (fe_price ev) fee (entry_leg cur)" "0 \<le> q" "in_progress cur" "\<And>e. cur = Some e \<Longrightarrow> ep_long e = (0 < fe_qty ev)"
    and "d = (if 0 < fe_qty ev then 1 else - 1)" "q = 0 \<Longrightarrow> fee = 0"
  shows "fst (enter_rest sm ev q fee (ts, cur)) = ts \<and> in_progress (snd (enter_rest sm ev q fee (ts, cur)))
    \<and> open_position (snd (enter_rest sm ev q fee (ts, cur))) = open_position cur + d * q
    \<and> open_cost (snd (enter_rest sm ev q fee (ts, cur))) = open_cost cur + d * q * fe_price ev + fee"
proof (cases "q = 0")
  case True
  then show ?thesis using assms(3,6) by (simp add: enter_rest_def)
next
  case False
  show ?thesis
  proof (cases cur)
    case None
    then show ?thesis using assms False leg_add_exact [OF assms(1), of "fe_ts ev"]
      by (simp add: enter_rest_def entered_by_def Let_def in_progress_def open_position_def open_cost_def direction_def entry_leg_def empty_leg_def)
  next
    case (Some e)
    then show ?thesis using assms False leg_add_exact [OF assms(1), of "fe_ts ev"]
      by (auto simp: enter_rest_def entered_by_def Let_def in_progress_def open_position_def open_cost_def direction_def entry_leg_def algebra_simps)
  qed
qed

text \<open>The closing part of a fill against the open episode.\<close>

lemma close_accounts:
  assumes "ep_long e \<noteq> (0 < fe_qty ev)" "in_progress (Some e)" "fe_qty ev \<noteq> 0" "q = \<bar>fe_qty ev\<bar>" "close_part q (fe_fee ev) e = (c, cf)"
    and "e1 = closed_by ev c cf e" "exact28 (lg_qty (ep_entry e) - lg_qty (ep_exit e))" "leg_exact c (fe_price ev) cf (ep_exit e)"
    and "exact28 (lg_qty (ep_entry e) - (lg_qty (ep_exit e) + c))" "d = (if 0 < fe_qty ev then 1 else - 1)"
  shows "0 < c \<and> c \<le> q \<and> (open_qty e1 = 0 \<longleftrightarrow> c = lg_qty (ep_entry e) - lg_qty (ep_exit e))
    \<and> (open_qty e1 \<noteq> 0 \<longrightarrow> c = q \<and> in_progress (Some e1))
    \<and> open_position (Some e1) = open_position (Some e) + d * c \<and> open_cost (Some e1) = open_cost (Some e) + d * c * fe_price ev + cf
    \<and> open_position (Some e1) = direction e1 * open_qty e1 \<and> lg_first (ep_entry e1) \<noteq> None \<and> lg_last (ep_exit e1) = Some (fe_ts ev)"
proof -
  let ?open = "lg_qty (ep_entry e) - lg_qty (ep_exit e)"
  have oq: "open_qty e = ?open" using assms(7) by (simp add: open_qty_def dsub_def rnd_exact)
  have pos: "0 < ?open" using assms(2) by (simp add: in_progress_def)
  have c: "c = min q ?open" using assms(5) oq by (simp add: close_part_def Let_def)
  have l: "lg_qty (ep_exit e1) = lg_qty (ep_exit e) + c" "lg_notional (ep_exit e1) = lg_notional (ep_exit e) + c * fe_price ev"
      "lg_fees (ep_exit e1) = lg_fees (ep_exit e) + cf" "ep_entry e1 = ep_entry e" "ep_long e1 = ep_long e"
    using leg_add_exact [OF assms(8), of "fe_ts ev"] by (simp_all add: assms(6) closed_by_def)
  have oq1: "open_qty e1 = ?open - c" using assms(9) l by (simp add: open_qty_def dsub_def rnd_exact algebra_simps)
  have d: "direction e = - d" using assms(1,3,10) by (auto simp: direction_def)
  have dir: "direction e1 = direction e" using l by (simp add: direction_def)
  have "0 < c \<and> c \<le> q" using c pos assms(3,4) by auto
  moreover have "open_qty e1 \<noteq> 0 \<longrightarrow> c = q \<and> in_progress (Some e1)"
    using oq1 c pos assms(2) l by (auto simp: in_progress_def min_def split: if_splits)
  moreover have "open_position (Some e1) = open_position (Some e) + d * c" "open_cost (Some e1) = open_cost (Some e) + d * c * fe_price ev + cf"
    using l d dir by (simp_all add: open_position_def open_cost_def algebra_simps)
  moreover have "open_position (Some e1) = direction e1 * open_qty e1" using oq1 l by (simp add: open_position_def)
  ultimately show ?thesis using oq1 assms(2,6) l by (auto simp: in_progress_def closed_by_def)
qed

lemma to_trade_nets:
  assumes "trade_exact e" "to_trade u e = Inr t"
  shows "tr_net t = direction e * (lg_notional (ep_exit e) - lg_notional (ep_entry e)) - lg_fees (ep_entry e) - lg_fees (ep_exit e)"
proof -
  have "exact28 (x * direction e) \<longleftrightarrow> exact28 x" for x by (simp add: direction_def)
  then have g: "dmul (dsub (lg_notional (ep_exit e)) (lg_notional (ep_entry e))) (direction e)
      = (lg_notional (ep_exit e) - lg_notional (ep_entry e)) * direction e"
    using assms(1) by (simp add: trade_exact_def dmul_def dsub_def rnd_exact)
  have "tr_net t = dsub (dmul (dsub (lg_notional (ep_exit e)) (lg_notional (ep_entry e))) (direction e)) (dadd (lg_fees (ep_entry e)) (lg_fees (ep_exit e)))"
    using assms(2) by (auto simp: to_trade_def Let_def direction_def split: option.splits)
  also have "\<dots> = (lg_notional (ep_exit e) - lg_notional (ep_entry e)) * direction e - (lg_fees (ep_entry e) + lg_fees (ep_exit e))"
    using assms(1) unfolding g by (simp add: trade_exact_def dadd_def dsub_def rnd_exact)
  finally show ?thesis by (simp add: algebra_simps)
qed

lemma to_trade_total: "lg_first (ep_entry e) \<noteq> None \<Longrightarrow> lg_last (ep_exit e) \<noteq> None \<Longrightarrow> \<exists>t. to_trade u e = Inr t"
  by (auto simp: to_trade_def Let_def)

text \<open>One fill moves the position by its quantity and the account by its cash.\<close>

lemma fold_fill_accounts:
  assumes "step_exact ev cur" "in_progress cur"
  shows "\<exists>ts' cur'. fold_fill u sm ev (ts, cur) = Inr (ts', cur') \<and> in_progress cur'
    \<and> open_position cur' = open_position cur + fe_qty ev
    \<and> sum_list (map tr_net ts') - open_cost cur' = sum_list (map tr_net ts) - open_cost cur + cash_of ev"
proof -
  define d q where "d = (if 0 < fe_qty ev then 1 else - 1 :: dec)" and "q = \<bar>fe_qty ev\<bar>"
  have nz: "fe_qty ev \<noteq> 0" and ab: "dabs (fe_qty ev) = q" and dq: "d * q = fe_qty ev" and q: "0 < q"
    using assms(1) by (auto simp: step_exact_def dabs_exact d_def q_def)
  have cash: "cash_of ev = - (d * q * fe_price ev) - fe_fee ev" by (simp add: cash_of_def dq)
  show ?thesis
  proof (cases "\<exists>e. cur = Some e \<and> ep_long e \<noteq> (0 < fe_qty ev)")
    case False
    have "leg_exact q (fe_price ev) (fe_fee ev) (entry_leg cur)" and same: "\<And>e. cur = Some e \<Longrightarrow> ep_long e = (0 < fe_qty ev)"
      using assms(1) False by (auto simp: step_exact_def Let_def entry_leg_def q_def split: option.splits)
    moreover have "fold_fill u sm ev (ts, cur) = Inr (enter_rest sm ev q (fe_fee ev) (ts, cur))"
      using False by (auto simp: fold_fill_def ab Let_def split: option.split)
    moreover have "0 \<le> q" "q = 0 \<Longrightarrow> fe_fee ev = 0" using q by simp_all
    ultimately show ?thesis using enter_rest_accounts [OF _ _ assms(2) _ d_def, of q "fe_fee ev" sm ts] dq cash
      by (cases "enter_rest sm ev q (fe_fee ev) (ts, cur)") simp
  next
    case True
    then obtain e where e: "cur = Some e" "ep_long e \<noteq> (0 < fe_qty ev)" by blast
    obtain c cf where c: "close_part q (fe_fee ev) e = (c, cf)" by (cases "close_part q (fe_fee ev) e")
    define e1 where "e1 = closed_by ev c cf e"
    have x: "exact28 (lg_qty (ep_entry e) - lg_qty (ep_exit e))" "leg_exact c (fe_price ev) cf (ep_exit e)" "exact28 (q - c)"
        "exact28 (fe_fee ev - cf)" "exact28 (lg_qty (ep_entry e) - (lg_qty (ep_exit e) + c))" "trade_exact e1"
        "leg_exact (q - c) (fe_price ev) (fe_fee ev - cf) (if open_qty e1 = 0 then empty_leg else ep_entry e)"
        "exact28 (fe_fee ev)" "exact28 (fe_fee ev * c)"
      using assms(1) e c by (simp_all add: step_exact_def Let_def q_def e1_def)
    note closed = close_accounts [OF e(2) assms(2) [unfolded e(1)] nz q_def c e1_def x(1,2,5) d_def]
    have rest: "dsub q c = q - c" "dsub (fe_fee ev) cf = fe_fee ev - cf" using x(3,4) by (simp_all add: dsub_def rnd_exact)
    have "cf = rnd (rnd (fe_fee ev * c) / q)" using c q by (auto simp: close_part_def Let_def ddiv_def dmul_def)
    then have all_of_fee: "fe_fee ev - cf = 0" if "q - c = 0" using that q x(8,9) by (simp add: rnd_exact)
    have step: "fold_fill u sm ev (ts, cur) = (if open_qty e1 = 0
        then bind_r (to_trade u e1) (\<lambda>t. Inr (enter_rest sm ev (q - c) (fe_fee ev - cf) (ts @ [t], None)))
        else Inr (enter_rest sm ev (q - c) (fe_fee ev - cf) (ts, Some e1)))"
      using e c by (simp add: fold_fill_def Let_def ab e1_def rest)
    show ?thesis
    proof (cases "open_qty e1 = 0")
      case True
      obtain t where t: "to_trade u e1 = Inr t" using to_trade_total [of e1 u] closed by auto
      have moved: "open_position (Some e1) = open_position (Some e) + d * c" "open_cost (Some e1) = open_cost (Some e) + d * c * fe_price ev + cf"
          "open_position (Some e1) = direction e1 * open_qty e1" using closed by blast+
      have flat: "open_position (Some e1) = 0" unfolding moved(3) True by simp
      have cost: "open_cost (Some e1) = - tr_net t" using to_trade_nets [OF x(6) t] by (simp add: open_cost_def algebra_simps)
      have "leg_exact (q - c) (fe_price ev) (fe_fee ev - cf) (entry_leg None)" using x(7) True by (simp add: entry_leg_def)
      from enter_rest_accounts [OF this _ _ _ d_def all_of_fee, of sm "ts @ [t]"] closed
      obtain cur' where r: "enter_rest sm ev (q - c) (fe_fee ev - cf) (ts @ [t], None) = (ts @ [t], cur')" "in_progress cur'"
          "open_position cur' = d * (q - c)" "open_cost cur' = d * (q - c) * fe_price ev + (fe_fee ev - cf)"
        by (cases "enter_rest sm ev (q - c) (fe_fee ev - cf) (ts @ [t], None)")
          (simp add: in_progress_def open_position_def [of None] open_cost_def [of None])
      have split: "d * (q - c) = fe_qty ev - d * c" "d * (q - c) * fe_price ev = fe_qty ev * fe_price ev - d * c * fe_price ev"
        by (simp_all add: right_diff_distrib left_diff_distrib dq)
      have "cash_of ev = - (fe_qty ev * fe_price ev) - fe_fee ev" by (simp add: cash_of_def)
      then have "open_position cur' = open_position cur + fe_qty ev"
        "sum_list (map tr_net (ts @ [t])) - open_cost cur' = sum_list (map tr_net ts) - open_cost cur + cash_of ev"
        using flat cost moved(1,2) r(3,4) split e(1) by simp_all
      then show ?thesis using step True t r(1,2) by simp
    next
      case False
      then have qc: "q - c = 0" "in_progress (Some e1)" using closed by auto
      have moved: "open_position (Some e1) = open_position (Some e) + d * c" "open_cost (Some e1) = open_cost (Some e) + d * c * fe_price ev + cf"
        using closed by blast+
      have "d * c = fe_qty ev" using qc(1) dq by simp
      then show ?thesis using step False qc moved e(1) all_of_fee by (simp add: enter_rest_def cash_of_def)
    qed
  qed
qed

section \<open>Whole histories\<close>

lemma fold_fill_prefix:
  "fold_fill u sm ev (ts, cur) = (case fold_fill u sm ev ([], cur) of Inl e \<Rightarrow> Inl e | Inr st \<Rightarrow> Inr (ts @ fst st, snd st))"
  by (auto simp: fold_fill_def Let_def enter_rest_def bind_r_def split: option.splits sum.splits prod.splits)

lemma run_accounts:
  assumes "run_exact u sm evs cur" "in_progress cur"
  shows "\<exists>ts' cur'. for_r (fold_fill u sm) evs (ts, cur) = Inr (ts', cur') \<and> in_progress cur'
    \<and> open_position cur' = open_position cur + sum_list (map fe_qty evs)
    \<and> sum_list (map tr_net ts') - open_cost cur' = sum_list (map tr_net ts) - open_cost cur + sum_list (map cash_of evs)"
  using assms
proof (induction evs arbitrary: ts cur)
  case (Cons ev evs)
  obtain ts1 cur1 where one: "fold_fill u sm ev (ts, cur) = Inr (ts1, cur1)" "in_progress cur1"
      "open_position cur1 = open_position cur + fe_qty ev"
      "sum_list (map tr_net ts1) - open_cost cur1 = sum_list (map tr_net ts) - open_cost cur + cash_of ev"
    using fold_fill_accounts [of ev cur u sm ts] Cons.prems by auto
  have "run_exact u sm evs cur1" using Cons.prems(1) one(1) fold_fill_prefix [of u sm ev ts cur] by (auto split: sum.splits)
  from Cons.IH [OF this one(2), of ts1] one show ?case by (auto simp: bind_r_def)
qed simp

lemma flat_is_closed: "in_progress cur \<Longrightarrow> open_position cur = 0 \<Longrightarrow> cur = None"
  by (auto simp: in_progress_def open_position_def direction_def split: option.splits if_splits)

lemma streams_account:
  assumes "\<forall>(sm, evs) \<in> set xs. run_exact u sm evs None \<and> sum_list (map fe_qty evs) = 0"
  shows "\<exists>ts'. for_r (symbol_trades u) xs ts = Inr ts'
    \<and> sum_list (map tr_net ts') = sum_list (map tr_net ts) + sum_list (map (\<lambda>x. sum_list (map cash_of (snd x))) xs)"
  using assms
proof (induction xs arbitrary: ts)
  case (Cons x xs)
  obtain sm evs where x: "x = (sm, evs)" by (cases x)
  have run: "run_exact u sm evs None" "sum_list (map fe_qty evs) = 0" using Cons.prems x by auto
  obtain ts1 cur1 where r: "for_r (fold_fill u sm) evs (ts, None) = Inr (ts1, cur1)" "in_progress cur1"
      "open_position cur1 = 0" "sum_list (map tr_net ts1) - open_cost cur1 = sum_list (map tr_net ts) + sum_list (map cash_of evs)"
    using run_accounts [OF run(1), of ts] run(2) by (auto simp: in_progress_def open_position_def [of None] open_cost_def [of None])
  have "cur1 = None" using r by (intro flat_is_closed)
  then have "symbol_trades u x ts = Inr ts1" "sum_list (map tr_net ts1) = sum_list (map tr_net ts) + sum_list (map cash_of evs)"
    using r x by (simp_all add: symbol_trades_def open_cost_def)
  then show ?case using Cons.IH [of ts1] Cons.prems x by (auto simp: bind_r_def add.assoc)
qed simp

lemma sum_sorted: "sum_list (map g (sort_key f xs)) = sum_list (map g xs)" for g :: "'a \<Rightarrow> 'n :: comm_monoid_add"
  by (metis mset_map mset_sort sum_mset_sum_list)

lemma sum_by_symbol: "sum_list (map g (foldr insert_by_symbol ts [])) = sum_list (map g ts)" for g :: "trade_record \<Rightarrow> dec"
proof -
  have "sum_list (map g (insert_by_symbol t us)) = g t + sum_list (map g us)" for t us by (induction us) simp_all
  then show ?thesis by (induction ts) simp_all
qed

lemma dict_append_sum:
  fixes g :: "'a \<Rightarrow> 'n :: ab_group_add"
  shows "sum_list (map (\<lambda>x. sum_list (map g (snd x))) (dict_set k (dict_get_or d k [] @ [v]) d)) = sum_list (map (\<lambda>x. sum_list (map g (snd x))) d) + g v"
proof -
  have "sum_list (map (\<lambda>x. sum_list (map g (snd x))) (AList.update k w d)) = sum_list (map (\<lambda>x. sum_list (map g (snd x))) d) + sum_list (map g w)
      - (case map_of d k of None \<Rightarrow> 0 | Some w \<Rightarrow> sum_list (map g w))" for w
    by (induction d) (auto split: option.splits)
  then show ?thesis by (auto simp: dict_set_def dict_get_or_def dict_get_def split: option.splits)
qed

lemma unsorted_sum:
  "dict_ok d \<Longrightarrow> dict_ok (fold (\<lambda>o1 d. fold (\<lambda>f. add_event (o_symbol o1) (event_of o1 f)) (o_fills o1) d) orders d)
    \<and> sum_list (map (\<lambda>x. sum_list (map g (snd x))) (fold (\<lambda>o1 d. fold (\<lambda>f. add_event (o_symbol o1) (event_of o1 f)) (o_fills o1) d) orders d))
      = sum_list (map (\<lambda>x. sum_list (map g (snd x))) d) + sum_list (map (\<lambda>o1. sum_list (map (\<lambda>f. g (event_of o1 f)) (o_fills o1))) orders)"
  for g :: "fill_event \<Rightarrow> dec"
proof (induction orders arbitrary: d)
  case (Cons o1 orders)
  have one: "dict_ok d \<Longrightarrow> dict_ok (fold (\<lambda>f. add_event (o_symbol o1) (event_of o1 f)) fs d)
      \<and> sum_list (map (\<lambda>x. sum_list (map g (snd x))) (fold (\<lambda>f. add_event (o_symbol o1) (event_of o1 f)) fs d))
        = sum_list (map (\<lambda>x. sum_list (map g (snd x))) d) + sum_list (map (\<lambda>f. g (event_of o1 f)) fs)" for fs d
  proof (induction fs arbitrary: d)
    case (Cons f fs)
    have "dict_ok (add_event (o_symbol o1) (event_of o1 f) d)" using Cons.prems by (simp add: add_event_def)
    from Cons.IH [OF this] Cons.prems show ?case by (simp add: add_event_def dict_append_sum add.assoc)
  qed simp
  from Cons.IH one [OF Cons.prems, of "o_fills o1"] show ?case by (simp add: add.assoc)
qed simp

text \<open>
  C40. The round trips account for every dollar. When every symbol the orders traded is flat at the end and
  nothing on the way had to be rounded, the trades are built, and their net P&L adds up to exactly the cash
  the fills moved: what was sold for less what was bought for, less every fee. Scaling in and out, fills
  that carry a position through zero and the fee they split lose nothing and count nothing twice.
\<close>

theorem round_trips_account_for_the_cash:
  assumes "\<forall>(sm, evs) \<in> set (fill_stream orders). run_exact u sm evs None \<and> sum_list (map fe_qty evs) = 0"
  shows "\<exists>ts. build_trades u orders = Inr ts \<and> sum_list (map tr_net ts)
    = sum_list (map (\<lambda>o1. sum_list (map (\<lambda>f. cash_of (event_of o1 f)) (o_fills o1))) orders)"
proof -
  obtain ts where ts: "for_r (symbol_trades u) (fill_stream orders) [] = Inr ts"
      "sum_list (map tr_net ts) = sum_list (map (\<lambda>x. sum_list (map cash_of (snd x))) (fill_stream orders))"
    using streams_account [OF assms, of "[]"] by auto
  have "sum_list (map (\<lambda>x. sum_list (map cash_of (snd x))) (fill_stream orders))
      = sum_list (map (\<lambda>x. sum_list (map cash_of (snd x))) (unsorted_stream orders))"
    by (simp add: fill_stream_def comp_def split_beta sum_sorted)
  also have "\<dots> = sum_list (map (\<lambda>o1. sum_list (map (\<lambda>f. cash_of (event_of o1 f)) (o_fills o1))) orders)"
    using unsorted_sum [of "[]" orders cash_of] by (simp add: unsorted_stream_def dict_ok_def dict_keys_def)
  finally show ?thesis using ts by (simp add: build_trades_def in_closing_order_def sum_sorted sum_by_symbol)
qed

text \<open>A buy of three, a sale of five that turns the position, and a buy of two that ends it.\<close>

definition sample_history :: "order list" where
  "sample_history =
     [(order_defaults ''a'' ''1'' ''AAPL'' BUY 3)\<lparr>o_fills := [\<lparr>f_order_id = ''a'', f_ts = 0, f_qty = 3, f_price = 100, f_fee = 1, f_venue_id = None\<rparr>]\<rparr>,
      (order_defaults ''b'' ''2'' ''AAPL'' SELL 5)\<lparr>o_fills := [\<lparr>f_order_id = ''b'', f_ts = 60, f_qty = 5, f_price = 110, f_fee = 5, f_venue_id = None\<rparr>]\<rparr>,
      (order_defaults ''c'' ''3'' ''AAPL'' BUY 2)\<lparr>o_fills := [\<lparr>f_order_id = ''c'', f_ts = 120, f_qty = 2, f_price = 105, f_fee = 1, f_venue_id = None\<rparr>]\<rparr>]"

lemma sample_history_stream:
  "fill_stream sample_history = [(''AAPL'', [\<lparr>fe_ts = 0, fe_qty = 3, fe_price = 100, fe_fee = 1, fe_purpose = PURPOSE_ENTRY, fe_strategy = UNATTRIBUTED\<rparr>,
     \<lparr>fe_ts = 60, fe_qty = - 5, fe_price = 110, fe_fee = 5, fe_purpose = PURPOSE_ENTRY, fe_strategy = UNATTRIBUTED\<rparr>,
     \<lparr>fe_ts = 120, fe_qty = 2, fe_price = 105, fe_fee = 1, fe_purpose = PURPOSE_ENTRY, fe_strategy = UNATTRIBUTED\<rparr>])]"
  by (simp add: fill_stream_def unsorted_stream_def sample_history_def order_defaults_def add_event_def event_of_def strategy_or_def
      dict_set_def dict_get_or_def dict_get_def dec_ops PURPOSE_ENTRY_def)

theorem round_trips_account_for_the_cash_witness:
  "\<exists>ts. build_trades id sample_history = Inr ts \<and> sum_list (map tr_net ts) = 33"
proof -
  have e: "exact28 0" "exact28 1" "exact28 (numeral n)" if "(numeral n :: int) < 10 ^ 28" for n
    using exact28_of_int [of 0] exact28_of_int [of 1] exact28_of_int [of "numeral n"] that by simp_all
  have "\<forall>(sm, evs) \<in> set (fill_stream sample_history). run_exact id sm evs None \<and> sum_list (map fe_qty evs) = 0"
    by (simp add: sample_history_stream step_exact_def leg_exact_def empty_leg_def fold_fill_def enter_rest_def entered_by_def close_part_def closed_by_def
        open_qty_def leg_add_def trade_exact_def direction_def to_trade_def Let_def dec_ops min_def exact28_def)
  from round_trips_account_for_the_cash [OF this] show ?thesis
    by (simp add: sample_history_def order_defaults_def cash_of_def event_of_def dec_ops)
qed

section \<open>Attribution\<close>

lemma group_sum:
  "dict_ok d \<Longrightarrow> dict_ok (fold (group_trade w) ts d)
    \<and> sum_list (map (\<lambda>x. sum_list (map g (snd x))) (fold (group_trade w) ts d)) = sum_list (map (\<lambda>x. sum_list (map g (snd x))) d) + sum_list (map g ts)
    \<and> set (dict_keys (fold (group_trade w) ts d)) = set (dict_keys d) \<union> attribution_key w ` set ts"
  for g :: "trade_record \<Rightarrow> int"
proof (induction ts arbitrary: d)
  case (Cons t ts)
  have "dict_ok (group_trade w t d)" using Cons.prems by (simp add: group_trade_def)
  from Cons.IH [OF this] show ?case by (simp add: group_trade_def dict_append_sum Cons.prems add.assoc)
qed simp

lemma length_as_sum: "int (length xs) = sum_list (map (\<lambda>_. 1) xs)" "int (length (filter P xs)) = sum_list (map (\<lambda>x. if P x then 1 else 0) xs)"
  by (induction xs) simp_all

text \<open>
  An attribution counts every trade once. Whatever the dimension, there is one row for each value the trades
  have there and no other, the trades and the wins of the rows add up to those of the list, and the rows
  stand from the best net P&L to the worst. An unknown dimension is an error.
\<close>

theorem attribution_counts_every_trade_once:
  assumes "attribution trades w = Inr rows"
  shows "w \<in> set ATTRIBUTION_DIMENSIONS \<and> sum_list (map ar_trades rows) = int (length trades)
    \<and> sum_list (map ar_wins rows) = int (length (filter is_win trades))
    \<and> distinct (map ar_key rows) \<and> set (map ar_key rows) = attribution_key w ` set trades
    \<and> sorted_wrt (\<lambda>r r'. ar_net r' \<le> ar_net r) rows"
proof -
  let ?grouped = "fold (group_trade w) trades []" and ?m = "dsum (map (\<lambda>t. dabs (tr_net t)) trades)"
  have w: "w \<in> set ATTRIBUTION_DIMENSIONS" and rows: "rows = sort_key (\<lambda>r. - ar_net r) (map (attribution_row_of ?m) ?grouped)"
    using assms by (auto simp: attribution_def Let_def split: if_splits)
  have perm: "mset rows = mset (map (attribution_row_of ?m) ?grouped)" unfolding rows by simp
  have sums: "sum_list (map f rows) = sum_list (map (\<lambda>g. f (attribution_row_of ?m g)) ?grouped)" for f :: "attribution_row \<Rightarrow> int"
    unfolding rows sum_sorted by (simp add: comp_def)
  note g = group_sum [of "[]" w trades, unfolded dict_ok_def dict_keys_def, simplified]
  have k: "map ar_key (map (attribution_row_of ?m) ?grouped) = map fst ?grouped" by (simp add: attribution_row_of_def Let_def)
  have keys: "mset (map ar_key rows) = mset (map fst ?grouped)" using arg_cong [OF perm, of "image_mset ar_key"] unfolding mset_map [symmetric] k .
  have "sum_list (map ar_trades rows) = int (length trades)"
    using g [of "\<lambda>_. 1"] by (simp add: sums attribution_row_of_def Let_def length_as_sum(1))
  moreover have "sum_list (map ar_wins rows) = int (length (filter is_win trades))"
    using g [of "\<lambda>t. if is_win t then 1 else 0"] by (simp add: sums attribution_row_of_def Let_def length_as_sum(2))
  moreover have "distinct (map ar_key rows)" using g [of "\<lambda>_. 1"] mset_eq_imp_distinct_iff [OF keys] by simp
  moreover have "set (map ar_key rows) = attribution_key w ` set trades" using g [of "\<lambda>_. 1"] mset_eq_setD [OF keys] by simp
  moreover have "sorted_wrt (\<lambda>r r'. ar_net r' \<le> ar_net r) rows"
    using sorted_sort_key [of "\<lambda>r. - ar_net r" "map (attribution_row_of ?m) ?grouped"] unfolding rows by (simp add: sorted_map sorted_wrt_map)
  ultimately show ?thesis using w by blast
qed

theorem attribution_counts_every_trade_once_witness:
  "\<exists>t rows. attribution [t, t\<lparr>tr_symbol := ''MSFT''\<rparr>, t] ''symbol'' = Inr rows \<and> sum_list (map ar_trades rows) = 3 \<and> set (map ar_key rows) = {''AAPL'', ''MSFT''}"
proof -
  let ?t = "\<lparr>tr_id = ''t'', tr_strategy = ''s'', tr_symbol = ''AAPL'', tr_side = ''long'', tr_entry_ts = 0, tr_exit_ts = Some 60, tr_entry_price = 100,
    tr_exit_price = Some 101, tr_qty = 1, tr_gross = 1, tr_fees = 0, tr_net = 1, tr_return_pct = 0, tr_holding_us = 60, tr_exit_reason = ''signal'',
    tr_mfe = None, tr_mae = None\<rparr> :: trade_record"
  obtain rows where rows: "attribution [?t, ?t\<lparr>tr_symbol := ''MSFT''\<rparr>, ?t] ''symbol'' = Inr rows" by (simp add: attribution_def ATTRIBUTION_DIMENSIONS_def Let_def)
  from attribution_counts_every_trade_once [OF this]
  have "sum_list (map ar_trades rows) = 3" "set (map ar_key rows) = {''AAPL'', ''MSFT''}" by (auto simp: attribution_key_def)
  with rows show ?thesis by blast
qed

section \<open>Excursions\<close>

text \<open>An excursion is measured when a bar opened while the trade was on, and has the sign of its name.\<close>

lemma excursions_have_their_signs:
  assumes "0 \<le> tr_qty t" "bars_in (dict_get_or d (tr_symbol t) []) t \<noteq> []"
  shows "\<exists>best worst. tr_mfe (with_excursion d t) = Some best \<and> tr_mae (with_excursion d t) = Some worst \<and> worst \<le> 0 \<and> 0 \<le> best"
  using assms by (auto simp: with_excursion_def Let_def dmul_def intro!: mult_nonneg_nonneg mult_nonpos_nonneg split: prod.split)

text \<open>
  The bar that was in progress at the entry is not measured, against the comment that says its extremes are
  attributed to the trade: a bar carries the instant it opens, and only bars that open at or after the entry
  are read. An adverse move within the entry bar leaves no trace.
\<close>

theorem entry_bar_is_not_measured:
  assumes "b_ts b < tr_entry_ts t" "tr_entry_ts t < close_ts b"
  shows "with_excursion [(tr_symbol t, xs @ b # ys)] t = with_excursion [(tr_symbol t, xs @ ys)] t"
  using assms(1) by (simp add: with_excursion_def dict_get_or_def dict_get_def bars_in_def split: option.split)

section \<open>Identifiers\<close>

definition sample_event :: "ts \<Rightarrow> dec \<Rightarrow> dec \<Rightarrow> fill_event" where
  "sample_event t q p = \<lparr>fe_ts = t, fe_qty = q, fe_price = p, fe_fee = 0, fe_purpose = PURPOSE_EXIT, fe_strategy = ''s''\<rparr>"

text \<open>
  Two trades can share an identifier, against the comment that says they cannot: in and out twice within one
  instant is two round trips of one side with the same two instants.
\<close>

theorem trade_ids_collide:
  "\<exists>t1 t2. for_r (fold_fill u ''AAPL'') [sample_event 0 1 100, sample_event 0 (- 1) 101, sample_event 0 1 102, sample_event 0 (- 1) 104] ([], None)
     = Inr ([t1, t2], None) \<and> tr_id t1 = tr_id t2 \<and> tr_net t1 = 1 \<and> tr_net t2 = 2"
  by (simp add: sample_event_def fold_fill_def enter_rest_def entered_by_def close_part_def closed_by_def open_qty_def leg_add_def empty_leg_def
      to_trade_def trade_id_def Let_def dec_ops min_def)

end
