(* ===== verification/Spec2Isabelle.thy ===== *)
theory Spec2Isabelle
  imports Prelude Dec Enums Orders Positions OrderState KillSwitch RiskLimits RiskRules RiskEngine RiskBounds
    Market Matching Stops Costs SimBroker Reconcile
    Datetimes Idempotency Actions Submission Router RouterSafety Protection Clock Gaps Backtest Lookahead Runner RunnerLoop RunnerSafety LedgerParity RunnerProtection Scheduler SchedulerSafety BarStore Backfill Adjustments DailyReport SessionJobs SessionSafety Ingest IngestSafety RuleSets RuleSafety TradeRecords TradeSafety
begin

text \<open>
  A model of the core of an algorithmic trading platform: the domain objects, the risk chain in front
  of every order, the router that alone talks to a venue, the live strategy runner, the replay engine
  and simulated venue, the kill switch, the feed's storage and the jobs around a session. The code is
  Python, in \<^verbatim>\<open>src/libs/core/src/atp_core\<close> (paths below are relative to it) and, for the worker process,
  \<^verbatim>\<open>src/apps/worker/src/atp_worker\<close> (written \<^verbatim>\<open>worker/\<close>).

  How the parts interact. A strategy emits a signal or a list of them on a closed bar; the runner
  (\<open>RunnerLoop\<close>) sizes it and gives it to the router (\<open>Submission\<close>), which asks the chain of rules
  (\<open>RiskEngine\<close>) and only then the venue. What the venue did comes back as trade updates, which move
  the order (\<open>OrderState\<close>), the book (\<open>Positions\<close>) and the protective stop (\<open>Router\<close>). A halt record
  shared by all processes (\<open>KillSwitch\<close>) makes the first rule of the chain refuse. The runner starts on
  a book reconciled with the venue (\<open>Reconcile\<close>). The scheduler (\<open>Scheduler\<close>, \<open>SessionJobs\<close>) runs
  beside it and sweeps the bar table (\<open>BarStore\<close>, \<open>Backfill\<close>), reports and releases the daily halts.
  A replay (\<open>Backtest\<close>, \<open>SimBroker\<close>) uses the same matching, stops, costs, sizing and rules.

  Conventions.
  \<^item> A Python \<open>Decimal\<close> is a rational, and every arithmetic operation rounds its exact result to 28
    significant digits, ties to even, as the default decimal context does (\<open>Dec\<close>); the exponent
    limits of that context are not modelled. Integers are unbounded, as Python's are.
  \<^item> A dict is an insertion-ordered association list, a set a list without order or a HOL set
    (\<open>Prelude\<close>). An instant is an integer number of microseconds in UTC, a date its proleptic
    Gregorian ordinal, both from \<open>Datetimes\<close>.
  \<^item> A raise is \<open>Inl\<close> of a constructor of \<open>exn\<close>. A pure function that may raise returns \<open>exn + 'a\<close>
    (\<open>Prelude.bind_r\<close>). Code that mutates an object and may raise half-way is an action (\<open>Actions\<close>):
    it takes the state and returns the outcome beside the state it left.
  \<^item> Services are records of functions over a world \<open>'v\<close> which every call may change: a broker port, a
    clock, a kill switch, a repository, a hash. Nothing is assumed of them except where a theorem says
    so in a hypothesis. Ghost logs (\<open>RouterSafety.logged\<close>, \<open>RunnerSafety.logged_runner\<close>,
    \<open>SchedulerSafety.watched_ports\<close>) pair such a world with what was asked of it.
  \<^item> Objects that two lists share are kept apart and written to both (\<open>Router.child_changed\<close>, the live
    flags of the runner), or carry an index into one list (\<open>Backtest\<close>); \<open>rn_detached\<close> of the runner
    says when a warm-up has replaced the objects, so that the router's are no longer the runner's.
  \<^item> Two calls of one object do not overlap, except that other processes write to the halt store
    between any two commands of \<open>KillSwitch\<close>.

  Theories, and the files they model.
  \<^item> \<open>Prelude\<close>, \<open>Dec\<close>, \<open>Datetimes\<close>, \<open>Actions\<close>: results, dicts, strings; decimal arithmetic; dates and
    number formatting; actions, with the locale \<open>state_relation\<close> of relations every step keeps.
  \<^item> \<open>Enums\<close>: \<^verbatim>\<open>domain/enums.py\<close>, \<^verbatim>\<open>errors.py\<close>. \<open>Orders\<close>: \<^verbatim>\<open>domain/order.py\<close>.
    \<open>Positions\<close>: \<^verbatim>\<open>domain/position.py\<close>. \<open>Market\<close>: \<^verbatim>\<open>domain/market.py\<close>.
  \<^item> \<open>OrderState\<close>: \<^verbatim>\<open>execution/state.py\<close>, \<^verbatim>\<open>execution/trade_updates.py\<close>, \<^verbatim>\<open>execution/recovery.py\<close>.
  \<^item> \<open>KillSwitch\<close>: \<^verbatim>\<open>risk/killswitch.py\<close>. \<open>RiskLimits\<close>: \<^verbatim>\<open>risk/limits.py\<close>.
    \<open>RiskRules\<close>: \<^verbatim>\<open>risk/rules.py\<close>. \<open>RiskEngine\<close>: \<^verbatim>\<open>risk/engine.py\<close>. \<open>RiskBounds\<close>: what an
    approval by the chain guarantees. \<open>Stops\<close>: \<^verbatim>\<open>risk/stops.py\<close>.
  \<^item> \<open>Matching\<close>: \<^verbatim>\<open>execution/matching.py\<close>. \<open>Costs\<close>: \<^verbatim>\<open>backtest/costs.py\<close>.
    \<open>SimBroker\<close>: \<^verbatim>\<open>brokers/simulated.py\<close>. \<open>Backtest\<close>: \<^verbatim>\<open>backtest/engine.py\<close>, with \<open>Lookahead\<close>, what a
    replay cannot do. The strategy, the floating-point ATR and the source of identifiers are arguments.
  \<^item> \<open>Reconcile\<close>: \<^verbatim>\<open>execution/reconciliation.py\<close>, \<^verbatim>\<open>execution/fees.py\<close>, \<^verbatim>\<open>persistence/fees.py\<close>.
    \<open>Idempotency\<close>: \<^verbatim>\<open>execution/idempotency.py\<close>, the hash being an argument.
  \<^item> \<open>Submission\<close> and \<open>Router\<close>: \<^verbatim>\<open>execution/router.py\<close>, the path to the venue and everything around
    it. \<open>RouterSafety\<close>, \<open>Protection\<close>: what they guarantee.
  \<^item> \<open>Clock\<close>: \<^verbatim>\<open>clock.py\<close>; the exchange schedule and the zone database are an argument. \<open>Gaps\<close>:
    \<^verbatim>\<open>data/gaps.py\<close>. \<open>BarStore\<close>: \<^verbatim>\<open>persistence/bars.py\<close> over the bar columns of
    \<^verbatim>\<open>persistence/models.py\<close>, whose amounts are rounded to eight places and refused out of range. \<open>Backfill\<close>: \<^verbatim>\<open>data/backfill.py\<close>.
    \<open>Adjustments\<close>: \<^verbatim>\<open>data/corporate_actions.py\<close>. \<open>DailyReport\<close>: \<^verbatim>\<open>analytics/daily.py\<close>.
    \<open>Ingest\<close>: \<^verbatim>\<open>data/stream.py\<close> (ingestor, refetch after a reconnect, staleness watchdog), with
    \<open>IngestSafety\<close>. \<open>RuleSets\<close>: \<^verbatim>\<open>strategy/rules.py\<close> (declarative strategies), with \<open>RuleSafety\<close>.
    \<open>TradeRecords\<close>: \<^verbatim>\<open>analytics/performance.py\<close> (round trips), with \<open>TradeSafety\<close>.
  \<^item> \<open>Runner\<close> (state, venue events) and \<open>RunnerLoop\<close> (evaluation, warm-up, loop): \<^verbatim>\<open>worker/runner.py\<close>.
    \<open>RunnerSafety\<close>, \<open>RunnerProtection\<close>: what holds across whole runs. \<open>LedgerParity\<close>: live, replayed
    and simulated fills keep one ledger.
  \<^item> \<open>Scheduler\<close> (the wheel) and \<open>SessionJobs\<close> (the jobs): \<^verbatim>\<open>worker/scheduler.py\<close>.
    \<open>SchedulerSafety\<close>, \<open>SessionSafety\<close>: what they guarantee.

  Interfaces. \<open>Dec.rounding\<close> is what the proofs use of a rounding mode, \<open>Costs.cost_contract\<close> what a
  cost model promises, \<open>KillSwitch.halt_source\<close> what the risk chain asks of a halt reader,
  \<open>RiskRules.order_check\<close> and \<open>exit_check\<close> what a rule and a rule that lets exits pass promise,
  \<open>Backfill.bar_repository\<close> what a backfill needs of a bar table, \<open>Actions.state_relation\<close> and its
  extensions \<open>RunnerSafety.runner_relation\<close> and \<open>counting_relation\<close> what it takes for a relation
  between the state before and after to hold over a router call or over a whole run of the runner.
  Each is interpreted on the model's own definitions.

  What the lemmas show. Accounting: fills keep orders, positions and the ledger in step, the same in all
  three ways of trading. Safety of the one path: whatever the venue answers, whatever raises, an order
  reaches a venue only approved, in one place, and protective stops never exceed the position they
  protect; what the venue does not protect the engine closes, and a trailing stop never loosens. Halts: the record is a latch that keeps its first reason, an engage of any scope that returns is in
  force under any interleaving, a halt lets through only proven exits, and what releases it. Bounds: an approved entry respects the
  ceilings however the orders in flight fill. Replay: no lookahead, fills on later bars only, prices inside
  the bar. Data: a clean backfill leaves no gap, the scan reports exactly the missing windows,
  an outage of the feed is halted once, reconnects do not hide it and the watermark moves only over a
  gap that came back. The scheduler: jobs run on their slots, once, and are reached. Declarative
  strategies: the walk decides the trees exactly and keeps its limits. Analytics: round trips account
  for the cash, an attribution for every trade. Where the code falls short of its own
  comments the theorem states what it does, and the manifest lists the divergence.

  Bounds and fuel. A loop over finite data is structural recursion. \<open>KillSwitch.engage_loop\<close> has the
  retry bound of the code. The calendar searches look 400 days ahead, as the code does, and
  \<open>Clock.next_open_is_the_next_open\<close> shows what that finds. The runner and the scheduler loop until
  told to stop: \<open>RunnerLoop.run_for\<close> and \<open>Scheduler.scheduler_for\<close> take a number of turns and say
  whether the loop still runs; theorems about them hold for every number of turns, and that a due job
  is reached is stated with the number of turns it takes. \<open>Ingest.ingest_loop\<close> takes a number of events in the same way.

  Not modelled. The REST API and the dashboard, which read and write the same tables; the adapters that
  speak to a vendor over HTTP or a socket; the SQL rows other than bars and fees; process wiring, signal
  handlers, task supervision; metrics, log lines, the delivery and the wording of alerts (what is
  alerted, when and with which key, is modelled where the code branches on it); equity curves and
  ratios in binary floating point; the exponent range of decimals.
\<close>

end
